(* ===== verification/Go_Runtime.thy ===== *)
theory Go_Runtime
  imports Main "HOL-Library.State_Monad" "HOL-Library.DAList" "HOL-Library.Multiset"
    "HOL-Library.List_Lexorder" "HOL-Library.Char_ord"
begin

text \<open>
  The prelude of the development: the parts of the Go language and runtime that every package
  of the backend relies on.
  \<^item> Machine integers with the wrap-around written out, slices, strings as byte lists.
  \<^item> \<open>runtime\<close>: what a run draws from its environment, the readings of \<open>time.Now\<close>, the ULIDs of
    \<open>ulid.Make\<close> and the iteration order of every \<open>range\<close> over a map. An effectful function of
    the source is a value of the state monad over a record that extends \<open>runtime\<close>.
  \<^item> Go maps as association lists with unique keys, and \<open>range\<close> over them.
  \<^item> \<open>sort.Slice\<close> as insertion by a comparator, with the contract a comparator has to meet.
\<close>

section \<open>Collections of facts\<close>

named_theorems run_simps \<open>what running one operation returns and how it changes the state\<close>
named_theorems go_std \<open>definitions of the standard-library functions the source calls\<close>

declare Let_def [run_simps]

section \<open>Integers and slices\<close>

text \<open>Go's \<open>int\<close>, \<open>int64\<close> and \<open>int32\<close> are kept as \<open>int\<close>, every arithmetic operation that
  can leave the range wraps as two's complement.\<close>

type_synonym int64 = int

definition wrap64 :: "int \<Rightarrow> int64" where
  "wrap64 n = (n + 2 ^ 63) mod 2 ^ 64 - 2 ^ 63"

definition max_int64 :: int64 where
  "max_int64 = 2 ^ 63 - 1"

definition min_int64 :: int64 where
  "min_int64 = - (2 ^ 63)"

lemma wrap64_id [simp]: "- (2 ^ 63) \<le> n \<Longrightarrow> n < 2 ^ 63 \<Longrightarrow> wrap64 n = n"
  by (simp add: wrap64_def)

lemma wrap64_range: "- (2 ^ 63) \<le> wrap64 n" "wrap64 n < 2 ^ 63"
proof -
  have "0 \<le> (n + 2 ^ 63) mod 2 ^ 64" "(n + 2 ^ 63) mod 2 ^ 64 < (2 ^ 64 :: int)"
    by (rule pos_mod_sign, simp) (rule pos_mod_bound, simp)
  then show "- (2 ^ 63) \<le> wrap64 n" "wrap64 n < 2 ^ 63"
    by (simp_all add: wrap64_def)
qed

lemma wrap64_overflow: "wrap64 (max_int64 + 1) = min_int64"
  by (simp add: wrap64_def max_int64_def min_int64_def)

text \<open>The increments and decrements of the denormalised counters (\<open>x++\<close>, \<open>x--\<close>).\<close>

definition inc64 :: "int64 \<Rightarrow> int64" where
  "inc64 n = wrap64 (n + 1)"

definition dec64 :: "int64 \<Rightarrow> int64" where
  "dec64 n = wrap64 (n - 1)"

lemma inc64_nonneg [simp]: "0 \<le> n \<Longrightarrow> n < max_int64 \<Longrightarrow> inc64 n = n + 1"
  by (simp add: inc64_def max_int64_def)

lemma dec64_pos [simp]: "0 < n \<Longrightarrow> n \<le> max_int64 \<Longrightarrow> dec64 n = n - 1"
  by (simp add: dec64_def max_int64_def)

text \<open>A slice expression \<open>xs[lo:hi]\<close>: \<open>None\<close> is the run-time panic for bounds out of range.\<close>

definition go_slice :: "'a list \<Rightarrow> int \<Rightarrow> int \<Rightarrow> 'a list option" where
  "go_slice xs lo hi =
     (if 0 \<le> lo \<and> lo \<le> hi \<and> hi \<le> int (length xs)
      then Some (take (nat hi - nat lo) (drop (nat lo) xs)) else None)"

lemma go_slice_prefix [simp]:
  "0 \<le> hi \<Longrightarrow> hi \<le> int (length xs) \<Longrightarrow> go_slice xs 0 hi = Some (take (nat hi) xs)"
  by (simp add: go_slice_def)

section \<open>Instants and durations\<close>

text \<open>
  A \<open>time.Time\<close> is its instant, in nanoseconds since January 1 of year 1 UTC, which is the zero
  value; locations and monotonic readings are left out (the source compares instants only).
  A \<open>time.Duration\<close> is a number of nanoseconds. \<open>Time.Sub\<close> saturates at the ends of int64.
\<close>

type_synonym time = int
type_synonym duration = int

definition zero_time :: time where
  "zero_time = 0"

definition IsZero :: "time \<Rightarrow> bool" where
  "IsZero t \<longleftrightarrow> t = zero_time"

definition time_Sub :: "time \<Rightarrow> time \<Rightarrow> duration" where
  "time_Sub t u = max min_int64 (min max_int64 (t - u))"

definition time_Add :: "time \<Rightarrow> duration \<Rightarrow> time" where
  "time_Add t d = t + d"

definition Second :: duration where
  "Second = 1000000000"

definition Minute :: duration where
  "Minute = 60 * Second"

definition Hour :: duration where
  "Hour = 60 * Minute"

lemma time_Sub_less [simp]: "d \<le> max_int64 \<Longrightarrow> min_int64 < d \<Longrightarrow> time_Sub t u < d \<longleftrightarrow> t - u < d"
  by (auto simp: time_Sub_def max_int64_def min_int64_def)

section \<open>The environment of a run\<close>

text \<open>
  \<open>rt_clock i\<close> is what the \<open>i\<close>-th call of \<open>time.Now\<close> returns, \<open>rt_ulid i\<close> what the \<open>i\<close>-th
  call of \<open>ulid.Make().String()\<close> returns, and \<open>rt_order i\<close> a code for the order in which the
  \<open>i\<close>-th \<open>range\<close> over a map visits its entries. The three counters say how many calls have been
  made. The record is extended by the state of the repositories.
\<close>

record runtime =
  rt_clock :: "nat \<Rightarrow> time"
  rt_ulid :: "nat \<Rightarrow> string"
  rt_order :: "nat \<Rightarrow> nat list"
  rt_ticks :: nat
  rt_ids :: nat
  rt_ranges :: nat

definition Now :: "('z runtime_scheme, time) state" where
  "Now = State (\<lambda>s. (rt_clock s (rt_ticks s), s\<lparr>rt_ticks := Suc (rt_ticks s)\<rparr>))"

definition ulid_Make :: "('z runtime_scheme, string) state" where
  "ulid_Make = State (\<lambda>s. (rt_ulid s (rt_ids s), s\<lparr>rt_ids := Suc (rt_ids s)\<rparr>))"

lemma run_Now [run_simps]:
  "run_state Now s = (rt_clock s (rt_ticks s), s\<lparr>rt_ticks := Suc (rt_ticks s)\<rparr>)"
  by (simp add: Now_def)

lemma run_ulid_Make [run_simps]:
  "run_state ulid_Make s = (rt_ulid s (rt_ids s), s\<lparr>rt_ids := Suc (rt_ids s)\<rparr>)"
  by (simp add: ulid_Make_def)

text \<open>
  Go leaves the order of a \<open>range\<close> over a map unspecified. A code (any list of numbers) picks
  the next entry by its index among the entries that are left; every code gives a permutation,
  and every permutation has a code.
\<close>

fun shuffle :: "nat list \<Rightarrow> 'a list \<Rightarrow> 'a list" where
  "shuffle [] xs = xs"
| "shuffle (c # cs) [] = []"
| "shuffle (c # cs) xs =
     (let i = c mod length xs in xs ! i # shuffle cs (take i xs @ drop (Suc i) xs))"

lemma mset_take_drop_nth: "i < length xs \<Longrightarrow> add_mset (xs ! i) (mset (take i xs @ drop (Suc i) xs)) = mset xs"
  by (metis add_mset_add_single id_take_nth_drop mset.simps(2) mset_append union_mset_add_mset_right)

lemma mset_shuffle [simp]: "mset (shuffle cs xs) = mset xs"
proof (induction cs xs rule: shuffle.induct)
  case (3 c cs y ys)
  let ?xs = "y # ys" and ?i = "c mod length (y # ys)"
  have "?i < length ?xs" by simp
  then show ?case
    using 3 mset_take_drop_nth [of ?i ?xs] by (simp add: Let_def del: length_Cons)
qed simp_all

lemma set_shuffle [simp]: "set (shuffle cs xs) = set xs"
  by (metis mset_shuffle set_mset_mset)

lemma length_shuffle [simp]: "length (shuffle cs xs) = length xs"
  by (metis mset_shuffle size_mset)

lemma distinct_map_shuffle [simp]: "distinct (map f (shuffle cs xs)) \<longleftrightarrow> distinct (map f xs)"
  by (metis mset_map mset_shuffle mset_eq_imp_distinct_iff)

lemma shuffle_complete: "mset ys = mset xs \<Longrightarrow> \<exists>cs. shuffle cs xs = ys"
proof (induction ys arbitrary: xs)
  case Nil
  then show ?case by (intro exI [of _ "[]"]) simp
next
  case (Cons y ys)
  then have "y \<in> set xs" by (metis list.set_intros(1) set_mset_mset)
  then obtain i where i: "i < length xs" "xs ! i = y" by (auto simp: in_set_conv_nth)
  let ?r = "take i xs @ drop (Suc i) xs"
  have "add_mset y (mset ys) = add_mset y (mset ?r)"
    using mset_take_drop_nth [OF i(1)] Cons.prems i(2) by simp
  then have "mset ys = mset ?r" by simp
  then obtain cs where "shuffle cs ?r = ys" using Cons.IH by blast
  moreover obtain z zs where "xs = z # zs" using i by (cases xs) auto
  ultimately have "shuffle (i # cs) xs = y # ys"
    using i by (simp add: Let_def)
  then show ?case by blast
qed

section \<open>Maps\<close>

text \<open>A Go map is an association list with unique keys; what it holds is \<open>DAList.lookup\<close>. The
  order of the list has no meaning, \<open>map_range\<close> visits the entries in the order of the run.\<close>

type_synonym ('k, 'v) go_map = "('k, 'v) alist"

abbreviation get_map :: "('k, 'v) go_map \<Rightarrow> 'k \<Rightarrow> 'v option" where
  "get_map \<equiv> DAList.lookup"

abbreviation set_map :: "'k \<Rightarrow> 'v \<Rightarrow> ('k, 'v) go_map \<Rightarrow> ('k, 'v) go_map" where
  "set_map \<equiv> DAList.update"

abbreviation del_map :: "'k \<Rightarrow> ('k, 'v) go_map \<Rightarrow> ('k, 'v) go_map" where
  "del_map \<equiv> DAList.delete"

abbreviation entries :: "('k, 'v) go_map \<Rightarrow> ('k \<times> 'v) list" where
  "entries \<equiv> DAList.impl_of"

definition map_range :: "('k, 'v) go_map \<Rightarrow> ('z runtime_scheme, ('k \<times> 'v) list) state" where
  "map_range m = State (\<lambda>s. (shuffle (rt_order s (rt_ranges s)) (entries m),
     s\<lparr>rt_ranges := Suc (rt_ranges s)\<rparr>))"

lemma run_map_range [run_simps]:
  "run_state (map_range m) s = (shuffle (rt_order s (rt_ranges s)) (entries m),
     s\<lparr>rt_ranges := Suc (rt_ranges s)\<rparr>)"
  by (simp add: map_range_def)

lemma get_map_set [simp]: "get_map (set_map k v m) = (get_map m)(k \<mapsto> v)"
  by (auto simp: lookup_update)

lemma mem_entries [simp]: "(k, v) \<in> set (entries m) \<longleftrightarrow> get_map m k = Some v"
  by (simp add: DAList.lookup.rep_eq)

lemma ball_entries [simp]:
  "(\<forall>x\<in>set (entries m). P x) \<longleftrightarrow> (\<forall>k v. get_map m k = Some v \<longrightarrow> P (k, v))"
  by (metis mem_entries old.prod.exhaust)

lemma rows_comprehension [simp]:
  "concat (map (\<lambda>(k, v). if P v then [v] else []) rows) = filter P (map snd rows)"
  by (induction rows) auto

lemma finite_dom_get_map [simp]: "finite (dom (get_map m))"
  by (simp add: DAList.lookup.rep_eq finite_dom_map_of)

lemmas map_rep_eqs = DAList.update.rep_eq DAList.delete.rep_eq DAList.empty.rep_eq

section \<open>Sorting by a comparator\<close>

text \<open>
  \<open>sort.Slice\<close> and \<open>sort.SliceStable\<close> take a comparator. Both are modelled by insertion, which
  is stable; where the comparator is total on the elements of the slice the result is the only
  sorted permutation, so the choice of algorithm cannot be seen (\<open>sort_slice_unique\<close>).
\<close>

fun insert_by :: "('a \<Rightarrow> 'a \<Rightarrow> bool) \<Rightarrow> 'a \<Rightarrow> 'a list \<Rightarrow> 'a list" where
  "insert_by lt x [] = [x]"
| "insert_by lt x (y # ys) = (if lt y x then y # insert_by lt x ys else x # y # ys)"

fun sort_slice :: "('a \<Rightarrow> 'a \<Rightarrow> bool) \<Rightarrow> 'a list \<Rightarrow> 'a list" where
  "sort_slice lt [] = []"
| "sort_slice lt (x # xs) = insert_by lt x (sort_slice lt xs)"

lemma mset_insert_by [simp]: "mset (insert_by lt x xs) = add_mset x (mset xs)"
  by (induction xs) auto

lemma mset_sort_slice [simp]: "mset (sort_slice lt xs) = mset xs"
  by (induction xs) auto

lemma set_insert_by [simp]: "set (insert_by lt x xs) = insert x (set xs)"
  by (induction xs) auto

lemma set_sort_slice [simp]: "set (sort_slice lt xs) = set xs"
  by (induction xs) auto

lemma length_sort_slice [simp]: "length (sort_slice lt xs) = length xs"
  by (metis mset_sort_slice size_mset)

lemma distinct_map_sort_slice [simp]: "distinct (map f (sort_slice lt xs)) \<longleftrightarrow> distinct (map f xs)"
  by (metis mset_map mset_sort_slice mset_eq_imp_distinct_iff)

text \<open>The contract of a comparator: a strict weak order.\<close>

locale comparator =
  fixes lt :: "'a \<Rightarrow> 'a \<Rightarrow> bool"
  assumes less_asym: "lt x y \<Longrightarrow> \<not> lt y x"
    and less_trans: "lt x y \<Longrightarrow> lt y z \<Longrightarrow> lt x z"
    and less_neg_trans: "lt x z \<Longrightarrow> lt x y \<or> lt y z"
begin

lemma sorted_insert_by:
  "sorted_wrt (\<lambda>a b. \<not> lt b a) xs \<Longrightarrow> sorted_wrt (\<lambda>a b. \<not> lt b a) (insert_by lt x xs)"
proof (induction xs)
  case (Cons y ys)
  then show ?case
    by (auto dest: less_asym) (metis less_asym less_neg_trans)
qed simp

lemma sorted_sort_slice: "sorted_wrt (\<lambda>a b. \<not> lt b a) (sort_slice lt xs)"
  by (induction xs) (simp_all add: sorted_insert_by)

lemma sorted_total:
  assumes "distinct xs" and "\<And>x y. x \<in> set xs \<Longrightarrow> y \<in> set xs \<Longrightarrow> x \<noteq> y \<Longrightarrow> lt x y \<or> lt y x"
  shows "sorted_wrt lt (sort_slice lt xs)"
proof -
  have d: "distinct (sort_slice lt xs)"
    using assms(1) by (metis mset_eq_imp_distinct_iff mset_sort_slice)
  show ?thesis
    using sorted_sort_slice [of xs] d assms(2) unfolding sorted_wrt_iff_nth_less
    by (metis distinct_conv_nth nat_neq_iff nth_mem order.strict_trans set_sort_slice)
qed

lemma strict_sorted_unique:
  "sorted_wrt lt xs \<Longrightarrow> sorted_wrt lt ys \<Longrightarrow> mset xs = mset ys \<Longrightarrow> xs = ys"
proof (induction xs arbitrary: ys)
  case (Cons x xs)
  then obtain y ys' where ys: "ys = y # ys'" by (cases ys) auto
  have "x = y"
  proof (rule ccontr)
    assume "x \<noteq> y"
    moreover have "set (x # xs) = set (y # ys')"
      using Cons.prems(3) ys by (metis set_mset_mset)
    ultimately have "y \<in> set xs" "x \<in> set ys'" by auto
    then have "lt x y" "lt y x" using Cons.prems(1,2) ys by auto
    then show False by (blast dest: less_asym)
  qed
  then show ?case using Cons ys by auto
qed simp

lemma sort_slice_unique:
  assumes "distinct xs" and "mset ys = mset xs" and "sorted_wrt lt ys"
    and "\<And>x y. x \<in> set xs \<Longrightarrow> y \<in> set xs \<Longrightarrow> x \<noteq> y \<Longrightarrow> lt x y \<or> lt y x"
  shows "sort_slice lt xs = ys"
  using strict_sorted_unique [of "sort_slice lt xs" ys] sorted_total [OF assms(1,4)] assms(2,3)
  by simp

end

text \<open>Comparing by a key in a linear order, ascending or descending, meets the contract.\<close>

lemma comparator_key: "comparator (\<lambda>x y. (f x :: 'b::linorder) < f y)"
  by unfold_locales auto

lemma comparator_key_desc: "comparator (\<lambda>x y. (f x :: 'b::linorder) > f y)"
  by unfold_locales auto

lemma key_total:
  "distinct (map f xs) \<Longrightarrow> x \<in> set xs \<Longrightarrow> y \<in> set xs \<Longrightarrow> x \<noteq> y \<Longrightarrow> f x < f y \<or> f y < (f x :: 'b::linorder)"
  by (metis distinct_map inj_onD neq_iff)

lemma distinct_of_map: "distinct (map f xs) \<Longrightarrow> distinct xs"
  by (simp add: distinct_map)

section \<open>Reading and writing a field of the state\<close>

definition gets :: "('s \<Rightarrow> 'a) \<Rightarrow> ('s, 'a) state" where
  "gets f = State (\<lambda>s. (f s, s))"

definition modify :: "('s \<Rightarrow> 's) \<Rightarrow> ('s, unit) state" where
  "modify f = State (\<lambda>s. ((), f s))"

lemma run_gets [run_simps]: "run_state (gets f) s = (f s, s)"
  by (simp add: gets_def)

lemma run_modify [run_simps]: "run_state (modify f) s = ((), f s)"
  by (simp add: modify_def)

abbreviation ret :: "'a \<Rightarrow> ('s, 'a) state" where
  "ret \<equiv> State_Monad.return"

end
