(* ===== verification/Go_Errors.thy ===== *)
theory Go_Errors
  imports Go_Runtime
begin

text \<open>
  Error values: \<open>pkg/errors/errors.go\<close> (\<open>AppError\<close> and its constructors), the error types of
  \<open>internal/domain/errors.go\<close>, package-level sentinels (\<open>errors.New\<close>) and wrapping by
  \<open>fmt.Errorf\<close> with \<open>%w\<close>. A function of the source that returns \<open>(T, error)\<close> returns
  \<open>go_error + T\<close> here: \<open>Inl\<close> is a non-nil error.
\<close>

section \<open>Decimal numbers\<close>

fun nat_to_dec :: "nat \<Rightarrow> string" where
  "nat_to_dec n = (if n < 10 then [char_of (48 + n)] else nat_to_dec (n div 10) @ [char_of (48 + n mod 10)])"

declare nat_to_dec.simps [simp del]

definition itoa :: "int \<Rightarrow> string" where
  "itoa n = (if n < 0 then CHR ''-'' # nat_to_dec (nat (- n)) else nat_to_dec (nat n))"

lemma nat_to_dec_nonempty [simp]: "nat_to_dec n \<noteq> []"
  by (subst nat_to_dec.simps) simp

section \<open>Quoted text\<close>

definition hex_lower :: "nat \<Rightarrow> char" where
  "hex_lower n = ''0123456789abcdef'' ! n"

text \<open>\<open>strconv.Quote\<close>, as \<open>%q\<close> uses it: bytes from 128 on are taken to belong to printable UTF-8 and stay.\<close>

definition quote_char :: "char \<Rightarrow> string" where
  "quote_char c = (let n = (of_char c :: nat) in
     if n = 0x22 \<or> n = 0x5C then [CHR 0x5C, c]
     else if n = 7 then [CHR 0x5C, CHR ''a''] else if n = 8 then [CHR 0x5C, CHR ''b'']
     else if n = 9 then [CHR 0x5C, CHR ''t''] else if n = 10 then [CHR 0x5C, CHR ''n'']
     else if n = 11 then [CHR 0x5C, CHR ''v''] else if n = 12 then [CHR 0x5C, CHR ''f'']
     else if n = 13 then [CHR 0x5C, CHR ''r'']
     else if n < 32 \<or> n = 127 then [CHR 0x5C, CHR ''x'', hex_lower (n div 16), hex_lower (n mod 16)]
     else [c])"

definition quoted :: "string \<Rightarrow> string" where
  "quoted s = [CHR 0x22] @ concat (map quote_char s) @ [CHR 0x22]"

section \<open>Errors\<close>

text \<open>
  \<open>Sentinel\<close> is a value of \<open>errors.New\<close>; the source compares sentinels by identity, and their
  texts are pairwise different, so the text identifies them. \<open>WrapError\<close> is
  \<open>fmt.Errorf("...%w...", err)\<close> with its formatted text. \<open>ErrBadStatus\<close> is
  \<open>pkg/ogp.ErrBadStatus\<close>. \<open>GoPanic\<close> is a run-time panic that reaches the caller.
\<close>

datatype go_error =
  AppError (Code: string) (Message: string) (StatusCode: int) (Err: "go_error option")
| UserNotFoundError string
| PostNotFoundError string
| InvalidUserError string
| InvalidPostError string
| AccessDeniedError string string
| ValidationError string
| ErrBadStatus int
| Sentinel string
| WrapError string go_error
| GoPanic string

fun Error :: "go_error \<Rightarrow> string" where
  "Error (AppError code msg _ (Some e)) = code @ '': '' @ msg @ '' ('' @ Error e @ '')''"
| "Error (AppError code msg _ None) = code @ '': '' @ msg"
| "Error (UserNotFoundError sub) = ''user not found: sub='' @ sub"
| "Error (PostNotFoundError i) = ''post not found: id='' @ i"
| "Error (InvalidUserError reason) = ''invalid user: '' @ reason"
| "Error (InvalidPostError reason) = ''invalid post: '' @ reason"
| "Error (AccessDeniedError resource sub) = ''access denied: sub='' @ sub @ '', resource='' @ resource"
| "Error (ValidationError reason) = ''validation error: '' @ reason"
| "Error (ErrBadStatus st) = ''ogp: bad status '' @ itoa st"
| "Error (Sentinel txt) = txt"
| "Error (WrapError txt _) = txt"
| "Error (GoPanic txt) = txt"

fun Unwrap :: "go_error \<Rightarrow> go_error option" where
  "Unwrap (AppError _ _ _ err) = err"
| "Unwrap (WrapError _ e) = Some e"
| "Unwrap _ = None"

definition NewValidationError :: "string \<Rightarrow> go_error" where
  "NewValidationError reason = ValidationError reason"

text \<open>\<open>errors.Is\<close> and \<open>errors.As\<close> of the standard library walk the chain of \<open>Unwrap\<close>.\<close>

fun errors_Is :: "go_error \<Rightarrow> go_error \<Rightarrow> bool" where
  "errors_Is (AppError c m st (Some e)) target \<longleftrightarrow> AppError c m st (Some e) = target \<or> errors_Is e target"
| "errors_Is (WrapError t e) target \<longleftrightarrow> WrapError t e = target \<or> errors_Is e target"
| "errors_Is err target \<longleftrightarrow> err = target"

fun IsAppError :: "go_error \<Rightarrow> go_error option" where
  "IsAppError (AppError c m st err) = Some (AppError c m st err)"
| "IsAppError (WrapError _ e) = IsAppError e"
| "IsAppError _ = None"

section \<open>Constructors\<close>

definition New :: "string \<Rightarrow> string \<Rightarrow> int \<Rightarrow> go_error option \<Rightarrow> go_error" where
  "New code message statusCode err = AppError code message statusCode err"

definition NewWithStatus :: "string \<Rightarrow> string \<Rightarrow> int \<Rightarrow> go_error" where
  "NewWithStatus code message statusCode = AppError code message statusCode None"

definition InvalidRequest :: "string \<Rightarrow> go_error option \<Rightarrow> go_error" where
  "InvalidRequest message err = New ''INVALID_REQUEST'' message 400 err"

definition Unauthorized :: "string \<Rightarrow> go_error" where
  "Unauthorized message = NewWithStatus ''UNAUTHORIZED'' message 401"

definition Forbidden :: "string \<Rightarrow> go_error" where
  "Forbidden message = NewWithStatus ''FORBIDDEN'' message 403"

definition NotFound :: "string \<Rightarrow> go_error" where
  "NotFound message = NewWithStatus ''NOT_FOUND'' message 404"

definition Conflict :: "string \<Rightarrow> go_error" where
  "Conflict message = NewWithStatus ''CONFLICT'' message 409"

definition ValidationFailed :: "string \<Rightarrow> go_error" where
  "ValidationFailed message = NewWithStatus ''VALIDATION_FAILED'' message 400"

definition InternalServer :: "string \<Rightarrow> go_error option \<Rightarrow> go_error" where
  "InternalServer message err = New ''INTERNAL_ERROR'' message 500 err"

definition DatabaseError :: "string \<Rightarrow> go_error \<Rightarrow> go_error" where
  "DatabaseError message err = New ''DATABASE_ERROR'' message 500 (Some err)"

definition ExternalServiceError :: "string \<Rightarrow> go_error option \<Rightarrow> go_error" where
  "ExternalServiceError message err = New ''EXTERNAL_SERVICE_ERROR'' message 502 err"

definition ToHTTPStatus :: "go_error \<Rightarrow> int" where
  "ToHTTPStatus err = (case IsAppError err of Some e \<Rightarrow> StatusCode e | None \<Rightarrow> 500)"

lemmas error_constructors = New_def NewWithStatus_def InvalidRequest_def Unauthorized_def
  Forbidden_def NotFound_def Conflict_def ValidationFailed_def InternalServer_def
  DatabaseError_def ExternalServiceError_def

text \<open>An \<open>AppError\<close> found in a chain is the outermost one, and it keeps its own status.\<close>

lemma IsAppError_Some: "IsAppError err = Some e \<Longrightarrow> \<exists>c m st x. e = AppError c m st x"
  by (induction err rule: IsAppError.induct) auto

lemma ToHTTPStatus_constructors [simp]:
  "ToHTTPStatus (InvalidRequest m x) = 400" "ToHTTPStatus (Unauthorized m) = 401"
  "ToHTTPStatus (Forbidden m) = 403" "ToHTTPStatus (NotFound m) = 404"
  "ToHTTPStatus (Conflict m) = 409" "ToHTTPStatus (ValidationFailed m) = 400"
  "ToHTTPStatus (InternalServer m x) = 500" "ToHTTPStatus (DatabaseError m e) = 500"
  "ToHTTPStatus (ExternalServiceError m x) = 502"
  by (simp_all add: ToHTTPStatus_def error_constructors)

lemma ToHTTPStatus_WrapError [simp]: "ToHTTPStatus (WrapError t e) = ToHTTPStatus e"
  by (simp add: ToHTTPStatus_def)

end
