(* ===== verification/Domain.thy ===== *)
theory Domain
  imports Go_Errors
begin

text \<open>
  \<open>internal/domain\<close>: the entities of the service and the checks that do not depend on stored
  state. Strings are byte strings, as in Go; \<open>utf8.RuneCountInString\<close> is modelled on bytes, so
  that a length in runes and a length in bytes are different things here too. A nullable pointer
  field is an \<open>option\<close>.
\<close>

section \<open>Counting runes\<close>

text \<open>\<open>rune_width s\<close> is the number of bytes that decoding the first rune of \<open>s\<close> consumes: the
  length of a valid UTF-8 sequence, and 1 for a byte that starts none.\<close>

definition cont :: "char \<Rightarrow> nat \<Rightarrow> nat \<Rightarrow> bool" where
  "cont c lo hi \<longleftrightarrow> lo \<le> of_char c \<and> of_char c \<le> hi"

definition rune_width :: "string \<Rightarrow> nat" where
  "rune_width s = (case s of
     c0 # c1 # r \<Rightarrow>
       (if cont c0 0xC2 0xDF \<and> cont c1 0x80 0xBF then 2
        else case r of
          c2 # r' \<Rightarrow>
            (if cont c2 0x80 0xBF \<and>
                (cont c0 0xE0 0xE0 \<and> cont c1 0xA0 0xBF \<or>
                 cont c0 0xE1 0xEC \<and> cont c1 0x80 0xBF \<or>
                 cont c0 0xED 0xED \<and> cont c1 0x80 0x9F \<or>
                 cont c0 0xEE 0xEF \<and> cont c1 0x80 0xBF) then 3
             else case r' of
               c3 # _ \<Rightarrow>
                 (if cont c2 0x80 0xBF \<and> cont c3 0x80 0xBF \<and>
                     (cont c0 0xF0 0xF0 \<and> cont c1 0x90 0xBF \<or>
                      cont c0 0xF1 0xF3 \<and> cont c1 0x80 0xBF \<or>
                      cont c0 0xF4 0xF4 \<and> cont c1 0x80 0x8F) then 4 else 1)
             | [] \<Rightarrow> 1)
        | [] \<Rightarrow> 1)
   | _ \<Rightarrow> 1)"

lemma rune_width_pos [simp]: "0 < rune_width s"
  by (simp add: rune_width_def split: list.split)

lemma rune_width_le: "s \<noteq> [] \<Longrightarrow> rune_width s \<le> length s"
  by (auto simp: rune_width_def split: list.split)

lemma rune_width_le_4: "rune_width s \<le> 4"
  by (simp add: rune_width_def split: list.split)

function RuneCountInString :: "string \<Rightarrow> nat" where
  "RuneCountInString s = (if s = [] then 0 else Suc (RuneCountInString (drop (rune_width s) s)))"
  by pat_completeness auto
termination
  by (relation "measure length") auto

declare RuneCountInString.simps [simp del]

lemma RuneCount_Nil [simp]: "RuneCountInString [] = 0"
  by (subst RuneCountInString.simps) simp

lemma RuneCount_bounds: "RuneCountInString s \<le> length s \<and> length s \<le> 4 * RuneCountInString s"
proof (induction s rule: RuneCountInString.induct)
  case (1 s)
  show ?case
  proof (cases "s = []")
    case False
    then show ?thesis
      using "1.IH" [OF False] rune_width_le [OF False] rune_width_pos [of s] rune_width_le_4 [of s]
      by (simp add: RuneCountInString.simps [of s] del: rune_width_pos) linarith
  qed simp
qed

text \<open>On ASCII bytes the two lengths agree.\<close>

lemma RuneCount_ascii: "(\<And>c. c \<in> set s \<Longrightarrow> of_char c < (0x80 :: nat)) \<Longrightarrow> RuneCountInString s = length s"
proof (induction s rule: RuneCountInString.induct)
  case (1 s)
  show ?case
  proof (cases s)
    case (Cons c r)
    have "rune_width s = 1"
      using 1(2) [of c] Cons by (auto simp: rune_width_def cont_def split: list.split)
    then show ?thesis
      using 1 Cons by (simp add: RuneCountInString.simps [of "c # r"])
  qed simp
qed

section \<open>Identifiers\<close>

text \<open>The regular expression \<open>^[0-9A-HJKMNP-TV-Z]{26}$\<close> of \<open>internal/domain/post.go\<close> (and of
  \<open>internal/handler\<close>): 26 characters of Crockford's base 32.\<close>

definition crockford :: string where
  "crockford = ''0123456789ABCDEFGHJKMNPQRSTVWXYZ''"

definition IsULID :: "string \<Rightarrow> bool" where
  "IsULID s \<longleftrightarrow> length s = 26 \<and> (\<forall>c\<in>set s. c \<in> set crockford)"

lemma IsULID_not_Nil: "IsULID s \<Longrightarrow> s \<noteq> []"
  by (auto simp: IsULID_def)

section \<open>Entities\<close>

record User =
  User_Sub :: string
  User_DisplayNameCached :: string
  User_DisplayIDCached :: string
  User_IconURLCached :: string
  User_ProfileRefreshedAt :: time
  User_Bio :: string
  User_BannerURL :: string
  User_IsAdmin :: bool
  User_FollowersCount :: int64
  User_FollowingCount :: int64
  User_CreatedAt :: time
  User_UpdatedAt :: time
  User_DeletedAt :: "time option"

record UpdateUserProfileRequest =
  UpdReq_Bio :: "string option"
  UpdReq_BannerURL :: "string option"

record Post =
  Post_ID :: string
  Post_UserID :: string
  Post_Content :: string
  Post_ParentPostID :: "string option"
  Post_RootPostID :: "string option"
  Post_LikesCount :: int64
  Post_RepliesCount :: int64
  Post_Visibility :: string
  Post_CreatedAt :: time
  Post_UpdatedAt :: time
  Post_DeletedAt :: "time option"

record CreatePostRequest =
  CPReq_Content :: string
  CPReq_ImageIDs :: "string list"
  CPReq_ParentPostID :: "string option"

record Follow =
  Follow_FollowerSub :: string
  Follow_FolloweeSub :: string
  Follow_CreatedAt :: time

record Tag =
  Tag_ID :: string
  Tag_Name :: string
  Tag_CreatedAt :: time

record Image =
  Image_ID :: string
  Image_StorageKey :: string
  Image_FileName :: string
  Image_MimeType :: string
  Image_FileSize :: int64
  Image_PublicURL :: string
  Image_UserID :: string
  Image_CreatedAt :: time
  Image_UpdatedAt :: time
  Image_DeletedAt :: "time option"

record UploadImageRequest =
  Upload_FileName :: string
  Upload_FileData :: string
  Upload_MimeType :: string
  Upload_FileSize :: int64
  Upload_UserID :: string

record Badge =
  Badge_ID :: string
  Badge_Key :: string
  Badge_Label :: string
  Badge_Description :: string
  Badge_IconURL :: string
  Badge_Color :: string
  Badge_Priority :: int
  Badge_CreatedAt :: time
  Badge_UpdatedAt :: time

record UserBadge =
  UB_UserID :: string
  UB_BadgeID :: string
  UB_GrantedAt :: time
  UB_GrantedBy :: string
  UB_ExpiresAt :: "time option"
  UB_Reason :: string

record GrantBadgeRequest =
  Grant_BadgeKey :: string
  Grant_ExpiresAt :: "time option"
  Grant_Reason :: string

text \<open>The status of a cached preview and of a fetch job are string constants in
  \<open>internal/domain/ogp.go\<close>; the columns hold nothing else, so they are datatypes here.\<close>

datatype OGPStatus = OGPStatusOK | OGPStatusError | OGPStatusPending | OGPStatusUnset

datatype OGPJobStatus = OGPJobQueued | OGPJobRunning | OGPJobDone | OGPJobFailed

record OGPPreview =
  Prev_URLHash :: string
  Prev_URL :: string
  Prev_Title :: string
  Prev_Description :: string
  Prev_ImageURL :: string
  Prev_SiteName :: string
  Prev_CanonicalURL :: string
  Prev_FetchedAt :: time
  Prev_ExpiresAt :: time
  Prev_Status :: OGPStatus
  Prev_ErrorReason :: string

record OGPJob =
  Job_ID :: string
  Job_URLHash :: string
  Job_URL :: string
  Job_PostID :: string
  Job_Position :: int
  Job_EnqueuedAt :: time
  Job_StartedAt :: "time option"
  Job_FinishedAt :: "time option"
  Job_Status :: OGPJobStatus
  Job_Attempts :: int
  Job_LastError :: string

section \<open>Validation\<close>

definition MaxContentLen :: nat where
  "MaxContentLen = 120"

definition MaxImagesPerPost :: nat where
  "MaxImagesPerPost = 4"

definition MaxImageBytes :: int where
  "MaxImageBytes = 5 * 1024 * 1024"

definition IsExpired :: "OGPPreview \<Rightarrow> time \<Rightarrow> bool" where
  "IsExpired p now \<longleftrightarrow> \<not> now < Prev_ExpiresAt p"

text \<open>A \<open>Validate\<close> method returns \<open>None\<close> for a nil error.\<close>

definition User_Validate :: "User \<Rightarrow> go_error option" where
  "User_Validate u =
     (if length (User_Bio u) > 500 then Some (InvalidUserError ''bio must be 500 characters or fewer'')
      else if length (User_BannerURL u) > 1024
      then Some (InvalidUserError ''banner url must be 1024 characters or fewer'')
      else None)"

definition Follow_Validate :: "Follow \<Rightarrow> go_error option" where
  "Follow_Validate f =
     (if Follow_FollowerSub f = [] \<or> Follow_FolloweeSub f = []
      then Some (NewValidationError ''follower_sub and followee_sub are required'')
      else if Follow_FollowerSub f = Follow_FolloweeSub f
      then Some (NewValidationError ''cannot follow yourself'')
      else None)"

definition Post_Validate :: "Post \<Rightarrow> go_error option" where
  "Post_Validate p =
     (if Post_Content p = [] \<or> RuneCountInString (Post_Content p) > MaxContentLen
      then Some (NewValidationError (''content must be 1..'' @ itoa (int MaxContentLen) @ '' chars''))
      else if Post_UserID p = [] then Some (NewValidationError ''user_id is required'')
      else if Post_ParentPostID p = Some []
      then Some (NewValidationError ''parent_post_id must be non-empty if present'')
      else None)"

fun validate_image_ids :: "string set \<Rightarrow> string list \<Rightarrow> go_error option" where
  "validate_image_ids seen [] = None"
| "validate_image_ids seen (i # is) =
     (if \<not> IsULID i then Some (NewValidationError ''image_ids must be ULIDs'')
      else if i \<in> seen then Some (NewValidationError ''image_ids must be unique'')
      else validate_image_ids (insert i seen) is)"

definition CreatePostRequest_Validate :: "CreatePostRequest \<Rightarrow> go_error option" where
  "CreatePostRequest_Validate r =
     (if CPReq_Content r = [] \<or> RuneCountInString (CPReq_Content r) > MaxContentLen
      then Some (NewValidationError (''content must be 1..'' @ itoa (int MaxContentLen) @ '' chars''))
      else if length (CPReq_ImageIDs r) > MaxImagesPerPost
      then Some (NewValidationError (''at most '' @ itoa (int MaxImagesPerPost) @ '' images per post''))
      else case validate_image_ids {} (CPReq_ImageIDs r) of
        Some err \<Rightarrow> Some err
      | None \<Rightarrow>
          (case CPReq_ParentPostID r of
             None \<Rightarrow> None
           | Some p \<Rightarrow>
               (if p = [] then Some (NewValidationError ''parent_post_id must be non-empty if present'')
                else if \<not> IsULID p then Some (NewValidationError ''parent_post_id must be a ULID'')
                else None)))"

text \<open>\<open>url.Parse\<close> of the standard library, as far as the source looks at its result: the scheme
  and the host of the URL, \<open>None\<close> where it returns an error. It is an argument of the functions
  that call it.\<close>

type_synonym url_parser = "string \<Rightarrow> (string \<times> string) option"

definition Badge_Validate :: "url_parser \<Rightarrow> Badge \<Rightarrow> go_error option" where
  "Badge_Validate url_Parse b =
     (if Badge_Key b = [] \<or> length (Badge_Key b) > 64 then Some (NewValidationError ''key must be 1..64 chars'')
      else if Badge_Label b = [] \<or> RuneCountInString (Badge_Label b) > 64 then Some (NewValidationError ''label must be 1..64 chars'')
      else if length (Badge_IconURL b) > 1024 then Some (NewValidationError ''icon_url must be at most 1024 chars'')
      else if Badge_IconURL b \<noteq> [] \<and>
          (case url_Parse (Badge_IconURL b) of
             None \<Rightarrow> True
           | Some (scheme, host) \<Rightarrow> scheme \<noteq> ''http'' \<and> scheme \<noteq> ''https'' \<or> host = [])
        then Some (NewValidationError ''icon_url must be an absolute http(s) URL'')
      else if length (Badge_Color b) > 16 then Some (NewValidationError ''color must be at most 16 chars'')
      else if Badge_Priority b < 0 then Some (NewValidationError ''priority must be non-negative'')
      else None)"

definition GrantBadgeRequest_Validate :: "GrantBadgeRequest \<Rightarrow> go_error option" where
  "GrantBadgeRequest_Validate r =
     (if Grant_BadgeKey r = [] \<or> length (Grant_BadgeKey r) > 64
      then Some (NewValidationError ''badge_key must be 1..64 chars'')
      else if length (Grant_Reason r) > 255
      then Some (NewValidationError ''reason must be at most 255 chars'')
      else None)"

section \<open>What a valid request looks like\<close>

lemma validate_image_ids_None:
  "validate_image_ids seen xs = None \<longleftrightarrow>
     (\<forall>x\<in>set xs. IsULID x) \<and> distinct xs \<and> set xs \<inter> seen = {}"
  by (induction xs arbitrary: seen) auto

text \<open>The whole contract of a create request, as one predicate.\<close>

definition valid_create_request :: "CreatePostRequest \<Rightarrow> bool" where
  "valid_create_request r \<longleftrightarrow>
     CPReq_Content r \<noteq> [] \<and> RuneCountInString (CPReq_Content r) \<le> MaxContentLen \<and>
     length (CPReq_ImageIDs r) \<le> MaxImagesPerPost \<and>
     (\<forall>i\<in>set (CPReq_ImageIDs r). IsULID i) \<and> distinct (CPReq_ImageIDs r) \<and>
     (\<forall>p. CPReq_ParentPostID r = Some p \<longrightarrow> IsULID p)"

lemma CreatePostRequest_Validate_iff:
  "CreatePostRequest_Validate r = None \<longleftrightarrow> valid_create_request r"
proof -
  have ids: "(validate_image_ids {} (CPReq_ImageIDs r) = None) =
      ((\<forall>i\<in>set (CPReq_ImageIDs r). IsULID i) \<and> distinct (CPReq_ImageIDs r))"
    by (simp add: validate_image_ids_None)
  show ?thesis
    by (cases "validate_image_ids {} (CPReq_ImageIDs r)"; cases "CPReq_ParentPostID r")
      (use ids in \<open>auto simp: CreatePostRequest_Validate_def valid_create_request_def not_less
         dest: IsULID_not_Nil\<close>)
qed

lemma Follow_Validate_None:
  "Follow_Validate f = None \<longleftrightarrow>
     Follow_FollowerSub f \<noteq> [] \<and> Follow_FolloweeSub f \<noteq> [] \<and> Follow_FollowerSub f \<noteq> Follow_FolloweeSub f"
  by (auto simp: Follow_Validate_def)

lemma User_Validate_None:
  "User_Validate u = None \<longleftrightarrow> length (User_Bio u) \<le> 500 \<and> length (User_BannerURL u) \<le> 1024"
  by (auto simp: User_Validate_def)

lemma Post_Validate_None:
  "Post_Validate p = None \<longleftrightarrow>
     Post_Content p \<noteq> [] \<and> RuneCountInString (Post_Content p) \<le> MaxContentLen \<and>
     Post_UserID p \<noteq> [] \<and> Post_ParentPostID p \<noteq> Some []"
  by (auto simp: Post_Validate_def not_less)

end
