(* ===== verification/Repository.thy ===== *)
theory Repository
  imports Domain
begin

text \<open>
  \<open>internal/repository/repository.go\<close>: the interfaces the use cases are written against. A Go
  interface value is a record of functions; \<open>'s\<close> is the state the backend works on. A method
  that returns \<open>(T, error)\<close> is a \<open>fallible\<close> computation: it may change the state and returns
  either an error or a value; \<open>(nil, nil)\<close> is \<open>Inr None\<close>.
\<close>

type_synonym ('s, 'a) fallible = "('s, go_error + 'a) state"

record 's UserRepository =
  users_GetBySub :: "string \<Rightarrow> ('s, User option) fallible"
  users_Upsert :: "User \<Rightarrow> ('s, User) fallible"
  users_UpdateProfile :: "string \<Rightarrow> UpdateUserProfileRequest \<Rightarrow> ('s, User option) fallible"
  users_List :: "int \<Rightarrow> int \<Rightarrow> ('s, User list \<times> int) fallible"
  users_ListBySubs :: "string list \<Rightarrow> ('s, string \<rightharpoonup> User) fallible"
  users_IncrementFollowersCount :: "string \<Rightarrow> ('s, unit) fallible"
  users_DecrementFollowersCount :: "string \<Rightarrow> ('s, unit) fallible"
  users_IncrementFollowingCount :: "string \<Rightarrow> ('s, unit) fallible"
  users_DecrementFollowingCount :: "string \<Rightarrow> ('s, unit) fallible"
  users_Delete :: "string \<Rightarrow> ('s, unit) fallible"

record 's FollowRepository =
  follows_Create :: "string \<Rightarrow> string \<Rightarrow> ('s, bool) fallible"
  follows_Delete :: "string \<Rightarrow> string \<Rightarrow> ('s, bool) fallible"
  follows_IsFollowing :: "string \<Rightarrow> string \<Rightarrow> ('s, bool) fallible"
  follows_ListFollowingSubs :: "string \<Rightarrow> ('s, string list) fallible"
  follows_ListFollowers :: "string \<Rightarrow> string option \<Rightarrow> int \<Rightarrow> ('s, Follow list \<times> string) fallible"
  follows_ListFollowing :: "string \<Rightarrow> string option \<Rightarrow> int \<Rightarrow> ('s, Follow list \<times> string) fallible"
  follows_AreFollowing :: "string \<Rightarrow> string list \<Rightarrow> ('s, string \<rightharpoonup> bool) fallible"

record 's PostRepository =
  posts_GetByID :: "string \<Rightarrow> ('s, Post option) fallible"
  posts_Create :: "Post \<Rightarrow> string list \<Rightarrow> string list \<Rightarrow> ('s, Post) fallible"
  posts_Delete :: "string \<Rightarrow> ('s, unit) fallible"
  posts_List :: "string option \<Rightarrow> string option \<Rightarrow> int \<Rightarrow> ('s, Post list \<times> string) fallible"
  posts_ListByUserIDs :: "string list \<Rightarrow> string option \<Rightarrow> int \<Rightarrow> ('s, Post list \<times> string) fallible"
  posts_ListReplies :: "string \<Rightarrow> string option \<Rightarrow> int \<Rightarrow> ('s, Post list \<times> string) fallible"
  posts_IncrementRepliesCount :: "string \<Rightarrow> ('s, unit) fallible"
  posts_DecrementRepliesCount :: "string \<Rightarrow> ('s, unit) fallible"
  posts_IncrementLikesCount :: "string \<Rightarrow> ('s, unit) fallible"
  posts_DecrementLikesCount :: "string \<Rightarrow> ('s, unit) fallible"
  posts_AttachOGP :: "string \<Rightarrow> string \<Rightarrow> int \<Rightarrow> ('s, unit) fallible"

record 's OGPCacheRepository =
  ogp_Get :: "string \<Rightarrow> ('s, OGPPreview option) fallible"
  ogp_Upsert :: "OGPPreview option \<Rightarrow> ('s, unit) fallible"
  ogp_ListByPostIDs :: "string list \<Rightarrow> ('s, string \<rightharpoonup> OGPPreview list) fallible"

record 's OGPJobQueue =
  jobs_Enqueue :: "string \<Rightarrow> string \<Rightarrow> string \<Rightarrow> string \<Rightarrow> int \<Rightarrow> ('s, unit) fallible"
  jobs_Claim :: "string \<Rightarrow> ('s, OGPJob option) fallible"
  jobs_MarkDone :: "string \<Rightarrow> ('s, unit) fallible"
  jobs_MarkFailed :: "string \<Rightarrow> string \<Rightarrow> bool \<Rightarrow> ('s, unit) fallible"

record 's LikeRepository =
  likes_Create :: "string \<Rightarrow> string \<Rightarrow> ('s, bool) fallible"
  likes_Delete :: "string \<Rightarrow> string \<Rightarrow> ('s, bool) fallible"
  likes_IsLikedBy :: "string \<Rightarrow> string \<Rightarrow> ('s, bool) fallible"
  likes_ListLikedPostIDsByUser :: "string \<Rightarrow> string list \<Rightarrow> ('s, string \<rightharpoonup> bool) fallible"

record 's TagRepository =
  tags_UpsertByNames :: "string list \<Rightarrow> ('s, Tag list) fallible"
  tags_ListByPostID :: "string \<Rightarrow> ('s, Tag list) fallible"
  tags_ListByPostIDs :: "string list \<Rightarrow> ('s, string \<rightharpoonup> Tag list) fallible"

record 's ImageRepository =
  images_GetByID :: "string \<Rightarrow> ('s, Image option) fallible"
  images_GetByUserID :: "string \<Rightarrow> ('s, Image list) fallible"
  images_Create :: "Image \<Rightarrow> ('s, Image) fallible"
  images_Delete :: "string \<Rightarrow> ('s, unit) fallible"
  images_ListByPostID :: "string \<Rightarrow> ('s, Image list) fallible"
  images_ListByPostIDs :: "string list \<Rightarrow> ('s, string \<rightharpoonup> Image list) fallible"

record 's BadgeRepository =
  badges_ListAll :: "('s, Badge list) fallible"
  badges_GetByKey :: "string \<Rightarrow> ('s, Badge option) fallible"
  badges_GetByID :: "string \<Rightarrow> ('s, Badge option) fallible"
  badges_Create :: "Badge \<Rightarrow> ('s, Badge option) fallible"
  badges_Update :: "Badge \<Rightarrow> ('s, Badge option) fallible"
  badges_Grant :: "string \<Rightarrow> string \<Rightarrow> string \<Rightarrow> time option \<Rightarrow> string \<Rightarrow> ('s, unit) fallible"
  badges_Revoke :: "string \<Rightarrow> string \<Rightarrow> ('s, unit) fallible"
  badges_ListByUserID :: "string \<Rightarrow> ('s, Badge list) fallible"
  badges_ListByUserIDs :: "string list \<Rightarrow> ('s, string \<rightharpoonup> Badge list) fallible"

section \<open>Error handling in use cases\<close>

text \<open>
  \<open>r \<leftarrow> op; if err != nil { return nil, wrap(err) }; k r\<close>, the shape of almost every call of a
  repository in a use case.
\<close>

definition bind_or :: "('s, 'a) fallible \<Rightarrow> (go_error \<Rightarrow> go_error) \<Rightarrow> ('a \<Rightarrow> ('s, 'b) fallible) \<Rightarrow> ('s, 'b) fallible"
  where "bind_or m wrap k = m \<bind> (\<lambda>r. case r of Inl err \<Rightarrow> ret (Inl (wrap err)) | Inr x \<Rightarrow> k x)"

lemma run_bind_or [run_simps]:
  "run_state (bind_or m wrap k) s =
     (case run_state m s of (Inl err, s') \<Rightarrow> (Inl (wrap err), s') | (Inr x, s') \<Rightarrow> run_state (k x) s')"
  by (simp add: bind_or_def split: prod.split sum.split)

section \<open>Reasoning about use cases\<close>

text \<open>
  \<open>wp m Q s\<close>: running \<open>m\<close> from \<open>s\<close> ends in a result and a state that satisfy \<open>Q\<close>. The rules
  follow the control structure of a use case; the contracts of the repositories are added to
  \<open>wp_rules\<close> where they are assumed.
\<close>

definition wp :: "('s, 'a) state \<Rightarrow> ('a \<Rightarrow> 's \<Rightarrow> bool) \<Rightarrow> 's \<Rightarrow> bool" where
  "wp m Q s = (case run_state m s of (x, t) \<Rightarrow> Q x t)"

named_theorems wp_rules \<open>rules for the steps of a use case\<close>

lemma wpI: "(\<And>x t. run_state m s = (x, t) \<Longrightarrow> Q x t) \<Longrightarrow> wp m Q s"
  by (simp add: wp_def split: prod.split)

lemma wpD: "wp m Q s \<Longrightarrow> run_state m s = (x, t) \<Longrightarrow> Q x t"
  by (simp add: wp_def)

lemma wp_mono: "wp m Q s \<Longrightarrow> (\<And>x t. Q x t \<Longrightarrow> R x t) \<Longrightarrow> wp m R s"
  by (simp add: wp_def split: prod.splits)

lemma wp_conj: "wp m Q s \<Longrightarrow> wp m R s \<Longrightarrow> wp m (\<lambda>x t. Q x t \<and> R x t) s"
  by (simp add: wp_def split: prod.splits)

lemma wp_ret [wp_rules]: "Q x s \<Longrightarrow> wp (ret x) Q s"
  by (simp add: wp_def)

lemma wp_bind [wp_rules]: "wp m (\<lambda>x t. wp (k x) Q t) s \<Longrightarrow> wp (m \<bind> k) Q s"
  by (simp add: wp_def split: prod.splits)

lemma wp_bind_or [wp_rules]:
  "wp m (\<lambda>r t. case r of Inl e \<Rightarrow> Q (Inl (wrap e)) t | Inr x \<Rightarrow> wp (k x) Q t) s \<Longrightarrow> wp (bind_or m wrap k) Q s"
  by (auto simp: wp_def run_simps split: prod.splits sum.splits)

lemma wp_if [wp_rules]:
  "(b \<Longrightarrow> wp m Q s) \<Longrightarrow> (\<not> b \<Longrightarrow> wp n Q s) \<Longrightarrow> wp (if b then m else n) Q s"
  by simp

lemma wp_option [wp_rules]:
  "(x = None \<Longrightarrow> wp m Q s) \<Longrightarrow> (\<And>y. x = Some y \<Longrightarrow> wp (f y) Q s) \<Longrightarrow>
   wp (case x of None \<Rightarrow> m | Some y \<Rightarrow> f y) Q s"
  by (cases x) auto

lemma wp_Let [wp_rules]: "wp (f e) Q s \<Longrightarrow> wp (let x = e in f x) Q s"
  by simp

lemma wp_prod [wp_rules]: "(\<And>a b. x = (a, b) \<Longrightarrow> wp (f a b) Q s) \<Longrightarrow> wp (case x of (a, b) \<Rightarrow> f a b) Q s"
  by (cases x) auto

lemma wp_ulid_Make [wp_rules]: "Q (rt_ulid s (rt_ids s)) (s\<lparr>rt_ids := Suc (rt_ids s)\<rparr>) \<Longrightarrow> wp ulid_Make Q s"
  by (simp add: wp_def run_simps)

lemma wp_Now [wp_rules]: "Q (rt_clock s (rt_ticks s)) (s\<lparr>rt_ticks := Suc (rt_ticks s)\<rparr>) \<Longrightarrow> wp Now Q s"
  by (simp add: wp_def run_simps)

lemma wp_gets [wp_rules]: "Q (f s) s \<Longrightarrow> wp (gets f) Q s"
  by (simp add: wp_def run_simps)

lemma wp_modify [wp_rules]: "Q () (f s) \<Longrightarrow> wp (modify f) Q s"
  by (simp add: wp_def run_simps)

lemma wp_map_range [wp_rules]:
  "Q (shuffle (rt_order s (rt_ranges s)) (entries m)) (s\<lparr>rt_ranges := Suc (rt_ranges s)\<rparr>) \<Longrightarrow> wp (map_range m) Q s"
  by (simp add: wp_def run_simps)

lemma wp_use:
  "wp m P s \<Longrightarrow> (\<And>e t. P (Inl e) t \<Longrightarrow> Q (Inl e) t) \<Longrightarrow> (\<And>x t. P (Inr x) t \<Longrightarrow> Q (Inr x) t) \<Longrightarrow> wp m Q s"
  by (auto simp: wp_def split: prod.splits) (metis sum.exhaust)

text \<open>The result of a fallible call, in both cases.\<close>

lemma wp_fallible:
  "(\<And>e t. run_state m s = (Inl e, t) \<Longrightarrow> Q (Inl e) t) \<Longrightarrow> (\<And>x t. run_state m s = (Inr x, t) \<Longrightarrow> Q (Inr x) t) \<Longrightarrow> wp m Q s"
  by (rule wpI) (metis sum.exhaust)

end
