(* ===== verification/UC_Post.thy ===== *)
theory UC_Post
  imports Repository
begin

text \<open>
  \<open>internal/usecase/post\<close>: creating, reading, deleting and listing posts, likes, and the
  hydrator that turns a page of posts into details with a fixed number of batched lookups.
  A use case is a function of the repositories it was constructed with; \<open>'s\<close> is the state of the
  backend, over an environment of the run. The order of the calls is the order of the source,
  and each step of a use case is a separate call on a repository.
\<close>

section \<open>Details and the hydrator\<close>

record Detail =
  Detail_Post :: Post
  Detail_Images :: "Image list"
  Detail_Tags :: "Tag list"
  Detail_LikedByViewer :: bool
  Detail_Author :: "User option"
  Detail_FollowingAuthor :: bool
  Detail_OGPPreviews :: "OGPPreview list"

record 's Hydrator =
  hyd_imageRepo :: "'s ImageRepository"
  hyd_tagRepo :: "'s TagRepository"
  hyd_likeRepo :: "'s LikeRepository"
  hyd_userRepo :: "'s UserRepository"
  hyd_followRepo :: "'s FollowRepository"
  hyd_ogpRepo :: "'s OGPCacheRepository"

definition filterOKPreviews :: "OGPPreview list \<Rightarrow> OGPPreview list" where
  "filterOKPreviews ps = filter (\<lambda>p. Prev_Status p = OGPStatusOK) ps"

text \<open>Reading a Go map: the zero value where the key is absent.\<close>

definition at_or :: "'v \<Rightarrow> ('k \<rightharpoonup> 'v) \<Rightarrow> 'k \<Rightarrow> 'v" where
  "at_or zero m k = (case m k of Some v \<Rightarrow> v | None \<Rightarrow> zero)"

definition Hydrate :: "('z runtime_scheme) Hydrator \<Rightarrow> Post list \<Rightarrow> string option \<Rightarrow> ('z runtime_scheme, Detail list) fallible"
  where "Hydrate h posts viewerSub =
     (if length posts = 0 then ret (Inr [])
      else do {
        let postIDs = map Post_ID posts;
        let authorSet = fold (\<lambda>p. set_map (Post_UserID p) ()) posts DAList.empty;
        authors \<leftarrow> map_range authorSet;
        let authorSubs = map fst authors;
        bind_or (images_ListByPostIDs (hyd_imageRepo h) postIDs) (DatabaseError ''failed to load images'') (\<lambda>imagesByPost.
        bind_or (tags_ListByPostIDs (hyd_tagRepo h) postIDs) (DatabaseError ''failed to load tags'') (\<lambda>tagsByPost.
        bind_or (users_ListBySubs (hyd_userRepo h) authorSubs) (DatabaseError ''failed to load authors'') (\<lambda>authorsBySub.
        bind_or (ogp_ListByPostIDs (hyd_ogpRepo h) postIDs) (DatabaseError ''failed to load ogp'') (\<lambda>ogpByPost.
        bind_or
          (if viewerSub \<noteq> None \<and> viewerSub \<noteq> Some [] then
             bind_or (likes_ListLikedPostIDsByUser (hyd_likeRepo h) (the viewerSub) postIDs)
               (DatabaseError ''failed to load like state'') (\<lambda>likedByMe.
             bind_or (follows_AreFollowing (hyd_followRepo h) (the viewerSub) authorSubs)
               (DatabaseError ''failed to load follow state'') (\<lambda>followingByMe.
             ret (Inr (likedByMe, followingByMe))))
           else ret (Inr (Map.empty, Map.empty))) id (\<lambda>(likedByMe, followingByMe).
        ret (Inr (map (\<lambda>p.
          \<lparr>Detail_Post = p, Detail_Images = at_or [] imagesByPost (Post_ID p),
           Detail_Tags = at_or [] tagsByPost (Post_ID p),
           Detail_LikedByViewer = at_or False likedByMe (Post_ID p),
           Detail_Author = authorsBySub (Post_UserID p),
           Detail_FollowingAuthor = at_or False followingByMe (Post_UserID p),
           Detail_OGPPreviews = filterOKPreviews (at_or [] ogpByPost (Post_ID p))\<rparr>) posts)))))))
      })"

definition HydrateOne :: "('z runtime_scheme) Hydrator \<Rightarrow> Post \<Rightarrow> string option \<Rightarrow> ('z runtime_scheme, Detail option) fallible"
  where "HydrateOne h post viewerSub =
     bind_or (Hydrate h [post] viewerSub) id (\<lambda>details.
       ret (Inr (if length details = 0 then None else Some (details ! 0))))"

section \<open>Create\<close>

text \<open>A commit hook is a best-effort callback; \<open>None\<close> is a nil function value. The tag extractor
  is an interface of the domain package.\<close>

record 's CreatePostUseCase =
  create_postRepo :: "'s PostRepository"
  create_imageRepo :: "'s ImageRepository"
  create_tagRepo :: "'s TagRepository"
  create_tagExtractor :: "string \<Rightarrow> ('s, string list) fallible"
  create_onCommit :: "(Post \<Rightarrow> ('s, unit) state) option"

text \<open>The loop that loads and checks every image of the request.\<close>

fun check_images :: "'s ImageRepository \<Rightarrow> string \<Rightarrow> string list \<Rightarrow> ('s, unit) fallible" where
  "check_images repo userSub [] = ret (Inr ())"
| "check_images repo userSub (imgID # ids) =
     bind_or (images_GetByID repo imgID) (DatabaseError ''failed to load image'') (\<lambda>img.
       case img of
         None \<Rightarrow> ret (Inl (NotFound ''image not found''))
       | Some im \<Rightarrow>
           if Image_UserID im \<noteq> userSub then ret (Inl (Forbidden ''cannot attach another user's image''))
           else check_images repo userSub ids)"

text \<open>The thread root a reply inherits.\<close>

definition thread_root :: "Post \<Rightarrow> string" where
  "thread_root parent = (case Post_RootPostID parent of Some r \<Rightarrow> r | None \<Rightarrow> Post_ID parent)"

definition resolve_root :: "'s PostRepository \<Rightarrow> string option \<Rightarrow> ('s, string option) fallible" where
  "resolve_root repo parentID = (case parentID of
     None \<Rightarrow> ret (Inr None)
   | Some pid \<Rightarrow>
       bind_or (posts_GetByID repo pid) (DatabaseError ''failed to load parent post'') (\<lambda>parent.
         case parent of
           None \<Rightarrow> ret (Inl (NotFound ''parent post not found''))
         | Some p \<Rightarrow> ret (Inr (Some (thread_root p)))))"

definition new_post :: "string \<Rightarrow> string \<Rightarrow> CreatePostRequest \<Rightarrow> string option \<Rightarrow> Post" where
  "new_post i userSub req rootID =
     \<lparr>Post_ID = i, Post_UserID = userSub, Post_Content = CPReq_Content req,
      Post_ParentPostID = CPReq_ParentPostID req, Post_RootPostID = rootID, Post_LikesCount = 0,
      Post_RepliesCount = 0, Post_Visibility = ''public'', Post_CreatedAt = zero_time,
      Post_UpdatedAt = zero_time, Post_DeletedAt = None\<rparr>"

text \<open>The second half of \<open>Execute\<close>: from the new id to the response.\<close>

definition store_post ::
    "('z runtime_scheme) CreatePostUseCase \<Rightarrow> string \<Rightarrow> CreatePostRequest \<Rightarrow> string option \<Rightarrow> Tag list \<Rightarrow>
     ('z runtime_scheme, Detail) fallible"
  where "store_post uc userSub req rootID tags = do {
     let tagIDs = map Tag_ID tags;
     i \<leftarrow> ulid_Make;
     let post = new_post i userSub req rootID;
     (case Post_Validate post of
        Some err \<Rightarrow> ret (Inl (ValidationFailed (Error err)))
      | None \<Rightarrow>
     bind_or (posts_Create (create_postRepo uc) post (CPReq_ImageIDs req) tagIDs)
       (DatabaseError ''failed to create post'') (\<lambda>created.
     bind_or
       (case CPReq_ParentPostID req of
          Some pid \<Rightarrow> posts_IncrementRepliesCount (create_postRepo uc) pid
        | None \<Rightarrow> ret (Inr ())) (DatabaseError ''failed to increment replies_count'') (\<lambda>_.
     bind_or (images_ListByPostID (create_imageRepo uc) (Post_ID created))
       (DatabaseError ''failed to load post images'') (\<lambda>images. do {
         _ \<leftarrow> (case create_onCommit uc of Some hook \<Rightarrow> hook created | None \<Rightarrow> ret ());
         ret (Inr \<lparr>Detail_Post = created, Detail_Images = images, Detail_Tags = tags,
           Detail_LikedByViewer = False, Detail_Author = None, Detail_FollowingAuthor = False,
           Detail_OGPPreviews = []\<rparr>)
       }))))
   }"

definition CreatePost_Execute ::
    "('z runtime_scheme) CreatePostUseCase \<Rightarrow> string \<Rightarrow> CreatePostRequest option \<Rightarrow> ('z runtime_scheme, Detail) fallible"
  where "CreatePost_Execute uc userSub req' =
     (if userSub = [] then ret (Inl (Unauthorized ''authentication required''))
      else case req' of
        None \<Rightarrow> ret (Inl (InvalidRequest ''request body is required'' None))
      | Some req \<Rightarrow>
      case CreatePostRequest_Validate req of
        Some err \<Rightarrow> ret (Inl (ValidationFailed (Error err)))
      | None \<Rightarrow>
      bind_or (resolve_root (create_postRepo uc) (CPReq_ParentPostID req)) id (\<lambda>rootID.
      bind_or (check_images (create_imageRepo uc) userSub (CPReq_ImageIDs req)) id (\<lambda>_.
      bind_or (create_tagExtractor uc (CPReq_Content req))
        (\<lambda>err. InternalServer ''failed to extract tags'' (Some err)) (\<lambda>tagNames.
      bind_or (tags_UpsertByNames (create_tagRepo uc) tagNames) (DatabaseError ''failed to upsert tags'') (\<lambda>tags.
      store_post uc userSub req rootID tags)))))"

section \<open>Get, delete, list\<close>

definition GetPost_Execute ::
    "('z runtime_scheme) PostRepository \<Rightarrow> ('z runtime_scheme) Hydrator \<Rightarrow> string \<Rightarrow> string option \<Rightarrow>
     ('z runtime_scheme, Detail option) fallible"
  where "GetPost_Execute postRepo hydrator postID viewerSub =
     (if postID = [] then ret (Inl (InvalidRequest ''post id is required'' None))
      else bind_or (posts_GetByID postRepo postID) (DatabaseError ''failed to load post'') (\<lambda>post.
        case post of
          None \<Rightarrow> ret (Inl (NotFound ''post not found''))
        | Some p \<Rightarrow> HydrateOne hydrator p viewerSub))"

definition DeletePost_Execute :: "'s PostRepository \<Rightarrow> string \<Rightarrow> string \<Rightarrow> ('s, unit) fallible" where
  "DeletePost_Execute postRepo postID userSub =
     (if userSub = [] then ret (Inl (Unauthorized ''authentication required''))
      else bind_or (posts_GetByID postRepo postID) (DatabaseError ''failed to load post'') (\<lambda>post.
        case post of
          None \<Rightarrow> ret (Inl (NotFound ''post not found''))
        | Some p \<Rightarrow>
            if Post_UserID p \<noteq> userSub then ret (Inl (Forbidden ''you can only delete your own posts''))
            else bind_or (posts_Delete postRepo postID) (DatabaseError ''failed to delete post'') (\<lambda>_.
              case Post_ParentPostID p of
                Some parent \<Rightarrow>
                  bind_or (posts_DecrementRepliesCount postRepo parent)
                    (DatabaseError ''failed to decrement replies_count'') (\<lambda>_. ret (Inr ()))
              | None \<Rightarrow> ret (Inr ()))))"

definition DefaultPageLimit :: int where
  "DefaultPageLimit = 20"

definition MaxPageLimit :: int where
  "MaxPageLimit = 50"

definition NormalizeLimit :: "int \<Rightarrow> int" where
  "NormalizeLimit limit = (if limit \<le> 0 \<or> limit > MaxPageLimit then DefaultPageLimit else limit)"

lemma NormalizeLimit_range: "1 \<le> NormalizeLimit n" "NormalizeLimit n \<le> 50"
  by (auto simp: NormalizeLimit_def MaxPageLimit_def DefaultPageLimit_def)

text \<open>The tail the list endpoints share: hydrate the page and pass the cursor on.\<close>

definition hydrate_page ::
    "('z runtime_scheme) Hydrator \<Rightarrow> string option \<Rightarrow> Post list \<times> string \<Rightarrow> ('z runtime_scheme, Detail list \<times> string) fallible"
  where "hydrate_page hydrator viewerSub page = (case page of (posts, nextCursor) \<Rightarrow>
     bind_or (Hydrate hydrator posts viewerSub) id (\<lambda>details. ret (Inr (details, nextCursor))))"

definition ListPosts_Execute ::
    "('z runtime_scheme) PostRepository \<Rightarrow> ('z runtime_scheme) Hydrator \<Rightarrow> string option \<Rightarrow> string option \<Rightarrow> int \<Rightarrow>
     string option \<Rightarrow> ('z runtime_scheme, Detail list \<times> string) fallible"
  where "ListPosts_Execute postRepo hydrator userID cursor limit viewerSub =
     bind_or (posts_List postRepo userID cursor (NormalizeLimit limit)) (DatabaseError ''failed to list posts'')
       (hydrate_page hydrator viewerSub)"

definition ListReplies_Execute ::
    "('z runtime_scheme) PostRepository \<Rightarrow> ('z runtime_scheme) Hydrator \<Rightarrow> string \<Rightarrow> string option \<Rightarrow> int \<Rightarrow>
     string option \<Rightarrow> ('z runtime_scheme, Detail list \<times> string) fallible"
  where "ListReplies_Execute postRepo hydrator postID cursor limit viewerSub =
     (if postID = [] then ret (Inl (InvalidRequest ''post id is required'' None))
      else bind_or (posts_ListReplies postRepo postID cursor (NormalizeLimit limit))
        (DatabaseError ''failed to list replies'') (hydrate_page hydrator viewerSub))"

section \<open>Likes\<close>

definition LikePost_Execute ::
    "'s PostRepository \<Rightarrow> 's LikeRepository \<Rightarrow> (string \<Rightarrow> string \<Rightarrow> ('s, unit) state) option \<Rightarrow> string \<Rightarrow> string \<Rightarrow> ('s, unit) fallible"
  where "LikePost_Execute postRepo likeRepo onCommit userSub postID =
     (if userSub = [] then ret (Inl (Unauthorized ''authentication required''))
      else if postID = [] then ret (Inl (InvalidRequest ''post id is required'' None))
      else bind_or (posts_GetByID postRepo postID) (DatabaseError ''failed to load post'') (\<lambda>post.
        if post = None then ret (Inl (NotFound ''post not found''))
        else bind_or (likes_Create likeRepo userSub postID) (DatabaseError ''failed to insert like'') (\<lambda>inserted.
          if inserted then
            bind_or (posts_IncrementLikesCount postRepo postID) (DatabaseError ''failed to increment likes_count'') (\<lambda>_. do {
              _ \<leftarrow> (case onCommit of Some hook \<Rightarrow> hook userSub postID | None \<Rightarrow> ret ());
              ret (Inr ())
            })
          else ret (Inr ()))))"

definition UnlikePost_Execute :: "'s PostRepository \<Rightarrow> 's LikeRepository \<Rightarrow> string \<Rightarrow> string \<Rightarrow> ('s, unit) fallible" where
  "UnlikePost_Execute postRepo likeRepo userSub postID =
     (if userSub = [] then ret (Inl (Unauthorized ''authentication required''))
      else if postID = [] then ret (Inl (InvalidRequest ''post id is required'' None))
      else bind_or (likes_Delete likeRepo userSub postID) (DatabaseError ''failed to delete like'') (\<lambda>deleted.
        if deleted then
          bind_or (posts_DecrementLikesCount postRepo postID) (DatabaseError ''failed to decrement likes_count'') (\<lambda>_.
            ret (Inr ()))
        else ret (Inr ())))"

end
