(* ===== verification/UC_Follow.thy ===== *)
theory UC_Follow
  imports UC_Post
begin

text \<open>\<open>internal/usecase/follow\<close> and \<open>internal/usecase/timeline\<close>: the follow graph with its
  denormalised counters, and the three timelines.\<close>

section \<open>Follow and unfollow\<close>

record Result =
  Result_Following :: bool
  Result_FollowersCount :: int64

definition Follow_Execute ::
    "'s UserRepository \<Rightarrow> 's FollowRepository \<Rightarrow> (string \<Rightarrow> string \<Rightarrow> ('s, unit) state) option \<Rightarrow> string \<Rightarrow> string \<Rightarrow>
     ('s, Result) fallible"
  where "Follow_Execute userRepo followRepo onCommit followerSub followeeSub =
     (if followerSub = [] then ret (Inl (Unauthorized ''authentication required''))
      else case Follow_Validate \<lparr>Follow_FollowerSub = followerSub, Follow_FolloweeSub = followeeSub, Follow_CreatedAt = zero_time\<rparr> of
        Some err \<Rightarrow> ret (Inl (ValidationFailed (Error err)))
      | None \<Rightarrow>
      bind_or (users_GetBySub userRepo followeeSub) (DatabaseError ''failed to load target user'') (\<lambda>target.
        case target of
          None \<Rightarrow> ret (Inl (NotFound ''user not found''))
        | Some t \<Rightarrow>
        if User_DeletedAt t \<noteq> None then ret (Inl (NotFound ''user not found''))
        else bind_or (follows_Create followRepo followerSub followeeSub) (DatabaseError ''failed to create follow'') (\<lambda>inserted.
          if inserted then
            bind_or (users_IncrementFollowingCount userRepo followerSub) (DatabaseError ''failed to bump following_count'') (\<lambda>_.
            bind_or (users_IncrementFollowersCount userRepo followeeSub) (DatabaseError ''failed to bump followers_count'') (\<lambda>_. do {
              _ \<leftarrow> (case onCommit of Some hook \<Rightarrow> hook followerSub followeeSub | None \<Rightarrow> ret ());
              ret (Inr \<lparr>Result_Following = True, Result_FollowersCount = inc64 (User_FollowersCount t)\<rparr>)
            }))
          else ret (Inr \<lparr>Result_Following = True, Result_FollowersCount = User_FollowersCount t\<rparr>))))"

definition countOrZero :: "User option \<Rightarrow> int64" where
  "countOrZero u = (case u of None \<Rightarrow> 0 | Some u \<Rightarrow> User_FollowersCount u)"

definition Unfollow_Execute :: "'s UserRepository \<Rightarrow> 's FollowRepository \<Rightarrow> string \<Rightarrow> string \<Rightarrow> ('s, Result) fallible" where
  "Unfollow_Execute userRepo followRepo followerSub followeeSub =
     (if followerSub = [] then ret (Inl (Unauthorized ''authentication required''))
      else if followerSub = followeeSub then ret (Inl (ValidationFailed ''cannot unfollow yourself''))
      else if followeeSub = [] then ret (Inl (InvalidRequest ''target sub is required'' None))
      else bind_or (follows_Delete followRepo followerSub followeeSub) (DatabaseError ''failed to delete follow'') (\<lambda>deleted.
        bind_or
          (if deleted then
             bind_or (users_DecrementFollowingCount userRepo followerSub) (DatabaseError ''failed to decrement following_count'') (\<lambda>_.
             bind_or (users_DecrementFollowersCount userRepo followeeSub) (DatabaseError ''failed to decrement followers_count'') (\<lambda>_.
               ret (Inr ())))
           else ret (Inr ())) id (\<lambda>_.
        bind_or (users_GetBySub userRepo followeeSub) (DatabaseError ''failed to reload target user'') (\<lambda>refreshed.
          ret (Inr \<lparr>Result_Following = False, Result_FollowersCount = countOrZero refreshed\<rparr>)))))"

section \<open>Lists of users\<close>

definition orderedUsers :: "string list \<Rightarrow> (string \<rightharpoonup> User) \<Rightarrow> User list" where
  "orderedUsers peers users = [u. Some u \<leftarrow> map users peers]"

definition normalizeLimit :: "int \<Rightarrow> int" where
  "normalizeLimit limit = (if limit \<le> 0 \<or> limit > 50 then 20 else limit)"

definition ListFollowers_Execute ::
    "'s UserRepository \<Rightarrow> 's FollowRepository \<Rightarrow> string \<Rightarrow> string option \<Rightarrow> int \<Rightarrow> ('s, User list \<times> string) fallible"
  where "ListFollowers_Execute userRepo followRepo sub cursor limit =
     (if sub = [] then ret (Inl (InvalidRequest ''sub is required'' None))
      else bind_or (follows_ListFollowers followRepo sub cursor (normalizeLimit limit))
        (DatabaseError ''failed to list followers'') (\<lambda>(rows, next).
        let peers = map Follow_FollowerSub rows in
        bind_or (users_ListBySubs userRepo peers) (DatabaseError ''failed to load follower users'') (\<lambda>users.
          ret (Inr (orderedUsers peers users, next)))))"

definition ListFollowing_Execute ::
    "'s UserRepository \<Rightarrow> 's FollowRepository \<Rightarrow> string \<Rightarrow> string option \<Rightarrow> int \<Rightarrow> ('s, User list \<times> string) fallible"
  where "ListFollowing_Execute userRepo followRepo sub cursor limit =
     (if sub = [] then ret (Inl (InvalidRequest ''sub is required'' None))
      else bind_or (follows_ListFollowing followRepo sub cursor (normalizeLimit limit))
        (DatabaseError ''failed to list following'') (\<lambda>(rows, next).
        let peers = map Follow_FolloweeSub rows in
        bind_or (users_ListBySubs userRepo peers) (DatabaseError ''failed to load followed users'') (\<lambda>users.
          ret (Inr (orderedUsers peers users, next)))))"

section \<open>Timelines\<close>

definition HomeTimeline_Execute ::
    "('z runtime_scheme) PostRepository \<Rightarrow> ('z runtime_scheme) FollowRepository \<Rightarrow> ('z runtime_scheme) Hydrator \<Rightarrow>
     string \<Rightarrow> string option \<Rightarrow> int \<Rightarrow> ('z runtime_scheme, Detail list \<times> string) fallible"
  where "HomeTimeline_Execute postRepo followRepo hydrator mySub cursor limit =
     (if mySub = [] then ret (Inl (Unauthorized ''authentication required''))
      else bind_or (follows_ListFollowingSubs followRepo mySub) (DatabaseError ''failed to list follows'') (\<lambda>followees.
        let authorSubs = followees @ [mySub] in
        bind_or (posts_ListByUserIDs postRepo authorSubs cursor (NormalizeLimit limit)) (DatabaseError ''failed to list posts'')
          (hydrate_page hydrator (Some mySub))))"

definition UserTimeline_Execute ::
    "('z runtime_scheme) PostRepository \<Rightarrow> ('z runtime_scheme) Hydrator \<Rightarrow> string \<Rightarrow> string option \<Rightarrow> int \<Rightarrow> string option \<Rightarrow>
     ('z runtime_scheme, Detail list \<times> string) fallible"
  where "UserTimeline_Execute postRepo hydrator targetSub cursor limit viewerSub =
     (if targetSub = [] then ret (Inl (InvalidRequest ''sub is required'' None))
      else bind_or (posts_List postRepo (Some targetSub) cursor (NormalizeLimit limit)) (DatabaseError ''failed to list posts'')
        (hydrate_page hydrator viewerSub))"

definition GlobalTimeline_Execute ::
    "('z runtime_scheme) PostRepository \<Rightarrow> ('z runtime_scheme) Hydrator \<Rightarrow> string option \<Rightarrow> int \<Rightarrow> string option \<Rightarrow>
     ('z runtime_scheme, Detail list \<times> string) fallible"
  where "GlobalTimeline_Execute postRepo hydrator cursor limit viewerSub =
     bind_or (posts_List postRepo None cursor (NormalizeLimit limit)) (DatabaseError ''failed to list posts'')
       (hydrate_page hydrator viewerSub)"

end
