(* ===== verification/Social_Contracts.thy ===== *)
theory Social_Contracts
  imports UC_Follow
begin

text \<open>
  What the use cases rely on of a backend, and what they promise in return. The abstract state
  \<open>db\<close> is the content of the tables \<open>users\<close>, \<open>follows\<close>, \<open>posts\<close> and \<open>likes\<close>; a locale per
  repository interface states what each of its methods does to it, for a backend whose methods
  may fail without effect. The use cases are proved once, inside the locales, to implement the
  abstract operations \<open>abs_like\<close>, \<open>abs_follow\<close>, \<dots>, and these to keep the denormalised counters
  equal to the rows they count.
\<close>

section \<open>The abstract state\<close>

record db =
  db_users :: "string \<rightharpoonup> User"
  db_follows :: "(string \<times> string) set"
  db_posts :: "string \<rightharpoonup> Post"
  db_likes :: "(string \<times> string) set"

definition live :: "(string \<rightharpoonup> Post) \<Rightarrow> string \<Rightarrow> Post option" where
  "live m i = (case m i of Some p \<Rightarrow> if Post_DeletedAt p = None then Some p else None | None \<Rightarrow> None)"

lemma live_row: "live m i = Some p \<Longrightarrow> m i = Some p"
  by (auto simp: live_def split: option.splits if_splits)

definition on_live :: "string \<Rightarrow> (Post \<Rightarrow> Post) \<Rightarrow> db \<Rightarrow> db" where
  "on_live i f v = v\<lparr>db_posts := (db_posts v)(i := map_option (\<lambda>p. if Post_DeletedAt p = None then f p else p) (db_posts v i))\<rparr>"

definition on_row :: "string \<Rightarrow> (User \<Rightarrow> User) \<Rightarrow> db \<Rightarrow> db" where
  "on_row sub f v = v\<lparr>db_users := (db_users v)(sub := map_option f (db_users v sub))\<rparr>"

text \<open>A method has the effect \<open>Q\<close> (old view, result, new view) when it succeeds, and none on
  the view when it fails.\<close>

definition effect :: "('s \<Rightarrow> 'v) \<Rightarrow> ('s, 'a) fallible \<Rightarrow> ('v \<Rightarrow> 'a \<Rightarrow> 'v \<Rightarrow> bool) \<Rightarrow> bool" where
  "effect view m Q \<longleftrightarrow>
     (\<forall>s r t. run_state m s = (r, t) \<longrightarrow>
        (case r of Inl _ \<Rightarrow> view t = view s | Inr x \<Rightarrow> Q (view s) x (view t)))"

lemma effectI:
  "(\<And>s e t. run_state m s = (Inl e, t) \<Longrightarrow> view t = view s) \<Longrightarrow>
   (\<And>s x t. run_state m s = (Inr x, t) \<Longrightarrow> Q (view s) x (view t)) \<Longrightarrow> effect view m Q"
  by (auto simp: effect_def split: sum.split)

lemma effect_of: "(\<And>s. \<exists>x t. run_state m s = (Inr x, t) \<and> Q (view s) x (view t)) \<Longrightarrow> effect view m Q"
  by (rule effectI) (metis prod.inject sum.distinct(1), metis prod.inject sum.inject(2))

lemma effect_Inr: "effect view m Q \<Longrightarrow> run_state m s = (Inr x, t) \<Longrightarrow> Q (view s) x (view t)"
  by (fastforce simp: effect_def)

lemma effect_Inl: "effect view m Q \<Longrightarrow> run_state m s = (Inl e, t) \<Longrightarrow> view t = view s"
  by (fastforce simp: effect_def)

lemma wp_effect:
  "effect view m P \<Longrightarrow> (\<And>e t. view t = view s \<Longrightarrow> Q (Inl e) t) \<Longrightarrow>
   (\<And>x t. P (view s) x (view t) \<Longrightarrow> Q (Inr x) t) \<Longrightarrow> wp m Q s"
  by (rule wp_fallible) (blast dest: effect_Inl effect_Inr)+

text \<open>A method that writes may also report an error when its effect is in: over a network the reply can
  get \<open>lost\<close>.\<close>

definition writes :: "bool \<Rightarrow> ('s \<Rightarrow> 'v) \<Rightarrow> ('s, 'a) fallible \<Rightarrow> ('v \<Rightarrow> 'a \<Rightarrow> 'v \<Rightarrow> bool) \<Rightarrow> bool" where
  "writes lost view m Q \<longleftrightarrow>
     (\<forall>s r t. run_state m s = (r, t) \<longrightarrow>
        (case r of Inl _ \<Rightarrow> view t = view s \<or> lost \<and> (\<exists>x. Q (view s) x (view t)) | Inr x \<Rightarrow> Q (view s) x (view t)))"

lemma writes_False [simp]: "writes False = effect"
  by (simp add: fun_eq_iff writes_def effect_def cong: sum.case_cong)

lemma writes_effect: "effect view m Q \<Longrightarrow> writes lost view m Q"
  by (auto simp: writes_def dest: effect_Inl effect_Inr split: sum.split)

lemma wp_writes:
  "writes lost view m P \<Longrightarrow> (\<And>e t. view t = view s \<Longrightarrow> Q (Inl e) t) \<Longrightarrow>
   (\<And>e x t. lost \<Longrightarrow> P (view s) x (view t) \<Longrightarrow> Q (Inl e) t) \<Longrightarrow>
   (\<And>x t. P (view s) x (view t) \<Longrightarrow> Q (Inr x) t) \<Longrightarrow> wp m Q s"
  by (rule wp_fallible) (fastforce simp: writes_def)+

text \<open>A database error with a given message.\<close>

definition db_error :: "string \<Rightarrow> go_error \<Rightarrow> bool" where
  "db_error msg e \<longleftrightarrow> (\<exists>e'. e = DatabaseError msg e')"

lemma db_error_DatabaseError [simp]: "db_error msg (DatabaseError msg e)"
  by (auto simp: db_error_def)

section \<open>Contracts of the repositories\<close>

abbreviation inc_likes :: "Post \<Rightarrow> Post" where
  "inc_likes p \<equiv> p\<lparr>Post_LikesCount := inc64 (Post_LikesCount p)\<rparr>"

abbreviation dec_likes :: "Post \<Rightarrow> Post" where
  "dec_likes p \<equiv> (if Post_LikesCount p > 0 then p\<lparr>Post_LikesCount := dec64 (Post_LikesCount p)\<rparr> else p)"

abbreviation inc_replies :: "Post \<Rightarrow> Post" where
  "inc_replies p \<equiv> p\<lparr>Post_RepliesCount := inc64 (Post_RepliesCount p)\<rparr>"

abbreviation dec_replies :: "Post \<Rightarrow> Post" where
  "dec_replies p \<equiv> (if Post_RepliesCount p > 0 then p\<lparr>Post_RepliesCount := dec64 (Post_RepliesCount p)\<rparr> else p)"

abbreviation inc_followers :: "User \<Rightarrow> User" where
  "inc_followers u \<equiv> u\<lparr>User_FollowersCount := inc64 (User_FollowersCount u)\<rparr>"

abbreviation dec_followers :: "User \<Rightarrow> User" where
  "dec_followers u \<equiv> (if User_FollowersCount u > 0 then u\<lparr>User_FollowersCount := dec64 (User_FollowersCount u)\<rparr> else u)"

abbreviation inc_following :: "User \<Rightarrow> User" where
  "inc_following u \<equiv> u\<lparr>User_FollowingCount := inc64 (User_FollowingCount u)\<rparr>"

abbreviation dec_following :: "User \<Rightarrow> User" where
  "dec_following u \<equiv> (if User_FollowingCount u > 0 then u\<lparr>User_FollowingCount := dec64 (User_FollowingCount u)\<rparr> else u)"

text \<open>
  \<open>key i\<close>: an id the backend holds as it is given (a backend may pad or cut others). \<open>inv\<close> is what
  the laws for decrements and deletes need of the tables.
\<close>

locale like_store =
  fixes lost :: bool and key :: "string \<Rightarrow> bool" and view :: "'s \<Rightarrow> db" and likes :: "'s LikeRepository"
  assumes like_Create: "key u \<Longrightarrow> key p \<Longrightarrow> writes lost view (likes_Create likes u p)
      (\<lambda>v b v'. b = ((u, p) \<notin> db_likes v) \<and> v' = v\<lparr>db_likes := insert (u, p) (db_likes v)\<rparr>)"
    and like_Delete: "key u \<Longrightarrow> key p \<Longrightarrow> writes lost view (likes_Delete likes u p)
      (\<lambda>v b v'. b = ((u, p) \<in> db_likes v) \<and> v' = v\<lparr>db_likes := db_likes v - {(u, p)}\<rparr>)"

locale post_store =
  fixes lost :: bool and key :: "string \<Rightarrow> bool" and inv :: "db \<Rightarrow> bool" and view :: "'s \<Rightarrow> db" and posts :: "'s PostRepository"
  assumes post_Get: "key i \<Longrightarrow> effect view (posts_GetByID posts i) (\<lambda>v r v'. r = live (db_posts v) i \<and> v' = v)"
    and post_Delete: "key i \<Longrightarrow> writes lost view (posts_Delete posts i) (\<lambda>v _ v'. \<forall>p. live (db_posts v) i = Some p \<longrightarrow>
      (\<exists>now. v' = v\<lparr>db_posts := (db_posts v)(i \<mapsto> p\<lparr>Post_DeletedAt := Some now\<rparr>)\<rparr>))"
    and inc_Replies: "key i \<Longrightarrow> writes lost view (posts_IncrementRepliesCount posts i) (\<lambda>v _ v'. v' = on_live i inc_replies v)"
    and dec_Replies: "key i \<Longrightarrow> writes lost view (posts_DecrementRepliesCount posts i) (\<lambda>v _ v'. inv v \<longrightarrow> v' = on_live i (\<lambda>p. dec_replies p) v)"
    and inc_Likes: "key i \<Longrightarrow> writes lost view (posts_IncrementLikesCount posts i) (\<lambda>v _ v'. v' = on_live i inc_likes v)"
    and dec_Likes: "key i \<Longrightarrow> writes lost view (posts_DecrementLikesCount posts i) (\<lambda>v _ v'. inv v \<longrightarrow> v' = on_live i (\<lambda>p. dec_likes p) v)"
    and parent_key: "inv v \<Longrightarrow> live (db_posts v) i = Some p \<Longrightarrow> Post_ParentPostID p = Some q \<Longrightarrow> key q"
    and inv_likes: "inv v \<Longrightarrow> inv (v\<lparr>db_likes := L\<rparr>)"
    and inv_deleted: "inv v \<Longrightarrow> live (db_posts v) i = Some p \<Longrightarrow>
      inv (v\<lparr>db_posts := (db_posts v)(i \<mapsto> p\<lparr>Post_DeletedAt := d\<rparr>)\<rparr>)"

locale user_store =
  fixes lost :: bool and key :: "string \<Rightarrow> bool" and inv :: "db \<Rightarrow> bool" and view :: "'s \<Rightarrow> db" and users :: "'s UserRepository"
  assumes user_Get: "key sub \<Longrightarrow> effect view (users_GetBySub users sub) (\<lambda>v r v'. r = db_users v sub \<and> v' = v)"
    and inc_Followers: "key sub \<Longrightarrow> writes lost view (users_IncrementFollowersCount users sub) (\<lambda>v _ v'. v' = on_row sub inc_followers v)"
    and dec_Followers: "key sub \<Longrightarrow> writes lost view (users_DecrementFollowersCount users sub) (\<lambda>v _ v'. inv v \<longrightarrow> v' = on_row sub (\<lambda>u. dec_followers u) v)"
    and inc_Following: "key sub \<Longrightarrow> writes lost view (users_IncrementFollowingCount users sub) (\<lambda>v _ v'. v' = on_row sub inc_following v)"
    and dec_Following: "key sub \<Longrightarrow> writes lost view (users_DecrementFollowingCount users sub) (\<lambda>v _ v'. inv v \<longrightarrow> v' = on_row sub (\<lambda>u. dec_following u) v)"
    and inv_follows: "inv v \<Longrightarrow> inv (v\<lparr>db_follows := F\<rparr>)"
    and inv_following: "inv v \<Longrightarrow> inv (on_row sub (\<lambda>u. dec_following u) v)"

locale follow_store =
  fixes lost :: bool and key :: "string \<Rightarrow> bool" and view :: "'s \<Rightarrow> db" and follows :: "'s FollowRepository"
  assumes follow_Create: "key a \<Longrightarrow> key b \<Longrightarrow> writes lost view (follows_Create follows a b)
      (\<lambda>v r v'. r = ((a, b) \<notin> db_follows v) \<and> v' = v\<lparr>db_follows := insert (a, b) (db_follows v)\<rparr>)"
    and follow_Delete: "key a \<Longrightarrow> key b \<Longrightarrow> writes lost view (follows_Delete follows a b)
      (\<lambda>v r v'. r = ((a, b) \<in> db_follows v) \<and> v' = v\<lparr>db_follows := db_follows v - {(a, b)}\<rparr>)"

text \<open>A hook that stays outside the tables.\<close>

definition quiet :: "('s \<Rightarrow> db) \<Rightarrow> ('s, 'a) state \<Rightarrow> bool" where
  "quiet view m \<longleftrightarrow> (\<forall>s. view (snd (run_state m s)) = view s)"

lemma quietD: "quiet view m \<Longrightarrow> run_state m s = (x, t) \<Longrightarrow> view t = view s"
  by (metis quiet_def snd_conv)

lemma wp_quiet: "quiet view m \<Longrightarrow> (\<And>x t. view t = view s \<Longrightarrow> Q x t) \<Longrightarrow> wp m Q s"
  by (rule wpI) (blast dest: quietD)

lemma quiet_ret [simp]: "quiet view (ret x)"
  by (simp add: quiet_def)

definition quiet_hook :: "('s \<Rightarrow> db) \<Rightarrow> (string \<Rightarrow> string \<Rightarrow> ('s, unit) state) option \<Rightarrow> bool" where
  "quiet_hook view hook \<longleftrightarrow> (\<forall>h a b. hook = Some h \<longrightarrow> quiet view (h a b))"

lemma quiet_hook_run:
  "quiet_hook view hook \<Longrightarrow> quiet view (case hook of Some h \<Rightarrow> h a b | None \<Rightarrow> ret ())"
  by (cases hook) (auto simp: quiet_hook_def)

section \<open>Likes\<close>

text \<open>The specification of liking and unliking: a row in \<open>likes\<close> and the counter of the post.\<close>

definition abs_like :: "string \<Rightarrow> string \<Rightarrow> db \<Rightarrow> db" where
  "abs_like u p v = (if (u, p) \<in> db_likes v then v
     else on_live p inc_likes (v\<lparr>db_likes := insert (u, p) (db_likes v)\<rparr>))"

definition abs_unlike :: "string \<Rightarrow> string \<Rightarrow> db \<Rightarrow> db" where
  "abs_unlike u p v = (if (u, p) \<notin> db_likes v then v
     else on_live p (\<lambda>p. dec_likes p) (v\<lparr>db_likes := db_likes v - {(u, p)}\<rparr>))"

text \<open>Deleting: the row is marked, and the parent of a reply loses one reply.\<close>

definition abs_delete :: "string \<Rightarrow> time \<Rightarrow> db \<Rightarrow> db" where
  "abs_delete i now v = (case db_posts v i of
     None \<Rightarrow> v
   | Some p \<Rightarrow>
       (let v' = v\<lparr>db_posts := (db_posts v)(i \<mapsto> p\<lparr>Post_DeletedAt := Some now\<rparr>)\<rparr> in
        case Post_ParentPostID p of Some q \<Rightarrow> on_live q (\<lambda>p. dec_replies p) v' | None \<Rightarrow> v'))"

text \<open>Creating: the row is added, and the parent of a reply gains one reply.\<close>

definition abs_create :: "Post \<Rightarrow> db \<Rightarrow> db" where
  "abs_create post v =
     (let v' = v\<lparr>db_posts := (db_posts v)(Post_ID post \<mapsto> post)\<rparr> in
      case Post_ParentPostID post of Some q \<Rightarrow> on_live q inc_replies v' | None \<Rightarrow> v')"

locale post_service = like_store lost key view likes + post_store lost key inv view posts
  for lost :: bool and key :: "string \<Rightarrow> bool" and inv :: "db \<Rightarrow> bool" and view :: "'s \<Rightarrow> db" and likes :: "'s LikeRepository" and posts :: "'s PostRepository"
begin

text \<open>Liking implements its specification, and fails without effect, with one exception: when
  the row is in but the counter cannot be written, the error leaves the row behind. The same
  shape recurs in the other use cases, which are not transactional either.\<close>

lemmas store_rules = wp_rules wp_writes [OF like_Create] wp_writes [OF like_Delete]
  wp_effect [OF post_Get]
  wp_writes [OF inc_Replies] wp_writes [OF dec_Replies] wp_writes [OF inc_Likes] wp_writes [OF dec_Likes]

lemma like_implements:
  assumes hook: "quiet_hook view hook" and keys: "key u" "key p"
  shows "wp (LikePost_Execute posts likes hook u p) (\<lambda>r t. case r of
     Inr _ \<Rightarrow> u \<noteq> [] \<and> p \<noteq> [] \<and> live (db_posts (view s)) p \<noteq> None \<and> view t = abs_like u p (view s)
   | Inl e \<Rightarrow> view t = view s \<or> (u, p) \<notin> db_likes (view s) \<and>
       (view t = (view s)\<lparr>db_likes := insert (u, p) (db_likes (view s))\<rparr> \<and>
          (db_error ''failed to increment likes_count'' e \<or> lost \<and> db_error ''failed to insert like'' e) \<or>
        lost \<and> db_error ''failed to increment likes_count'' e \<and> view t = abs_like u p (view s))) s"
  unfolding LikePost_Execute_def
  by (intro store_rules keys)
    (auto intro!: store_rules keys wp_quiet [OF quiet_hook_run [OF hook]] simp: abs_like_def insert_absorb)

lemma unlike_implements:
  assumes keys: "key u" "key p" and inv: "inv (view s)"
  shows "wp (UnlikePost_Execute posts likes u p) (\<lambda>r t. case r of
     Inr _ \<Rightarrow> u \<noteq> [] \<and> p \<noteq> [] \<and> view t = abs_unlike u p (view s)
   | Inl e \<Rightarrow> view t = view s \<or> (u, p) \<in> db_likes (view s) \<and>
       (view t = (view s)\<lparr>db_likes := db_likes (view s) - {(u, p)}\<rparr> \<and>
          (db_error ''failed to decrement likes_count'' e \<or> lost \<and> db_error ''failed to delete like'' e) \<or>
        lost \<and> db_error ''failed to decrement likes_count'' e \<and> view t = abs_unlike u p (view s))) s"
  unfolding UnlikePost_Execute_def
  by (intro store_rules keys) (auto intro!: store_rules keys simp: abs_unlike_def inv_likes [OF inv])

text \<open>Only the author deletes; a missing or deleted post is not found.\<close>

lemma wp_Delete:
  assumes "key i" and "live (db_posts (view t)) i = Some p"
    and "\<And>e t'. view t' = view t \<Longrightarrow> Q (Inl e) t'"
    and "\<And>e now t'. lost \<Longrightarrow> view t' = (view t)\<lparr>db_posts := (db_posts (view t))(i \<mapsto> p\<lparr>Post_DeletedAt := Some now\<rparr>)\<rparr> \<Longrightarrow> Q (Inl e) t'"
    and "\<And>x now t'. view t' = (view t)\<lparr>db_posts := (db_posts (view t))(i \<mapsto> p\<lparr>Post_DeletedAt := Some now\<rparr>)\<rparr> \<Longrightarrow> Q (Inr x) t'"
  shows "wp (posts_Delete posts i) Q t"
  by (rule wp_writes [OF post_Delete [OF assms(1)]]) (use assms in blast)+

lemma delete_implements:
  assumes key: "key i" and inv: "inv (view s)"
  shows "wp (DeletePost_Execute posts i sub) (\<lambda>r t. case r of
     Inr _ \<Rightarrow> (\<exists>p now. live (db_posts (view s)) i = Some p \<and> Post_UserID p = sub \<and> view t = abs_delete i now (view s))
   | Inl e \<Rightarrow> view t = view s \<or>
       (\<exists>p now. live (db_posts (view s)) i = Some p \<and> Post_UserID p = sub \<and>
          (view t = (view s)\<lparr>db_posts := (db_posts (view s))(i \<mapsto> p\<lparr>Post_DeletedAt := Some now\<rparr>)\<rparr> \<and>
             (db_error ''failed to decrement replies_count'' e \<or> lost \<and> db_error ''failed to delete post'' e) \<or>
           lost \<and> db_error ''failed to decrement replies_count'' e \<and> view t = abs_delete i now (view s)))) s"
proof -
  let ?v = "view s"
  let ?half = "\<lambda>p now. ?v\<lparr>db_posts := (db_posts ?v)(i \<mapsto> p\<lparr>Post_DeletedAt := Some now\<rparr>)\<rparr>"
  define Q where "Q = (\<lambda>(r :: go_error + unit) t. case r of
     Inr _ \<Rightarrow> (\<exists>p now. live (db_posts ?v) i = Some p \<and> Post_UserID p = sub \<and> view t = abs_delete i now ?v)
   | Inl e \<Rightarrow> view t = ?v \<or> (\<exists>p now. live (db_posts ?v) i = Some p \<and> Post_UserID p = sub \<and>
       (view t = ?half p now \<and> (db_error ''failed to decrement replies_count'' e \<or> lost \<and> db_error ''failed to delete post'' e) \<or>
        lost \<and> db_error ''failed to decrement replies_count'' e \<and> view t = abs_delete i now ?v)))"
  have same: "Q (Inl e) t" if "view t = ?v" for e t using that by (simp add: Q_def)
  have rest: "wp (case Post_ParentPostID p of
        Some parent \<Rightarrow> bind_or (posts_DecrementRepliesCount posts parent)
          (DatabaseError ''failed to decrement replies_count'') (\<lambda>_. ret (Inr ()))
      | None \<Rightarrow> ret (Inr ())) Q t"
    if p: "live (db_posts ?v) i = Some p" "Post_UserID p = sub" and t: "view t = ?half p now" for p t now
  proof (cases "Post_ParentPostID p")
    case None
    then show ?thesis using p t by (auto intro!: wp_ret simp: Q_def abs_delete_def live_row [OF p(1)])
  next
    case (Some q)
    have "Q (Inl (DatabaseError ''failed to decrement replies_count'' e)) t'" if "view t' = view t" for e t'
      using p t that by (auto simp: Q_def)
    moreover have full: "view t' = abs_delete i now ?v" if "view t' = on_live q (\<lambda>p. dec_replies p) (view t)" for t'
      using p t that Some by (auto simp: abs_delete_def live_row [OF p(1)] Let_def)
    moreover have "Q (Inr ()) t'" if "view t' = on_live q (\<lambda>p. dec_replies p) (view t)" for t'
      using p full [OF that] by (auto simp: Q_def)
    moreover have "Q (Inl (DatabaseError ''failed to decrement replies_count'' e)) t'"
      if "lost" "view t' = on_live q (\<lambda>p. dec_replies p) (view t)" for e t'
      using p that(1) full [OF that(2)] by (auto simp: Q_def)
    ultimately show ?thesis
      unfolding Some option.case
      by (intro wp_bind_or wp_writes [OF dec_Replies [OF parent_key [OF inv p(1) Some]]])
        (auto intro!: wp_ret simp: t inv_deleted [OF inv p(1)])
  qed
  have half: "Q (Inl (DatabaseError ''failed to delete post'' e)) t"
    if "live (db_posts ?v) i = Some p" "Post_UserID p = sub" "lost" "view t = ?half p now" for e p now t
    using that by (auto simp: Q_def)
  show ?thesis
    unfolding DeletePost_Execute_def Q_def [symmetric]
  proof (intro wp_if wp_bind_or wp_effect [OF post_Get [OF key]], goal_cases)
    case (3 r t)
    then show ?case
      by (cases "live (db_posts ?v) i") (auto intro!: wp_if wp_ret wp_bind_or wp_Delete [OF key] rest intro: same half)
  qed (auto intro!: wp_ret same)
qed

lemma delete_refused:
  assumes "live (db_posts (view s)) i = Some p" and "Post_UserID p \<noteq> sub" and "sub \<noteq> []" and key: "key i"
  shows "wp (DeletePost_Execute posts i sub) (\<lambda>r t. (r = Inl (Forbidden ''you can only delete your own posts'') \<or>
     (\<exists>e. r = Inl (DatabaseError ''failed to load post'' e))) \<and> view t = view s) s"
  unfolding DeletePost_Execute_def
  by (intro store_rules key) (use assms in \<open>auto intro!: store_rules\<close>)

end

section \<open>Creating a post\<close>

text \<open>What creating relies on besides the post repository: the other calls leave the tables
  alone, and no call takes back ids already drawn.\<close>

definition later :: "'z runtime_scheme \<Rightarrow> 'z runtime_scheme \<Rightarrow> bool" where
  "later s t \<longleftrightarrow> rt_ulid t = rt_ulid s \<and> rt_ids s \<le> rt_ids t"

lemma later_refl [simp]: "later s s" and later_trans: "later s t \<Longrightarrow> later t u \<Longrightarrow> later s u"
  by (auto simp: later_def)

definition steady :: "('z runtime_scheme, 'a) state \<Rightarrow> bool" where
  "steady m \<longleftrightarrow> (\<forall>s. later s (snd (run_state m s)))"

lemma steadyI: "(\<And>s. later s (snd (run_state m s))) \<Longrightarrow> steady m"
  by (simp add: steady_def)

lemma wp_effect_steady:
  "effect view m P \<Longrightarrow> steady m \<Longrightarrow> (\<And>e t. view t = view s \<Longrightarrow> later s t \<Longrightarrow> Q (Inl e) t) \<Longrightarrow>
   (\<And>x t. P (view s) x (view t) \<Longrightarrow> later s t \<Longrightarrow> Q (Inr x) t) \<Longrightarrow> wp m Q s"
  by (rule wp_fallible) (metis effect_Inl effect_Inr snd_conv steady_def)+

definition quiet_commit :: "('z runtime_scheme \<Rightarrow> db) \<Rightarrow> (Post \<Rightarrow> ('z runtime_scheme, unit) state) option \<Rightarrow> bool" where
  "quiet_commit view hook \<longleftrightarrow> (\<forall>h p. hook = Some h \<longrightarrow> quiet view (h p) \<and> steady (h p))"

text \<open>The thread root that goes with a parent.\<close>

definition root_of :: "db \<Rightarrow> string option \<Rightarrow> string option \<Rightarrow> bool" where
  "root_of v parent root = (case parent of None \<Rightarrow> root = None
     | Some q \<Rightarrow> \<exists>p. live (db_posts v) q = Some p \<and> root = Some (thread_root p))"

text \<open>A new post of \<open>u\<close>, stored between \<open>s\<close> and \<open>t\<close>: its id is drawn in between.\<close>

definition stored_new :: "'z runtime_scheme \<Rightarrow> 'z runtime_scheme \<Rightarrow> string \<Rightarrow> CreatePostRequest \<Rightarrow> string option \<Rightarrow> Post \<Rightarrow> bool" where
  "stored_new s t u req root post \<longleftrightarrow>
     (\<exists>now n. rt_ids s \<le> n \<and> n < rt_ids t \<and> rt_ulid t = rt_ulid s \<and>
        post = (new_post (rt_ulid s n) u req root)\<lparr>Post_CreatedAt := now, Post_UpdatedAt := now\<rparr>)"

lemma stored_new_later: "later s s' \<Longrightarrow> stored_new s' t u req root p \<Longrightarrow> stored_new s t u req root p"
  unfolding stored_new_def later_def by (metis order_trans)

text \<open>What a post that was created promises: the request is valid, the parent of a reply is live
  and hands its thread root down, and every image belongs to the author.\<close>

definition allowed :: "db \<Rightarrow> (string \<Rightarrow> string option) \<Rightarrow> string \<Rightarrow> CreatePostRequest \<Rightarrow> string option \<Rightarrow> bool" where
  "allowed v own u req root \<longleftrightarrow> u \<noteq> [] \<and> valid_create_request req \<and>
     root_of v (CPReq_ParentPostID req) root \<and> (\<forall>i\<in>set (CPReq_ImageIDs req). own i = Some u)"

text \<open>What storing does: the post and the counter of its parent; an error after the row is in
  leaves it there.\<close>

definition store_outcome :: "db \<Rightarrow> Post \<Rightarrow> go_error + Detail \<Rightarrow> db \<Rightarrow> bool" where
  "store_outcome v p r v' = (case r of
     Inr d \<Rightarrow> Detail_Post d = p \<and> v' = abs_create p v
   | Inl e \<Rightarrow>
       db_error ''failed to increment replies_count'' e \<and> v' = v\<lparr>db_posts := (db_posts v)(Post_ID p \<mapsto> p)\<rparr> \<or>
       db_error ''failed to load post images'' e \<and> v' = abs_create p v)"

locale post_writer = post_store False "\<lambda>_. True" inv view posts
  for inv :: "db \<Rightarrow> bool" and view :: "'z runtime_scheme \<Rightarrow> db" and posts :: "('z runtime_scheme) PostRepository" +
  fixes images :: "('z runtime_scheme) ImageRepository" and tags :: "('z runtime_scheme) TagRepository"
    and extractor :: "string \<Rightarrow> ('z runtime_scheme, string list) fallible"
    and owner :: "'z runtime_scheme \<Rightarrow> string \<Rightarrow> string option"
  assumes post_Create: "effect view (posts_Create posts post imgs tagIDs)
      (\<lambda>v r v'. (\<exists>now. r = post\<lparr>Post_CreatedAt := now, Post_UpdatedAt := now\<rparr>) \<and>
         v' = v\<lparr>db_posts := (db_posts v)(Post_ID post \<mapsto> r)\<rparr>)"
    and view_ids: "view (s\<lparr>rt_ids := n\<rparr>) = view s" and owner_ids: "owner (s\<lparr>rt_ids := n\<rparr>) = owner s"
    and image_Get: "effect (\<lambda>s. (view s, owner s)) (images_GetByID images i)
      (\<lambda>v r v'. v' = v \<and> map_option Image_UserID r = snd v i)"
    and image_List: "effect view (images_ListByPostID images i) (\<lambda>v _ v'. v' = v)"
    and tag_Upsert: "effect view (tags_UpsertByNames tags ns) (\<lambda>v _ v'. v' = v)"
    and extract_quiet: "effect view (extractor c) (\<lambda>v _ v'. v' = v)"
    and post_Get_owner: "effect owner (posts_GetByID posts i) (\<lambda>v _ v'. v' = v)"
    and steady_calls: "steady (posts_GetByID posts i)" "steady (images_GetByID images i)"
      "steady (extractor c)" "steady (tags_UpsertByNames tags ns)" "steady (posts_Create posts post imgs ts)"
      "steady (posts_IncrementRepliesCount posts i)" "steady (images_ListByPostID images i)"
begin

abbreviation create where
  "create hook \<equiv> CreatePost_Execute \<lparr>create_postRepo = posts, create_imageRepo = images,
     create_tagRepo = tags, create_tagExtractor = extractor, create_onCommit = hook\<rparr>"

text \<open>The images of a request are checked one by one, all of them.\<close>

lemma check_images_implements:
  "wp (check_images images u ids) (\<lambda>r t. view t = view s \<and> later s t \<and>
     (\<forall>x. r = Inr x \<longrightarrow> (\<forall>i\<in>set ids. owner s i = Some u))) s"
proof (induction ids arbitrary: s)
  case (Cons i ids)
  show ?case
    unfolding check_images.simps
  proof (intro wp_rules wp_effect_steady [OF image_Get steady_calls(2)], goal_cases)
    case (2 r t)
    show ?case
    proof (cases r)
      case (Some im)
      show ?thesis
      proof (cases "Image_UserID im = u")
        case True
        have "wp (check_images images u ids) (\<lambda>r t'. view t' = view t \<and> later t t' \<and>
           (\<forall>x. r = Inr x \<longrightarrow> (\<forall>i\<in>set ids. owner t i = Some u))) t" by (rule Cons.IH)
        then show ?thesis
          using 2 Some True by (auto intro: wp_mono later_trans)
      qed (use 2 Some in \<open>auto intro!: wp_rules\<close>)
    qed (use 2 in \<open>auto intro!: wp_rules\<close>)
  qed auto
qed (auto intro!: wp_rules)

lemma resolve_root_implements:
  "wp (resolve_root posts parent) (\<lambda>r t. view t = view s \<and> owner t = owner s \<and> later s t \<and>
     (\<forall>root. r = Inr root \<longrightarrow> root_of (view s) parent root)) s"
proof (cases parent)
  case (Some q)
  have "wp (posts_GetByID posts q) (\<lambda>r t. (view t = view s \<and> later s t \<and>
      (\<forall>x. r = Inr x \<longrightarrow> x = live (db_posts (view s)) q)) \<and> owner t = owner s) s"
    by (intro wp_conj wp_effect_steady [OF post_Get [OF TrueI] steady_calls(1)] wp_effect [OF post_Get_owner]) auto
  then show ?thesis
    unfolding resolve_root_def Some
    by (auto intro!: wp_rules elim!: wp_use simp: root_of_def)
qed (auto intro!: wp_rules simp: resolve_root_def root_of_def)

lemma Post_Validate_new:
  "valid_create_request req \<Longrightarrow> u \<noteq> [] \<Longrightarrow> Post_Validate (new_post i u req root) = None"
  by (auto simp: Post_Validate_None new_post_def valid_create_request_def dest: IsULID_not_Nil)

lemma store_post_implements:
  assumes hook: "quiet_commit view hook"
    and req: "valid_create_request req" "u \<noteq> []"
  shows "wp (store_post \<lparr>create_postRepo = posts, create_imageRepo = images,
     create_tagRepo = tags, create_tagExtractor = extractor, create_onCommit = hook\<rparr> u req root ts)
    (\<lambda>r t. (\<exists>e. r = Inl e) \<and> view t = view s \<or>
       (\<exists>p. stored_new s t u req root p \<and> store_outcome (view s) p r (view t))) s"
proof -
  have run_hook: "wp (case hook of Some h \<Rightarrow> h p | None \<Rightarrow> ret ()) Q t"
    if "\<And>x t'. view t' = view t \<Longrightarrow> later t t' \<Longrightarrow> Q x t'" for p Q t
  proof (cases hook)
    case (Some h)
    show ?thesis
      by (rule wpI) (use hook [unfolded quiet_commit_def] Some that in \<open>metis option.simps(5) quietD snd_conv steady_def\<close>)
  qed (use that in \<open>auto intro!: wp_rules\<close>)
  let ?s0 = "s\<lparr>rt_ids := Suc (rt_ids s)\<rparr>"
  let ?new = "\<lambda>now. (new_post (rt_ulid s (rt_ids s)) u req root)\<lparr>Post_CreatedAt := now, Post_UpdatedAt := now\<rparr>"
  define Q where "Q = (\<lambda>r t. (\<exists>e. r = Inl e) \<and> view t = view s \<or>
       (\<exists>p. stored_new s t u req root p \<and> store_outcome (view s) p r (view t)))"
  have unchanged: "Q (Inl e) t" if "view t = view s" for e t using that by (simp add: Q_def)
  have stored: "Q r t"
    if "view t1 = (view s)\<lparr>db_posts := (db_posts (view s))(Post_ID (new_post (rt_ulid s (rt_ids s)) u req root) \<mapsto> ?new now)\<rparr>"
      "later ?s0 t1" "later t1 t" "store_outcome (view s) (?new now) r (view t)" for t1 r t now
    unfolding Q_def stored_new_def
    by (intro disjI2 exI [of _ "?new now"] conjI exI [of _ now] exI [of _ "rt_ids s"])
      (use that later_trans [OF that(2,3)] in \<open>simp_all add: later_def\<close>)
  show ?thesis
    unfolding store_post_def Q_def [symmetric]
    by (auto intro!: wp_rules wp_effect_steady [OF post_Create steady_calls(5)]
        wp_effect_steady [OF inc_Replies [OF TrueI, unfolded writes_False] steady_calls(6)] wp_effect_steady [OF image_List steady_calls(7)] run_hook
        simp: Post_Validate_new req view_ids intro: unchanged)
      (erule (1) stored, blast intro: later_trans later_refl, simp add: store_outcome_def abs_create_def new_post_def)+
qed

lemma create_implements:
  assumes hook: "quiet_commit view hook"
  shows "wp (create hook u req) (\<lambda>r t. (\<exists>e. r = Inl e) \<and> view t = view s \<or>
     (\<exists>rq root p. req = Some rq \<and> allowed (view s) (owner s) u rq root \<and>
        stored_new s t u rq root p \<and> store_outcome (view s) p r (view t))) s"
proof (cases "u = [] \<or> req = None")
  case True
  then show ?thesis by (auto simp: CreatePost_Execute_def intro!: wp_rules)
next
  case False
  then obtain rq where rq: "u \<noteq> []" "req = Some rq" by auto
  show ?thesis
  proof (cases "CreatePostRequest_Validate rq")
    case (Some e)
    then show ?thesis using rq by (auto simp: CreatePost_Execute_def intro!: wp_rules)
  next
    case None
    then have valid: "valid_create_request rq" by (simp add: CreatePostRequest_Validate_iff)
    define Q where "Q = (\<lambda>r t. (\<exists>e. r = Inl e) \<and> view t = view s \<or>
       (\<exists>rq root p. req = Some rq \<and> allowed (view s) (owner s) u rq root \<and>
          stored_new s t u rq root p \<and> store_outcome (view s) p r (view t)))"
    have unchanged: "Q (Inl e) t" if "view t = view s" for e t using that by (simp add: Q_def)
    have store: "wp (store_post \<lparr>create_postRepo = posts, create_imageRepo = images,
        create_tagRepo = tags, create_tagExtractor = extractor, create_onCommit = hook\<rparr> u rq root ts) Q t"
      if "view t = view s" "later s t" "root_of (view s) (CPReq_ParentPostID rq) root"
        "\<forall>i\<in>set (CPReq_ImageIDs rq). owner s i = Some u" for t root ts
    proof (rule wp_mono [OF store_post_implements [OF hook valid rq(1)]])
      fix r t' assume "(\<exists>e. r = Inl e) \<and> view t' = view t \<or>
         (\<exists>p. stored_new t t' u rq root p \<and> store_outcome (view t) p r (view t'))"
      then show "Q r t'"
        using that valid rq stored_new_later [OF that(2)] unfolding Q_def allowed_def by metis
    qed
    show ?thesis
      using rq None unfolding CreatePost_Execute_def Q_def [symmetric]
      by (auto intro!: wp_rules wp_use [OF resolve_root_implements] wp_use [OF check_images_implements]
          wp_effect_steady [OF extract_quiet steady_calls(3)] wp_effect_steady [OF tag_Upsert steady_calls(4)]
          unchanged store) (blast intro: later_trans)
  qed
qed

end

section \<open>The follow graph\<close>

definition abs_follow :: "string \<Rightarrow> string \<Rightarrow> db \<Rightarrow> db" where
  "abs_follow a b v = (if (a, b) \<in> db_follows v then v
     else on_row b inc_followers (on_row a inc_following (v\<lparr>db_follows := insert (a, b) (db_follows v)\<rparr>)))"

definition abs_unfollow :: "string \<Rightarrow> string \<Rightarrow> db \<Rightarrow> db" where
  "abs_unfollow a b v = (if (a, b) \<notin> db_follows v then v
     else on_row b (\<lambda>u. dec_followers u) (on_row a (\<lambda>u. dec_following u) (v\<lparr>db_follows := db_follows v - {(a, b)}\<rparr>)))"

locale follow_service = user_store lost key inv view users + follow_store lost key view follows
  for lost :: bool and key :: "string \<Rightarrow> bool" and inv :: "db \<Rightarrow> bool" and view :: "'s \<Rightarrow> db" and users :: "'s UserRepository" and follows :: "'s FollowRepository"
begin

lemmas graph_rules = wp_rules wp_effect [OF user_Get] wp_writes [OF inc_Followers] wp_writes [OF dec_Followers]
  wp_writes [OF inc_Following] wp_writes [OF dec_Following] wp_writes [OF follow_Create] wp_writes [OF follow_Delete]

text \<open>Following implements its specification and reports the new follower count; nobody follows
  themselves, and only a live user can be followed. An error after the row is in leaves it.\<close>

lemma follow_implements:
  assumes hook: "quiet_hook view hook" and keys: "key a" "key b"
  shows "wp (Follow_Execute users follows hook a b) (\<lambda>r t. case r of
     Inr res \<Rightarrow> (\<exists>u. a \<noteq> [] \<and> b \<noteq> [] \<and> a \<noteq> b \<and> db_users (view s) b = Some u \<and> User_DeletedAt u = None \<and>
        view t = abs_follow a b (view s) \<and> Result_Following res \<and>
        Result_FollowersCount res = (if (a, b) \<in> db_follows (view s) then User_FollowersCount u else inc64 (User_FollowersCount u)))
   | Inl e \<Rightarrow> view t = view s \<or> (a, b) \<notin> db_follows (view s) \<and>
       (view t = (view s)\<lparr>db_follows := insert (a, b) (db_follows (view s))\<rparr> \<and>
          (db_error ''failed to bump following_count'' e \<or> lost \<and> db_error ''failed to create follow'' e) \<or>
        view t = on_row a inc_following ((view s)\<lparr>db_follows := insert (a, b) (db_follows (view s))\<rparr>) \<and>
          (db_error ''failed to bump followers_count'' e \<or> lost \<and> db_error ''failed to bump following_count'' e) \<or>
        lost \<and> db_error ''failed to bump followers_count'' e \<and> view t = abs_follow a b (view s))) s"
  unfolding Follow_Execute_def
  by (intro graph_rules keys)
    (auto intro!: graph_rules keys wp_quiet [OF quiet_hook_run [OF hook]] simp: abs_follow_def insert_absorb Follow_Validate_None)

lemma unfollow_implements:
  assumes keys: "key a" "key b" and inv: "inv (view s)"
  shows "wp (Unfollow_Execute users follows a b) (\<lambda>r t. case r of
     Inr res \<Rightarrow> a \<noteq> [] \<and> b \<noteq> [] \<and> a \<noteq> b \<and> view t = abs_unfollow a b (view s) \<and> \<not> Result_Following res \<and>
        Result_FollowersCount res = countOrZero (db_users (view t) b)
   | Inl e \<Rightarrow> view t = view s \<or> (a, b) \<in> db_follows (view s) \<and>
       (view t = (view s)\<lparr>db_follows := db_follows (view s) - {(a, b)}\<rparr> \<and>
          (db_error ''failed to decrement following_count'' e \<or> lost \<and> db_error ''failed to delete follow'' e) \<or>
        view t = on_row a (\<lambda>u. dec_following u) ((view s)\<lparr>db_follows := db_follows (view s) - {(a, b)}\<rparr>) \<and>
          (db_error ''failed to decrement followers_count'' e \<or> lost \<and> db_error ''failed to decrement following_count'' e) \<or>
        view t = abs_unfollow a b (view s) \<and>
          (db_error ''failed to reload target user'' e \<or> lost \<and> db_error ''failed to decrement followers_count'' e))) s"
  unfolding Unfollow_Execute_def
  by (intro graph_rules keys)
    (auto intro!: graph_rules keys simp: abs_unfollow_def inv_follows [OF inv] inv_following [OF inv_follows [OF inv]])

end

end
