(* ===== verification/Counters.thy ===== *)
theory Counters
  imports Social_Contracts
begin

text \<open>
  The denormalised counters against the rows they count. The three invariants say that on every
  live row \<open>likes_count\<close>, \<open>replies_count\<close>, \<open>followers_count\<close> and \<open>following_count\<close> are exact; the
  abstract operations keep them as long as no counter reaches the end of int64.
\<close>

definition likers_of :: "db \<Rightarrow> string \<Rightarrow> string set" where
  "likers_of v i = {u. (u, i) \<in> db_likes v}"

definition replies_of :: "db \<Rightarrow> string \<Rightarrow> string set" where
  "replies_of v i = {j. \<exists>q. live (db_posts v) j = Some q \<and> Post_ParentPostID q = Some i}"

definition followers_of :: "db \<Rightarrow> string \<Rightarrow> string set" where
  "followers_of v sub = {a. (a, sub) \<in> db_follows v}"

definition following_of :: "db \<Rightarrow> string \<Rightarrow> string set" where
  "following_of v sub = {b. (sub, b) \<in> db_follows v}"

definition posts_ok :: "db \<Rightarrow> bool" where
  "posts_ok v \<longleftrightarrow> finite (dom (db_posts v)) \<and>
     (\<forall>i p. db_posts v i = Some p \<longrightarrow> Post_ID p = i \<and>
        (\<forall>q. Post_ParentPostID p = Some q \<longrightarrow> q \<in> dom (db_posts v) \<and> q \<noteq> i))"

definition likes_exact :: "db \<Rightarrow> bool" where
  "likes_exact v \<longleftrightarrow> finite (db_likes v) \<and> snd ` db_likes v \<subseteq> dom (db_posts v) \<and>
     (\<forall>i p. live (db_posts v) i = Some p \<longrightarrow> Post_LikesCount p = int (card (likers_of v i)))"

definition replies_exact :: "db \<Rightarrow> bool" where
  "replies_exact v \<longleftrightarrow>
     (\<forall>i p. live (db_posts v) i = Some p \<longrightarrow> Post_RepliesCount p = int (card (replies_of v i)))"

definition follows_exact :: "db \<Rightarrow> bool" where
  "follows_exact v \<longleftrightarrow> finite (db_follows v) \<and>
     (\<forall>a b. (a, b) \<in> db_follows v \<longrightarrow> a \<noteq> b \<and> a \<in> dom (db_users v) \<and> b \<in> dom (db_users v)) \<and>
     (\<forall>sub u. db_users v sub = Some u \<longrightarrow>
        User_FollowersCount u = int (card (followers_of v sub)) \<and>
        User_FollowingCount u = int (card (following_of v sub)))"

section \<open>Counting\<close>

lemma live_on_live:
  "(\<And>p. Post_DeletedAt (f p) = Post_DeletedAt p) \<Longrightarrow>
   live (db_posts (on_live i f v)) j = (if j = i then map_option f (live (db_posts v) i) else live (db_posts v) j)"
  by (auto simp: live_def on_live_def split: option.split)

lemma on_live_fields [simp]:
  "db_likes (on_live i f v) = db_likes v" "db_users (on_live i f v) = db_users v"
  "db_follows (on_live i f v) = db_follows v" "dom (db_posts (on_live i f v)) = dom (db_posts v)"
  by (auto simp: on_live_def)

lemma on_row_fields [simp]:
  "db_likes (on_row i f v) = db_likes v" "db_posts (on_row i f v) = db_posts v"
  "db_follows (on_row i f v) = db_follows v" "dom (db_users (on_row i f v)) = dom (db_users v)"
  "db_users (on_row i f v) = (db_users v)(i := map_option f (db_users v i))"
  by (auto simp: on_row_def)

lemma likers_of_cong: "db_likes v = db_likes w \<Longrightarrow> likers_of v = likers_of w"
  by (simp add: likers_of_def fun_eq_iff)

lemma finite_likers_of: "finite (db_likes v) \<Longrightarrow> finite (likers_of v i)"
  by (rule finite_subset [of _ "fst ` db_likes v"]) (force simp: likers_of_def)+

lemma card_likers_of: "finite (db_likes v) \<Longrightarrow> card (likers_of v i) \<le> card (db_likes v)"
proof -
  assume fin: "finite (db_likes v)"
  have "likers_of v i \<subseteq> fst ` db_likes v" by (force simp: likers_of_def)
  then have "card (likers_of v i) \<le> card (fst ` db_likes v)" using fin by (intro card_mono) auto
  also have "\<dots> \<le> card (db_likes v)" using fin by (rule card_image_le)
  finally show ?thesis .
qed

lemma likes_exactD:
  "likes_exact v \<Longrightarrow> live (db_posts v) i = Some p \<Longrightarrow> Post_LikesCount p = int (card (likers_of v i))"
  by (simp add: likes_exact_def)

section \<open>Likes\<close>

lemma likes_exact_like:
  assumes ok: "likes_exact v" and p: "live (db_posts v) p \<noteq> None" and small: "int (card (db_likes v)) < max_int64"
  shows "likes_exact (abs_like u p v)"
proof (cases "(u, p) \<in> db_likes v")
  case False
  let ?w = "on_live p inc_likes (v\<lparr>db_likes := insert (u, p) (db_likes v)\<rparr>)"
  have fin: "finite (db_likes v)" using ok by (simp add: likes_exact_def)
  have likers: "likers_of ?w i = (if i = p then insert u (likers_of v p) else likers_of v i)" for i
    by (auto simp: likers_of_def)
  have new: "u \<notin> likers_of v p" using False by (simp add: likers_of_def)
  have bound: "int (card (likers_of v p)) < max_int64" using card_likers_of [OF fin, of p] small by linarith
  have "Post_LikesCount q = int (card (likers_of ?w i))" if lq: "live (db_posts ?w) i = Some q" for i q
  proof (cases "i = p")
    case True
    then obtain q0 where q0: "live (db_posts v) p = Some q0" "q = inc_likes q0"
      using lq by (auto simp: live_on_live)
    then show ?thesis
      using likes_exactD [OF ok q0(1)] new bound finite_likers_of [OF fin, of p] True by (simp add: likers)
  qed (use lq likes_exactD [OF ok] in \<open>simp add: live_on_live likers\<close>)
  moreover have "snd ` db_likes ?w \<subseteq> dom (db_posts ?w)"
    using ok p by (auto simp: likes_exact_def live_def split: option.splits)
  moreover have "finite (db_likes ?w)" using fin by simp
  ultimately have "likes_exact ?w" unfolding likes_exact_def by blast
  then show ?thesis using False by (simp add: abs_like_def)
qed (use ok in \<open>simp add: abs_like_def\<close>)

lemma likes_exact_unlike:
  assumes ok: "likes_exact v" and small: "int (card (db_likes v)) \<le> max_int64"
  shows "likes_exact (abs_unlike u p v)"
proof (cases "(u, p) \<in> db_likes v")
  case True
  let ?w = "on_live p (\<lambda>p. dec_likes p) (v\<lparr>db_likes := db_likes v - {(u, p)}\<rparr>)"
  have fin: "finite (db_likes v)" using ok by (simp add: likes_exact_def)
  have likers: "likers_of ?w i = (if i = p then likers_of v p - {u} else likers_of v i)" for i
    by (auto simp: likers_of_def)
  have old: "u \<in> likers_of v p" using True by (simp add: likers_of_def)
  then have pos: "0 < card (likers_of v p)" using finite_likers_of [OF fin, of p] by (auto simp: card_gt_0_iff)
  have bound: "int (card (likers_of v p)) \<le> max_int64" using card_likers_of [OF fin, of p] small by linarith
  have "Post_LikesCount q = int (card (likers_of ?w i))" if lq: "live (db_posts ?w) i = Some q" for i q
  proof (cases "i = p")
    case True
    then obtain q0 where q0: "live (db_posts v) p = Some q0" "q = dec_likes q0"
      using lq by (auto simp: live_on_live)
    then show ?thesis
      using likes_exactD [OF ok q0(1)] old pos bound finite_likers_of [OF fin, of p] True
      by (simp add: likers of_nat_diff)
  qed (use lq likes_exactD [OF ok] in \<open>simp add: live_on_live likers\<close>)
  moreover have "snd ` db_likes ?w \<subseteq> dom (db_posts ?w)"
    using ok by (auto simp: likes_exact_def)
  moreover have "finite (db_likes ?w)" using fin by simp
  ultimately have "likes_exact ?w" unfolding likes_exact_def by blast
  then show ?thesis using True by (simp add: abs_unlike_def)
qed (use ok in \<open>simp add: abs_unlike_def\<close>)

section \<open>Replies\<close>

lemma replies_exactD:
  "replies_exact v \<Longrightarrow> live (db_posts v) i = Some p \<Longrightarrow> Post_RepliesCount p = int (card (replies_of v i))"
  by (simp add: replies_exact_def)

lemma finite_replies_of: "posts_ok v \<Longrightarrow> finite (replies_of v i)"
  by (rule finite_subset [of _ "dom (db_posts v)"])
    (auto simp: posts_ok_def replies_of_def live_def split: option.splits if_splits)

lemma card_replies_of: "posts_ok v \<Longrightarrow> card (replies_of v i) \<le> card (dom (db_posts v))"
  by (rule card_mono) (auto simp: posts_ok_def replies_of_def live_def split: option.splits if_splits)

lemma replies_of_on_live:
  "(\<And>p. Post_DeletedAt (f p) = Post_DeletedAt p) \<Longrightarrow> (\<And>p. Post_ParentPostID (f p) = Post_ParentPostID p) \<Longrightarrow>
   replies_of (on_live k f v) i = replies_of v i"
  by (auto simp: replies_of_def live_on_live)

lemma on_live_row:
  "db_posts (on_live k f v) i = Some p \<Longrightarrow> \<exists>q. db_posts v i = Some q \<and> (p = q \<or> p = f q)"
  by (auto simp: on_live_def split: if_splits)

lemma posts_ok_on_live:
  assumes "posts_ok v" and f: "\<And>p. Post_ID (f p) = Post_ID p" "\<And>p. Post_ParentPostID (f p) = Post_ParentPostID p"
  shows "posts_ok (on_live k f v)"
  unfolding posts_ok_def on_live_fields
proof (intro conjI allI impI)
  show "finite (dom (db_posts v))" using assms(1) by (simp add: posts_ok_def)
  fix i p assume "db_posts (on_live k f v) i = Some p"
  then obtain q where q: "db_posts v i = Some q" "p = q \<or> p = f q" by (blast dest: on_live_row)
  have ok: "Post_ID q = i" "\<And>r. Post_ParentPostID q = Some r \<Longrightarrow> r \<in> dom (db_posts v) \<and> r \<noteq> i"
    using assms(1) q(1) unfolding posts_ok_def by blast+
  show "Post_ID p = i" using q(2) f ok(1) by auto
  show "r \<in> dom (db_posts v)" "r \<noteq> i" if "Post_ParentPostID p = Some r" for r
    using q(2) f ok(2) that by auto
qed

lemma likes_exact_on_live:
  assumes "likes_exact v" and f: "\<And>p. Post_DeletedAt (f p) = Post_DeletedAt p" "\<And>p. Post_LikesCount (f p) = Post_LikesCount p"
  shows "likes_exact (on_live k f v)"
  unfolding likes_exact_def on_live_fields
proof (intro conjI allI impI)
  show "finite (db_likes v)" "snd ` db_likes v \<subseteq> dom (db_posts v)" using assms(1) by (simp_all add: likes_exact_def)
  fix i p assume "live (db_posts (on_live k f v)) i = Some p"
  then obtain q where "live (db_posts v) i = Some q" "p = q \<or> p = f q"
    by (auto simp: live_on_live [OF f(1)] split: if_splits)
  then show "Post_LikesCount p = int (card (likers_of (on_live k f v) i))"
    using likes_exactD [OF assms(1)] f(2) likers_of_cong [of "on_live k f v" v] by auto
qed

text \<open>Adding a post with a new id.\<close>

lemma new_post_views:
  assumes ok: "posts_ok v" and new: "Post_ID p \<notin> dom (db_posts v)" and alive: "Post_DeletedAt p = None"
  defines "w \<equiv> v\<lparr>db_posts := (db_posts v)(Post_ID p \<mapsto> p)\<rparr>"
  shows "live (db_posts w) i = (if i = Post_ID p then Some p else live (db_posts v) i)"
    and "replies_of w i = (if Post_ParentPostID p = Some i then insert (Post_ID p) (replies_of v i) else replies_of v i)"
    and "Post_ID p \<notin> replies_of v i" and "replies_of v (Post_ID p) = {}"
proof -
  show l: "live (db_posts w) i = (if i = Post_ID p then Some p else live (db_posts v) i)" for i
    using alive by (simp add: w_def live_def)
  have n: "live (db_posts v) (Post_ID p) = None" using new by (auto simp: live_def split: option.split)
  show "Post_ID p \<notin> replies_of v i" using n by (simp add: replies_of_def)
  show "replies_of v (Post_ID p) = {}"
    using ok new by (auto simp: replies_of_def live_def posts_ok_def split: option.splits if_splits)
  show "replies_of w i = (if Post_ParentPostID p = Some i then insert (Post_ID p) (replies_of v i) else replies_of v i)"
    using n by (auto simp: replies_of_def l)
qed

lemma abs_create_counts:
  assumes ok: "posts_ok v" "likes_exact v" "replies_exact v" and new: "Post_ID p \<notin> dom (db_posts v)"
    and fresh: "Post_DeletedAt p = None" "Post_LikesCount p = 0" "Post_RepliesCount p = 0"
    and parent: "\<And>q. Post_ParentPostID p = Some q \<Longrightarrow> live (db_posts v) q \<noteq> None"
    and small: "int (card (dom (db_posts v))) < max_int64"
  shows "posts_ok (abs_create p v)" "likes_exact (abs_create p v)" "replies_exact (abs_create p v)"
proof -
  define w where "w = v\<lparr>db_posts := (db_posts v)(Post_ID p \<mapsto> p)\<rparr>"
  note views = new_post_views [OF ok(1) new fresh(1), folded w_def]
  have par: "q \<in> dom (db_posts v) \<and> q \<noteq> Post_ID p" if "Post_ParentPostID p = Some q" for q
    using parent [OF that] new by (auto simp: live_def split: option.splits)
  have w_ok: "posts_ok w"
    using ok(1) par by (fastforce simp: posts_ok_def w_def split: if_splits)
  have no_likes: "likers_of v (Post_ID p) = {}"
    using ok(2) new by (force simp: likes_exact_def likers_of_def)
  have w_likes: "likes_exact w"
  proof -
    have "db_likes w = db_likes v" "dom (db_posts w) = insert (Post_ID p) (dom (db_posts v))" by (auto simp: w_def)
    then show ?thesis
      using ok(2) no_likes fresh likers_of_cong [of w v] by (auto simp: likes_exact_def views(1))
  qed
  have a: "abs_create p v = (case Post_ParentPostID p of Some q \<Rightarrow> on_live q inc_replies w | None \<Rightarrow> w)"
    by (simp add: abs_create_def w_def Let_def split: option.split)
  show "posts_ok (abs_create p v)"
    using w_ok unfolding a by (auto intro!: posts_ok_on_live split: option.split)
  show "likes_exact (abs_create p v)"
    using w_likes unfolding a by (auto intro!: likes_exact_on_live split: option.split)
  show "replies_exact (abs_create p v)"
    unfolding replies_exact_def
  proof (intro allI impI)
    fix i r assume r: "live (db_posts (abs_create p v)) i = Some r"
    have reps: "replies_of (abs_create p v) i = replies_of w i"
      unfolding a by (auto simp: replies_of_on_live split: option.split)
    show "Post_RepliesCount r = int (card (replies_of (abs_create p v) i))"
    proof (cases "Post_ParentPostID p = Some i")
      case True
      then obtain r0 where r0: "live (db_posts v) i = Some r0" "r = inc_replies r0"
        using r par [OF True] unfolding a by (auto simp: live_on_live views(1))
      have "int (card (replies_of v i)) < max_int64" using card_replies_of [OF ok(1), of i] small by linarith
      then show ?thesis
        using r0 replies_exactD [OF ok(3) r0(1)] True views(3) finite_replies_of [OF ok(1)] reps
        by (simp add: views(2))
    next
      case False
      then have "live (db_posts w) i = Some r"
        using r unfolding a by (auto simp: live_on_live split: option.splits)
      then show ?thesis
        using False reps replies_exactD [OF ok(3)] views(4) fresh by (auto simp: views(1,2) split: if_splits)
    qed
  qed
qed

text \<open>Deleting a live post.\<close>

lemma abs_delete_counts:
  assumes ok: "posts_ok v" "likes_exact v" "replies_exact v" and p: "live (db_posts v) k = Some p"
    and small: "int (card (dom (db_posts v))) \<le> max_int64"
  shows "posts_ok (abs_delete k now v)" "likes_exact (abs_delete k now v)" "replies_exact (abs_delete k now v)"
proof -
  define w where "w = v\<lparr>db_posts := (db_posts v)(k \<mapsto> p\<lparr>Post_DeletedAt := Some now\<rparr>)\<rparr>"
  have row: "db_posts v k = Some p" using p by (auto simp: live_def split: option.splits if_splits)
  have a: "abs_delete k now v = (case Post_ParentPostID p of Some q \<Rightarrow> on_live q (\<lambda>p. dec_replies p) w | None \<Rightarrow> w)"
    by (simp add: abs_delete_def row w_def Let_def split: option.split)
  have lw: "live (db_posts w) i = (if i = k then None else live (db_posts v) i)" for i
    by (simp add: w_def live_def)
  have w_ok: "posts_ok w" using ok(1) row by (fastforce simp: posts_ok_def w_def split: if_splits)
  have domw: "dom (db_posts w) = dom (db_posts v)" using row by (auto simp: w_def)
  have w_likes: "likes_exact w"
    using ok(2) likers_of_cong [of w v] domw by (simp add: likes_exact_def lw) (simp add: w_def)
  show "posts_ok (abs_delete k now v)"
    using w_ok unfolding a by (auto intro!: posts_ok_on_live split: option.split)
  show "likes_exact (abs_delete k now v)"
    using w_likes unfolding a by (auto intro!: likes_exact_on_live split: option.split)
  have rw: "replies_of w i = replies_of v i - {k}" for i by (auto simp: replies_of_def lw)
  show "replies_exact (abs_delete k now v)"
    unfolding replies_exact_def
  proof (intro allI impI)
    fix i r assume r: "live (db_posts (abs_delete k now v)) i = Some r"
    have reps: "replies_of (abs_delete k now v) i = replies_of v i - {k}"
      unfolding a by (auto simp: replies_of_on_live rw split: option.split)
    show "Post_RepliesCount r = int (card (replies_of (abs_delete k now v) i))"
    proof (cases "Post_ParentPostID p = Some i")
      case True
      then have "i \<noteq> k" using ok(1) row by (auto simp: posts_ok_def)
      then obtain r0 where r0: "live (db_posts v) i = Some r0" "r = dec_replies r0"
        using r True unfolding a by (auto simp: live_on_live lw)
      have k: "k \<in> replies_of v i" using p True by (simp add: replies_of_def)
      then have "0 < card (replies_of v i)" using finite_replies_of [OF ok(1), of i] by (auto simp: card_gt_0_iff)
      moreover have "int (card (replies_of v i)) \<le> max_int64" using card_replies_of [OF ok(1), of i] small by linarith
      ultimately show ?thesis
        using r0 replies_exactD [OF ok(3) r0(1)] k finite_replies_of [OF ok(1)] reps by (simp add: of_nat_diff)
    next
      case False
      then have l: "live (db_posts v) i = Some r"
        using r unfolding a by (auto simp: live_on_live lw split: option.splits if_splits)
      have "k \<notin> replies_of v i" using p False by (simp add: replies_of_def)
      then show ?thesis using l reps replies_exactD [OF ok(3) l] by simp
    qed
  qed
qed

section \<open>Follows\<close>

lemma follows_exactD:
  assumes "follows_exact v" and "db_users v sub = Some u"
  shows "User_FollowersCount u = int (card (followers_of v sub))"
    "User_FollowingCount u = int (card (following_of v sub))"
  using assms by (auto simp: follows_exact_def)

lemma finite_follow_sides:
  assumes "finite (db_follows v)"
  shows "finite (followers_of v sub)" "finite (following_of v sub)"
    "card (followers_of v sub) \<le> card (db_follows v)" "card (following_of v sub) \<le> card (db_follows v)"
proof -
  have sub: "followers_of v sub \<subseteq> fst ` db_follows v" "following_of v sub \<subseteq> snd ` db_follows v"
    by (force simp: followers_of_def following_of_def)+
  have fin: "finite (fst ` db_follows v)" "finite (snd ` db_follows v)" using assms by auto
  show "finite (followers_of v sub)" "finite (following_of v sub)"
    using finite_subset [OF sub(1) fin(1)] finite_subset [OF sub(2) fin(2)] by auto
  show "card (followers_of v sub) \<le> card (db_follows v)"
    using card_mono [OF fin(1) sub(1)] card_image_le [OF assms, of fst] by linarith
  show "card (following_of v sub) \<le> card (db_follows v)"
    using card_mono [OF fin(2) sub(2)] card_image_le [OF assms, of snd] by linarith
qed

text \<open>Changing one edge changes the counters of its two ends; \<open>d\<close> is the change.\<close>

lemma follows_exact_edge:
  assumes ok: "follows_exact v" and ne: "a \<noteq> b" and fin: "finite (db_follows w)"
    and rows: "\<And>x y. (x, y) \<in> db_follows w \<Longrightarrow> (x, y) \<in> db_follows v \<or> (x, y) = (a, b)"
    and ends: "a \<in> dom (db_users v)" "b \<in> dom (db_users v)"
    and users: "db_users w = (db_users v)(a := map_option f (db_users v a), b := map_option g (db_users v b))"
    and cards: "\<And>sub. int (card (followers_of w sub)) = int (card (followers_of v sub)) + (if sub = b then d else 0)"
      "\<And>sub. int (card (following_of w sub)) = int (card (following_of v sub)) + (if sub = a then d else 0)"
    and f: "\<And>u. db_users v a = Some u \<Longrightarrow> User_FollowersCount (f u) = User_FollowersCount u \<and>
        User_FollowingCount (f u) = User_FollowingCount u + d"
    and g: "\<And>u. db_users v b = Some u \<Longrightarrow> User_FollowingCount (g u) = User_FollowingCount u \<and>
        User_FollowersCount (g u) = User_FollowersCount u + d"
  shows "follows_exact w"
  unfolding follows_exact_def
proof (intro conjI allI impI)
  show "finite (db_follows w)" by (rule fin)
  have dom: "dom (db_users w) = dom (db_users v)" unfolding users using ends by auto
  show "x \<noteq> y" "x \<in> dom (db_users w)" "y \<in> dom (db_users w)" if "(x, y) \<in> db_follows w" for x y
    using rows [OF that] ok ne ends unfolding dom by (auto simp: follows_exact_def)
  fix sub u assume u: "db_users w sub = Some u"
  consider "sub = a" | "sub = b" "sub \<noteq> a" | "sub \<noteq> a" "sub \<noteq> b" by blast
  then have "User_FollowersCount u = int (card (followers_of w sub)) \<and>
      User_FollowingCount u = int (card (following_of w sub))"
    by cases (use u ne cards f g follows_exactD [OF ok] users in auto)
  then show "User_FollowersCount u = int (card (followers_of w sub))"
    "User_FollowingCount u = int (card (following_of w sub))" by blast+
qed

lemma follows_exact_follow:
  assumes ok: "follows_exact v" and ne: "a \<noteq> b" and rows: "a \<in> dom (db_users v)" "b \<in> dom (db_users v)"
    and small: "int (card (db_follows v)) < max_int64"
  shows "follows_exact (abs_follow a b v)"
proof (cases "(a, b) \<in> db_follows v")
  case False
  have fin: "finite (db_follows v)" using ok by (simp add: follows_exact_def)
  let ?w = "on_row b inc_followers (on_row a inc_following (v\<lparr>db_follows := insert (a, b) (db_follows v)\<rparr>))"
  have sides: "followers_of ?w sub = (if sub = b then insert a (followers_of v sub) else followers_of v sub)"
    "following_of ?w sub = (if sub = a then insert b (following_of v sub) else following_of v sub)" for sub
    by (auto simp: followers_of_def following_of_def)
  have new: "a \<notin> followers_of v b" "b \<notin> following_of v a" using False by (simp_all add: followers_of_def following_of_def)
  have bound: "int (card (followers_of v sub)) < max_int64" "int (card (following_of v sub)) < max_int64" for sub
    using finite_follow_sides(3,4) [OF fin, of sub] small by linarith+
  have "follows_exact ?w"
    by (rule follows_exact_edge [OF ok ne, where f = inc_following and g = inc_followers and d = 1])
      (use fin rows ne new bound finite_follow_sides [OF fin] follows_exactD [OF ok] in \<open>auto simp: sides\<close>)
  then show ?thesis using False by (simp add: abs_follow_def)
qed (use ok in \<open>simp add: abs_follow_def\<close>)

lemma follows_exact_unfollow:
  assumes ok: "follows_exact v" and small: "int (card (db_follows v)) \<le> max_int64"
  shows "follows_exact (abs_unfollow a b v)"
proof (cases "(a, b) \<in> db_follows v")
  case True
  have fin: "finite (db_follows v)" using ok by (simp add: follows_exact_def)
  have ne: "a \<noteq> b" and rows: "a \<in> dom (db_users v)" "b \<in> dom (db_users v)"
    using ok True by (auto simp: follows_exact_def)
  let ?w = "on_row b (\<lambda>u. dec_followers u) (on_row a (\<lambda>u. dec_following u) (v\<lparr>db_follows := db_follows v - {(a, b)}\<rparr>))"
  have sides: "followers_of ?w sub = (if sub = b then followers_of v sub - {a} else followers_of v sub)"
    "following_of ?w sub = (if sub = a then following_of v sub - {b} else following_of v sub)" for sub
    by (auto simp: followers_of_def following_of_def)
  have old: "a \<in> followers_of v b" "b \<in> following_of v a" using True by (simp_all add: followers_of_def following_of_def)
  then have pos: "0 < card (followers_of v b)" "0 < card (following_of v a)"
    using finite_follow_sides [OF fin] by (auto simp: card_gt_0_iff)
  have bound: "int (card (followers_of v sub)) \<le> max_int64" "int (card (following_of v sub)) \<le> max_int64" for sub
    using finite_follow_sides(3,4) [OF fin, of sub] small by linarith+
  have "follows_exact ?w"
    by (rule follows_exact_edge [OF ok ne, where f = "\<lambda>u. dec_following u" and g = "\<lambda>u. dec_followers u" and d = "-1"])
      (use fin rows ne old pos bound finite_follow_sides [OF fin] follows_exactD [OF ok] in \<open>auto simp: sides of_nat_diff\<close>)
  then show ?thesis using True by (simp add: abs_unfollow_def)
qed (use ok in \<open>simp add: abs_unfollow_def\<close>)

end
