(* ===== verification/Atomicity.thy ===== *)
theory Atomicity
  imports Social_Contracts
begin

text \<open>
  On a backend whose calls do not fail the use cases are atomic: an error response means that
  nothing was written. The locales add to the contracts of \<open>Social_Contracts\<close> that the calls
  behind the first write succeed; without it an error may leave half of the work behind, which is
  what the other disjunct of the lemmas there says.
\<close>

definition reliable :: "('s, 'a) fallible \<Rightarrow> bool" where
  "reliable m \<longleftrightarrow> (\<forall>s. \<exists>x t. run_state m s = (Inr x, t))"

lemma wp_reliable:
  "writes lost view m P \<Longrightarrow> reliable m \<Longrightarrow> (\<And>x t. P (view s) x (view t) \<Longrightarrow> Q (Inr x) t) \<Longrightarrow> wp m Q s"
  by (rule wpI) (fastforce simp: writes_def reliable_def)

lemma wp_succeeds: "reliable m \<Longrightarrow> (\<And>x t. Q (Inr x) t) \<Longrightarrow> wp m Q s"
  by (rule wpI) (metis prod.inject reliable_def)

locale atomic_posts = post_service False key inv view likes posts
  for key :: "string \<Rightarrow> bool" and inv :: "db \<Rightarrow> bool" and view :: "'s \<Rightarrow> db" and likes :: "'s LikeRepository" and posts :: "'s PostRepository" +
  assumes reliable_calls: "reliable (posts_IncrementLikesCount posts i)" "reliable (posts_DecrementLikesCount posts i)"
    "reliable (posts_DecrementRepliesCount posts i)"
begin

lemmas atomic_rules = wp_rules wp_effect [OF like_Create [unfolded writes_False]] wp_effect [OF like_Delete [unfolded writes_False]]
  wp_effect [OF post_Get] wp_reliable [OF inc_Likes reliable_calls(1)]
  wp_reliable [OF dec_Likes reliable_calls(2)] wp_reliable [OF dec_Replies reliable_calls(3)]

lemma like_atomic:
  assumes hook: "quiet_hook view hook" and keys: "key u" "key p"
  shows "wp (LikePost_Execute posts likes hook u p) (\<lambda>r t. case r of
     Inr _ \<Rightarrow> u \<noteq> [] \<and> p \<noteq> [] \<and> live (db_posts (view s)) p \<noteq> None \<and> view t = abs_like u p (view s)
   | Inl e \<Rightarrow> view t = view s) s"
  unfolding LikePost_Execute_def
  by (intro atomic_rules keys)
    (auto intro!: atomic_rules keys wp_quiet [OF quiet_hook_run [OF hook]] simp: abs_like_def insert_absorb)

lemma unlike_atomic:
  assumes keys: "key u" "key p" and inv: "inv (view s)"
  shows "wp (UnlikePost_Execute posts likes u p) (\<lambda>r t. case r of
     Inr _ \<Rightarrow> u \<noteq> [] \<and> p \<noteq> [] \<and> view t = abs_unlike u p (view s)
   | Inl e \<Rightarrow> view t = view s) s"
  unfolding UnlikePost_Execute_def
  by (intro atomic_rules keys) (auto intro!: atomic_rules keys simp: abs_unlike_def inv_likes [OF inv])

text \<open>Deleting fails late only when the counter of the parent cannot be written.\<close>

lemma delete_late: "wp (DeletePost_Execute posts i sub) (\<lambda>r t. \<forall>e. r = Inl e \<longrightarrow> \<not> db_error ''failed to decrement replies_count'' e) s"
  unfolding DeletePost_Execute_def
  by (auto intro!: wp_rules wp_fallible [of "posts_GetByID posts i"] wp_fallible [of "posts_Delete posts i"]
      wp_succeeds [OF reliable_calls(3)] simp: db_error_def error_constructors)

lemma delete_atomic:
  assumes key: "key i" and inv: "inv (view s)"
  shows "wp (DeletePost_Execute posts i sub) (\<lambda>r t. case r of
     Inr _ \<Rightarrow> (\<exists>p now. live (db_posts (view s)) i = Some p \<and> Post_UserID p = sub \<and> view t = abs_delete i now (view s))
   | Inl e \<Rightarrow> view t = view s) s"
  by (rule wp_mono [OF wp_conj [OF delete_implements [OF key inv] delete_late]]) (auto split: sum.splits)

end

locale atomic_graph = follow_service False key inv view users follows
  for key :: "string \<Rightarrow> bool" and inv :: "db \<Rightarrow> bool" and view :: "'s \<Rightarrow> db" and users :: "'s UserRepository" and follows :: "'s FollowRepository" +
  assumes reliable_counts: "reliable (users_IncrementFollowingCount users i)" "reliable (users_IncrementFollowersCount users i)"
    "reliable (users_DecrementFollowingCount users i)" "reliable (users_DecrementFollowersCount users i)"
    "reliable (users_GetBySub users i)"
begin

lemmas atomic_graph_rules = wp_rules wp_reliable [OF writes_effect [OF user_Get] reliable_counts(5)]
  wp_reliable [OF inc_Followers reliable_counts(2)] wp_reliable [OF dec_Followers reliable_counts(4)]
  wp_reliable [OF inc_Following reliable_counts(1)] wp_reliable [OF dec_Following reliable_counts(3)]
  wp_effect [OF follow_Create [unfolded writes_False]] wp_effect [OF follow_Delete [unfolded writes_False]]

lemma follow_atomic:
  assumes hook: "quiet_hook view hook" and keys: "key a" "key b"
  shows "wp (Follow_Execute users follows hook a b) (\<lambda>r t. case r of
     Inr res \<Rightarrow> (\<exists>u. a \<noteq> [] \<and> b \<noteq> [] \<and> a \<noteq> b \<and> db_users (view s) b = Some u \<and> User_DeletedAt u = None \<and>
        view t = abs_follow a b (view s) \<and> Result_Following res \<and>
        Result_FollowersCount res = (if (a, b) \<in> db_follows (view s) then User_FollowersCount u else inc64 (User_FollowersCount u)))
   | Inl e \<Rightarrow> view t = view s) s"
  unfolding Follow_Execute_def
  by (intro atomic_graph_rules keys)
    (auto intro!: atomic_graph_rules keys wp_quiet [OF quiet_hook_run [OF hook]] simp: abs_follow_def insert_absorb Follow_Validate_None)

lemma unfollow_atomic:
  assumes keys: "key a" "key b" and inv: "inv (view s)"
  shows "wp (Unfollow_Execute users follows a b) (\<lambda>r t. case r of
     Inr res \<Rightarrow> a \<noteq> [] \<and> b \<noteq> [] \<and> a \<noteq> b \<and> view t = abs_unfollow a b (view s) \<and> \<not> Result_Following res \<and>
        Result_FollowersCount res = countOrZero (db_users (view t) b)
   | Inl e \<Rightarrow> view t = view s) s"
  unfolding Unfollow_Execute_def
  by (intro atomic_graph_rules keys) (auto intro!: atomic_graph_rules keys
      simp: abs_unfollow_def inv_follows [OF inv] inv_following [OF inv_follows [OF inv]])

end

text \<open>Creating: the errors that leave a row behind are those of the calls after the first write.\<close>

definition late_error :: "go_error \<Rightarrow> bool" where
  "late_error e \<longleftrightarrow> db_error ''failed to increment replies_count'' e \<or> db_error ''failed to load post images'' e"

lemma late_error_simps [simp]:
  "\<not> late_error (NotFound m)" "\<not> late_error (Forbidden m)" "\<not> late_error (Unauthorized m)" "\<not> late_error (InvalidRequest m x)"
  "\<not> late_error (ValidationFailed m)" "\<not> late_error (InternalServer m x)"
  "\<not> late_error (DatabaseError ''failed to load image'' err)" "\<not> late_error (DatabaseError ''failed to load parent post'' err)"
  "\<not> late_error (DatabaseError ''failed to create post'' err)" "\<not> late_error (DatabaseError ''failed to upsert tags'' err)"
  by (simp_all add: late_error_def db_error_def error_constructors)

definition early :: "('s, 'a) fallible \<Rightarrow> bool" where
  "early m \<longleftrightarrow> (\<forall>s. wp m (\<lambda>r t. \<forall>e. r = Inl e \<longrightarrow> \<not> late_error e) s)"

lemma early_ret: "early (ret (Inr x))" "\<not> late_error e \<Longrightarrow> early (ret (Inl e))"
  by (simp_all add: early_def wp_def)

lemma early_bind: "(\<And>x. early (f x)) \<Longrightarrow> early (n \<bind> f)"
  by (simp add: early_def wp_bind wpI)

lemma early_bind_or: "(\<And>e. \<not> late_error (wrap e)) \<Longrightarrow> (\<And>x. early (k x)) \<Longrightarrow> early (bind_or m wrap k)"
  by (auto simp: early_def intro!: wp_rules wp_fallible)

lemma early_bind_id: "early m \<Longrightarrow> (\<And>x. early (k x)) \<Longrightarrow> early (bind_or m id k)"
  unfolding early_def by (intro allI wp_bind_or) (erule allE, erule wp_use, simp_all)

lemma early_reliable: "reliable m \<Longrightarrow> (\<And>x. early (k x)) \<Longrightarrow> early (bind_or m wrap k)"
  by (auto simp: early_def intro!: wp_rules wp_succeeds)

lemma early_case:
  "(x = None \<Longrightarrow> early m) \<Longrightarrow> (\<And>y. x = Some y \<Longrightarrow> early (f y)) \<Longrightarrow> early (case x of None \<Rightarrow> m | Some y \<Rightarrow> f y)"
  by (cases x) auto

lemma early_if: "(b \<Longrightarrow> early m) \<Longrightarrow> (\<not> b \<Longrightarrow> early n) \<Longrightarrow> early (if b then m else n)"
  by simp

lemma early_check_images: "early (check_images images u ids)"
proof (induction ids)
  case (Cons i ids)
  show ?case
    unfolding check_images.simps by (intro early_bind_or early_case early_if early_ret late_error_simps Cons.IH)
qed (simp add: early_ret)

lemma early_resolve_root: "early (resolve_root posts parent)"
  unfolding resolve_root_def by (intro early_case early_ret early_bind_or late_error_simps)

locale atomic_writer = post_writer inv view posts images tags extractor owner
  for inv :: "db \<Rightarrow> bool" and view :: "'z runtime_scheme \<Rightarrow> db" and posts :: "('z runtime_scheme) PostRepository"
    and images :: "('z runtime_scheme) ImageRepository" and tags :: "('z runtime_scheme) TagRepository"
    and extractor :: "string \<Rightarrow> ('z runtime_scheme, string list) fallible"
    and owner :: "'z runtime_scheme \<Rightarrow> string \<Rightarrow> string option" +
  assumes reliable_writes: "reliable (posts_IncrementRepliesCount posts i)" "reliable (images_ListByPostID images i)"
begin

lemma reliable_inc_replies:
  "reliable (case parent of None \<Rightarrow> ret (Inr ()) | Some q \<Rightarrow> posts_IncrementRepliesCount posts q)"
  using reliable_writes(1) by (cases parent) (auto simp: reliable_def)

lemma early_create: "early (create hook u req)"
  unfolding CreatePost_Execute_def store_post_def Let_def CreatePostUseCase.simps
  by (intro early_if early_case early_ret early_bind early_bind_id [OF early_resolve_root] early_bind_id [OF early_check_images]
      early_reliable [OF reliable_writes(2)] early_reliable [OF reliable_inc_replies]
      early_bind_or [of "DatabaseError ''failed to create post''"] early_bind_or [of "DatabaseError ''failed to upsert tags''"]
      early_bind_or [of "\<lambda>err. InternalServer m (Some err)" for m] late_error_simps)

lemma create_atomic:
  assumes hook: "quiet_commit view hook"
  shows "wp (create hook u req) (\<lambda>r t. case r of
     Inr d \<Rightarrow> (\<exists>rq root. req = Some rq \<and> allowed (view s) (owner s) u rq root \<and>
        stored_new s t u rq root (Detail_Post d) \<and> view t = abs_create (Detail_Post d) (view s))
   | Inl e \<Rightarrow> view t = view s) s"
  by (rule wp_mono [OF wp_conj [OF create_implements [OF hook] early_create [unfolded early_def, rule_format]]])
    (auto simp: store_outcome_def late_error_def split: sum.splits)

end

end
