(* ===== verification/Mem_Store.thy ===== *)
theory Mem_Store
  imports Repository
begin

text \<open>
  The state of the in-memory backend (\<open>internal/repository/inmemory\<close>): the fields of its
  repository structs and of the \<open>LinkStore\<close> they share, in one record that extends the
  environment of the run. Every method of the backend holds its mutex for its whole body, so a
  method is one atomic step; \<open>PostRepository.Create\<close>, which writes the links under the link
  store's mutex first, is noted where it is modelled. Methods return copies of the stored rows,
  so the rows are values.
\<close>

record postOGPLink =
  link_URLHash :: string
  link_Position :: int

record LinkStore =
  postImages :: "(string, string list) go_map"
  postTags :: "(string, (string, unit) go_map) go_map"
  postOGPs :: "(string, postOGPLink list) go_map"

record mem = runtime +
  m_users :: "(string, User) go_map"
  m_links :: LinkStore
  m_posts :: "(string, Post) go_map"
  m_images :: "(string, Image) go_map"
  m_likes :: "(string, (string, time) go_map) go_map"
  m_tags :: "(string, Tag) go_map"
  m_tagByName :: "(string, string) go_map"
  m_badges :: "(string, Badge) go_map"
  m_badgeByKey :: "(string, string) go_map"
  m_userBadges :: "(string \<times> string, UserBadge) go_map"
  m_follows :: "(string \<times> string, Follow) go_map"
  m_ogpRows :: "(string, OGPPreview) go_map"
  m_jobs :: "(string, OGPJob) go_map"

definition NewLinkStore :: LinkStore where
  "NewLinkStore = \<lparr>postImages = DAList.empty, postTags = DAList.empty, postOGPs = DAList.empty\<rparr>"

text \<open>The state \<open>newRepositorySet\<close> builds for the in-memory backend, in a given environment.\<close>

definition init_mem :: "(nat \<Rightarrow> time) \<Rightarrow> (nat \<Rightarrow> string) \<Rightarrow> (nat \<Rightarrow> nat list) \<Rightarrow> mem" where
  "init_mem clock ulid ord =
     \<lparr>rt_clock = clock, rt_ulid = ulid, rt_order = ord, rt_ticks = 0, rt_ids = 0, rt_ranges = 0,
      m_users = DAList.empty, m_links = NewLinkStore, m_posts = DAList.empty,
      m_images = DAList.empty, m_likes = DAList.empty, m_tags = DAList.empty,
      m_tagByName = DAList.empty, m_badges = DAList.empty, m_badgeByKey = DAList.empty,
      m_userBadges = DAList.empty, m_follows = DAList.empty, m_ogpRows = DAList.empty,
      m_jobs = DAList.empty\<rparr>"

text \<open>What two states share when an operation only consumes readings of the environment.\<close>

definition same_store :: "mem \<Rightarrow> mem \<Rightarrow> bool" where
  "same_store s t \<longleftrightarrow>
     s\<lparr>rt_ticks := 0, rt_ids := 0, rt_ranges := 0\<rparr> = t\<lparr>rt_ticks := 0, rt_ids := 0, rt_ranges := 0\<rparr>"

lemma same_store_refl [simp]: "same_store s s"
  by (simp add: same_store_def)

lemma same_store_ranges [simp]: "same_store (s\<lparr>rt_ranges := n\<rparr>) s" "same_store s (s\<lparr>rt_ranges := n\<rparr>)"
  by (simp_all add: same_store_def)

text \<open>
  \<open>issued s i\<close>: the ULID \<open>i\<close> has been drawn already. \<open>unique_ids N\<close> is what the code relies on of
  \<open>github.com/oklog/ulid/v2\<close> for the first \<open>N\<close> draws of a run: no two calls of \<open>ulid.Make\<close>
  return the same id, and an id is 26 characters of Crockford's base 32.
\<close>

definition issued :: "'z runtime_scheme \<Rightarrow> string \<Rightarrow> bool" where
  "issued s i \<longleftrightarrow> (\<exists>n<rt_ids s. rt_ulid s n = i)"

definition unique_ids :: "nat \<Rightarrow> (nat \<Rightarrow> string) \<Rightarrow> bool" where
  "unique_ids N ids \<longleftrightarrow> inj_on ids {..<N} \<and> (\<forall>n<N. IsULID (ids n))"

lemma fresh_id: "unique_ids N (rt_ulid s) \<Longrightarrow> rt_ids s < N \<Longrightarrow> \<not> issued s (rt_ulid s (rt_ids s))"
  by (auto simp: unique_ids_def issued_def dest: inj_onD)

lemma issued_Suc: "issued (s\<lparr>rt_ids := Suc (rt_ids s)\<rparr>) i \<longleftrightarrow> issued s i \<or> i = rt_ulid s (rt_ids s)"
  by (auto simp: issued_def less_Suc_eq)

lemma issued_cong: "rt_ids s = rt_ids t \<Longrightarrow> rt_ulid s = rt_ulid t \<Longrightarrow> issued s = issued t"
  by (simp add: issued_def fun_eq_iff)

lemma issued_not_Nil: "unique_ids N (rt_ulid s) \<Longrightarrow> rt_ids s \<le> N \<Longrightarrow> issued s i \<Longrightarrow> i \<noteq> []"
  unfolding unique_ids_def issued_def by (metis IsULID_not_Nil less_le_trans)

end
