(* ===== verification/Mem_User.thy ===== *)
theory Mem_User
  imports Mem_Store
begin

text \<open>\<open>inmemory.UserRepository\<close>: the mirror of AuthCore identities with the SNS-owned profile
  fields and the denormalised follow counters.\<close>

section \<open>Operations\<close>

definition UserRepository_GetBySub :: "string \<Rightarrow> (mem, User option) fallible" where
  "UserRepository_GetBySub sub = do {
     users \<leftarrow> gets m_users;
     ret (Inr (get_map users sub))
   }"

text \<open>What \<open>Upsert\<close> stores: on update the server-owned fields of the existing row survive, and
  the SNS-owned ones where the caller left them empty.\<close>

definition upsert_row :: "User option \<Rightarrow> User \<Rightarrow> time \<Rightarrow> User" where
  "upsert_row existing user now =
     (let stored = (case existing of
        Some e \<Rightarrow>
          user\<lparr>User_IsAdmin := User_IsAdmin e, User_CreatedAt := User_CreatedAt e,
            User_DeletedAt := User_DeletedAt e, User_FollowersCount := User_FollowersCount e,
            User_FollowingCount := User_FollowingCount e,
            User_Bio := (if User_Bio user = [] then User_Bio e else User_Bio user),
            User_BannerURL := (if User_BannerURL user = [] then User_BannerURL e else User_BannerURL user)\<rparr>
      | None \<Rightarrow>
          if IsZero (User_CreatedAt user) then user\<lparr>User_CreatedAt := now\<rparr> else user)
      in stored\<lparr>User_UpdatedAt := now\<rparr>)"

definition UserRepository_Upsert :: "User \<Rightarrow> (mem, User) fallible" where
  "UserRepository_Upsert user = do {
     now \<leftarrow> Now;
     users \<leftarrow> gets m_users;
     let stored = upsert_row (get_map users (User_Sub user)) user now;
     modify (m_users_update (set_map (User_Sub user) stored));
     ret (Inr stored)
   }"

definition UserRepository_UpdateProfile :: "string \<Rightarrow> UpdateUserProfileRequest \<Rightarrow> (mem, User option) fallible"
  where "UserRepository_UpdateProfile sub req = do {
     users \<leftarrow> gets m_users;
     case get_map users sub of
       None \<Rightarrow> ret (Inr None)
     | Some user \<Rightarrow> do {
         let user = (case UpdReq_Bio req of Some b \<Rightarrow> user\<lparr>User_Bio := b\<rparr> | None \<Rightarrow> user);
         let user = (case UpdReq_BannerURL req of Some b \<Rightarrow> user\<lparr>User_BannerURL := b\<rparr> | None \<Rightarrow> user);
         now \<leftarrow> Now;
         let user = user\<lparr>User_UpdatedAt := now\<rparr>;
         modify (m_users_update (set_map sub user));
         ret (Inr (Some user))
       }
   }"

definition UserRepository_List :: "int \<Rightarrow> int \<Rightarrow> (mem, User list \<times> int) fallible" where
  "UserRepository_List limit offset = do {
     m \<leftarrow> gets m_users;
     rows \<leftarrow> map_range m;
     let users = [u. (_, u) \<leftarrow> rows, User_DeletedAt u = None];
     let total = int (length users);
     let offset = (if offset > total then total else offset);
     let end' = wrap64 (offset + limit);
     let end' = (if end' > total then total else end');
     ret (case go_slice users offset end' of
            Some page \<Rightarrow> Inr (page, total)
          | None \<Rightarrow> Inl (GoPanic ''slice bounds out of range''))
   }"

definition UserRepository_ListBySubs :: "string list \<Rightarrow> (mem, string \<rightharpoonup> User) fallible" where
  "UserRepository_ListBySubs subs = do {
     users \<leftarrow> gets m_users;
     ret (Inr (fold (\<lambda>sub out. case get_map users sub of
            Some u \<Rightarrow> if User_DeletedAt u = None then out(sub \<mapsto> u) else out
          | None \<Rightarrow> out) subs Map.empty))
   }"

text \<open>The counter mutators: read the row, write it back with the counter changed.\<close>

definition on_user :: "string \<Rightarrow> (User \<Rightarrow> User) \<Rightarrow> mem \<Rightarrow> mem" where
  "on_user sub f s = (case get_map (m_users s) sub of
     Some u \<Rightarrow> s\<lparr>m_users := set_map sub (f u) (m_users s)\<rparr>
   | None \<Rightarrow> s)"

definition UserRepository_IncrementFollowersCount :: "string \<Rightarrow> (mem, unit) fallible" where
  "UserRepository_IncrementFollowersCount sub = do {
     modify (on_user sub (\<lambda>u. u\<lparr>User_FollowersCount := inc64 (User_FollowersCount u)\<rparr>));
     ret (Inr ())
   }"

definition UserRepository_DecrementFollowersCount :: "string \<Rightarrow> (mem, unit) fallible" where
  "UserRepository_DecrementFollowersCount sub = do {
     modify (on_user sub (\<lambda>u. if User_FollowersCount u > 0
       then u\<lparr>User_FollowersCount := dec64 (User_FollowersCount u)\<rparr> else u));
     ret (Inr ())
   }"

definition UserRepository_IncrementFollowingCount :: "string \<Rightarrow> (mem, unit) fallible" where
  "UserRepository_IncrementFollowingCount sub = do {
     modify (on_user sub (\<lambda>u. u\<lparr>User_FollowingCount := inc64 (User_FollowingCount u)\<rparr>));
     ret (Inr ())
   }"

definition UserRepository_DecrementFollowingCount :: "string \<Rightarrow> (mem, unit) fallible" where
  "UserRepository_DecrementFollowingCount sub = do {
     modify (on_user sub (\<lambda>u. if User_FollowingCount u > 0
       then u\<lparr>User_FollowingCount := dec64 (User_FollowingCount u)\<rparr> else u));
     ret (Inr ())
   }"

definition UserRepository_Delete :: "string \<Rightarrow> (mem, unit) fallible" where
  "UserRepository_Delete sub = do {
     users \<leftarrow> gets m_users;
     case get_map users sub of
       None \<Rightarrow> ret (Inr ())
     | Some user \<Rightarrow> do {
         now \<leftarrow> Now;
         modify (m_users_update (set_map sub (user\<lparr>User_DeletedAt := Some now\<rparr>)));
         ret (Inr ())
       }
   }"

definition NewUserRepository :: "mem UserRepository" where
  "NewUserRepository =
     \<lparr>users_GetBySub = UserRepository_GetBySub, users_Upsert = UserRepository_Upsert,
      users_UpdateProfile = UserRepository_UpdateProfile, users_List = UserRepository_List,
      users_ListBySubs = UserRepository_ListBySubs,
      users_IncrementFollowersCount = UserRepository_IncrementFollowersCount,
      users_DecrementFollowersCount = UserRepository_DecrementFollowersCount,
      users_IncrementFollowingCount = UserRepository_IncrementFollowingCount,
      users_DecrementFollowingCount = UserRepository_DecrementFollowingCount,
      users_Delete = UserRepository_Delete\<rparr>"

section \<open>What each operation does\<close>

lemma run_GetBySub [run_simps]:
  "run_state (UserRepository_GetBySub sub) s = (Inr (get_map (m_users s) sub), s)"
  by (simp add: UserRepository_GetBySub_def run_simps)

lemma run_Upsert [run_simps]:
  "run_state (UserRepository_Upsert user) s =
     (let stored = upsert_row (get_map (m_users s) (User_Sub user)) user (rt_clock s (rt_ticks s))
      in (Inr stored, s\<lparr>rt_ticks := Suc (rt_ticks s), m_users := set_map (User_Sub user) stored (m_users s)\<rparr>))"
  by (simp add: UserRepository_Upsert_def run_simps Let_def)

lemma run_user_counters [run_simps]:
  "run_state (UserRepository_IncrementFollowersCount sub) s =
     (Inr (), on_user sub (\<lambda>u. u\<lparr>User_FollowersCount := inc64 (User_FollowersCount u)\<rparr>) s)"
  "run_state (UserRepository_DecrementFollowersCount sub) s =
     (Inr (), on_user sub (\<lambda>u. if User_FollowersCount u > 0
        then u\<lparr>User_FollowersCount := dec64 (User_FollowersCount u)\<rparr> else u) s)"
  "run_state (UserRepository_IncrementFollowingCount sub) s =
     (Inr (), on_user sub (\<lambda>u. u\<lparr>User_FollowingCount := inc64 (User_FollowingCount u)\<rparr>) s)"
  "run_state (UserRepository_DecrementFollowingCount sub) s =
     (Inr (), on_user sub (\<lambda>u. if User_FollowingCount u > 0
        then u\<lparr>User_FollowingCount := dec64 (User_FollowingCount u)\<rparr> else u) s)"
  by (simp_all add: UserRepository_IncrementFollowersCount_def UserRepository_DecrementFollowersCount_def
      UserRepository_IncrementFollowingCount_def UserRepository_DecrementFollowingCount_def run_simps)

lemma get_map_on_user [simp]:
  "get_map (m_users (on_user sub f s)) =
     (get_map (m_users s))(sub := map_option f (get_map (m_users s) sub))"
  by (auto simp: on_user_def fun_eq_iff split: option.split)

lemma list_by_subs_fold:
  "fold (\<lambda>sub out. case get_map users sub of
       Some u \<Rightarrow> if User_DeletedAt u = None then out(sub \<mapsto> u) else out | None \<Rightarrow> out) subs out sub =
   (if sub \<in> set subs \<and> (\<exists>u. get_map users sub = Some u \<and> User_DeletedAt u = None)
    then get_map users sub else out sub)"
  by (induction subs arbitrary: out) (auto split: option.split)

lemma run_ListBySubs [run_simps]:
  "run_state (UserRepository_ListBySubs subs) s =
     (Inr (\<lambda>sub. if sub \<in> set subs then
        (case get_map (m_users s) sub of Some u \<Rightarrow> if User_DeletedAt u = None then Some u else None
         | None \<Rightarrow> None) else None), s)"
  by (simp add: UserRepository_ListBySubs_def run_simps fun_eq_iff list_by_subs_fold split: option.split)

text \<open>An update through \<open>Upsert\<close> keeps the server-owned fields, whatever the caller passes.\<close>

lemma upsert_row_preserves:
  assumes "stored = upsert_row (Some e) user now"
  shows "User_IsAdmin stored = User_IsAdmin e" "User_CreatedAt stored = User_CreatedAt e"
    "User_DeletedAt stored = User_DeletedAt e" "User_FollowersCount stored = User_FollowersCount e"
    "User_FollowingCount stored = User_FollowingCount e"
  by (simp_all add: assms upsert_row_def)

lemma upsert_row_new:
  "User_FollowersCount (upsert_row None user now) = User_FollowersCount user"
  "User_FollowingCount (upsert_row None user now) = User_FollowingCount user"
  "User_IsAdmin (upsert_row None user now) = User_IsAdmin user"
  "User_DeletedAt (upsert_row None user now) = User_DeletedAt user"
  by (simp_all add: upsert_row_def)

end
