(* ===== verification/Cursor_Paging.thy ===== *)
theory Cursor_Paging
  imports Repository
begin

text \<open>
  Cursor pagination, as every list endpoint of the repositories does it: rows in descending
  order of a key, a page of at most \<open>limit\<close> rows, and a cursor made from the key of the last row
  when more rows remain. \<open>walk_pages\<close> is a client that follows the cursors to the end; the
  locale \<open>cursor_paging\<close> shows that it sees every row once and in order, whatever codec turns
  keys into cursors, as long as the codec is a round trip on the keys that occur.
\<close>

text \<open>The client: ask for the first page, then for the page after each returned cursor, until
  the cursor is empty. \<open>None\<close> when a page cannot be loaded or the fuel runs out.\<close>

fun walk_pages :: "nat \<Rightarrow> (string option \<Rightarrow> ('s, 'a list \<times> string) fallible) \<Rightarrow> string option \<Rightarrow>
    ('s, 'a list list option) state" where
  "walk_pages 0 page c = ret None"
| "walk_pages (Suc fuel) page c = do {
     r \<leftarrow> page c;
     case r of
       Inl _ \<Rightarrow> ret None
     | Inr (rows, next) \<Rightarrow>
         if next = [] then ret (Some [rows])
         else do {
           rest \<leftarrow> walk_pages fuel page (Some next);
           ret (map_option ((#) rows) rest)
         }
   }"

locale cursor_paging =
  fixes key :: "'a \<Rightarrow> 'k::linorder"
    and enc :: "'k \<Rightarrow> string"
    and dec :: "string option \<Rightarrow> 'k option"
    and good :: "'k \<Rightarrow> bool"
  assumes dec_None: "dec None = None"
    and dec_enc: "good k \<Longrightarrow> dec (Some (enc k)) = Some k"
    and enc_nonempty: "good k \<Longrightarrow> enc k \<noteq> []"
begin

definition after :: "string option \<Rightarrow> 'a list \<Rightarrow> 'a list" where
  "after c rows = (case dec c of None \<Rightarrow> rows | Some k \<Rightarrow> filter (\<lambda>r. key r < k) rows)"

definition page_of :: "nat \<Rightarrow> 'a list \<Rightarrow> 'a list \<times> string" where
  "page_of n rows = (if length rows \<le> n then (rows, []) else (take n rows, enc (key (rows ! (n - 1)))))"

text \<open>The rows after the last row of a page are exactly the rows that were not on it.\<close>

lemma filter_below_nth:
  assumes "sorted_wrt (\<lambda>a b. key a > key b) rows" and "n < length rows"
  shows "filter (\<lambda>r. key r < key (rows ! n)) rows = drop (Suc n) rows"
  using assms
proof (induction rows arbitrary: n)
  case (Cons r rows)
  show ?case
  proof (cases n)
    case 0
    have "\<forall>x\<in>set rows. key x < key r" using Cons.prems(1) by auto
    then show ?thesis using 0 by (simp add: filter_True)
  next
    case (Suc m)
    then have m: "m < length rows" using Cons.prems(2) by simp
    then have "key (rows ! m) < key r" using Cons.prems(1) by (simp add: nth_mem)
    then have "\<not> key r < key (rows ! m)" by (simp add: not_less order.strict_implies_order)
    then show ?thesis using Cons.IH [of m] Cons.prems(1) m Suc by simp
  qed
qed simp

lemma after_next:
  assumes sorted: "sorted_wrt (\<lambda>a b. key a > key b) rows" and n: "0 < n" "n < length rows"
    and good: "\<forall>r\<in>set rows. good (key r)"
  shows "after (Some (enc (key (rows ! (n - 1))))) (pre @ rows) =
     filter (\<lambda>r. key r < key (rows ! (n - 1))) pre @ drop n rows"
proof -
  have "good (key (rows ! (n - 1)))" using good n by auto
  then show ?thesis
    using filter_below_nth [OF sorted, of "n - 1"] n by (simp add: after_def dec_enc)
qed

lemma after_next_suffix:
  assumes sorted: "sorted_wrt (\<lambda>a b. key a > key b) (pre @ rows)" and n: "0 < n" "n < length rows"
    and good: "\<forall>r\<in>set rows. good (key r)"
  shows "after (Some (enc (key (rows ! (n - 1))))) (pre @ rows) = drop n rows"
proof -
  have "rows ! (n - 1) \<in> set rows" using n by auto
  then have "filter (\<lambda>r. key r < key (rows ! (n - 1))) pre = []"
    using sorted by (fastforce simp: sorted_wrt_append filter_empty_conv)
  then show ?thesis
    using after_next [of rows n pre] sorted n good by (simp add: sorted_wrt_append)
qed

text \<open>Collecting the rows after a cursor in any order and sorting them is the same as cutting the
  sorted rows at the cursor.\<close>

lemma sort_after:
  assumes d: "distinct (map key rows)" and perm: "mset rows' = mset rows"
  shows "sort_slice (\<lambda>a b. key a > key b) (filter (\<lambda>r. case dec c of None \<Rightarrow> True | Some k \<Rightarrow> key r < k) rows') =
     after c (sort_slice (\<lambda>a b. key a > key b) rows)"
proof -
  let ?P = "\<lambda>r. case dec c of None \<Rightarrow> True | Some k \<Rightarrow> key r < k" and ?lt = "\<lambda>a b. key a > key b"
  have d': "distinct (map key (filter ?P rows'))"
    using d perm by (metis distinct_map_filter mset_eq_imp_distinct_iff mset_map)
  have strict: "sorted_wrt ?lt (sort_slice ?lt xs)" if "distinct (map key xs)" for xs
    using key_total [OF that] distinct_of_map [OF that]
    by (intro comparator.sorted_total [OF comparator_key_desc]) auto
  have aft: "after c xs = filter ?P xs" for xs by (simp add: after_def split: option.split)
  show ?thesis
    unfolding aft
  proof (rule comparator.strict_sorted_unique [OF comparator_key_desc [of key]])
    show "sorted_wrt ?lt (sort_slice ?lt (filter ?P rows'))" by (rule strict [OF d'])
    show "sorted_wrt ?lt (filter ?P (sort_slice ?lt rows))" by (rule sorted_wrt_filter [OF strict [OF d]])
    show "mset (sort_slice ?lt (filter ?P rows')) = mset (filter ?P (sort_slice ?lt rows))"
      by (simp only: mset_sort_slice mset_filter perm)
  qed
qed

text \<open>
  A paged source: \<open>page c\<close> returns the page of the rows after \<open>c\<close> and stays among the states
  \<open>ok\<close> that hold the same rows.
\<close>

lemma walk_suffix:
  assumes page: "\<And>c s. ok s \<Longrightarrow> \<exists>s'. run_state (page c) s = (Inr (page_of n (after c (pre0 @ rows0))), s') \<and> ok s'"
    and n: "0 < n" and sorted: "sorted_wrt (\<lambda>a b. key a > key b) (pre0 @ rows0)"
    and good: "\<forall>r\<in>set (pre0 @ rows0). good (key r)"
    and split: "pre0 @ rows0 = pre @ rows" and c: "after c (pre0 @ rows0) = rows"
    and ok: "ok s" and fuel: "length rows < fuel"
  shows "\<exists>pages s'. run_state (walk_pages fuel page c) s = (Some pages, s') \<and> ok s' \<and>
     concat pages = rows \<and> (\<forall>p\<in>set (butlast pages). length p = n)"
  using split c ok fuel
proof (induction fuel arbitrary: pre rows c s)
  case (Suc fuel)
  obtain s' where s': "run_state (page c) s = (Inr (page_of n rows), s')" "ok s'"
    using page [OF Suc.prems(3), of c] Suc.prems(2) by auto
  show ?case
  proof (cases "length rows \<le> n")
    case True
    then show ?thesis using s' by (simp add: page_of_def)
  next
    case False
    let ?c = "Some (enc (key (rows ! (n - 1))))"
    have g: "\<forall>r\<in>set rows. good (key r)" using good Suc.prems(1) by (metis Un_iff set_append)
    have next_rows: "after ?c (pre0 @ rows0) = drop n rows"
      using after_next_suffix [of pre rows n] sorted n False g Suc.prems(1) by simp
    have ne: "enc (key (rows ! (n - 1))) \<noteq> []"
      using g False n by (intro enc_nonempty) auto
    have shorter: "length (drop n rows) < fuel"
      unfolding length_drop using Suc.prems(4) False n by linarith
    obtain pages t where w: "run_state (walk_pages fuel page ?c) s' = (Some pages, t)" "ok t"
        "concat pages = drop n rows" "\<forall>p\<in>set (butlast pages). length p = n"
      using Suc.IH [OF _ next_rows s'(2) shorter, of "pre @ take n rows"] Suc.prems(1) by auto
    show ?thesis
      using s' w ne False by (auto simp: page_of_def)
  qed
qed simp

theorem walk_complete:
  assumes page: "\<And>c s. ok s \<Longrightarrow> \<exists>s'. run_state (page c) s = (Inr (page_of n (after c rows)), s') \<and> ok s'"
    and n: "0 < n" and sorted: "sorted_wrt (\<lambda>a b. key a > key b) rows"
    and good: "\<forall>r\<in>set rows. good (key r)" and ok: "ok s" and fuel: "length rows < fuel"
  shows "\<exists>pages s'. run_state (walk_pages fuel page None) s = (Some pages, s') \<and> ok s' \<and>
     concat pages = rows \<and> (\<forall>p\<in>set (butlast pages). length p = n)"
proof (rule walk_suffix [where ?pre0.0 = "[]" and pre = "[]"])
  show "after None ([] @ rows) = rows" by (simp add: after_def dec_None)
qed (use assms in auto)

end

end
