(* ===== verification/Mem_Post.thy ===== *)
theory Mem_Post
  imports Mem_Store Cursor_Paging
begin

text \<open>
  \<open>inmemory.LinkStore\<close> (the link tables of a post) and \<open>inmemory.PostRepository\<close>: soft-deleted
  rows, the denormalised like and reply counters, and the descending, cursor-paged lists.
\<close>

section \<open>Link store\<close>

definition links_of :: "(string, 'a list) go_map \<Rightarrow> string \<Rightarrow> 'a list" where
  "links_of m postID = (case get_map m postID of Some xs \<Rightarrow> xs | None \<Rightarrow> [])"

definition position_less :: "postOGPLink \<Rightarrow> postOGPLink \<Rightarrow> bool" where
  "position_less a b \<longleftrightarrow> link_Position a < link_Position b"

definition attachOGP :: "string \<Rightarrow> string \<Rightarrow> int \<Rightarrow> LinkStore \<Rightarrow> LinkStore" where
  "attachOGP postID urlHash position s =
     (let ls = links_of (postOGPs s) postID in
      if \<exists>l\<in>set ls. link_URLHash l = urlHash \<or> link_Position l = position then s
      else s\<lparr>postOGPs := set_map postID
             (sort_slice position_less (ls @ [\<lparr>link_URLHash = urlHash, link_Position = position\<rparr>]))
             (postOGPs s)\<rparr>)"

definition ogpLinksByPost :: "string \<Rightarrow> LinkStore \<Rightarrow> postOGPLink list" where
  "ogpLinksByPost postID s = links_of (postOGPs s) postID"

definition attachImages :: "string \<Rightarrow> string list \<Rightarrow> LinkStore \<Rightarrow> LinkStore" where
  "attachImages postID imageIDs s = s\<lparr>postImages := set_map postID imageIDs (postImages s)\<rparr>"

definition attachTags :: "string \<Rightarrow> string list \<Rightarrow> LinkStore \<Rightarrow> LinkStore" where
  "attachTags postID tagIDs s =
     (if tagIDs = [] then s
      else let old = (case get_map (postTags s) postID of Some t \<Rightarrow> t | None \<Rightarrow> DAList.empty)
           in s\<lparr>postTags := set_map postID (fold (\<lambda>i. set_map i ()) tagIDs old) (postTags s)\<rparr>)"

definition imageIDsByPost :: "string \<Rightarrow> LinkStore \<Rightarrow> string list" where
  "imageIDsByPost postID s = links_of (postImages s) postID"

text \<open>The ids of a set come out in the order of the \<open>range\<close>.\<close>

definition tagIDsByPost :: "string \<Rightarrow> (mem, string list) state" where
  "tagIDsByPost postID = do {
     ls \<leftarrow> gets m_links;
     case get_map (postTags ls) postID of
       None \<Rightarrow> ret []
     | Some t \<Rightarrow> if entries t = [] then ret [] else do { rows \<leftarrow> map_range t; ret (map fst rows) }
   }"

section \<open>Posts\<close>

definition PostRepository_GetByID :: "string \<Rightarrow> (mem, Post option) fallible" where
  "PostRepository_GetByID i = do {
     posts \<leftarrow> gets m_posts;
     case get_map posts i of
       None \<Rightarrow> ret (Inr None)
     | Some post \<Rightarrow> if Post_DeletedAt post \<noteq> None then ret (Inr None) else ret (Inr (Some post))
   }"

definition PostRepository_Create :: "Post \<Rightarrow> string list \<Rightarrow> string list \<Rightarrow> (mem, Post) fallible" where
  "PostRepository_Create post imageIDs tagIDs = do {
     (if length imageIDs > 0 then modify (m_links_update (attachImages (Post_ID post) imageIDs)) else ret ());
     (if length tagIDs > 0 then modify (m_links_update (attachTags (Post_ID post) tagIDs)) else ret ());
     now \<leftarrow> Now;
     let post = post\<lparr>Post_CreatedAt := now, Post_UpdatedAt := now\<rparr>;
     modify (m_posts_update (set_map (Post_ID post) post));
     ret (Inr post)
   }"

definition PostRepository_Delete :: "string \<Rightarrow> (mem, unit) fallible" where
  "PostRepository_Delete i = do {
     posts \<leftarrow> gets m_posts;
     case get_map posts i of
       Some post \<Rightarrow> do {
         now \<leftarrow> Now;
         modify (m_posts_update (set_map i (post\<lparr>Post_DeletedAt := Some now\<rparr>)));
         ret (Inr ())
       }
     | None \<Rightarrow> ret (Inr ())
   }"

definition id_desc :: "Post \<Rightarrow> Post \<Rightarrow> bool" where
  "id_desc a b \<longleftrightarrow> Post_ID a > Post_ID b"

definition collectDescending :: "(Post \<Rightarrow> bool) \<Rightarrow> string option \<Rightarrow> (mem, Post list) state" where
  "collectDescending flt cursor = do {
     m \<leftarrow> gets m_posts;
     rows \<leftarrow> map_range m;
     let posts = [p. (_, p) \<leftarrow> rows, flt p \<and> (case cursor of Some c \<Rightarrow> \<not> Post_ID p \<ge> c | None \<Rightarrow> True)];
     ret (sort_slice id_desc posts)
   }"

definition paginate :: "Post list \<Rightarrow> int \<Rightarrow> Post list \<times> string" where
  "paginate posts limit =
     (if limit \<le> 0 then ([], [])
      else if int (length posts) \<le> limit then (posts, [])
      else let page = take (nat limit) posts in (page, Post_ID (page ! (nat limit - 1))))"

definition list_filter :: "string option \<Rightarrow> Post \<Rightarrow> bool" where
  "list_filter userID p =
     (if Post_DeletedAt p \<noteq> None then False
      else if (case userID of Some u \<Rightarrow> Post_UserID p \<noteq> u | None \<Rightarrow> False) then False
      else Post_ParentPostID p = None)"

definition PostRepository_List :: "string option \<Rightarrow> string option \<Rightarrow> int \<Rightarrow> (mem, Post list \<times> string) fallible"
  where "PostRepository_List userID cursor limit = do {
     posts \<leftarrow> collectDescending (list_filter userID) cursor;
     ret (Inr (paginate posts limit))
   }"

definition authors_filter :: "string list \<Rightarrow> Post \<Rightarrow> bool" where
  "authors_filter userIDs p =
     (if Post_DeletedAt p \<noteq> None then False
      else if Post_UserID p \<notin> set userIDs then False
      else Post_ParentPostID p = None)"

definition PostRepository_ListByUserIDs :: "string list \<Rightarrow> string option \<Rightarrow> int \<Rightarrow> (mem, Post list \<times> string) fallible"
  where "PostRepository_ListByUserIDs userIDs cursor limit = do {
     posts \<leftarrow> collectDescending (authors_filter userIDs) cursor;
     ret (Inr (paginate posts limit))
   }"

definition replies_filter :: "string \<Rightarrow> Post \<Rightarrow> bool" where
  "replies_filter postID p =
     (if Post_DeletedAt p \<noteq> None then False else Post_ParentPostID p = Some postID)"

definition PostRepository_ListReplies :: "string \<Rightarrow> string option \<Rightarrow> int \<Rightarrow> (mem, Post list \<times> string) fallible"
  where "PostRepository_ListReplies postID cursor limit = do {
     posts \<leftarrow> collectDescending (replies_filter postID) cursor;
     ret (Inr (paginate posts limit))
   }"

text \<open>The counter mutators skip missing and soft-deleted rows.\<close>

definition on_live_post :: "string \<Rightarrow> (Post \<Rightarrow> Post) \<Rightarrow> mem \<Rightarrow> mem" where
  "on_live_post i f s = (case get_map (m_posts s) i of
     Some p \<Rightarrow> if Post_DeletedAt p = None then s\<lparr>m_posts := set_map i (f p) (m_posts s)\<rparr> else s
   | None \<Rightarrow> s)"

definition PostRepository_IncrementRepliesCount :: "string \<Rightarrow> (mem, unit) fallible" where
  "PostRepository_IncrementRepliesCount i = do {
     modify (on_live_post i (\<lambda>p. p\<lparr>Post_RepliesCount := inc64 (Post_RepliesCount p)\<rparr>));
     ret (Inr ())
   }"

definition PostRepository_DecrementRepliesCount :: "string \<Rightarrow> (mem, unit) fallible" where
  "PostRepository_DecrementRepliesCount i = do {
     modify (on_live_post i (\<lambda>p. if Post_RepliesCount p > 0
       then p\<lparr>Post_RepliesCount := dec64 (Post_RepliesCount p)\<rparr> else p));
     ret (Inr ())
   }"

definition PostRepository_IncrementLikesCount :: "string \<Rightarrow> (mem, unit) fallible" where
  "PostRepository_IncrementLikesCount i = do {
     modify (on_live_post i (\<lambda>p. p\<lparr>Post_LikesCount := inc64 (Post_LikesCount p)\<rparr>));
     ret (Inr ())
   }"

definition PostRepository_DecrementLikesCount :: "string \<Rightarrow> (mem, unit) fallible" where
  "PostRepository_DecrementLikesCount i = do {
     modify (on_live_post i (\<lambda>p. if Post_LikesCount p > 0
       then p\<lparr>Post_LikesCount := dec64 (Post_LikesCount p)\<rparr> else p));
     ret (Inr ())
   }"

definition PostRepository_AttachOGP :: "string \<Rightarrow> string \<Rightarrow> int \<Rightarrow> (mem, unit) fallible" where
  "PostRepository_AttachOGP postID urlHash position = do {
     modify (m_links_update (attachOGP postID urlHash position));
     ret (Inr ())
   }"

definition NewPostRepository :: "mem PostRepository" where
  "NewPostRepository =
     \<lparr>posts_GetByID = PostRepository_GetByID, posts_Create = PostRepository_Create,
      posts_Delete = PostRepository_Delete, posts_List = PostRepository_List,
      posts_ListByUserIDs = PostRepository_ListByUserIDs, posts_ListReplies = PostRepository_ListReplies,
      posts_IncrementRepliesCount = PostRepository_IncrementRepliesCount,
      posts_DecrementRepliesCount = PostRepository_DecrementRepliesCount,
      posts_IncrementLikesCount = PostRepository_IncrementLikesCount,
      posts_DecrementLikesCount = PostRepository_DecrementLikesCount,
      posts_AttachOGP = PostRepository_AttachOGP\<rparr>"

section \<open>What each operation does\<close>

lemma run_post_GetByID [run_simps]:
  "run_state (PostRepository_GetByID i) s =
     (Inr (case get_map (m_posts s) i of
        Some p \<Rightarrow> if Post_DeletedAt p = None then Some p else None | None \<Rightarrow> None), s)"
  by (simp add: PostRepository_GetByID_def run_simps split: option.split)

lemma run_post_Create [run_simps]:
  "run_state (PostRepository_Create post imgs tags) s =
     (let post' = post\<lparr>Post_CreatedAt := rt_clock s (rt_ticks s), Post_UpdatedAt := rt_clock s (rt_ticks s)\<rparr>;
          ls = (if imgs = [] then m_links s else attachImages (Post_ID post) imgs (m_links s));
          ls = (if tags = [] then ls else attachTags (Post_ID post) tags ls)
      in (Inr post', s\<lparr>rt_ticks := Suc (rt_ticks s), m_links := ls,
            m_posts := set_map (Post_ID post) post' (m_posts s)\<rparr>))"
  by (simp add: PostRepository_Create_def run_simps Let_def)

lemma run_post_Delete [run_simps]:
  "run_state (PostRepository_Delete i) s =
     (Inr (), case get_map (m_posts s) i of
        Some p \<Rightarrow> s\<lparr>rt_ticks := Suc (rt_ticks s),
            m_posts := set_map i (p\<lparr>Post_DeletedAt := Some (rt_clock s (rt_ticks s))\<rparr>) (m_posts s)\<rparr>
      | None \<Rightarrow> s)"
  by (simp add: PostRepository_Delete_def run_simps split: option.split)

lemma run_post_counters [run_simps]:
  "run_state (PostRepository_IncrementRepliesCount i) s =
     (Inr (), on_live_post i (\<lambda>p. p\<lparr>Post_RepliesCount := inc64 (Post_RepliesCount p)\<rparr>) s)"
  "run_state (PostRepository_DecrementRepliesCount i) s =
     (Inr (), on_live_post i (\<lambda>p. if Post_RepliesCount p > 0
        then p\<lparr>Post_RepliesCount := dec64 (Post_RepliesCount p)\<rparr> else p) s)"
  "run_state (PostRepository_IncrementLikesCount i) s =
     (Inr (), on_live_post i (\<lambda>p. p\<lparr>Post_LikesCount := inc64 (Post_LikesCount p)\<rparr>) s)"
  "run_state (PostRepository_DecrementLikesCount i) s =
     (Inr (), on_live_post i (\<lambda>p. if Post_LikesCount p > 0
        then p\<lparr>Post_LikesCount := dec64 (Post_LikesCount p)\<rparr> else p) s)"
  by (simp_all add: PostRepository_IncrementRepliesCount_def PostRepository_DecrementRepliesCount_def
      PostRepository_IncrementLikesCount_def PostRepository_DecrementLikesCount_def run_simps)

lemma run_AttachOGP [run_simps]:
  "run_state (PostRepository_AttachOGP p h n) s = (Inr (), m_links_update (attachOGP p h n) s)"
  by (simp add: PostRepository_AttachOGP_def run_simps)

lemma get_map_on_live_post:
  "get_map (m_posts (on_live_post i f s)) =
     (get_map (m_posts s))(i := map_option (\<lambda>p. if Post_DeletedAt p = None then f p else p) (get_map (m_posts s) i))"
  by (auto simp: on_live_post_def fun_eq_iff split: option.split)

lemma on_live_post_other_fields [simp]:
  "m_users (on_live_post i f s) = m_users s" "m_links (on_live_post i f s) = m_links s"
  "m_likes (on_live_post i f s) = m_likes s" "m_follows (on_live_post i f s) = m_follows s"
  "m_images (on_live_post i f s) = m_images s" "m_tags (on_live_post i f s) = m_tags s"
  "m_tagByName (on_live_post i f s) = m_tagByName s" "m_jobs (on_live_post i f s) = m_jobs s"
  "m_ogpRows (on_live_post i f s) = m_ogpRows s"
  "rt_ids (on_live_post i f s) = rt_ids s" "rt_ulid (on_live_post i f s) = rt_ulid s"
  "rt_clock (on_live_post i f s) = rt_clock s" "rt_order (on_live_post i f s) = rt_order s"
  "rt_ticks (on_live_post i f s) = rt_ticks s"
  by (simp_all add: on_live_post_def split: option.split)

section \<open>Feeds and their pages\<close>

text \<open>A feed is what a list endpoint shows in all: the rows that pass its filter, newest id
  first. It does not depend on the order of any \<open>range\<close>.\<close>

definition feed :: "(Post \<Rightarrow> bool) \<Rightarrow> mem \<Rightarrow> Post list" where
  "feed flt s = sort_slice id_desc (filter flt (map snd (entries (m_posts s))))"

definition posts_keyed :: "mem \<Rightarrow> bool" where
  "posts_keyed s \<longleftrightarrow> (\<forall>(i, p)\<in>set (entries (m_posts s)). Post_ID p = i)"

lemma posts_keyedD: "posts_keyed s \<Longrightarrow> get_map (m_posts s) i = Some p \<Longrightarrow> Post_ID p = i"
  by (auto simp: posts_keyed_def)

lemma posts_keyedI: "(\<And>i p. get_map (m_posts s) i = Some p \<Longrightarrow> Post_ID p = i) \<Longrightarrow> posts_keyed s"
  by (auto simp: posts_keyed_def)

interpretation id_order: comparator id_desc
  unfolding id_desc_def by (rule comparator_key_desc)

interpretation position_order: comparator position_less
  unfolding position_less_def by (rule comparator_key)

interpretation post_pages: cursor_paging Post_ID "\<lambda>i. i" "\<lambda>c. c" "\<lambda>i. i \<noteq> []"
  by unfold_locales auto

lemma map_ID_entries: "posts_keyed s \<Longrightarrow> map (\<lambda>x. Post_ID (snd x)) (entries (m_posts s)) = map fst (entries (m_posts s))"
  by (auto simp: posts_keyed_def)

lemma distinct_post_ids: "posts_keyed s \<Longrightarrow> distinct (map (\<lambda>x. Post_ID (snd x)) (entries (m_posts s)))"
  by (simp only: map_ID_entries) (simp flip: comp_def)

lemma distinct_rows: "posts_keyed s \<Longrightarrow> distinct (map Post_ID (filter flt (map snd (entries (m_posts s)))))"
  using distinct_post_ids [of s] by (intro distinct_map_filter) (simp add: comp_def)

lemma sorted_feed:
  assumes "posts_keyed s"
  shows "sorted_wrt (\<lambda>a b. Post_ID a > Post_ID b) (feed flt s)"
proof -
  have d: "distinct (map Post_ID (filter flt (map snd (entries (m_posts s)))))"
    using assms by (rule distinct_rows)
  then have "sorted_wrt id_desc (feed flt s)" unfolding feed_def
    by (intro id_order.sorted_total) (use key_total [OF d] distinct_of_map [OF d] in \<open>auto simp: id_desc_def\<close>)
  then show ?thesis by (simp add: id_desc_def [abs_def])
qed

lemma mset_feed: "mset (feed flt s) = mset (filter flt (map snd (entries (m_posts s))))"
  by (simp add: feed_def)

lemma mem_feed: "p \<in> set (feed flt s) \<longleftrightarrow> (\<exists>i. get_map (m_posts s) i = Some p) \<and> flt p"
  by (force simp: feed_def simp flip: mem_entries)

lemma feed_filter:
  assumes "posts_keyed s"
  shows "feed (\<lambda>p. flt p \<and> g p) s = filter g (feed flt s)"
proof (rule id_order.strict_sorted_unique)
  show "sorted_wrt id_desc (feed (\<lambda>p. flt p \<and> g p) s)" "sorted_wrt id_desc (filter g (feed flt s))"
    using sorted_feed [OF assms] by (simp_all add: id_desc_def [abs_def] sorted_wrt_filter)
  show "mset (feed (\<lambda>p. flt p \<and> g p) s) = mset (filter g (feed flt s))"
    by (simp only: mset_filter mset_feed filter_filter_mset conj_commute)
qed

lemma run_collectDescending:
  assumes "posts_keyed s"
  shows "run_state (collectDescending flt c) s =
     (post_pages.after c (feed flt s), s\<lparr>rt_ranges := Suc (rt_ranges s)\<rparr>)"
proof -
  let ?g = "\<lambda>p. case c of Some c \<Rightarrow> \<not> Post_ID p \<ge> c | None \<Rightarrow> True"
  let ?rows = "shuffle (rt_order s (rt_ranges s)) (entries (m_posts s))"
  let ?kept = "filter (\<lambda>p. flt p \<and> ?g p) (map snd ?rows)"
  have "distinct (map Post_ID (map snd ?rows))"
    using distinct_post_ids [OF assms] by (simp add: comp_def)
  then have d: "distinct (map Post_ID ?kept)" by (rule distinct_map_filter)
  have srt: "sorted_wrt id_desc (sort_slice id_desc ?kept)"
    by (intro id_order.sorted_total) (use key_total [OF d] distinct_of_map [OF d] in \<open>auto simp: id_desc_def\<close>)
  have "mset ?kept = mset (filter (\<lambda>p. flt p \<and> ?g p) (map snd (entries (m_posts s))))"
    by (simp only: mset_filter mset_map mset_shuffle)
  then have "sort_slice id_desc ?kept = feed (\<lambda>p. flt p \<and> ?g p) s"
    using srt sorted_feed [OF assms]
    by (intro id_order.strict_sorted_unique) (simp_all add: mset_feed id_desc_def [abs_def])
  also have "\<dots> = filter ?g (feed flt s)" by (rule feed_filter [OF assms])
  also have "\<dots> = post_pages.after c (feed flt s)"
    by (simp add: post_pages.after_def not_le split: option.split)
  finally show ?thesis
    by (simp add: collectDescending_def run_simps)
qed

lemma paginate_page_of: "0 < limit \<Longrightarrow> paginate rows limit = post_pages.page_of (nat limit) rows"
  by (auto simp: paginate_def post_pages.page_of_def Let_def nat_le_iff)

lemmas run_post_pages = run_collectDescending PostRepository_List_def PostRepository_ListByUserIDs_def
  PostRepository_ListReplies_def

text \<open>The lists as a whole: a client that follows the cursors of one of them sees its feed.\<close>

lemma walk_feed:
  assumes page: "\<And>c t. posts_keyed t \<Longrightarrow>
      run_state (page c) t = (Inr (paginate (post_pages.after c (feed flt t)) limit), t\<lparr>rt_ranges := Suc (rt_ranges t)\<rparr>)"
    and keyed: "posts_keyed s" and limit: "0 < limit" and ids: "get_map (m_posts s) [] = None"
    and fuel: "length (feed flt s) < fuel"
  shows "\<exists>pages t. run_state (walk_pages fuel page None) s = (Some pages, t) \<and>
     concat pages = feed flt s \<and> (\<forall>p\<in>set (butlast pages). length p = nat limit)"
proof -
  let ?ok = "\<lambda>t. m_posts t = m_posts s"
  have ok: "\<exists>t'. run_state (page c) t = (Inr (post_pages.page_of (nat limit) (post_pages.after c (feed flt s))), t') \<and> ?ok t'"
    if "?ok t" for c t
    using that keyed limit page [of t c]
    by (simp add: paginate_page_of feed_def posts_keyed_def)
  have "\<forall>r\<in>set (feed flt s). Post_ID r \<noteq> []"
    using ids keyed by (auto simp: mem_feed) (metis option.distinct(1) posts_keyedD)
  then show ?thesis
    using post_pages.walk_complete [of ?ok page "nat limit" "feed flt s" s fuel] ok limit
      sorted_feed [OF keyed] fuel by auto
qed

lemma pages_of_List:
  "posts_keyed t \<Longrightarrow> run_state (PostRepository_List u c limit) t =
     (Inr (paginate (post_pages.after c (feed (list_filter u) t)) limit), t\<lparr>rt_ranges := Suc (rt_ranges t)\<rparr>)"
  "posts_keyed t \<Longrightarrow> run_state (PostRepository_ListByUserIDs us c limit) t =
     (Inr (paginate (post_pages.after c (feed (authors_filter us) t)) limit), t\<lparr>rt_ranges := Suc (rt_ranges t)\<rparr>)"
  "posts_keyed t \<Longrightarrow> run_state (PostRepository_ListReplies i c limit) t =
     (Inr (paginate (post_pages.after c (feed (replies_filter i) t)) limit), t\<lparr>rt_ranges := Suc (rt_ranges t)\<rparr>)"
  by (simp_all add: run_post_pages)

section \<open>OGP links of a post\<close>

text \<open>What \<open>post_ogp\<close> promises: at most one link per position and per URL, in position order.\<close>

definition ogp_links_ok :: "postOGPLink list \<Rightarrow> bool" where
  "ogp_links_ok ls \<longleftrightarrow> distinct (map link_URLHash ls) \<and> sorted_wrt position_less ls"

definition links_ok :: "LinkStore \<Rightarrow> bool" where
  "links_ok s \<longleftrightarrow> (\<forall>(i, ls)\<in>set (entries (postOGPs s)). ogp_links_ok ls)"

lemma ogp_links_ok_of: "links_ok s \<Longrightarrow> ogp_links_ok (ogpLinksByPost i s)"
  by (auto simp: links_ok_def ogpLinksByPost_def links_of_def ogp_links_ok_def split: option.split)

lemma attachOGP_new:
  assumes ok: "ogp_links_ok ls" and new: "\<not> (\<exists>l\<in>set ls. link_URLHash l = h \<or> link_Position l = n)"
  shows "ogp_links_ok (sort_slice position_less (ls @ [\<lparr>link_URLHash = h, link_Position = n\<rparr>]))"
proof -
  let ?ls = "ls @ [\<lparr>link_URLHash = h, link_Position = n\<rparr>]"
  have hashes: "distinct (map link_URLHash ?ls)" using ok new by (auto simp: ogp_links_ok_def)
  have "inj_on link_Position (set ls)"
    using ok by (auto simp: ogp_links_ok_def sorted_wrt_iff_nth_less in_set_conv_nth inj_on_def position_less_def)
      (metis nat_neq_iff less_irrefl)
  then have "\<And>a b. a \<in> set ?ls \<Longrightarrow> b \<in> set ?ls \<Longrightarrow> a \<noteq> b \<Longrightarrow> position_less a b \<or> position_less b a"
    using new by (auto simp: position_less_def dest: inj_onD) (metis inj_onD linorder_neq_iff)+
  then have "sorted_wrt position_less (sort_slice position_less ?ls)"
    by (intro position_order.sorted_total) (use hashes in \<open>simp_all only: distinct_map\<close>)
  then show ?thesis using hashes by (simp add: ogp_links_ok_def del: map_append)
qed

lemma links_ok_attachOGP: "links_ok s \<Longrightarrow> links_ok (attachOGP i h n s)"
  using attachOGP_new [of "links_of (postOGPs s) i" h n] ogp_links_ok_of [of s i]
  by (auto simp: links_ok_def attachOGP_def Let_def ogpLinksByPost_def split: if_splits)

lemma ogpLinksByPost_attachOGP:
  "set (ogpLinksByPost j (attachOGP i h n s)) =
     set (ogpLinksByPost j s) \<union>
     (if j = i \<and> (\<forall>l\<in>set (ogpLinksByPost i s). link_URLHash l \<noteq> h \<and> link_Position l \<noteq> n)
      then {\<lparr>link_URLHash = h, link_Position = n\<rparr>} else {})"
  by (auto simp: attachOGP_def ogpLinksByPost_def links_of_def Let_def)

end
