(* ===== verification/Mem_Image.thy ===== *)
theory Mem_Image
  imports Mem_Post
begin

text \<open>\<open>inmemory.ImageRepository\<close>: image rows, soft-deleted, and the images attached to posts
  through the link store.\<close>

definition ImageRepository_GetByID :: "string \<Rightarrow> (mem, Image option) fallible" where
  "ImageRepository_GetByID i = do {
     images \<leftarrow> gets m_images;
     case get_map images i of
       None \<Rightarrow> ret (Inr None)
     | Some img \<Rightarrow> if Image_DeletedAt img \<noteq> None then ret (Inr None) else ret (Inr (Some img))
   }"

definition ImageRepository_GetByUserID :: "string \<Rightarrow> (mem, Image list) fallible" where
  "ImageRepository_GetByUserID userID = do {
     images \<leftarrow> gets m_images;
     rows \<leftarrow> map_range images;
     ret (Inr [img. (_, img) \<leftarrow> rows, Image_UserID img = userID \<and> Image_DeletedAt img = None])
   }"

definition ImageRepository_Create :: "Image \<Rightarrow> (mem, Image) fallible" where
  "ImageRepository_Create img = do {
     now \<leftarrow> Now;
     let img = img\<lparr>Image_CreatedAt := now, Image_UpdatedAt := now\<rparr>;
     modify (m_images_update (set_map (Image_ID img) img));
     ret (Inr img)
   }"

definition ImageRepository_Delete :: "string \<Rightarrow> (mem, unit) fallible" where
  "ImageRepository_Delete i = do {
     images \<leftarrow> gets m_images;
     case get_map images i of
       Some img \<Rightarrow> do {
         now \<leftarrow> Now;
         modify (m_images_update (set_map i (img\<lparr>Image_DeletedAt := Some now\<rparr>)));
         ret (Inr ())
       }
     | None \<Rightarrow> ret (Inr ())
   }"

text \<open>The live rows of a list of ids, in its order.\<close>

definition live_images :: "(string, Image) go_map \<Rightarrow> string list \<Rightarrow> Image list" where
  "live_images images ids =
     [img. Some img \<leftarrow> map (get_map images) ids, Image_DeletedAt img = None]"

definition ImageRepository_ListByPostID :: "string \<Rightarrow> (mem, Image list) fallible" where
  "ImageRepository_ListByPostID postID = do {
     ls \<leftarrow> gets m_links;
     let ids = imageIDsByPost postID ls;
     if length ids = 0 then ret (Inr [])
     else do {
       images \<leftarrow> gets m_images;
       ret (Inr (live_images images ids))
     }
   }"

definition ImageRepository_ListByPostIDs :: "string list \<Rightarrow> (mem, string \<rightharpoonup> Image list) fallible" where
  "ImageRepository_ListByPostIDs postIDs = do {
     images \<leftarrow> gets m_images;
     ls \<leftarrow> gets m_links;
     ret (Inr (fold (\<lambda>pid out.
        let ids = imageIDsByPost pid ls in
        if length ids = 0 then out
        else let imgs = live_images images ids in
             if length imgs > 0 then out(pid \<mapsto> imgs) else out) postIDs Map.empty))
   }"

definition NewImageRepository :: "mem ImageRepository" where
  "NewImageRepository =
     \<lparr>images_GetByID = ImageRepository_GetByID, images_GetByUserID = ImageRepository_GetByUserID,
      images_Create = ImageRepository_Create, images_Delete = ImageRepository_Delete,
      images_ListByPostID = ImageRepository_ListByPostID,
      images_ListByPostIDs = ImageRepository_ListByPostIDs\<rparr>"

section \<open>What each operation does\<close>

lemma run_image_GetByID [run_simps]:
  "run_state (ImageRepository_GetByID i) s =
     (Inr (case get_map (m_images s) i of
        Some m \<Rightarrow> if Image_DeletedAt m = None then Some m else None | None \<Rightarrow> None), s)"
  by (simp add: ImageRepository_GetByID_def run_simps split: option.split)

lemma run_image_Create [run_simps]:
  "run_state (ImageRepository_Create m) s =
     (let m' = m\<lparr>Image_CreatedAt := rt_clock s (rt_ticks s), Image_UpdatedAt := rt_clock s (rt_ticks s)\<rparr>
      in (Inr m', s\<lparr>rt_ticks := Suc (rt_ticks s), m_images := set_map (Image_ID m) m' (m_images s)\<rparr>))"
  by (simp add: ImageRepository_Create_def run_simps Let_def)

lemma run_image_Delete [run_simps]:
  "run_state (ImageRepository_Delete i) s =
     (Inr (), case get_map (m_images s) i of
        Some m \<Rightarrow> s\<lparr>rt_ticks := Suc (rt_ticks s),
            m_images := set_map i (m\<lparr>Image_DeletedAt := Some (rt_clock s (rt_ticks s))\<rparr>) (m_images s)\<rparr>
      | None \<Rightarrow> s)"
  by (simp add: ImageRepository_Delete_def run_simps split: option.split)

text \<open>The images a post shows: the live ones among those attached, in the order of attachment.\<close>

definition images_of_post :: "mem \<Rightarrow> string \<Rightarrow> Image list" where
  "images_of_post s p = live_images (m_images s) (imageIDsByPost p (m_links s))"

lemma live_images_Nil [simp]: "live_images images [] = []"
  by (simp add: live_images_def)

lemma run_image_ListByPostID [run_simps]:
  "run_state (ImageRepository_ListByPostID p) s = (Inr (images_of_post s p), s)"
  by (simp add: ImageRepository_ListByPostID_def run_simps images_of_post_def Let_def)

lemma fold_lookups:
  "fold (\<lambda>pid out. if f pid = [] then out else out(pid \<mapsto> f pid)) ps m p =
     (if p \<in> set ps \<and> f p \<noteq> [] then Some (f p) else m p)"
  by (induction ps arbitrary: m) auto

text \<open>The batched lookup is the single one, post by post; a post without images is absent.\<close>

lemma image_batch_step:
  "(\<lambda>pid out. let ids = imageIDsByPost pid (m_links s) in
      if length ids = 0 then out
      else let imgs = live_images (m_images s) ids in
           if length imgs > 0 then out(pid \<mapsto> imgs) else out) =
    (\<lambda>pid out. if images_of_post s pid = [] then out else out(pid \<mapsto> images_of_post s pid))"
  by (auto simp: fun_eq_iff images_of_post_def Let_def)

lemma run_image_ListByPostIDs [run_simps]:
  "run_state (ImageRepository_ListByPostIDs ps) s =
     (Inr (\<lambda>p. if p \<in> set ps \<and> images_of_post s p \<noteq> [] then Some (images_of_post s p) else None), s)"
  unfolding ImageRepository_ListByPostIDs_def run_state_bind run_gets split_beta fst_conv snd_conv
    image_batch_step
  by (simp add: fold_lookups fun_eq_iff)

end
