(* ===== verification/Mem_Like.thy ===== *)
theory Mem_Like
  imports Mem_Store
begin

text \<open>\<open>inmemory.LikeRepository\<close>: the rows are the pairs of \<open>likes[userID][postID]\<close>. Creating and
  deleting report whether the row changed, which is what the use cases base the counters on.\<close>

definition LikeRepository_Create :: "string \<Rightarrow> string \<Rightarrow> (mem, bool) fallible" where
  "LikeRepository_Create userID postID = do {
     likes \<leftarrow> gets m_likes;
     byUser \<leftarrow> (case get_map likes userID of
         Some byUser \<Rightarrow> ret byUser
       | None \<Rightarrow> do { modify (m_likes_update (set_map userID DAList.empty)); ret DAList.empty });
     if get_map byUser postID \<noteq> None then ret (Inr False)
     else do {
       now \<leftarrow> Now;
       modify (m_likes_update (set_map userID (set_map postID now byUser)));
       ret (Inr True)
     }
   }"

definition LikeRepository_Delete :: "string \<Rightarrow> string \<Rightarrow> (mem, bool) fallible" where
  "LikeRepository_Delete userID postID = do {
     likes \<leftarrow> gets m_likes;
     case get_map likes userID of
       None \<Rightarrow> ret (Inr False)
     | Some byUser \<Rightarrow>
         if get_map byUser postID = None then ret (Inr False)
         else do {
           modify (m_likes_update (set_map userID (del_map postID byUser)));
           ret (Inr True)
         }
   }"

definition LikeRepository_IsLikedBy :: "string \<Rightarrow> string \<Rightarrow> (mem, bool) fallible" where
  "LikeRepository_IsLikedBy userID postID = do {
     likes \<leftarrow> gets m_likes;
     case get_map likes userID of
       None \<Rightarrow> ret (Inr False)
     | Some byUser \<Rightarrow> ret (Inr (get_map byUser postID \<noteq> None))
   }"

definition LikeRepository_ListLikedPostIDsByUser :: "string \<Rightarrow> string list \<Rightarrow> (mem, string \<rightharpoonup> bool) fallible"
  where "LikeRepository_ListLikedPostIDsByUser userID postIDs = do {
     likes \<leftarrow> gets m_likes;
     case get_map likes userID of
       None \<Rightarrow> ret (Inr Map.empty)
     | Some byUser \<Rightarrow>
         ret (Inr (fold (\<lambda>pid out. if get_map byUser pid \<noteq> None then out(pid \<mapsto> True) else out)
           postIDs Map.empty))
   }"

definition NewLikeRepository :: "mem LikeRepository" where
  "NewLikeRepository =
     \<lparr>likes_Create = LikeRepository_Create, likes_Delete = LikeRepository_Delete,
      likes_IsLikedBy = LikeRepository_IsLikedBy,
      likes_ListLikedPostIDsByUser = LikeRepository_ListLikedPostIDsByUser\<rparr>"

section \<open>What each operation does\<close>

text \<open>The abstract view: the set of like rows.\<close>

definition like_rows :: "mem \<Rightarrow> (string \<times> string) set" where
  "like_rows s = {(u, p). \<exists>byUser. get_map (m_likes s) u = Some byUser \<and> get_map byUser p \<noteq> None}"

definition likers :: "mem \<Rightarrow> string \<Rightarrow> string set" where
  "likers s p = {u. (u, p) \<in> like_rows s}"

lemma like_rows_subset:
  "like_rows s \<subseteq> (\<Union>u\<in>dom (get_map (m_likes s)). {u} \<times> dom (get_map (the (get_map (m_likes s) u))))"
  by (auto simp: like_rows_def)

lemma finite_like_rows [simp]: "finite (like_rows s)"
  by (rule finite_subset [OF like_rows_subset]) auto

lemma finite_likers [simp]: "finite (likers s p)"
proof -
  have "likers s p \<subseteq> fst ` like_rows s" by (force simp: likers_def)
  then show ?thesis by (rule finite_subset) simp
qed

lemma like_rows_cong: "m_likes s = m_likes t \<Longrightarrow> like_rows s = like_rows t"
  by (simp add: like_rows_def)

lemma like_rows_insert:
  "like_rows (s\<lparr>m_likes := set_map u (set_map p t byUser) m\<rparr>) =
     insert (u, p) ({u} \<times> dom (get_map byUser) \<union> {x \<in> like_rows (s\<lparr>m_likes := m\<rparr>). fst x \<noteq> u})"
  by (auto simp: like_rows_def split: if_splits)

lemma like_rows_of_user:
  "get_map (m_likes s) u = Some byUser \<Longrightarrow> {u} \<times> dom (get_map byUser) \<union> {x \<in> like_rows s. fst x \<noteq> u} = like_rows s"
  "get_map (m_likes s) u = None \<Longrightarrow> {x \<in> like_rows s. fst x \<noteq> u} = like_rows s"
  by (auto simp: like_rows_def)

lemma run_like_Create:
  "\<exists>m n. run_state (LikeRepository_Create u p) s =
       (Inr ((u, p) \<notin> like_rows s), s\<lparr>m_likes := m, rt_ticks := n\<rparr>) \<and>
     like_rows (s\<lparr>m_likes := m\<rparr>) = insert (u, p) (like_rows s)"
proof (cases "get_map (m_likes s) u")
  case None
  have rows: "like_rows (s\<lparr>m_likes := set_map u (set_map p t DAList.empty) (set_map u DAList.empty (m_likes s))\<rparr>) =
      insert (u, p) (like_rows s)" for t
    using None by (auto simp: like_rows_def split: if_splits)
  have "(u, p) \<notin> like_rows s" using None by (simp add: like_rows_def)
  then show ?thesis using None rows
    by (intro exI [of _ "set_map u (set_map p (rt_clock s (rt_ticks s)) DAList.empty) (set_map u DAList.empty (m_likes s))"]
        exI [of _ "Suc (rt_ticks s)"])
      (simp add: LikeRepository_Create_def run_simps)
next
  case (Some byUser)
  show ?thesis
  proof (cases "get_map byUser p")
    case None
    have "(u, p) \<notin> like_rows s" using Some None by (simp add: like_rows_def)
    then show ?thesis using Some None like_rows_insert [where s = s and u = u and p = p and byUser = byUser and m = "m_likes s"] like_rows_of_user(1) [OF Some]
      by (intro exI [of _ "set_map u (set_map p (rt_clock s (rt_ticks s)) byUser) (m_likes s)"]
          exI [of _ "Suc (rt_ticks s)"])
        (simp add: LikeRepository_Create_def run_simps)
  next
    case (Some t)
    then have "(u, p) \<in> like_rows s" using \<open>get_map (m_likes s) u = Some byUser\<close> by (simp add: like_rows_def)
    then show ?thesis using \<open>get_map (m_likes s) u = Some byUser\<close> Some
      by (intro exI [of _ "m_likes s"] exI [of _ "rt_ticks s"])
        (simp add: LikeRepository_Create_def run_simps insert_absorb)
  qed
qed

lemma run_like_Delete:
  "\<exists>m. run_state (LikeRepository_Delete u p) s = (Inr ((u, p) \<in> like_rows s), s\<lparr>m_likes := m\<rparr>) \<and>
     like_rows (s\<lparr>m_likes := m\<rparr>) = like_rows s - {(u, p)}"
proof (cases "(u, p) \<in> like_rows s")
  case True
  then obtain byUser t where bu: "get_map (m_likes s) u = Some byUser" "get_map byUser p = Some t"
    by (auto simp: like_rows_def)
  then have "like_rows (s\<lparr>m_likes := set_map u (del_map p byUser) (m_likes s)\<rparr>) = like_rows s - {(u, p)}"
    by (auto simp: like_rows_def lookup_delete split: if_splits)
  then show ?thesis using bu True
    by (intro exI [of _ "set_map u (del_map p byUser) (m_likes s)"])
      (simp add: LikeRepository_Delete_def run_simps)
next
  case False
  then have "run_state (LikeRepository_Delete u p) s = (Inr False, s)"
    by (simp add: LikeRepository_Delete_def run_simps like_rows_def split: option.split)
  then show ?thesis using False by (intro exI [of _ "m_likes s"]) simp
qed

lemma run_IsLikedBy [run_simps]:
  "run_state (LikeRepository_IsLikedBy u p) s = (Inr ((u, p) \<in> like_rows s), s)"
  by (simp add: LikeRepository_IsLikedBy_def run_simps like_rows_def split: option.split)

lemma fold_flags:
  "fold (\<lambda>pid out. if Q pid then out(pid \<mapsto> b) else out) ps m p = (if p \<in> set ps \<and> Q p then Some b else m p)"
  by (induction ps arbitrary: m) auto

lemma run_ListLikedPostIDsByUser [run_simps]:
  "run_state (LikeRepository_ListLikedPostIDsByUser u ps) s =
     (Inr (\<lambda>p. if p \<in> set ps \<and> (u, p) \<in> like_rows s then Some True else None), s)"
  by (simp add: LikeRepository_ListLikedPostIDsByUser_def run_simps like_rows_def fold_flags fun_eq_iff
      split: option.split)

end
