(* ===== verification/Mem_Tag.thy ===== *)
theory Mem_Tag
  imports Mem_Post
begin

text \<open>\<open>inmemory.TagRepository\<close>: tags by id and by name, created on first use, and the tags of a
  post through the link store, in the order of their names.\<close>

definition tag_name_less :: "Tag \<Rightarrow> Tag \<Rightarrow> bool" where
  "tag_name_less a b \<longleftrightarrow> Tag_Name a < Tag_Name b"

text \<open>The loop of \<open>UpsertByNames\<close>; \<open>*r.tags[id]\<close> panics when the index has an id the table lacks.\<close>

fun upsert_names :: "time \<Rightarrow> string set \<Rightarrow> string list \<Rightarrow> (mem, Tag list) fallible" where
  "upsert_names now seen [] = ret (Inr [])"
| "upsert_names now seen (name # names) =
     (if name = [] then upsert_names now seen names
      else if name \<in> seen then upsert_names now seen names
      else do {
        byName \<leftarrow> gets m_tagByName;
        case get_map byName name of
          Some i \<Rightarrow> do {
            tags \<leftarrow> gets m_tags;
            case get_map tags i of
              None \<Rightarrow> ret (Inl (GoPanic ''invalid memory address or nil pointer dereference''))
            | Some tag \<Rightarrow> bind_or (upsert_names now (insert name seen) names) id (\<lambda>out. ret (Inr (tag # out)))
          }
        | None \<Rightarrow> do {
            i \<leftarrow> ulid_Make;
            let tag = \<lparr>Tag_ID = i, Tag_Name = name, Tag_CreatedAt = now\<rparr>;
            modify (m_tags_update (set_map i tag));
            modify (m_tagByName_update (set_map name i));
            bind_or (upsert_names now (insert name seen) names) id (\<lambda>out. ret (Inr (tag # out)))
          }
      })"

definition TagRepository_UpsertByNames :: "string list \<Rightarrow> (mem, Tag list) fallible" where
  "TagRepository_UpsertByNames names = do {
     now \<leftarrow> Now;
     upsert_names now {} names
   }"

definition known_tags :: "(string, Tag) go_map \<Rightarrow> string list \<Rightarrow> Tag list" where
  "known_tags tags ids = [t. Some t \<leftarrow> map (get_map tags) ids]"

definition TagRepository_ListByPostID :: "string \<Rightarrow> (mem, Tag list) fallible" where
  "TagRepository_ListByPostID postID = do {
     ids \<leftarrow> tagIDsByPost postID;
     if length ids = 0 then ret (Inr [])
     else do {
       tags \<leftarrow> gets m_tags;
       ret (Inr (sort_slice tag_name_less (known_tags tags ids)))
     }
   }"

fun tags_by_posts :: "string list \<Rightarrow> (string \<rightharpoonup> Tag list) \<Rightarrow> (mem, string \<rightharpoonup> Tag list) state" where
  "tags_by_posts [] out = ret out"
| "tags_by_posts (pid # pids) out = do {
     ids \<leftarrow> tagIDsByPost pid;
     if length ids = 0 then tags_by_posts pids out
     else do {
       tags \<leftarrow> gets m_tags;
       let ts = sort_slice tag_name_less (known_tags tags ids);
       tags_by_posts pids (if length ts > 0 then out(pid \<mapsto> ts) else out)
     }
   }"

definition TagRepository_ListByPostIDs :: "string list \<Rightarrow> (mem, string \<rightharpoonup> Tag list) fallible" where
  "TagRepository_ListByPostIDs postIDs = do {
     out \<leftarrow> tags_by_posts postIDs Map.empty;
     ret (Inr out)
   }"

definition NewTagRepository :: "mem TagRepository" where
  "NewTagRepository =
     \<lparr>tags_UpsertByNames = TagRepository_UpsertByNames, tags_ListByPostID = TagRepository_ListByPostID,
      tags_ListByPostIDs = TagRepository_ListByPostIDs\<rparr>"

section \<open>The index and the table agree\<close>

definition tags_ok :: "mem \<Rightarrow> bool" where
  "tags_ok s \<longleftrightarrow>
     (\<forall>n i. get_map (m_tagByName s) n = Some i \<longrightarrow>
        (\<exists>t. get_map (m_tags s) i = Some t \<and> Tag_Name t = n)) \<and>
     (\<forall>i t. get_map (m_tags s) i = Some t \<longrightarrow>
        Tag_ID t = i \<and> issued s i \<and> get_map (m_tagByName s) (Tag_Name t) = Some i)"

lemma tags_ok_byName:
  "tags_ok s \<Longrightarrow> get_map (m_tagByName s) n = Some i \<Longrightarrow>
   \<exists>t. get_map (m_tags s) i = Some t \<and> Tag_Name t = n \<and> Tag_ID t = i"
  unfolding tags_ok_def by blast

lemma tags_ok_row:
  "tags_ok s \<Longrightarrow> get_map (m_tags s) i = Some t \<Longrightarrow>
   Tag_ID t = i \<and> issued s i \<and> get_map (m_tagByName s) (Tag_Name t) = Some i"
  unfolding tags_ok_def by blast

definition add_tag :: "time \<Rightarrow> string \<Rightarrow> mem \<Rightarrow> mem" where
  "add_tag now name s =
     (let i = rt_ulid s (rt_ids s) in
      s\<lparr>rt_ids := Suc (rt_ids s), m_tags := set_map i \<lparr>Tag_ID = i, Tag_Name = name, Tag_CreatedAt = now\<rparr> (m_tags s),
        m_tagByName := set_map name i (m_tagByName s)\<rparr>)"

lemma add_tag_fields [simp]:
  "rt_ulid (add_tag now name s) = rt_ulid s" "rt_ids (add_tag now name s) = Suc (rt_ids s)"
  "get_map (m_tagByName (add_tag now name s)) = (get_map (m_tagByName s))(name \<mapsto> rt_ulid s (rt_ids s))"
  "get_map (m_tags (add_tag now name s)) = (get_map (m_tags s))(rt_ulid s (rt_ids s) \<mapsto>
     \<lparr>Tag_ID = rt_ulid s (rt_ids s), Tag_Name = name, Tag_CreatedAt = now\<rparr>)"
  by (simp_all add: add_tag_def Let_def)

lemma tags_ok_add_tag:
  assumes ok: "tags_ok s" and ids: "unique_ids N (rt_ulid s)" "rt_ids s < N" and new: "get_map (m_tagByName s) name = None"
  shows "tags_ok (add_tag now name s)"
proof -
  let ?i = "rt_ulid s (rt_ids s)"
  have fresh: "get_map (m_tags s) ?i = None"
    using ok fresh_id [OF ids] by (auto simp: tags_ok_def) (metis not_None_eq)
  have iss: "issued (add_tag now name s) i \<longleftrightarrow> issued s i \<or> i = ?i" for i
    by (auto simp: issued_def less_Suc_eq)
  show ?thesis
    using new fresh tags_ok_byName [OF ok] tags_ok_row [OF ok] unfolding tags_ok_def iss
    by (fastforce split: if_splits)
qed

lemma get_map_tags_mono:
  "tags_ok s \<Longrightarrow> unique_ids N (rt_ulid s) \<Longrightarrow> rt_ids s < N \<Longrightarrow> get_map (m_tags s) i = Some t \<Longrightarrow>
   get_map (m_tags (add_tag now name s)) i = Some t"
  using fresh_id [of N s] by (auto simp: tags_ok_def)

text \<open>The names of the input, without the empty ones and the repetitions, in order.\<close>

fun fresh_names :: "string set \<Rightarrow> string list \<Rightarrow> string list" where
  "fresh_names seen [] = []"
| "fresh_names seen (n # ns) =
     (if n = [] \<or> n \<in> seen then fresh_names seen ns else n # fresh_names (insert n seen) ns)"

lemma set_fresh_names: "set (fresh_names seen ns) = set ns - insert [] seen"
  by (induction ns arbitrary: seen) auto

lemma distinct_fresh_names: "distinct (fresh_names seen ns)"
  by (induction ns arbitrary: seen) (auto simp: set_fresh_names)

lemma run_upsert_names:
  assumes "tags_ok s" and "unique_ids N (rt_ulid s)" and "rt_ids s + length names \<le> N"
  shows "\<exists>ts m b n. run_state (upsert_names now seen names) s =
        (Inr ts, s\<lparr>m_tags := m, m_tagByName := b, rt_ids := n\<rparr>) \<and>
      rt_ids s \<le> n \<and> n \<le> rt_ids s + length names \<and> tags_ok (s\<lparr>m_tags := m, m_tagByName := b, rt_ids := n\<rparr>) \<and>
      map Tag_Name ts = fresh_names seen names \<and>
      (\<forall>t\<in>set ts. get_map m (Tag_ID t) = Some t) \<and>
      (\<forall>i t. get_map (m_tags s) i = Some t \<longrightarrow> get_map m i = Some t)"
  using assms
proof (induction now seen names arbitrary: s rule: upsert_names.induct)
  case (1 now seen)
  then show ?case
    by (intro exI [of _ "[]"] exI [of _ "m_tags s"] exI [of _ "m_tagByName s"] exI [of _ "rt_ids s"]) simp
next
  case (2 now seen name names)
  consider (skip) "name = [] \<or> name \<in> seen"
    | (old) i t where "name \<noteq> []" "name \<notin> seen" "get_map (m_tagByName s) name = Some i"
        "get_map (m_tags s) i = Some t" "Tag_Name t = name" "Tag_ID t = i"
    | (new) "name \<noteq> []" "name \<notin> seen" "get_map (m_tagByName s) name = None"
    using tags_ok_byName [OF 2(5), of name] by (cases "get_map (m_tagByName s) name") blast+
  moreover have le: "rt_ids s + length names \<le> N" "rt_ids s < N" using 2(7) by simp_all
  ultimately show ?case
  proof cases
    case skip
    have run: "run_state (upsert_names now seen (name # names)) s = run_state (upsert_names now seen names) s"
      "fresh_names seen (name # names) = fresh_names seen names" using skip by auto
    obtain ts m b n where r: "run_state (upsert_names now seen names) s =
          (Inr ts, s\<lparr>m_tags := m, m_tagByName := b, rt_ids := n\<rparr>)"
        "rt_ids s \<le> n" "n \<le> rt_ids s + length names" "tags_ok (s\<lparr>m_tags := m, m_tagByName := b, rt_ids := n\<rparr>)"
        "map Tag_Name ts = fresh_names seen names"
        "\<forall>t\<in>set ts. get_map m (Tag_ID t) = Some t"
        "\<forall>i t. get_map (m_tags s) i = Some t \<longrightarrow> get_map m i = Some t"
      using skip 2(1) [OF _ 2(5,6) le(1)] 2(2) [OF _ _ 2(5,6) le(1)] by (cases "name = []") blast+
    show ?thesis
      by (intro exI [of _ ts] exI [of _ m] exI [of _ b] exI [of _ n]) (use run r in simp)
  next
    case old
    obtain ts m b n where r: "run_state (upsert_names now (insert name seen) names) s =
          (Inr ts, s\<lparr>m_tags := m, m_tagByName := b, rt_ids := n\<rparr>)"
        "rt_ids s \<le> n" "n \<le> rt_ids s + length names" "tags_ok (s\<lparr>m_tags := m, m_tagByName := b, rt_ids := n\<rparr>)"
        "map Tag_Name ts = fresh_names (insert name seen) names"
        "\<forall>t\<in>set ts. get_map m (Tag_ID t) = Some t"
        "\<forall>i t. get_map (m_tags s) i = Some t \<longrightarrow> get_map m i = Some t"
      using 2(4) [OF old(1,2) old(3) old(4) 2(5,6) le(1)] by blast
    show ?thesis
      by (intro exI [of _ "t # ts"] exI [of _ m] exI [of _ b] exI [of _ n])
        (use old r in \<open>simp add: run_simps\<close>)
  next
    case new
    let ?s = "add_tag now name s"
    let ?t = "\<lparr>Tag_ID = rt_ulid s (rt_ids s), Tag_Name = name, Tag_CreatedAt = now\<rparr>"
    have le': "rt_ids ?s + length names \<le> N" using 2(7) by simp
    obtain ts m b n where r: "run_state (upsert_names now (insert name seen) names) ?s =
          (Inr ts, ?s\<lparr>m_tags := m, m_tagByName := b, rt_ids := n\<rparr>)"
        "rt_ids ?s \<le> n" "n \<le> rt_ids ?s + length names" "tags_ok (?s\<lparr>m_tags := m, m_tagByName := b, rt_ids := n\<rparr>)"
        "map Tag_Name ts = fresh_names (insert name seen) names"
        "\<forall>t\<in>set ts. get_map m (Tag_ID t) = Some t"
        "\<forall>i t. get_map (m_tags ?s) i = Some t \<longrightarrow> get_map m i = Some t"
      using 2(3) [OF new(1,2,3) refl tags_ok_add_tag [OF 2(5,6) le(2) new(3)] _ le'] 2(6) unfolding add_tag_fields by blast
    have end': "?s\<lparr>m_tags := m, m_tagByName := b, rt_ids := n\<rparr> = s\<lparr>m_tags := m, m_tagByName := b, rt_ids := n\<rparr>"
      by (simp add: add_tag_def Let_def)
    have "m_tagByName_update (set_map name (rt_ulid s (rt_ids s)))
        (m_tags_update (set_map (rt_ulid s (rt_ids s)) ?t) (s\<lparr>rt_ids := Suc (rt_ids s)\<rparr>)) = ?s"
      by (simp add: add_tag_def Let_def)
    note run = this r(1) [unfolded end']
    show ?thesis
      by (intro exI [of _ "?t # ts"] exI [of _ m] exI [of _ b] exI [of _ n])
        (use new r run end' get_map_tags_mono [OF 2(5,6) le(2)] in \<open>simp add: run_simps\<close>)
  qed
qed

section \<open>The tags of a post\<close>

definition tag_links :: "mem \<Rightarrow> string \<Rightarrow> string list" where
  "tag_links s p = (case get_map (postTags (m_links s)) p of Some t \<Rightarrow> map fst (entries t) | None \<Rightarrow> [])"

definition tags_of_post :: "mem \<Rightarrow> string \<Rightarrow> Tag list" where
  "tags_of_post s p = sort_slice tag_name_less (known_tags (m_tags s) (tag_links s p))"

interpretation tag_order: comparator tag_name_less
  unfolding tag_name_less_def by (rule comparator_key)

lemma distinct_tag_links: "distinct (tag_links s p)"
  by (simp add: tag_links_def split: option.split)

lemma known_tags_Cons [simp]:
  "known_tags tags (i # ids) = (case get_map tags i of Some t \<Rightarrow> t # known_tags tags ids | None \<Rightarrow> known_tags tags ids)"
  "known_tags tags [] = []"
  by (simp_all add: known_tags_def split: option.split)

lemma known_tags_eq: "known_tags tags ids = map (\<lambda>i. the (get_map tags i)) (filter (\<lambda>i. get_map tags i \<noteq> None) ids)"
  by (induction ids) (auto split: option.split)

lemma mset_known_tags: "mset ids = mset ids' \<Longrightarrow> mset (known_tags tags ids) = mset (known_tags tags ids')"
  by (simp add: known_tags_eq)

lemma distinct_known_names:
  assumes ok: "tags_ok s" and d: "distinct ids"
  shows "distinct (map Tag_Name (known_tags (m_tags s) ids))"
proof -
  have "inj_on (\<lambda>i. Tag_Name (the (get_map (m_tags s) i))) {i. get_map (m_tags s) i \<noteq> None}"
    by (rule inj_onI) (auto, metis ok option.inject tags_ok_row)
  then show ?thesis using d
    by (auto simp: known_tags_eq distinct_map comp_def inj_on_def)
qed

lemma sort_known_tags:
  assumes "tags_ok s" and "distinct ids" and "mset ids' = mset ids"
  shows "sort_slice tag_name_less (known_tags (m_tags s) ids') = sort_slice tag_name_less (known_tags (m_tags s) ids)"
proof (rule tag_order.sort_slice_unique)
  have d: "distinct (map Tag_Name (known_tags (m_tags s) ids''))" if "mset ids'' = mset ids" for ids''
    using that assms distinct_known_names [OF assms(1)] by (metis mset_eq_imp_distinct_iff)
  show "distinct (known_tags (m_tags s) ids')" using d [OF assms(3)] by (rule distinct_of_map)
  show "mset (sort_slice tag_name_less (known_tags (m_tags s) ids)) = mset (known_tags (m_tags s) ids')"
    using mset_known_tags [OF assms(3)] by simp
  show "sorted_wrt tag_name_less (sort_slice tag_name_less (known_tags (m_tags s) ids))"
    by (intro tag_order.sorted_total)
      (use key_total [OF d] distinct_of_map [OF d] in \<open>auto simp: tag_name_less_def\<close>)
  show "\<And>x y. x \<in> set (known_tags (m_tags s) ids') \<Longrightarrow> y \<in> set (known_tags (m_tags s) ids') \<Longrightarrow>
      x \<noteq> y \<Longrightarrow> tag_name_less x y \<or> tag_name_less y x"
    using key_total [OF d [OF assms(3)]] by (auto simp: tag_name_less_def)
qed

lemma run_tagIDsByPost:
  "\<exists>ids n. run_state (tagIDsByPost p) s = (ids, s\<lparr>rt_ranges := n\<rparr>) \<and> mset ids = mset (tag_links s p)"
  by (cases "get_map (postTags (m_links s)) p")
    (auto simp: tagIDsByPost_def run_simps tag_links_def mset_map intro: exI [of _ "rt_ranges s"])

lemma run_tag_ListByPostID:
  assumes "tags_ok s"
  shows "\<exists>n. run_state (TagRepository_ListByPostID p) s = (Inr (tags_of_post s p), s\<lparr>rt_ranges := n\<rparr>)"
proof -
  obtain ids n where r: "run_state (tagIDsByPost p) s = (ids, s\<lparr>rt_ranges := n\<rparr>)" "mset ids = mset (tag_links s p)"
    using run_tagIDsByPost by blast
  then show ?thesis
    using sort_known_tags [OF assms distinct_tag_links r(2)]
    by (cases ids) (auto simp: TagRepository_ListByPostID_def run_simps tags_of_post_def)
qed

lemma tags_of_post_ranges [simp]: "tags_of_post (s\<lparr>rt_ranges := n\<rparr>) = tags_of_post s"
  by (simp add: tags_of_post_def tag_links_def fun_eq_iff)

lemma tags_ok_ranges [simp]: "tags_ok (s\<lparr>rt_ranges := n\<rparr>) = tags_ok s"
  by (simp add: tags_ok_def issued_def)

lemma run_tags_by_posts:
  assumes "tags_ok s"
  shows "\<exists>n. run_state (tags_by_posts ps out) s =
     (\<lambda>p. if p \<in> set ps \<and> tags_of_post s p \<noteq> [] then Some (tags_of_post s p) else out p, s\<lparr>rt_ranges := n\<rparr>)"
  using assms
proof (induction ps arbitrary: s out)
  case Nil
  show ?case by (intro exI [of _ "rt_ranges s"]) simp
next
  case (Cons p ps)
  obtain ids n where r: "run_state (tagIDsByPost p) s = (ids, s\<lparr>rt_ranges := n\<rparr>)" "mset ids = mset (tag_links s p)"
    using run_tagIDsByPost by blast
  let ?out = "if tags_of_post s p = [] then out else out(p \<mapsto> tags_of_post s p)"
  have step: "run_state (tags_by_posts (p # ps) out) s = run_state (tags_by_posts ps ?out) (s\<lparr>rt_ranges := n\<rparr>)"
    using r sort_known_tags [OF Cons.prems distinct_tag_links r(2)]
    by (cases ids) (simp_all add: run_simps tags_of_post_def Let_def)
  obtain n' where "run_state (tags_by_posts ps ?out) (s\<lparr>rt_ranges := n\<rparr>) =
      (\<lambda>q. if q \<in> set ps \<and> tags_of_post s q \<noteq> [] then Some (tags_of_post s q) else ?out q, s\<lparr>rt_ranges := n'\<rparr>)"
    using Cons.IH [of "s\<lparr>rt_ranges := n\<rparr>" ?out] Cons.prems by (auto cong: if_cong)
  then show ?case
    unfolding step by (intro exI [of _ n']) (auto simp: fun_eq_iff)
qed

end
