(* ===== verification/Go_Time.thy ===== *)
theory Go_Time
  imports Go_Runtime
begin

text \<open>
  Calendar dates and the layout \<open>time.RFC3339Nano\<close> of the standard library, as far as the
  follow cursors use them: \<open>Time.UTC().Format\<close> and \<open>time.Parse\<close>. An instant is a number of
  nanoseconds since 0001-01-01T00:00:00Z. The main result is the round trip \<open>parse_format\<close> for
  the instants of the years 1 to 9999.
\<close>

section \<open>Days and dates\<close>

definition isLeap :: "nat \<Rightarrow> bool" where
  "isLeap year \<longleftrightarrow> year mod 4 = 0 \<and> (year mod 100 \<noteq> 0 \<or> year mod 400 = 0)"

definition daysBefore :: "nat list" where
  "daysBefore = [0, 31, 59, 90, 120, 151, 181, 212, 243, 273, 304, 334, 365]"

definition daysIn :: "nat \<Rightarrow> nat \<Rightarrow> nat" where
  "daysIn m year = (if m = 2 \<and> isLeap year then 29 else daysBefore ! m - daysBefore ! (m - 1))"

text \<open>Days from 0001-01-01 to the first day of a year; \<open>y\<close> is the year less one.\<close>

definition daysSinceEpoch :: "nat \<Rightarrow> nat" where
  "daysSinceEpoch y =
     146097 * (y div 400) + 36524 * (y mod 400 div 100) + 1461 * (y mod 100 div 4) + 365 * (y mod 4)"

text \<open>The year (less one) and the day in it.\<close>

definition year_yday :: "nat \<Rightarrow> nat \<times> nat" where
  "year_yday d =
     (let n = d div 146097; y = 400 * n; d = d - 146097 * n;
          n = d div 36524; n = n - n div 4; y = y + 100 * n; d = d - 36524 * n;
          n = d div 1461; y = y + 4 * n; d = d - 1461 * n;
          n = d div 365; n = n - n div 4; y = y + n; d = d - 365 * n
      in (y, d))"

text \<open>Month (from 1) and day of the month (from 1) of a day in a year.\<close>

definition month_day :: "bool \<Rightarrow> nat \<Rightarrow> nat \<times> nat" where
  "month_day leap yday =
     (if leap \<and> yday = 31 + 29 - 1 then (2, 29)
      else let day = (if leap \<and> yday > 31 + 29 - 1 then yday - 1 else yday);
               m = day div 31; e = daysBefore ! (m + 1)
           in if day \<ge> e then (m + 2, day - e + 1) else (m + 1, day - daysBefore ! m + 1))"

definition yday_of :: "bool \<Rightarrow> nat \<Rightarrow> nat \<Rightarrow> nat" where
  "yday_of leap m day = daysBefore ! (m - 1) + (if leap \<and> m \<ge> 3 then 1 else 0) + (day - 1)"

lemma month_estimate:
  assumes "day < 365" and "m = day div 31"
  shows "m \<le> 11 \<and> daysBefore ! m \<le> day \<and>
     (day \<ge> daysBefore ! (m + 1) \<longrightarrow> m \<le> 10 \<and> day < daysBefore ! (m + 2))"
proof -
  have "31 * m \<le> day" "day < 31 * m + 31" using assms(2) by linarith+
  moreover have "m < 12" using assms by linarith
  then have "m \<in> {0, 1, 2, 3, 4, 5, 6, 7, 8, 9, 10, 11}" by (auto simp: less_Suc_eq numeral_eq_Suc)
  ultimately show ?thesis using assms(1) by (auto simp: daysBefore_def)
qed

text \<open>The common part, without the leap day: a day in a year of 365 days.\<close>

lemma month_day_common:
  assumes "day < 365"
  shows "\<exists>m d. month_day False day = (m, d) \<and> 1 \<le> m \<and> m \<le> 12 \<and> 1 \<le> d \<and>
     d \<le> daysBefore ! m - daysBefore ! (m - 1) \<and> daysBefore ! (m - 1) + (d - 1) = day"
  using month_estimate [OF assms refl] by (auto simp: month_day_def Let_def)

lemma daysBefore_months:
  assumes "1 \<le> m" and "m \<le> 12"
  shows "daysBefore ! m - daysBefore ! (m - 1) \<le> 31" "m \<ge> 3 \<Longrightarrow> daysBefore ! (m - 1) \<ge> 59"
    "m \<le> 2 \<Longrightarrow> daysBefore ! m \<le> 59"
proof -
  have "m < 13" using assms by linarith
  then have "m \<in> {1, 2, 3, 4, 5, 6, 7, 8, 9, 10, 11, 12}" using assms(1) by (auto simp: less_Suc_eq numeral_eq_Suc)
  then show "daysBefore ! m - daysBefore ! (m - 1) \<le> 31" "m \<ge> 3 \<Longrightarrow> daysBefore ! (m - 1) \<ge> 59"
    "m \<le> 2 \<Longrightarrow> daysBefore ! m \<le> 59"
    by (auto simp: daysBefore_def)
qed

lemma month_day_inverse:
  assumes yday: "yday < (if leap then 366 else 365)" and md: "month_day leap yday = (m, day)"
  shows "yday_of leap m day = yday" "1 \<le> m" "m \<le> 12" "1 \<le> day" "day \<le> 31"
    "day \<le> (if m = 2 \<and> leap then 29 else daysBefore ! m - daysBefore ! (m - 1))"
proof -
  have *: "yday_of leap m day = yday \<and> 1 \<le> m \<and> m \<le> 12 \<and> 1 \<le> day \<and> day \<le> 31 \<and>
      day \<le> (if m = 2 \<and> leap then 29 else daysBefore ! m - daysBefore ! (m - 1))"
  proof (cases "leap \<and> yday = 59")
    case True
    then show ?thesis using md by (auto simp: month_day_def yday_of_def daysBefore_def)
  next
    case False
    let ?d = "if leap \<and> yday > 59 then yday - 1 else yday"
    have lt: "?d < 365" using yday False by auto
    have "month_day leap yday = month_day False ?d" using False by (auto simp: month_day_def)
    then have m: "1 \<le> m" "m \<le> 12" "1 \<le> day" "day \<le> daysBefore ! m - daysBefore ! (m - 1)"
        and eq: "daysBefore ! (m - 1) + (day - 1) = ?d"
      using month_day_common [OF lt] md by auto
    have "m \<ge> 3 \<longleftrightarrow> ?d \<ge> 59"
      using m eq daysBefore_months [OF m(1,2)] by (cases "m \<ge> 3") auto
    then have "yday_of leap m day = yday"
      using m eq False by (auto simp: yday_of_def split: if_splits)
    moreover have "day \<le> 29" if "m = 2" using that m(4) by (simp add: daysBefore_def)
    ultimately show ?thesis
      using m daysBefore_months(1) [OF m(1,2)] by auto
  qed
  then show "yday_of leap m day = yday" "1 \<le> m" "m \<le> 12" "1 \<le> day" "day \<le> 31"
    "day \<le> (if m = 2 \<and> leap then 29 else daysBefore ! m - daysBefore ! (m - 1))"
    by blast+
qed

lemma year_parts:
  fixes y :: nat
  assumes "y = 400 * n + 100 * c + 4 * q + r" "c \<le> 3" "q \<le> 24" "r \<le> 3"
  shows "y div 400 = n" "y mod 400 div 100 = c" "y mod 100 div 4 = q" "y mod 4 = r"
    "y mod 100 = 4 * q + r" "y mod 400 = 100 * c + 4 * q + r"
proof -
  let ?z = "100 * c + 4 * q + r" and ?w = "4 * q + r"
  have z: "?z < 400" "?w < 100" "r < 4" using assms by linarith+
  have y: "y = ?z + 400 * n" "y = ?w + 100 * (4 * n + c)" "y = r + 4 * (100 * n + 25 * c + q)" "?z = ?w + 100 * c"
    using assms(1) by simp_all
  show m: "y mod 400 = ?z" "y mod 100 = ?w" "y mod 4 = r"
    by (subst y(1), simp only: mod_mult_self2 mod_less z,
        subst y(2), simp only: mod_mult_self2 mod_less z,
        subst y(3), simp only: mod_mult_self2 mod_less z)
  show "y div 400 = n" by (subst y(1)) (simp add: z)
  show "y mod 400 div 100 = c" unfolding m y(4) using z by simp
  show "y mod 100 div 4 = q" unfolding m using z by simp
qed

lemma isLeap_cycle:
  fixes y :: nat
  assumes "y = 400 * n + 100 * c + 4 * q + 3" "c \<le> 3" "q \<le> 24" "\<not> (q = 24 \<and> c < 3)"
  shows "isLeap (y + 1)"
proof (cases "q = 24")
  case True
  then have "y + 1 = 400 * (n + 1)" using assms by simp
  then show ?thesis by (simp only: isLeap_def) simp
next
  case False
  have "y + 1 = 4 * (100 * n + 25 * c + q + 1)" using assms by simp
  then have "(y + 1) mod 4 = 0" by (simp only: mod_mult_self1_is_0)
  moreover have "y + 1 = (4 * q + 4) + 100 * (4 * n + c)" "4 * q + 4 < 100" using assms False by simp_all
  then have "(y + 1) mod 100 = 4 * q + 4" by (simp only: mod_mult_self2 mod_less)
  ultimately show ?thesis by (simp add: isLeap_def)
qed

lemma cut_cycle: "x \<le> 4 \<Longrightarrow> x - x div 4 = min x (3 :: nat)"
  by (cases "x = 4") auto

lemma year_yday_inverse:
  assumes "year_yday d = (y, yday)"
  shows "daysSinceEpoch y + yday = d" and "yday < (if isLeap (y + 1) then 366 else 365)"
proof -
  define n where "n = d div 146097"
  define d0 where "d0 = d - 146097 * n"
  define c where "c = d0 div 36524 - d0 div 36524 div 4"
  define d1 where "d1 = d0 - 36524 * c"
  define q where "q = d1 div 1461"
  define d2 where "d2 = d1 - 1461 * q"
  define r where "r = d2 div 365 - d2 div 365 div 4"
  have y: "y = 400 * n + 100 * c + 4 * q + r" and yd: "yday = d2 - 365 * r"
    using assms unfolding year_yday_def Let_def
    by (simp_all only: prod.inject flip: n_def d0_def c_def d1_def q_def d2_def r_def)
  have d0: "d0 < 146097" "d = 146097 * n + d0" unfolding d0_def n_def by linarith+
  have "d0 div 36524 \<le> 4" using d0(1) by linarith
  then have c_min: "c = min (d0 div 36524) 3" unfolding c_def by (rule cut_cycle)
  have c: "c \<le> 3" "36524 * c \<le> d0" "c < 3 \<Longrightarrow> d0 < 36524 * c + 36524" unfolding c_min by linarith+
  have d1: "d0 = 36524 * c + d1" "d1 < 36525" "c < 3 \<Longrightarrow> d1 < 36524" using c d0(1) unfolding d1_def by linarith+
  have q: "q \<le> 24" "d1 = 1461 * q + d2" "d2 < 1461" using d1(2) unfolding q_def d2_def by linarith+
  have q24: "q = 24 \<Longrightarrow> c < 3 \<Longrightarrow> d2 < 1460" using q(2) d1(3) by linarith
  have "d2 div 365 \<le> 4" using q(3) by linarith
  then have r_min: "r = min (d2 div 365) 3" unfolding r_def by (rule cut_cycle)
  have r: "r \<le> 3" "365 * r \<le> d2" "r < 3 \<Longrightarrow> d2 < 365 * r + 365" unfolding r_min by linarith+
  have parts: "y div 400 = n" "y mod 400 div 100 = c" "y mod 100 div 4 = q" "y mod 4 = r"
    using year_parts [OF y c(1) q(1) r(1)] by simp_all
  show "daysSinceEpoch y + yday = d"
    using parts d0(2) d1(1) q(2) r(2) unfolding daysSinceEpoch_def yd by simp
  have leap: "r = 3 \<Longrightarrow> \<not> (q = 24 \<and> c < 3) \<Longrightarrow> isLeap (y + 1)"
    using isLeap_cycle [of y n c q] c(1) q(1) y by simp
  show "yday < (if isLeap (y + 1) then 366 else 365)"
  proof (cases "r = 3")
    case True
    have "yday < 366" using q(3) True yd by simp
    moreover have "yday < 365" if "q = 24 \<and> c < 3" using q24 that True yd by auto
    ultimately show ?thesis using leap True by auto
  next
    case False
    then have "yday < 365" using r yd by linarith
    then show ?thesis by auto
  qed
qed

section \<open>Digits\<close>

definition digit :: "nat \<Rightarrow> char" where
  "digit n = char_of (48 + n)"

definition isDigit :: "char \<Rightarrow> bool" where
  "isDigit c \<longleftrightarrow> 48 \<le> (of_char c :: nat) \<and> of_char c \<le> (57 :: nat)"

text \<open>\<open>appendInt(b, n, width)\<close> for a number of at most \<open>width\<close> digits, and its reading.\<close>

fun pad :: "nat \<Rightarrow> nat \<Rightarrow> string" where
  "pad 0 n = []"
| "pad (Suc w) n = pad w (n div 10) @ [digit (n mod 10)]"

definition digits_value :: "string \<Rightarrow> nat" where
  "digits_value s = fold (\<lambda>c x. x * 10 + (of_char c - 48)) s 0"

lemma isDigit_digit [simp]: "n < 10 \<Longrightarrow> isDigit (digit n)"
  by (simp add: isDigit_def digit_def)

lemma of_char_digit [simp]: "n < 10 \<Longrightarrow> of_char (digit n) = 48 + n"
  by (simp add: digit_def)

lemma length_pad [simp]: "length (pad w n) = w"
  by (induction w arbitrary: n) auto

lemma digits_pad: "c \<in> set (pad w n) \<Longrightarrow> isDigit c"
  by (induction w arbitrary: n) auto

lemma digits_value_snoc: "digits_value (s @ [c]) = digits_value s * 10 + (of_char c - 48)"
  by (simp add: digits_value_def)

lemma digits_value_pad: "n < 10 ^ w \<Longrightarrow> digits_value (pad w n) = n"
  by (induction w arbitrary: n) (auto simp: digits_value_snoc less_mult_imp_div_less mult.commute, simp add: digits_value_def)

section \<open>Formatting\<close>

definition day_ns :: int where
  "day_ns = 24 * Hour"

text \<open>\<open>Time.Date\<close>: the year may be zero or negative before year 1, in 400-year cycles.\<close>

definition civil :: "time \<Rightarrow> int \<times> nat \<times> nat" where
  "civil t =
     (let d = t div day_ns; k = (if d < 0 then (- d) div 146097 + 1 else 0);
          (y, yday) = year_yday (nat (d + 146097 * k));
          (m, day) = month_day (isLeap (y + 1)) yday
      in (int y + 1 - 400 * k, m, day))"

text \<open>\<open>time.Date\<close> in UTC, for a year from 0.\<close>

definition go_Date :: "nat \<Rightarrow> nat \<Rightarrow> nat \<Rightarrow> nat \<Rightarrow> nat \<Rightarrow> nat \<Rightarrow> nat \<Rightarrow> time" where
  "go_Date year m day hour mi sec nsec =
     (int (daysSinceEpoch (year + 399)) - 146097 + int (yday_of (isLeap year) m day)) * day_ns +
     int (hour * 3600 + mi * 60 + sec) * Second + int nsec"

definition format_year :: "int \<Rightarrow> string" where
  "format_year y =
     (let u = nat \<bar>y\<bar>; w = (if u < 10000 then 4 else length (filter (\<lambda>k. 10 ^ k \<le> u) [0..<u]))
      in (if y < 0 then ''-'' else []) @ pad w u)"

definition format_frac :: "nat \<Rightarrow> string" where
  "format_frac ns =
     (if ns = 0 then [] else CHR ''.'' # rev (dropWhile (\<lambda>c. c = CHR ''0'') (rev (pad 9 ns))))"

definition Format_RFC3339Nano :: "time \<Rightarrow> string" where
  "Format_RFC3339Nano t =
     (let (year, m, day) = civil t; sec = nat (t mod day_ns div Second); ns = nat (t mod Second) in
      format_year year @ ''-'' @ pad 2 m @ ''-'' @ pad 2 day @ ''T'' @
      pad 2 (sec div 3600) @ '':'' @ pad 2 (sec mod 3600 div 60) @ '':'' @ pad 2 (sec mod 60) @
      format_frac ns @ ''Z'')"

section \<open>Parsing\<close>

definition substr :: "nat \<Rightarrow> nat \<Rightarrow> string \<Rightarrow> string" where
  "substr i j s = take (j - i) (drop i s)"

definition parse_uint :: "string \<Rightarrow> nat \<Rightarrow> nat \<Rightarrow> nat option" where
  "parse_uint s lo hi =
     (if list_all isDigit s then let x = digits_value s in if lo \<le> x \<and> x \<le> hi then Some x else None
      else None)"

text \<open>Digits after the point: the first nine count, scaled to nanoseconds.\<close>

definition parse_nanos :: "string \<Rightarrow> nat" where
  "parse_nanos ds = (let ds = take 9 ds in digits_value ds * 10 ^ (9 - length ds))"

text \<open>The rest of the string after the seconds: the digits of a fraction, if there is one, and
  what follows it. \<open>marks\<close> are the characters that may open a fraction.\<close>

definition split_frac :: "char list \<Rightarrow> string \<Rightarrow> nat \<times> string" where
  "split_frac marks r =
     (if length r \<ge> 2 \<and> hd r \<in> set marks \<and> isDigit (r ! 1)
      then (parse_nanos (takeWhile isDigit (tl r)), dropWhile isDigit (tl r)) else (0, r))"

text \<open>The fast path of \<open>time.Parse\<close> for this layout.\<close>

definition parse_zone :: "string \<Rightarrow> int option" where
  "parse_zone r =
     (if r = ''Z'' then Some 0
      else if length r \<noteq> 6 then None
      else do {
        hr \<leftarrow> parse_uint (substr 1 3 r) 0 23;
        mm \<leftarrow> parse_uint (substr 4 6 r) 0 59;
        (if \<not> ((r ! 0 = CHR ''-'' \<or> r ! 0 = CHR ''+'') \<and> r ! 3 = CHR '':'') then None
         else Some ((if r ! 0 = CHR ''-'' then -1 else 1) * int ((hr * 60 + mm) * 60)))
      })"

definition parseRFC3339 :: "string \<Rightarrow> time option" where
  "parseRFC3339 s =
     (if length s < 19 then None else do {
        year \<leftarrow> parse_uint (substr 0 4 s) 0 9999;
        m \<leftarrow> parse_uint (substr 5 7 s) 1 12;
        day \<leftarrow> parse_uint (substr 8 10 s) 1 (daysIn m year);
        hour \<leftarrow> parse_uint (substr 11 13 s) 0 23;
        mi \<leftarrow> parse_uint (substr 14 16 s) 0 59;
        sec \<leftarrow> parse_uint (substr 17 19 s) 0 59;
        (if s ! 4 = CHR ''-'' \<and> s ! 7 = CHR ''-'' \<and> s ! 10 = CHR ''T'' \<and> s ! 13 = CHR '':'' \<and> s ! 16 = CHR '':''
         then case split_frac ''.'' (drop 19 s) of (nsec, r) \<Rightarrow>
           map_option (\<lambda>off. go_Date year m day hour mi sec nsec - off * Second) (parse_zone r)
         else None)
      })"

text \<open>The general layout parser, which \<open>time.Parse\<close> falls back to: an hour of one digit, a comma
  before the fraction and zone offsets up to 24:60 pass here.\<close>

definition getnum :: "bool \<Rightarrow> string \<Rightarrow> (nat \<times> string) option" where
  "getnum fixed s = (case s of
     [] \<Rightarrow> None
   | c # r \<Rightarrow>
       if \<not> isDigit c then None
       else if r = [] \<or> \<not> isDigit (hd r) then (if fixed then None else Some (digits_value [c], r))
       else Some (digits_value [c, hd r], tl r))"

definition skip_char :: "char \<Rightarrow> string \<Rightarrow> string option" where
  "skip_char c s = (if s \<noteq> [] \<and> hd s = c then Some (tl s) else None)"

text \<open>A number in a range, after a separator.\<close>

definition field :: "char \<Rightarrow> bool \<Rightarrow> nat \<Rightarrow> nat \<Rightarrow> string \<Rightarrow> (nat \<times> string) option" where
  "field sep fixed lo hi s = do {
     s \<leftarrow> skip_char sep s;
     (n, s) \<leftarrow> getnum fixed s;
     (if lo \<le> n \<and> n \<le> hi then Some (n, s) else None)
   }"

definition layout_zone :: "string \<Rightarrow> int option" where
  "layout_zone v =
     (if v = ''Z'' then Some 0
      else if length v \<noteq> 6 \<or> v ! 3 \<noteq> CHR '':'' then None
      else do {
        (hr, _) \<leftarrow> getnum True (substr 1 3 v);
        (mm, _) \<leftarrow> getnum True (substr 4 6 v);
        (if hr > 24 \<or> mm > 60 then None
         else if v ! 0 = CHR ''+'' then Some (int ((hr * 60 + mm) * 60))
         else if v ! 0 = CHR ''-'' then Some (- int ((hr * 60 + mm) * 60))
         else None)
      })"

definition parse_layout :: "string \<Rightarrow> time option" where
  "parse_layout v =
     (if length v < 4 \<or> \<not> list_all isDigit (take 4 v) then None else do {
        let year = digits_value (take 4 v);
        (m, v) \<leftarrow> field (CHR ''-'') True 1 12 (drop 4 v);
        (day, v) \<leftarrow> field (CHR ''-'') True 0 99 v;
        (hour, v) \<leftarrow> field (CHR ''T'') False 0 23 v;
        (mi, v) \<leftarrow> field (CHR '':'') True 0 59 v;
        (sec, v) \<leftarrow> field (CHR '':'') True 0 59 v;
        let (nsec, v) = split_frac ''.,'' v;
        off \<leftarrow> layout_zone v;
        (if day < 1 \<or> day > daysIn m year then None
         else Some (go_Date year m day hour mi sec nsec - off * Second))
      })"

definition Parse_RFC3339Nano :: "string \<Rightarrow> time option" where
  "Parse_RFC3339Nano s = (case parseRFC3339 s of Some t \<Rightarrow> Some t | None \<Rightarrow> parse_layout s)"

section \<open>Round trip\<close>

text \<open>The instants of the years 1 to 9999.\<close>

definition four_digit_year :: "time \<Rightarrow> bool" where
  "four_digit_year t \<longleftrightarrow> 0 \<le> t \<and> t < 3652059 * day_ns"

lemma digits_value_zeros: "digits_value (s @ replicate k (CHR ''0'')) = digits_value s * 10 ^ k"
proof (induction k)
  case (Suc k)
  have "s @ replicate (Suc k) (CHR ''0'') = (s @ replicate k (CHR ''0'')) @ [CHR ''0'']"
    by (simp add: replicate_append_same)
  then show ?case by (simp only: digits_value_snoc Suc.IH) simp
qed simp

lemma strip_zeros:
  obtains k where "s = rev (dropWhile (\<lambda>c. c = CHR ''0'') (rev s)) @ replicate k (CHR ''0'')"
proof -
  define z where "z = takeWhile (\<lambda>c. c = CHR ''0'') (rev s)"
  have "\<forall>c\<in>set z. c = CHR ''0''" unfolding z_def by (auto dest: set_takeWhileD)
  then have "rev z = replicate (length z) (CHR ''0'')"
    by (metis length_rev replicate_length_same set_rev)
  moreover have "rev s = z @ dropWhile (\<lambda>c. c = CHR ''0'') (rev s)" unfolding z_def by simp
  then have "rev (rev s) = rev (dropWhile (\<lambda>c. c = CHR ''0'') (rev s)) @ rev z" by (metis rev_append)
  ultimately show thesis using that [of "length z"] by simp
qed

lemma split_digits:
  assumes "\<forall>c\<in>set ds. isDigit c" and "ds \<noteq> []"
  shows "split_frac ''.'' (CHR ''.'' # ds @ ''Z'') = (parse_nanos ds, ''Z'')"
proof -
  have "takeWhile isDigit (ds @ ''Z'') = ds" "dropWhile isDigit (ds @ ''Z'') = ''Z''"
    using assms(1) by (simp_all add: isDigit_def takeWhile_append2 dropWhile_append2)
  then show ?thesis using assms by (cases ds) (simp_all add: split_frac_def)
qed

lemma split_format_frac:
  assumes "ns < 10 ^ 9"
  shows "split_frac ''.'' (format_frac ns @ ''Z'') = (ns, ''Z'')"
proof (cases "ns = 0")
  case False
  define ds where "ds = rev (dropWhile (\<lambda>c. c = CHR ''0'') (rev (pad 9 ns)))"
  obtain k where k: "pad 9 ns = ds @ replicate k (CHR ''0'')" unfolding ds_def by (rule strip_zeros)
  have len: "length ds + k = 9" using arg_cong [OF k, of length] by simp
  have val: "digits_value ds * 10 ^ k = ns"
    using digits_value_zeros [of ds k] digits_value_pad [OF assms] k by simp
  have dig: "\<forall>c\<in>set ds. isDigit c"
    using digits_pad [of _ 9 ns] k by (metis Un_iff set_append)
  have ne: "ds \<noteq> []" using val False by (auto simp: digits_value_def)
  have "9 - length ds = k" "take 9 ds = ds" using len by simp_all
  then have "parse_nanos ds = ns" using val by (simp only: parse_nanos_def Let_def)
  then show ?thesis
    using split_digits [OF dig ne] False by (simp add: format_frac_def flip: ds_def)
qed (simp add: split_frac_def format_frac_def)

lemma daysSinceEpoch_cycle: "daysSinceEpoch (y + 400) = daysSinceEpoch y + 146097"
proof -
  have "(y + 400) mod 100 = y mod 100" "(y + 400) mod 4 = y mod 4"
    using mod_mult_self2 [of y 100 4] mod_mult_self2 [of y 4 100] by simp_all
  moreover have "(y + 400) div 400 = y div 400 + 1" by (simp add: div_add_self2)
  ultimately show ?thesis by (simp add: daysSinceEpoch_def)
qed

lemma year_bound:
  assumes "daysSinceEpoch y + yday < 3652059"
  shows "y < 9999"
proof (rule ccontr)
  assume "\<not> y < 9999"
  then consider "y = 9999" | "25 \<le> y div 400" by linarith
  then show False
  proof cases
    case 1
    have "daysSinceEpoch 9999 = 3652059" by (simp add: daysSinceEpoch_def)
    then show False using assms 1 by simp
  next
    case 2
    then show False using assms by (simp add: daysSinceEpoch_def)
  qed
qed

lemma civil_date:
  assumes "four_digit_year t"
  obtains y m day where "civil t = (int y + 1, m, day)" "y < 9999" "1 \<le> m" "m \<le> 12" "1 \<le> day" "day \<le> 31"
    "day \<le> daysIn m (y + 1)"
    "t div day_ns = int (daysSinceEpoch y) + int (yday_of (isLeap (y + 1)) m day)"
proof -
  let ?d = "nat (t div day_ns)"
  have t: "0 \<le> t div day_ns" "?d < 3652059"
    using assms by (auto simp: four_digit_year_def day_ns_def Hour_def Minute_def Second_def pos_imp_zdiv_nonneg_iff)
  obtain y yday where yy: "year_yday ?d = (y, yday)" by (cases "year_yday ?d")
  obtain m day where md: "month_day (isLeap (y + 1)) yday = (m, day)" by (cases "month_day (isLeap (y + 1)) yday")
  note inv = year_yday_inverse [OF yy] month_day_inverse [OF year_yday_inverse(2) [OF yy] md]
  have "civil t = (int y + 1, m, day)" using t(1) yy md by (simp add: civil_def Let_def)
  moreover have "y < 9999" using year_bound [of y yday] inv(1) t(2) by simp
  moreover have "t div day_ns = int (daysSinceEpoch y) + int (yday_of (isLeap (y + 1)) m day)"
    using inv(1,3) t(1) by (metis int_nat_eq of_nat_add)
  ultimately show thesis using that inv by (auto simp: daysIn_def)
qed

lemma parse_uint_pad:
  "n < 10 ^ w \<Longrightarrow> lo \<le> n \<Longrightarrow> n \<le> hi \<Longrightarrow> parse_uint (pad w n) lo hi = Some n"
  by (simp add: parse_uint_def digits_value_pad list_all_iff digits_pad)

lemma parse_fields:
  assumes "year < 10000" "1 \<le> m" "m \<le> 12" "1 \<le> day" "day \<le> 31" "day \<le> daysIn m year"
    "hour < 24" "mi < 60" "sec < 60" "nsec < 10 ^ 9"
  shows "parseRFC3339 (pad 4 year @ ''-'' @ pad 2 m @ ''-'' @ pad 2 day @ ''T'' @ pad 2 hour @ '':'' @
      pad 2 mi @ '':'' @ pad 2 sec @ format_frac nsec @ ''Z'') = Some (go_Date year m day hour mi sec nsec)"
    (is "parseRFC3339 ?s = _")
proof -
  have subs: "substr 0 4 ?s = pad 4 year" "substr 5 7 ?s = pad 2 m" "substr 8 10 ?s = pad 2 day"
    "substr 11 13 ?s = pad 2 hour" "substr 14 16 ?s = pad 2 mi" "substr 17 19 ?s = pad 2 sec"
    "drop 19 ?s = format_frac nsec @ ''Z''"
    by (simp_all add: substr_def)
  have seps: "?s ! 4 = CHR ''-''" "?s ! 7 = CHR ''-''" "?s ! 10 = CHR ''T''" "?s ! 13 = CHR '':''" "?s ! 16 = CHR '':''"
    by (simp_all add: nth_append)
  have nums: "parse_uint (pad 4 year) 0 9999 = Some year" "parse_uint (pad 2 m) 1 12 = Some m"
    "parse_uint (pad 2 day) 1 (daysIn m year) = Some day" "parse_uint (pad 2 hour) 0 23 = Some hour"
    "parse_uint (pad 2 mi) 0 59 = Some mi" "parse_uint (pad 2 sec) 0 59 = Some sec"
    by (rule parse_uint_pad; use assms in simp)+
  have "\<not> length ?s < 19" by simp
  then show ?thesis
    unfolding parseRFC3339_def subs nums split_format_frac [OF assms(10)]
    using seps nums by (simp add: parse_zone_def)
qed

theorem parse_format:
  assumes "four_digit_year t"
  shows "Parse_RFC3339Nano (Format_RFC3339Nano t) = Some t"
proof -
  obtain y m day where c: "civil t = (int y + 1, m, day)" "y < 9999" "1 \<le> m" "m \<le> 12" "1 \<le> day" "day \<le> 31"
      "day \<le> daysIn m (y + 1)"
      and d: "t div day_ns = int (daysSinceEpoch y) + int (yday_of (isLeap (y + 1)) m day)"
    using civil_date [OF assms] by blast
  define sec where "sec = nat (t mod day_ns div Second)"
  define ns where "ns = nat (t mod Second)"
  have day: "day_ns = 86400 * Second" by (simp add: day_ns_def Hour_def Minute_def)
  have sec: "sec < 86400" "int sec = t mod day_ns div Second"
    by (auto simp: sec_def day_ns_def Hour_def Minute_def Second_def pos_imp_zdiv_nonneg_iff nat_less_iff)
  have ns: "ns < 10 ^ 9" "int ns = t mod Second" by (auto simp: ns_def Second_def nat_less_iff)
  have hms: "sec div 3600 < 24" "sec mod 3600 div 60 < 60" "sec mod 60 < 60"
    "sec div 3600 * 3600 + sec mod 3600 div 60 * 60 + sec mod 60 = sec"
  proof -
    show "sec div 3600 < 24" "sec mod 3600 div 60 < 60" "sec mod 60 < 60"
      using sec(1) by (simp_all add: less_mult_imp_div_less)
    have "sec mod 3600 mod 60 = sec mod 60" by (rule mod_mod_cancel) simp
    then have "sec mod 3600 div 60 * 60 + sec mod 60 = sec mod 3600" by (metis div_mult_mod_eq)
    then show "sec div 3600 * 3600 + sec mod 3600 div 60 * 60 + sec mod 60 = sec"
      using div_mult_mod_eq [of sec 3600] by linarith
  qed
  have "format_year (int y + 1) = pad 4 (y + 1)" using c(2) by (simp add: format_year_def Let_def nat_add_distrib)
  then have "Format_RFC3339Nano t = pad 4 (y + 1) @ ''-'' @ pad 2 m @ ''-'' @ pad 2 day @ ''T'' @
      pad 2 (sec div 3600) @ '':'' @ pad 2 (sec mod 3600 div 60) @ '':'' @ pad 2 (sec mod 60) @ format_frac ns @ ''Z''"
    by (simp add: Format_RFC3339Nano_def c(1) Let_def flip: sec_def ns_def)
  then have "parseRFC3339 (Format_RFC3339Nano t) =
      Some (go_Date (y + 1) m day (sec div 3600) (sec mod 3600 div 60) (sec mod 60) ns)"
    using parse_fields [of "y + 1" m day "sec div 3600" "sec mod 3600 div 60" "sec mod 60" ns] c hms ns(1) by simp
  moreover have "go_Date (y + 1) m day (sec div 3600) (sec mod 3600 div 60) (sec mod 60) ns =
      t div day_ns * day_ns + int sec * Second + int ns"
    unfolding go_Date_def hms(4) d using daysSinceEpoch_cycle [of y] by (simp add: add.commute)
  moreover have "int sec * Second + int ns = t mod day_ns"
  proof -
    have "t mod day_ns mod Second = t mod Second" unfolding day by (rule mod_mod_cancel) simp
    then show ?thesis using sec(2) ns(2) by (metis mult_div_mod_eq mult.commute)
  qed
  moreover have "t div day_ns * day_ns + t mod day_ns = t" by (rule div_mult_mod_eq)
  ultimately show ?thesis by (simp add: Parse_RFC3339Nano_def add.assoc)
qed

end
