(* ===== verification/Sharedcursor.thy ===== *)
theory Sharedcursor
  imports Go_Time
begin

text \<open>
  \<open>internal/repository/sharedcursor/follow.go\<close>: the cursor of the follow lists,
  \<open>base64url(RFC3339Nano(created_at) + "|" + peer_sub)\<close>, with \<open>base64.RawURLEncoding\<close> of the
  standard library. The main result is that decoding reverses encoding.
\<close>

section \<open>Unpadded base64url\<close>

definition b64_alphabet :: string where
  "b64_alphabet = ''ABCDEFGHIJKLMNOPQRSTUVWXYZabcdefghijklmnopqrstuvwxyz0123456789-_''"

definition b64_char :: "nat \<Rightarrow> char" where
  "b64_char i = b64_alphabet ! i"

fun b64_sextets :: "nat list \<Rightarrow> nat list" where
  "b64_sextets [] = []"
| "b64_sextets [a] = [a div 4, a mod 4 * 16]"
| "b64_sextets [a, b] = [a div 4, a mod 4 * 16 + b div 16, b mod 16 * 4]"
| "b64_sextets (a # b # c # r) =
     a div 4 # (a mod 4 * 16 + b div 16) # (b mod 16 * 4 + c div 64) # c mod 64 # b64_sextets r"

definition RawURLEncoding_Encode :: "string \<Rightarrow> string" where
  "RawURLEncoding_Encode s = map b64_char (b64_sextets (map of_char s))"

definition b64_index :: "char \<Rightarrow> nat option" where
  "b64_index c = (let n = length (takeWhile (\<lambda>d. d \<noteq> c) b64_alphabet) in if n < 64 then Some n else None)"

fun b64_bytes :: "nat list \<Rightarrow> nat list option" where
  "b64_bytes [] = Some []"
| "b64_bytes [w] = None"
| "b64_bytes [w, x] = Some [w * 4 + x div 16]"
| "b64_bytes [w, x, y] = Some [w * 4 + x div 16, x mod 16 * 16 + y div 4]"
| "b64_bytes (w # x # y # z # r) =
     map_option (\<lambda>bs. (w * 4 + x div 16) # (x mod 16 * 16 + y div 4) # (y mod 4 * 64 + z) # bs) (b64_bytes r)"

text \<open>The decoder skips line breaks, rejects every other character outside the alphabet and a
  lone last character.\<close>

definition RawURLEncoding_Decode :: "string \<Rightarrow> string option" where
  "RawURLEncoding_Decode s =
     (let ixs = map b64_index (filter (\<lambda>c. c \<noteq> char_of (10 :: nat) \<and> c \<noteq> char_of (13 :: nat)) s)
      in if None \<in> set ixs then None
         else map_option (map char_of) (b64_bytes (map the ixs)))"

section \<open>The cursor\<close>

definition EncodeFollow :: "time \<Rightarrow> string \<Rightarrow> string" where
  "EncodeFollow t peer = RawURLEncoding_Encode (Format_RFC3339Nano t @ ''|'' @ peer)"

text \<open>\<open>None\<close> is \<open>ok = false\<close>.\<close>

definition DecodeFollow :: "string option \<Rightarrow> (time \<times> string) option" where
  "DecodeFollow cursor = (case cursor of
     None \<Rightarrow> None
   | Some c \<Rightarrow>
       if c = [] then None
       else case RawURLEncoding_Decode c of
         None \<Rightarrow> None
       | Some raw \<Rightarrow>
           let idx = length (takeWhile (\<lambda>d. d \<noteq> CHR ''|'') raw) in
           if idx = length raw \<or> idx = 0 \<or> idx = length raw - 1 then None
           else case Parse_RFC3339Nano (take idx raw) of
             None \<Rightarrow> None
           | Some t \<Rightarrow> Some (t, drop (idx + 1) raw))"

section \<open>Round trips\<close>

lemma sextet_parts:
  fixes k m n b :: nat
  assumes "b div m < m'"
  shows "(k * m' + b div m) div m' = k" "(k * m' + b div m) mod m' = b div m"
  using assms by simp_all

lemma b64_sextets_bound: "\<forall>b\<in>set bs. b < 256 \<Longrightarrow> \<forall>x\<in>set (b64_sextets bs). x < 64"
proof (induction bs rule: b64_sextets.induct)
  case (2 a)
  then have "a div 4 < 64" "a mod 4 * 16 < 64" by (simp, linarith+)
  then show ?case by simp
next
  case (3 a b)
  then have "a < 256" "b < 256" by auto
  then have "a div 4 < 64" "a mod 4 * 16 + b div 16 < 64" "b mod 16 * 4 < 64" by linarith+
  then show ?case by simp
next
  case (4 a b c r)
  then have "a < 256" "b < 256" "c < 256" by auto
  then have "a div 4 < 64" "a mod 4 * 16 + b div 16 < 64" "b mod 16 * 4 + c div 64 < 64" "c mod 64 < 64"
    by linarith+
  then show ?case using 4 by simp
qed simp

lemma b64_bytes_sextets: "\<forall>b\<in>set bs. b < 256 \<Longrightarrow> b64_bytes (b64_sextets bs) = Some bs"
proof (induction bs rule: b64_sextets.induct)
  case (3 a b)
  then have "b div 16 < 16" by simp linarith
  then show ?case by (simp add: sextet_parts)
next
  case (4 a b c r)
  then have "b div 16 < 16" "c div 64 < 4" by (simp_all, linarith+)
  then show ?case using 4 by (simp add: sextet_parts)
qed simp_all

lemma b64_table: "\<forall>n\<in>set [0..<64]. b64_index (b64_char n) = Some n \<and>
    b64_char n \<noteq> char_of (10 :: nat) \<and> b64_char n \<noteq> char_of (13 :: nat)"
  by code_simp

lemma b64_char_index:
  assumes "n < 64"
  shows "b64_index (b64_char n) = Some n" "b64_char n \<noteq> char_of (10 :: nat)" "b64_char n \<noteq> char_of (13 :: nat)"
  using b64_table assms by (simp_all add: atLeast0LessThan)

lemma map_b64_index: "(\<forall>n\<in>set ns. n < 64) \<Longrightarrow> map (b64_index \<circ> b64_char) ns = map Some ns"
  by (simp add: b64_char_index)

theorem b64_round_trip: "RawURLEncoding_Decode (RawURLEncoding_Encode s) = Some s"
proof -
  define ns where "ns = b64_sextets (map of_char s)"
  have bytes: "\<forall>b\<in>set (map of_char s). b < (256 :: nat)" by auto
  have ns: "\<forall>n\<in>set ns. n < 64" unfolding ns_def by (rule b64_sextets_bound [OF bytes])
  then have flt: "filter (\<lambda>c. c \<noteq> char_of (10 :: nat) \<and> c \<noteq> char_of (13 :: nat)) (map b64_char ns) = map b64_char ns"
    by (simp add: filter_id_conv b64_char_index)
  have ixs: "map b64_index (map b64_char ns) = map Some ns" using map_b64_index [OF ns] by simp
  have "map char_of (map of_char s :: nat list) = s" by (simp add: map_idI)
  then show ?thesis
    using b64_bytes_sextets [OF bytes]
    unfolding RawURLEncoding_Decode_def RawURLEncoding_Encode_def ns_def [symmetric] flt ixs Let_def
    by (auto simp: comp_def)
qed

lemma b64_nonempty: "s \<noteq> [] \<Longrightarrow> RawURLEncoding_Encode s \<noteq> []"
  using b64_round_trip [of s] by (auto simp: RawURLEncoding_Decode_def)

lemma pad_no_bar: "CHR ''|'' \<notin> set (pad w n)"
  using digits_pad [of "CHR ''|''" w n] by (auto simp: isDigit_def)

lemma Format_no_bar: "CHR ''|'' \<notin> set (Format_RFC3339Nano t)"
proof -
  have "CHR ''|'' \<notin> set (format_frac ns)" for ns
    using pad_no_bar [of 9 ns] by (auto simp: format_frac_def dest: set_dropWhileD)
  moreover have "CHR ''|'' \<notin> set (format_year y)" for y
    using pad_no_bar by (auto simp: format_year_def Let_def)
  ultimately show ?thesis
    using pad_no_bar by (auto simp: Format_RFC3339Nano_def Let_def split: prod.split)
qed

lemma Format_nonempty: "Format_RFC3339Nano t \<noteq> []"
  by (simp add: Format_RFC3339Nano_def Let_def split: prod.split)

theorem follow_cursor_round_trip:
  assumes "four_digit_year t" and "peer \<noteq> []"
  shows "DecodeFollow (Some (EncodeFollow t peer)) = Some (t, peer)" "EncodeFollow t peer \<noteq> []"
proof -
  show ne: "EncodeFollow t peer \<noteq> []" by (simp add: EncodeFollow_def b64_nonempty)
  let ?f = "Format_RFC3339Nano t"
  have "takeWhile (\<lambda>d. d \<noteq> CHR ''|'') (?f @ ''|'' @ peer) = ?f"
    using Format_no_bar [of t] by (subst takeWhile_append2) auto
  moreover have "RawURLEncoding_Decode (EncodeFollow t peer) = Some (?f @ ''|'' @ peer)"
    by (simp add: EncodeFollow_def b64_round_trip del: append.simps)
  moreover have "length peer \<noteq> 0" "length ?f \<noteq> 0" using assms(2) Format_nonempty by simp_all
  ultimately show "DecodeFollow (Some (EncodeFollow t peer)) = Some (t, peer)"
    using ne by (simp add: DecodeFollow_def parse_format [OF assms(1)] Let_def)
qed

end
