(* ===== verification/Mem_Follow.thy ===== *)
theory Mem_Follow
  imports Mem_Store Cursor_Paging Sharedcursor "HOL-Library.Product_Lexorder"
begin

text \<open>\<open>inmemory.FollowRepository\<close>: follow rows keyed by (follower, followee), and the two
  cursor-paged lists of a user, newest first.\<close>

definition FollowRepository_Create :: "string \<Rightarrow> string \<Rightarrow> (mem, bool) fallible" where
  "FollowRepository_Create followerSub followeeSub = do {
     follows \<leftarrow> gets m_follows;
     if get_map follows (followerSub, followeeSub) \<noteq> None then ret (Inr False)
     else do {
       now \<leftarrow> Now;
       modify (m_follows_update (set_map (followerSub, followeeSub)
         \<lparr>Follow_FollowerSub = followerSub, Follow_FolloweeSub = followeeSub, Follow_CreatedAt = now\<rparr>));
       ret (Inr True)
     }
   }"

definition FollowRepository_Delete :: "string \<Rightarrow> string \<Rightarrow> (mem, bool) fallible" where
  "FollowRepository_Delete followerSub followeeSub = do {
     follows \<leftarrow> gets m_follows;
     if get_map follows (followerSub, followeeSub) = None then ret (Inr False)
     else do {
       modify (m_follows_update (del_map (followerSub, followeeSub)));
       ret (Inr True)
     }
   }"

definition FollowRepository_IsFollowing :: "string \<Rightarrow> string \<Rightarrow> (mem, bool) fallible" where
  "FollowRepository_IsFollowing followerSub followeeSub = do {
     follows \<leftarrow> gets m_follows;
     ret (Inr (get_map follows (followerSub, followeeSub) \<noteq> None))
   }"

definition FollowRepository_ListFollowingSubs :: "string \<Rightarrow> (mem, string list) fallible" where
  "FollowRepository_ListFollowingSubs followerSub = do {
     follows \<leftarrow> gets m_follows;
     rows \<leftarrow> map_range follows;
     ret (Inr [e. ((f, e), _) \<leftarrow> rows, f = followerSub])
   }"

definition peerSub :: "bool \<Rightarrow> Follow \<Rightarrow> string" where
  "peerSub followersSide f = (if followersSide then Follow_FollowerSub f else Follow_FolloweeSub f)"

definition isBefore :: "time \<Rightarrow> string \<Rightarrow> time \<Rightarrow> string \<Rightarrow> bool" where
  "isBefore t p ct cp = (if t \<noteq> ct then t < ct else p < cp)"

definition follow_less :: "bool \<Rightarrow> Follow \<Rightarrow> Follow \<Rightarrow> bool" where
  "follow_less followersSide a b =
     (if Follow_CreatedAt a \<noteq> Follow_CreatedAt b then Follow_CreatedAt a > Follow_CreatedAt b
      else peerSub followersSide a > peerSub followersSide b)"

definition listSide :: "string \<Rightarrow> string option \<Rightarrow> int \<Rightarrow> bool \<Rightarrow> (mem, Follow list \<times> string) fallible" where
  "listSide sub cursor limit followersSide =
     (if limit \<le> 0 then ret (Inr ([], []))
      else do {
        let decoded = DecodeFollow cursor;
        follows \<leftarrow> gets m_follows;
        rows \<leftarrow> map_range follows;
        let matches = [f. ((follower, followee), f) \<leftarrow> rows,
          \<not> (followersSide \<and> followee \<noteq> sub) \<and> \<not> (\<not> followersSide \<and> follower \<noteq> sub) \<and>
          (case decoded of
             Some (ct, cp) \<Rightarrow> isBefore (Follow_CreatedAt f) (if followersSide then follower else followee) ct cp
           | None \<Rightarrow> True)];
        let matches = sort_slice (follow_less followersSide) matches;
        if int (length matches) \<le> limit then ret (Inr (matches, []))
        else do {
          let page = take (nat limit) matches;
          let last = page ! (nat limit - 1);
          ret (Inr (page, EncodeFollow (Follow_CreatedAt last) (peerSub followersSide last)))
        }
      })"

definition FollowRepository_ListFollowers :: "string \<Rightarrow> string option \<Rightarrow> int \<Rightarrow> (mem, Follow list \<times> string) fallible"
  where "FollowRepository_ListFollowers sub cursor limit = listSide sub cursor limit True"

definition FollowRepository_ListFollowing :: "string \<Rightarrow> string option \<Rightarrow> int \<Rightarrow> (mem, Follow list \<times> string) fallible"
  where "FollowRepository_ListFollowing sub cursor limit = listSide sub cursor limit False"

definition FollowRepository_AreFollowing :: "string \<Rightarrow> string list \<Rightarrow> (mem, string \<rightharpoonup> bool) fallible" where
  "FollowRepository_AreFollowing viewerSub targetSubs = do {
     follows \<leftarrow> gets m_follows;
     ret (Inr (fold (\<lambda>t out. if get_map follows (viewerSub, t) \<noteq> None then out(t \<mapsto> True) else out)
       targetSubs Map.empty))
   }"

definition NewFollowRepository :: "mem FollowRepository" where
  "NewFollowRepository =
     \<lparr>follows_Create = FollowRepository_Create, follows_Delete = FollowRepository_Delete,
      follows_IsFollowing = FollowRepository_IsFollowing,
      follows_ListFollowingSubs = FollowRepository_ListFollowingSubs,
      follows_ListFollowers = FollowRepository_ListFollowers,
      follows_ListFollowing = FollowRepository_ListFollowing,
      follows_AreFollowing = FollowRepository_AreFollowing\<rparr>"

section \<open>What each operation does\<close>

definition follow_rows :: "mem \<Rightarrow> (string \<times> string) set" where
  "follow_rows s = dom (get_map (m_follows s))"

lemma finite_follow_rows [simp]: "finite (follow_rows s)"
  by (simp add: follow_rows_def)

lemma run_follow_Create:
  "run_state (FollowRepository_Create a b) s =
     (if (a, b) \<in> follow_rows s then (Inr False, s)
      else (Inr True, s\<lparr>rt_ticks := Suc (rt_ticks s), m_follows := set_map (a, b)
        \<lparr>Follow_FollowerSub = a, Follow_FolloweeSub = b, Follow_CreatedAt = rt_clock s (rt_ticks s)\<rparr> (m_follows s)\<rparr>))"
  by (auto simp: FollowRepository_Create_def run_simps follow_rows_def)

lemma run_follow_Delete:
  "run_state (FollowRepository_Delete a b) s =
     (if (a, b) \<in> follow_rows s then (Inr True, s\<lparr>m_follows := del_map (a, b) (m_follows s)\<rparr>)
      else (Inr False, s))"
  by (auto simp: FollowRepository_Delete_def run_simps follow_rows_def)

lemma run_IsFollowing [run_simps]:
  "run_state (FollowRepository_IsFollowing a b) s = (Inr ((a, b) \<in> follow_rows s), s)"
  by (auto simp: FollowRepository_IsFollowing_def run_simps follow_rows_def)

lemma fold_followed:
  "fold (\<lambda>t out. if get_map m (v, t) \<noteq> None then out(t \<mapsto> True) else out) ts out x =
     (if x \<in> set ts \<and> get_map m (v, x) \<noteq> None then Some True else out x)"
  by (induction ts arbitrary: out) auto

lemma run_AreFollowing [run_simps]:
  "run_state (FollowRepository_AreFollowing v ts) s =
     (Inr (\<lambda>t. if t \<in> set ts \<and> (v, t) \<in> follow_rows s then Some True else None), s)"
  unfolding FollowRepository_AreFollowing_def follow_rows_def dom_def mem_Collect_eq
  by (simp add: run_simps fun_eq_iff fold_followed del: not_None_eq)

lemma run_ListFollowingSubs:
  "\<exists>subs. run_state (FollowRepository_ListFollowingSubs a) s = (Inr subs, s\<lparr>rt_ranges := Suc (rt_ranges s)\<rparr>) \<and>
     set subs = {b. (a, b) \<in> follow_rows s} \<and> distinct subs"
proof -
  let ?rows = "shuffle (rt_order s (rt_ranges s)) (entries (m_follows s))"
  have eq: "[e. ((f, e), _) \<leftarrow> rows, f = a] = map (snd \<circ> fst) (filter (\<lambda>x. fst (fst x) = a) rows)" for rows :: "((string \<times> string) \<times> Follow) list"
    by (induction rows) auto
  have d: "distinct (map fst ?rows)" by simp
  have "inj_on (snd \<circ> fst) (set (filter (\<lambda>x. fst (fst x) = a) ?rows))"
    by (rule inj_onI) (use d in \<open>auto simp: distinct_map dest!: inj_onD\<close>)
  then have "distinct (map (snd \<circ> fst) (filter (\<lambda>x. fst (fst x) = a) ?rows))"
    using d by (simp add: distinct_map)
  moreover have "set (map (snd \<circ> fst) (filter (\<lambda>x. fst (fst x) = a) ?rows)) = {b. (a, b) \<in> follow_rows s}"
    by (force simp: follow_rows_def image_iff dom_def simp flip: mem_entries)
  ultimately show ?thesis
    by (simp add: FollowRepository_ListFollowingSubs_def run_simps eq)
qed

section \<open>The lists and their pages\<close>

definition follows_keyed :: "mem \<Rightarrow> bool" where
  "follows_keyed s \<longleftrightarrow> (\<forall>((a, b), f)\<in>set (entries (m_follows s)). Follow_FollowerSub f = a \<and> Follow_FolloweeSub f = b)"

definition follow_key :: "bool \<Rightarrow> Follow \<Rightarrow> time \<times> string" where
  "follow_key side f = (Follow_CreatedAt f, peerSub side f)"

definition ownerSub :: "bool \<Rightarrow> Follow \<Rightarrow> string" where
  "ownerSub side f = (if side then Follow_FolloweeSub f else Follow_FollowerSub f)"

definition follow_feed :: "bool \<Rightarrow> string \<Rightarrow> mem \<Rightarrow> Follow list" where
  "follow_feed side sub s = sort_slice (follow_less side)
     (filter (\<lambda>f. ownerSub side f = sub) (map snd (entries (m_follows s))))"

lemma follow_less_key: "follow_less side = (\<lambda>a b. follow_key side a > follow_key side b)"
  by (auto simp: follow_less_def follow_key_def fun_eq_iff less_prod_def)

lemma isBefore_less: "isBefore t p ct cp \<longleftrightarrow> (t, p) < (ct, cp)"
  by (auto simp: isBefore_def less_prod_def)

interpretation follow_pages: cursor_paging "follow_key side" "\<lambda>(t, p). EncodeFollow t p" DecodeFollow
    "\<lambda>(t, p). four_digit_year t \<and> p \<noteq> []" for side
proof unfold_locales
  show "DecodeFollow None = None" by (simp add: DecodeFollow_def)
qed (auto simp: follow_cursor_round_trip)

lemma follows_keyedD:
  "follows_keyed s \<Longrightarrow> get_map (m_follows s) (a, b) = Some f \<Longrightarrow> Follow_FollowerSub f = a \<and> Follow_FolloweeSub f = b"
  by (auto simp: follows_keyed_def)

lemma distinct_follow_keys:
  assumes keyed: "follows_keyed s"
  shows "distinct (map (follow_key side) (filter (\<lambda>f. ownerSub side f = sub) (map snd (entries (m_follows s)))))"
proof -
  let ?rows = "filter (\<lambda>x. ownerSub side (snd x) = sub) (entries (m_follows s))"
  have "inj_on (\<lambda>x. follow_key side (snd x)) (set ?rows)"
  proof (rule inj_onI)
    fix x y assume x: "x \<in> set ?rows" and y: "y \<in> set ?rows" and eq: "follow_key side (snd x) = follow_key side (snd y)"
    have xy: "x \<in> set (entries (m_follows s))" "y \<in> set (entries (m_follows s))" using x y by auto
    have own: "fst x = (Follow_FollowerSub (snd x), Follow_FolloweeSub (snd x))"
        "fst y = (Follow_FollowerSub (snd y), Follow_FolloweeSub (snd y))"
      using keyed xy unfolding follows_keyed_def by (cases x; cases y; force)+
    then have "fst x = fst y"
      using x y eq by (cases side) (auto simp: ownerSub_def follow_key_def peerSub_def)
    then show "x = y" using xy by (metis eq_key_imp_eq_value impl_of_distinct prod.collapse)
  qed
  moreover have "distinct ?rows" by (intro distinct_filter) (simp add: distinct_of_map [of fst])
  ultimately have "distinct (map (follow_key side \<circ> snd) ?rows)" by (simp add: distinct_map comp_def)
  then show ?thesis by (simp add: filter_map comp_def)
qed

lemma side_matches:
  assumes "follows_keyed s" and "set rows \<subseteq> set (entries (m_follows s))"
  shows "[f. ((follower, followee), f) \<leftarrow> rows,
          \<not> (side \<and> followee \<noteq> sub) \<and> \<not> (\<not> side \<and> follower \<noteq> sub) \<and>
          (case decoded of
             Some (ct, cp) \<Rightarrow> isBefore (Follow_CreatedAt f) (if side then follower else followee) ct cp
           | None \<Rightarrow> True)] =
    filter (\<lambda>f. case decoded of None \<Rightarrow> True | Some k \<Rightarrow> follow_key side f < k)
      (filter (\<lambda>f. ownerSub side f = sub) (map snd rows))"
  using assms(2)
proof (induction rows)
  case (Cons r rows)
  obtain a b f where r: "r = ((a, b), f)" by (metis prod.exhaust)
  have "Follow_FollowerSub f = a" "Follow_FolloweeSub f = b"
    using follows_keyedD [OF assms(1), of a b f] Cons.prems r by simp_all
  then show ?case using Cons r
    by (cases side; cases decoded) (auto simp: ownerSub_def follow_key_def peerSub_def isBefore_less)
qed simp

lemma run_listSide:
  assumes keyed: "follows_keyed s" and limit: "0 < limit"
  shows "run_state (listSide sub c limit side) s =
     (Inr (follow_pages.page_of side (nat limit) (follow_pages.after side c (follow_feed side sub s))),
      s\<lparr>rt_ranges := Suc (rt_ranges s)\<rparr>)"
proof -
  define rows where "rows = shuffle (rt_order s (rt_ranges s)) (entries (m_follows s))"
  define mine where "mine = filter (\<lambda>f. ownerSub side f = sub) (map snd rows)"
  have "mset mine = mset (filter (\<lambda>f. ownerSub side f = sub) (map snd (entries (m_follows s))))"
    unfolding mine_def rows_def by (simp only: mset_filter mset_map mset_shuffle)
  then have srt: "sort_slice (follow_less side) (filter (\<lambda>f. case DecodeFollow c of None \<Rightarrow> True | Some k \<Rightarrow> follow_key side f < k) mine) =
      follow_pages.after side c (follow_feed side sub s)"
    unfolding follow_less_key follow_feed_def
    by (rule follow_pages.sort_after [OF distinct_follow_keys [OF keyed]])
  have sub: "set rows \<subseteq> set (entries (m_follows s))" unfolding rows_def by simp
  have "run_state (listSide sub c limit side) s =
    (let matches = follow_pages.after side c (follow_feed side sub s) in
     (Inr (if int (length matches) \<le> limit then (matches, [])
      else let page = take (nat limit) matches; last = page ! (nat limit - 1)
           in (page, EncodeFollow (Follow_CreatedAt last) (peerSub side last))), s\<lparr>rt_ranges := Suc (rt_ranges s)\<rparr>))"
    using limit srt [folded side_matches [OF keyed sub, of side sub "DecodeFollow c", folded mine_def]]
    by (simp add: listSide_def run_simps del: length_sort_slice flip: rows_def)
  then show ?thesis
    using limit by (simp add: follow_pages.page_of_def follow_key_def Let_def le_nat_iff)
qed

lemma sorted_follow_feed:
  "follows_keyed s \<Longrightarrow> sorted_wrt (\<lambda>a b. follow_key side a > follow_key side b) (follow_feed side sub s)"
  unfolding follow_feed_def follow_less_key
  by (intro comparator.sorted_total [OF comparator_key_desc])
    (use key_total [OF distinct_follow_keys] distinct_of_map [OF distinct_follow_keys] in blast)+

lemma mem_follow_feed:
  "follows_keyed s \<Longrightarrow> f \<in> set (follow_feed side sub s) \<longleftrightarrow>
     (\<exists>a b. get_map (m_follows s) (a, b) = Some f \<and> (if side then b else a) = sub)"
  by (cases side) (force simp: follow_feed_def ownerSub_def dest: follows_keyedD simp flip: mem_entries)+

text \<open>A client that follows the cursors sees every row of the list once, newest first.\<close>

lemma walk_follow_feed:
  assumes keyed: "follows_keyed s" and limit: "0 < limit"
    and good: "\<forall>f\<in>set (follow_feed side sub s). four_digit_year (Follow_CreatedAt f) \<and> peerSub side f \<noteq> []"
    and fuel: "length (follow_feed side sub s) < fuel"
  shows "\<exists>pages t. run_state (walk_pages fuel (\<lambda>c. listSide sub c limit side) None) s = (Some pages, t) \<and>
     concat pages = follow_feed side sub s \<and> (\<forall>p\<in>set (butlast pages). length p = nat limit)"
proof -
  let ?ok = "\<lambda>t. m_follows t = m_follows s"
  have ok: "\<exists>t'. run_state (listSide sub c limit side) t =
      (Inr (follow_pages.page_of side (nat limit) (follow_pages.after side c (follow_feed side sub s))), t') \<and> ?ok t'"
    if "?ok t" for c t
    using that run_listSide [of t limit sub c side] keyed limit by (simp add: follow_feed_def follows_keyed_def)
  show ?thesis
    using follow_pages.walk_complete [of ?ok "\<lambda>c. listSide sub c limit side" side "nat limit" "follow_feed side sub s" s fuel]
      ok limit sorted_follow_feed [OF keyed] good fuel by (auto simp: follow_key_def)
qed

end
