(* ===== verification/Mem_OGP.thy ===== *)
theory Mem_OGP
  imports Mem_Post
begin

text \<open>\<open>inmemory.OGPCacheRepository\<close> (link previews by URL hash, and those of a post through the
  link store) and \<open>inmemory.OGPJobQueue\<close> (fetch jobs and their state machine).\<close>

section \<open>Preview cache\<close>

definition OGPCacheRepository_Get :: "string \<Rightarrow> (mem, OGPPreview option) fallible" where
  "OGPCacheRepository_Get urlHash = do {
     rows \<leftarrow> gets m_ogpRows;
     ret (Inr (get_map rows urlHash))
   }"

definition OGPCacheRepository_Upsert :: "OGPPreview option \<Rightarrow> (mem, unit) fallible" where
  "OGPCacheRepository_Upsert preview = (case preview of
     None \<Rightarrow> ret (Inr ())
   | Some p \<Rightarrow>
       if Prev_URLHash p = [] then ret (Inr ())
       else do {
         modify (m_ogpRows_update (set_map (Prev_URLHash p) p));
         ret (Inr ())
       })"

definition previews_of_links :: "(string, OGPPreview) go_map \<Rightarrow> postOGPLink list \<Rightarrow> OGPPreview list" where
  "previews_of_links rows links = [p. Some p \<leftarrow> map (\<lambda>l. get_map rows (link_URLHash l)) links]"

definition OGPCacheRepository_ListByPostIDs :: "string list \<Rightarrow> (mem, string \<rightharpoonup> OGPPreview list) fallible" where
  "OGPCacheRepository_ListByPostIDs postIDs = do {
     rows \<leftarrow> gets m_ogpRows;
     ls \<leftarrow> gets m_links;
     ret (Inr (fold (\<lambda>pid out.
        let links = ogpLinksByPost pid ls in
        if length links = 0 then out
        else let previews = previews_of_links rows links in
             if length previews > 0 then out(pid \<mapsto> previews) else out) postIDs Map.empty))
   }"

definition NewOGPCacheRepository :: "mem OGPCacheRepository" where
  "NewOGPCacheRepository =
     \<lparr>ogp_Get = OGPCacheRepository_Get, ogp_Upsert = OGPCacheRepository_Upsert,
      ogp_ListByPostIDs = OGPCacheRepository_ListByPostIDs\<rparr>"

section \<open>Job queue\<close>

definition OGPJobQueue_Enqueue :: "string \<Rightarrow> string \<Rightarrow> string \<Rightarrow> string \<Rightarrow> int \<Rightarrow> (mem, unit) fallible" where
  "OGPJobQueue_Enqueue i urlHash url postID position = do {
     jobs \<leftarrow> gets m_jobs;
     if get_map jobs i \<noteq> None then ret (Inr ())
     else do {
       now \<leftarrow> Now;
       modify (m_jobs_update (set_map i
         \<lparr>Job_ID = i, Job_URLHash = urlHash, Job_URL = url, Job_PostID = postID, Job_Position = position,
          Job_EnqueuedAt = now, Job_StartedAt = None, Job_FinishedAt = None, Job_Status = OGPJobQueued,
          Job_Attempts = 0, Job_LastError = []\<rparr>));
       ret (Inr ())
     }
   }"

fun oldest_queued :: "(string \<times> OGPJob) list \<Rightarrow> (string \<times> OGPJob) option \<Rightarrow> (string \<times> OGPJob) option" where
  "oldest_queued [] oldest = oldest"
| "oldest_queued ((i, j) # rows) oldest =
     (if Job_Status j \<noteq> OGPJobQueued then oldest_queued rows oldest
      else if (case oldest of None \<Rightarrow> True | Some (_, o') \<Rightarrow> Job_EnqueuedAt j < Job_EnqueuedAt o')
      then oldest_queued rows (Some (i, j))
      else oldest_queued rows oldest)"

definition OGPJobQueue_Claim :: "string \<Rightarrow> (mem, OGPJob option) fallible" where
  "OGPJobQueue_Claim workerID = do {
     jobs \<leftarrow> gets m_jobs;
     rows \<leftarrow> map_range jobs;
     case oldest_queued rows None of
       None \<Rightarrow> ret (Inr None)
     | Some (i, oldest) \<Rightarrow> do {
         now \<leftarrow> Now;
         let job = oldest\<lparr>Job_Status := OGPJobRunning, Job_StartedAt := Some now, Job_Attempts := inc64 (Job_Attempts oldest)\<rparr>;
         modify (m_jobs_update (set_map i job));
         ret (Inr (Some job))
       }
   }"

definition OGPJobQueue_MarkDone :: "string \<Rightarrow> (mem, unit) fallible" where
  "OGPJobQueue_MarkDone jobID = do {
     jobs \<leftarrow> gets m_jobs;
     case get_map jobs jobID of
       Some j \<Rightarrow> do {
         now \<leftarrow> Now;
         modify (m_jobs_update (set_map jobID (j\<lparr>Job_Status := OGPJobDone, Job_FinishedAt := Some now\<rparr>)));
         ret (Inr ())
       }
     | None \<Rightarrow> ret (Inr ())
   }"

definition OGPJobQueue_MarkFailed :: "string \<Rightarrow> string \<Rightarrow> bool \<Rightarrow> (mem, unit) fallible" where
  "OGPJobQueue_MarkFailed jobID reason retriable = do {
     jobs \<leftarrow> gets m_jobs;
     case get_map jobs jobID of
       None \<Rightarrow> ret (Inr ())
     | Some j \<Rightarrow>
         if retriable then do {
           modify (m_jobs_update (set_map jobID
             (j\<lparr>Job_LastError := reason, Job_Status := OGPJobQueued, Job_StartedAt := None\<rparr>)));
           ret (Inr ())
         }
         else do {
           now \<leftarrow> Now;
           modify (m_jobs_update (set_map jobID
             (j\<lparr>Job_LastError := reason, Job_Status := OGPJobFailed, Job_FinishedAt := Some now\<rparr>)));
           ret (Inr ())
         }
   }"

definition NewOGPJobQueue :: "mem OGPJobQueue" where
  "NewOGPJobQueue =
     \<lparr>jobs_Enqueue = OGPJobQueue_Enqueue, jobs_Claim = OGPJobQueue_Claim,
      jobs_MarkDone = OGPJobQueue_MarkDone, jobs_MarkFailed = OGPJobQueue_MarkFailed\<rparr>"

section \<open>What each operation does\<close>

lemma run_ogp_Get [run_simps]:
  "run_state (OGPCacheRepository_Get h) s = (Inr (get_map (m_ogpRows s) h), s)"
  by (simp add: OGPCacheRepository_Get_def run_simps)

lemma run_ogp_Upsert [run_simps]:
  "run_state (OGPCacheRepository_Upsert p) s =
     (Inr (), case p of Some p \<Rightarrow> if Prev_URLHash p = [] then s else s\<lparr>m_ogpRows := set_map (Prev_URLHash p) p (m_ogpRows s)\<rparr>
      | None \<Rightarrow> s)"
  by (simp add: OGPCacheRepository_Upsert_def run_simps split: option.split)

definition previews_of_post :: "mem \<Rightarrow> string \<Rightarrow> OGPPreview list" where
  "previews_of_post s p = previews_of_links (m_ogpRows s) (ogpLinksByPost p (m_links s))"

lemma previews_Nil [simp]: "previews_of_links rows [] = []"
  by (simp add: previews_of_links_def)

lemma preview_batch_step:
  "(\<lambda>pid out. let links = ogpLinksByPost pid (m_links s) in
      if length links = 0 then out
      else let previews = previews_of_links (m_ogpRows s) links in
           if length previews > 0 then out(pid \<mapsto> previews) else out) =
    (\<lambda>pid out. if previews_of_post s pid = [] then out else out(pid \<mapsto> previews_of_post s pid))"
  by (auto simp: fun_eq_iff previews_of_post_def Let_def)

lemma fold_nonempty:
  "fold (\<lambda>pid out. if f pid = [] then out else out(pid \<mapsto> f pid)) ps m p =
     (if p \<in> set ps \<and> f p \<noteq> [] then Some (f p) else m p)"
  by (induction ps arbitrary: m) auto

lemma run_ogp_ListByPostIDs [run_simps]:
  "run_state (OGPCacheRepository_ListByPostIDs ps) s =
     (Inr (\<lambda>p. if p \<in> set ps \<and> previews_of_post s p \<noteq> [] then Some (previews_of_post s p) else None), s)"
  unfolding OGPCacheRepository_ListByPostIDs_def run_state_bind run_gets split_beta fst_conv snd_conv
    preview_batch_step
  by (simp add: fold_nonempty fun_eq_iff)

text \<open>What \<open>Claim\<close> picks: a queued job that was enqueued no later than any other queued job.\<close>

lemma oldest_queued_Some:
  "oldest_queued rows o' = Some (i, j) \<Longrightarrow>
     ((i, j) \<in> set rows \<and> Job_Status j = OGPJobQueued \<or> o' = Some (i, j)) \<and>
     (\<forall>(i', j')\<in>set rows. Job_Status j' = OGPJobQueued \<longrightarrow> Job_EnqueuedAt j \<le> Job_EnqueuedAt j') \<and>
     (\<forall>i' j'. o' = Some (i', j') \<longrightarrow> Job_EnqueuedAt j \<le> Job_EnqueuedAt j')"
  by (induction rows o' rule: oldest_queued.induct)
    (auto split: if_splits option.splits intro: order_trans less_imp_le)

lemma oldest_queued_None:
  "oldest_queued rows o' = None \<longleftrightarrow> o' = None \<and> (\<forall>(i, j)\<in>set rows. Job_Status j \<noteq> OGPJobQueued)"
  by (induction rows o' rule: oldest_queued.induct) (auto split: option.splits)

lemma run_Claim_cases:
  obtains (none) "run_state (OGPJobQueue_Claim w) s = (Inr None, s\<lparr>rt_ranges := Suc (rt_ranges s)\<rparr>)"
      "\<forall>i j. get_map (m_jobs s) i = Some j \<longrightarrow> Job_Status j \<noteq> OGPJobQueued"
  | (claimed) i j where "get_map (m_jobs s) i = Some j" "Job_Status j = OGPJobQueued"
      "\<forall>i' j'. get_map (m_jobs s) i' = Some j' \<and> Job_Status j' = OGPJobQueued \<longrightarrow> Job_EnqueuedAt j \<le> Job_EnqueuedAt j'"
      "run_state (OGPJobQueue_Claim w) s =
        (let job = j\<lparr>Job_Status := OGPJobRunning, Job_StartedAt := Some (rt_clock s (rt_ticks s)),
               Job_Attempts := inc64 (Job_Attempts j)\<rparr>
         in (Inr (Some job), s\<lparr>rt_ranges := Suc (rt_ranges s), rt_ticks := Suc (rt_ticks s),
               m_jobs := set_map i job (m_jobs s)\<rparr>))"
proof (cases "oldest_queued (shuffle (rt_order s (rt_ranges s)) (entries (m_jobs s))) None")
  case None
  show ?thesis
    by (rule none) (use None oldest_queued_None [THEN iffD1, OF None] in \<open>auto simp: OGPJobQueue_Claim_def run_simps\<close>)
next
  case (Some ij)
  obtain i j where ij: "ij = (i, j)" by (cases ij)
  show ?thesis
    by (rule claimed [of i j])
      (use oldest_queued_Some [OF Some [unfolded ij]] Some ij in \<open>auto simp: OGPJobQueue_Claim_def run_simps\<close>)
qed

end
