(* ===== verification/Mem_Social.thy ===== *)
theory Mem_Social
  imports Counters Atomicity Mem_User Mem_Post Mem_Image Mem_Like Mem_Tag Mem_Follow Mem_OGP
begin

text \<open>The in-memory backend meets the contracts of \<open>Social_Contracts\<close>: the interpretations below
  discharge the laws for its definitions, and with them the use cases run on it are correct.
  Its methods do not fail, so on it the use cases are atomic.\<close>

definition mem_view :: "mem \<Rightarrow> db" where
  "mem_view s = \<lparr>db_users = get_map (m_users s), db_follows = follow_rows s,
     db_posts = get_map (m_posts s), db_likes = like_rows s\<rparr>"

text \<open>The owner of a live image.\<close>

definition image_owner :: "mem \<Rightarrow> string \<Rightarrow> string option" where
  "image_owner s i = (case get_map (m_images s) i of
     Some m \<Rightarrow> if Image_DeletedAt m = None then Some (Image_UserID m) else None | None \<Rightarrow> None)"

lemma follow_rows_update [simp]:
  "follow_rows (s\<lparr>m_follows := set_map ab f m, rt_ticks := n\<rparr>) = insert ab (dom (get_map m))"
  "follow_rows (s\<lparr>rt_ticks := n, m_follows := set_map ab f m\<rparr>) = insert ab (dom (get_map m))"
  "follow_rows (s\<lparr>m_follows := del_map ab m\<rparr>) = dom (get_map m) - {ab}"
  by (auto simp: follow_rows_def lookup_delete split: if_splits)

lemma mem_view_other [simp]:
  "mem_view (s\<lparr>rt_ids := n\<rparr>) = mem_view s" "mem_view (s\<lparr>rt_ticks := n\<rparr>) = mem_view s"
  "mem_view (s\<lparr>rt_ranges := n\<rparr>) = mem_view s" "mem_view (s\<lparr>m_tags := tg\<rparr>) = mem_view s"
  "mem_view (s\<lparr>m_tagByName := tn\<rparr>) = mem_view s" "mem_view (s\<lparr>m_images := im\<rparr>) = mem_view s"
  "mem_view (s\<lparr>m_links := ls\<rparr>) = mem_view s" "mem_view (s\<lparr>m_jobs := js\<rparr>) = mem_view s"
  "mem_view (s\<lparr>m_ogpRows := rs\<rparr>) = mem_view s"
  "mem_view (s\<lparr>m_posts := ps\<rparr>) = (mem_view s)\<lparr>db_posts := get_map ps\<rparr>"
  "mem_view (s\<lparr>m_users := us\<rparr>) = (mem_view s)\<lparr>db_users := get_map us\<rparr>"
  by (simp_all add: mem_view_def follow_rows_def like_rows_def)

lemma mem_view_fields [simp]:
  "db_users (mem_view s) = get_map (m_users s)" "db_posts (mem_view s) = get_map (m_posts s)"
  "db_follows (mem_view s) = follow_rows s" "db_likes (mem_view s) = like_rows s"
  by (simp_all add: mem_view_def)

lemma mem_view_likes: "like_rows (s\<lparr>m_likes := m\<rparr>) = L \<Longrightarrow>
    mem_view (s\<lparr>m_likes := m, rt_ticks := n\<rparr>) = (mem_view s)\<lparr>db_likes := L\<rparr> \<and>
    mem_view (s\<lparr>m_likes := m\<rparr>) = (mem_view s)\<lparr>db_likes := L\<rparr>"
  by (simp add: mem_view_def follow_rows_def like_rows_def)

lemma mem_view_on_live_post: "mem_view (on_live_post i f s) = on_live i f (mem_view s)"
  using get_map_on_live_post [of i f s]
  by (simp add: mem_view_def on_live_def like_rows_def follow_rows_def)

lemma mem_view_on_user: "mem_view (on_user i f s) = on_row i f (mem_view s)"
proof -
  have "m_likes (on_user i f s) = m_likes s" "m_follows (on_user i f s) = m_follows s" "m_posts (on_user i f s) = m_posts s"
    by (simp_all add: on_user_def split: option.split)
  then show ?thesis by (simp add: mem_view_def on_row_def like_rows_def follow_rows_def)
qed

section \<open>Interpretations\<close>

lemma mem_like_Create:
  "\<exists>t. run_state (LikeRepository_Create u p) s = (Inr ((u, p) \<notin> like_rows s), t) \<and>
     mem_view t = (mem_view s)\<lparr>db_likes := insert (u, p) (like_rows s)\<rparr>"
  using run_like_Create [of u p s] mem_view_likes by blast

lemma mem_like_Delete:
  "\<exists>t. run_state (LikeRepository_Delete u p) s = (Inr ((u, p) \<in> like_rows s), t) \<and>
     mem_view t = (mem_view s)\<lparr>db_likes := like_rows s - {(u, p)}\<rparr>"
  using run_like_Delete [of u p s] mem_view_likes by blast

interpretation mem_likes: like_store False "\<lambda>_. True" mem_view NewLikeRepository
  by unfold_locales
    (simp only: writes_False, rule effect_of, use mem_like_Create mem_like_Delete in \<open>fastforce simp: NewLikeRepository_def\<close>)+

interpretation mem_posts: post_store False "\<lambda>_. True" "\<lambda>_. True" mem_view NewPostRepository
proof
  fix i
  show "writes False mem_view (posts_Delete NewPostRepository i) (\<lambda>v _ v'. \<forall>p. live (db_posts v) i = Some p \<longrightarrow>
      (\<exists>now. v' = v\<lparr>db_posts := (db_posts v)(i \<mapsto> p\<lparr>Post_DeletedAt := Some now\<rparr>)\<rparr>))"
    unfolding writes_False by (rule effectI) (auto simp: NewPostRepository_def run_simps dest!: live_row)
qed (auto intro!: effectI simp: NewPostRepository_def run_simps live_def mem_view_on_live_post split: option.splits)

interpretation mem_users: user_store False "\<lambda>_. True" "\<lambda>_. True" mem_view NewUserRepository
  by unfold_locales (auto intro!: effectI simp: NewUserRepository_def run_simps mem_view_on_user)

interpretation mem_follows: follow_store False "\<lambda>_. True" mem_view NewFollowRepository
  by unfold_locales
    (auto intro!: effectI simp: NewFollowRepository_def run_follow_Create run_follow_Delete mem_view_def like_rows_def
       follow_rows_def insert_absorb split: if_splits)

interpretation mem_service: post_service False "\<lambda>_. True" "\<lambda>_. True" mem_view NewLikeRepository NewPostRepository ..

interpretation mem_graph: follow_service False "\<lambda>_. True" "\<lambda>_. True" mem_view NewUserRepository NewFollowRepository ..

section \<open>Creating posts\<close>

lemma later_fields [simp]:
  "later (s :: mem) (s\<lparr>m_posts := ps\<rparr>)" "later (s :: mem) (s\<lparr>rt_ticks := n\<rparr>)" "later (s :: mem) (on_live_post i f s)"
  by (simp_all add: later_def)

text \<open>Upserting tags touches the tag tables and draws ids, nothing else.\<close>

definition tag_frame :: "mem \<Rightarrow> mem \<Rightarrow> bool" where
  "tag_frame s t \<longleftrightarrow> (\<exists>m b n. t = s\<lparr>m_tags := m, m_tagByName := b, rt_ids := n\<rparr> \<and> rt_ids s \<le> n)"

lemma tag_frame_refl: "tag_frame s s"
  unfolding tag_frame_def by (intro exI [of _ "m_tags s"] exI [of _ "m_tagByName s"] exI [of _ "rt_ids s"]) simp

lemma tag_frame_step:
  assumes "tag_frame (m_tagByName_update f (m_tags_update g (s\<lparr>rt_ids := Suc (rt_ids s)\<rparr>))) t"
  shows "tag_frame s t"
  using assms unfolding tag_frame_def by (auto dest: Suc_leD)

lemma upsert_names_frame: "wp (upsert_names now seen names) (\<lambda>_ t. tag_frame s t) s"
proof (induction names arbitrary: seen s)
  case (Cons name names)
  have rest: "wp (bind_or (upsert_names now seen' names) id (\<lambda>out. ret (Inr (x # out)))) (\<lambda>_ t. tag_frame s' t) s'" for seen' s' x
    by (intro wp_rules wp_mono [OF Cons.IH]) (auto intro!: wp_rules split: sum.split)
  show ?case
    by (auto intro!: wp_rules Cons.IH rest wp_mono [OF rest] tag_frame_refl elim: tag_frame_step)
qed (auto intro!: wp_rules tag_frame_refl)

lemma tag_frame_view: "tag_frame s t \<Longrightarrow> mem_view t = mem_view s \<and> later s t"
  by (auto simp: tag_frame_def later_def)

lemma mem_UpsertByNames:
  assumes "run_state (TagRepository_UpsertByNames ns) s = (r, t)"
  shows "mem_view t = mem_view s \<and> later s t"
proof -
  have "wp (TagRepository_UpsertByNames ns) (\<lambda>_ t. tag_frame (s\<lparr>rt_ticks := Suc (rt_ticks s)\<rparr>) t) s"
    unfolding TagRepository_UpsertByNames_def by (intro wp_rules upsert_names_frame)
  from wpD [OF this assms] show ?thesis
    by (auto dest!: tag_frame_view simp: later_def)
qed

definition quiet_extractor :: "(string \<Rightarrow> (mem, string list) fallible) \<Rightarrow> bool" where
  "quiet_extractor ex \<longleftrightarrow> (\<forall>c. steady (ex c) \<and> quiet mem_view (ex c))"

lemma mem_post_writer:
  assumes "quiet_extractor ex"
  shows "post_writer (\<lambda>_. True) mem_view NewPostRepository NewImageRepository NewTagRepository ex image_owner"
proof unfold_locales
  show "effect mem_view (ex c) (\<lambda>v _ v'. v' = v)" "steady (ex c)" for c
    using assms by (auto simp: quiet_extractor_def intro!: effectI dest: quietD)
  show "effect mem_view (posts_Create NewPostRepository post imgs tagIDs)
      (\<lambda>v r v'. (\<exists>now. r = post\<lparr>Post_CreatedAt := now, Post_UpdatedAt := now\<rparr>) \<and>
         v' = v\<lparr>db_posts := (db_posts v)(Post_ID post \<mapsto> r)\<rparr>)" for post imgs tagIDs
    by (rule effectI) (auto simp: NewPostRepository_def run_simps)
  show "effect mem_view (tags_UpsertByNames NewTagRepository ns) (\<lambda>v _ v'. v' = v)" for ns
    by (rule effectI) (auto simp: NewTagRepository_def dest: mem_UpsertByNames)
  show "steady (tags_UpsertByNames NewTagRepository ns)" for ns
    by (rule steadyI) (metis NewTagRepository_def TagRepository.select_convs(1) mem_UpsertByNames prod.collapse)
  show "mem_view (s\<lparr>rt_ids := n\<rparr>) = mem_view s" "image_owner (s\<lparr>rt_ids := n\<rparr>) = image_owner s" for s n
    by (simp_all add: image_owner_def fun_eq_iff)
  show "effect (\<lambda>s. (mem_view s, image_owner s)) (images_GetByID NewImageRepository i)
      (\<lambda>v r v'. v' = v \<and> map_option Image_UserID r = snd v i)" for i
    by (rule effectI) (auto simp: NewImageRepository_def run_simps image_owner_def split: option.split)
  show "effect image_owner (posts_GetByID NewPostRepository i) (\<lambda>v _ v'. v' = v)" for i
    by (rule effectI) (auto simp: NewPostRepository_def run_simps)
  show "effect mem_view (images_ListByPostID NewImageRepository i) (\<lambda>v _ v'. v' = v)" for i
    by (rule effectI) (auto simp: NewImageRepository_def run_simps)
  show "steady (posts_GetByID NewPostRepository i)" "steady (images_GetByID NewImageRepository i)"
    "steady (posts_Create NewPostRepository post imgs ts)" "steady (posts_IncrementRepliesCount NewPostRepository i)"
    "steady (images_ListByPostID NewImageRepository i)" for i post imgs ts
    by (auto intro!: steadyI simp: NewPostRepository_def NewImageRepository_def run_simps) (simp_all add: later_def)
qed

text \<open>A call of the in-memory backend does not fail. The tag extractor of the server computes its
  result from the content alone (\<open>RegexTagExtractor.Extract\<close> has no other input).\<close>

lemma quiet_extractor_pure: "quiet_extractor (\<lambda>c. ret (Inr (f c)))"
  by (simp add: quiet_extractor_def steady_def)

interpretation mem_posts_atomic: atomic_posts "\<lambda>_. True" "\<lambda>_. True" mem_view NewLikeRepository NewPostRepository
  by unfold_locales (simp_all add: reliable_def NewPostRepository_def run_simps)

interpretation mem_graph_atomic: atomic_graph "\<lambda>_. True" "\<lambda>_. True" mem_view NewUserRepository NewFollowRepository
  by unfold_locales (simp_all add: reliable_def NewUserRepository_def run_simps)

interpretation mem_writer: post_writer "\<lambda>_. True" mem_view NewPostRepository NewImageRepository NewTagRepository
    "\<lambda>c. ret (Inr (f c))" image_owner for f
  by (rule mem_post_writer [OF quiet_extractor_pure])

interpretation mem_writer_atomic: atomic_writer "\<lambda>_. True" mem_view NewPostRepository NewImageRepository NewTagRepository
    "\<lambda>c. ret (Inr (f c))" image_owner for f
  by unfold_locales (simp_all add: reliable_def NewPostRepository_def NewImageRepository_def run_simps)

text \<open>Every string is a key of a Go map.\<close>

lemmas mem_atomic = mem_posts_atomic.like_atomic [OF _ TrueI TrueI] mem_posts_atomic.unlike_atomic [OF TrueI TrueI TrueI]
  mem_posts_atomic.delete_atomic [OF TrueI TrueI] mem_graph_atomic.follow_atomic [OF _ TrueI TrueI]
  mem_graph_atomic.unfollow_atomic [OF TrueI TrueI TrueI]

end
