(* ===== verification/Mem_Badge.thy ===== *)
theory Mem_Badge
  imports Mem_Store
begin

text \<open>\<open>inmemory.BadgeRepository\<close>: badge master rows by id and by key, and the grants of badges to
  users with their expiry.\<close>

definition badge_less :: "Badge \<Rightarrow> Badge \<Rightarrow> bool" where
  "badge_less a b \<longleftrightarrow>
     (if Badge_Priority a \<noteq> Badge_Priority b then Badge_Priority a < Badge_Priority b
      else Badge_Key a < Badge_Key b)"

definition sortBadgesByPriority :: "Badge list \<Rightarrow> Badge list" where
  "sortBadgesByPriority badges = sort_slice badge_less badges"

definition BadgeRepository_ListAll :: "(mem, Badge list) fallible" where
  "BadgeRepository_ListAll = do {
     badges \<leftarrow> gets m_badges;
     rows \<leftarrow> map_range badges;
     ret (Inr (sortBadgesByPriority (map snd rows)))
   }"

definition BadgeRepository_GetByKey :: "string \<Rightarrow> (mem, Badge option) fallible" where
  "BadgeRepository_GetByKey key = do {
     byKey \<leftarrow> gets m_badgeByKey;
     badges \<leftarrow> gets m_badges;
     ret (case get_map byKey key of
            None \<Rightarrow> Inr None
          | Some i \<Rightarrow>
              (case get_map badges i of
                 Some b \<Rightarrow> Inr (Some b)
               | None \<Rightarrow> Inl (GoPanic ''invalid memory address or nil pointer dereference'')))
   }"

definition BadgeRepository_GetByID :: "string \<Rightarrow> (mem, Badge option) fallible" where
  "BadgeRepository_GetByID i = do {
     badges \<leftarrow> gets m_badges;
     ret (Inr (get_map badges i))
   }"

definition BadgeRepository_Create :: "Badge \<Rightarrow> (mem, Badge option) fallible" where
  "BadgeRepository_Create badge = do {
     byKey \<leftarrow> gets m_badgeByKey;
     if get_map byKey (Badge_Key badge) \<noteq> None then ret (Inr None)
     else do {
       now \<leftarrow> Now;
       let stored = (if IsZero (Badge_CreatedAt badge) then badge\<lparr>Badge_CreatedAt := now\<rparr> else badge);
       let stored = stored\<lparr>Badge_UpdatedAt := now\<rparr>;
       modify (m_badges_update (set_map (Badge_ID stored) stored));
       modify (m_badgeByKey_update (set_map (Badge_Key stored) (Badge_ID stored)));
       ret (Inr (Some stored))
     }
   }"

definition BadgeRepository_Update :: "Badge \<Rightarrow> (mem, Badge option) fallible" where
  "BadgeRepository_Update badge = do {
     badges \<leftarrow> gets m_badges;
     case get_map badges (Badge_ID badge) of
       None \<Rightarrow> ret (Inr None)
     | Some existing \<Rightarrow> do {
         now \<leftarrow> Now;
         let stored = existing\<lparr>Badge_Label := Badge_Label badge, Badge_Description := Badge_Description badge,
           Badge_IconURL := Badge_IconURL badge, Badge_Color := Badge_Color badge,
           Badge_Priority := Badge_Priority badge, Badge_UpdatedAt := now\<rparr>;
         modify (m_badges_update (set_map (Badge_ID stored) stored));
         ret (Inr (Some stored))
       }
   }"

definition BadgeRepository_Grant :: "string \<Rightarrow> string \<Rightarrow> string \<Rightarrow> time option \<Rightarrow> string \<Rightarrow> (mem, unit) fallible" where
  "BadgeRepository_Grant userID badgeID grantedBy expiresAt reason = do {
     now \<leftarrow> Now;
     modify (m_userBadges_update (set_map (userID, badgeID)
       \<lparr>UB_UserID = userID, UB_BadgeID = badgeID, UB_GrantedAt = now, UB_GrantedBy = grantedBy,
        UB_ExpiresAt = expiresAt, UB_Reason = reason\<rparr>));
     ret (Inr ())
   }"

definition BadgeRepository_Revoke :: "string \<Rightarrow> string \<Rightarrow> (mem, unit) fallible" where
  "BadgeRepository_Revoke userID badgeID = do {
     modify (m_userBadges_update (del_map (userID, badgeID)));
     ret (Inr ())
   }"

text \<open>A grant counts while it has no expiry or its expiry is after now.\<close>

definition grant_active :: "time \<Rightarrow> UserBadge \<Rightarrow> bool" where
  "grant_active now ub = (case UB_ExpiresAt ub of Some e \<Rightarrow> now < e | None \<Rightarrow> True)"

definition BadgeRepository_ListByUserID :: "string \<Rightarrow> (mem, Badge list) fallible" where
  "BadgeRepository_ListByUserID userID = do {
     now \<leftarrow> Now;
     grants \<leftarrow> gets m_userBadges;
     badges \<leftarrow> gets m_badges;
     rows \<leftarrow> map_range grants;
     let result = fold (\<lambda>((u, i), ub) result.
       if u \<noteq> userID then result
       else if \<not> grant_active now ub then result
       else case get_map badges i of Some b \<Rightarrow> result @ [b] | None \<Rightarrow> result) rows [];
     ret (Inr (sortBadgesByPriority result))
   }"

definition BadgeRepository_ListByUserIDs :: "string list \<Rightarrow> (mem, string \<rightharpoonup> Badge list) fallible" where
  "BadgeRepository_ListByUserIDs userIDs = do {
     now \<leftarrow> Now;
     grants \<leftarrow> gets m_userBadges;
     badges \<leftarrow> gets m_badges;
     rows \<leftarrow> map_range grants;
     let out = fold (\<lambda>((u, i), ub) out.
       if u \<notin> set userIDs then out
       else if \<not> grant_active now ub then out
       else case get_map badges i of
              Some b \<Rightarrow> out(u \<mapsto> (case out u of Some bs \<Rightarrow> bs | None \<Rightarrow> []) @ [b])
            | None \<Rightarrow> out) rows Map.empty;
     ret (Inr (\<lambda>u. map_option sortBadgesByPriority (out u)))
   }"

definition NewBadgeRepository :: "mem BadgeRepository" where
  "NewBadgeRepository =
     \<lparr>badges_ListAll = BadgeRepository_ListAll, badges_GetByKey = BadgeRepository_GetByKey,
      badges_GetByID = BadgeRepository_GetByID, badges_Create = BadgeRepository_Create,
      badges_Update = BadgeRepository_Update, badges_Grant = BadgeRepository_Grant,
      badges_Revoke = BadgeRepository_Revoke, badges_ListByUserID = BadgeRepository_ListByUserID,
      badges_ListByUserIDs = BadgeRepository_ListByUserIDs\<rparr>"

section \<open>The index and the table agree\<close>

interpretation badge_order: comparator badge_less
  by unfold_locales (auto simp: badge_less_def split: if_splits)

definition badges_ok :: "mem \<Rightarrow> bool" where
  "badges_ok s \<longleftrightarrow>
     (\<forall>k i. get_map (m_badgeByKey s) k = Some i \<longrightarrow>
        (\<exists>b. get_map (m_badges s) i = Some b \<and> Badge_Key b = k)) \<and>
     (\<forall>i b. get_map (m_badges s) i = Some b \<longrightarrow>
        Badge_ID b = i \<and> get_map (m_badgeByKey s) (Badge_Key b) = Some i)"

lemma badges_ok_byKey:
  "badges_ok s \<Longrightarrow> get_map (m_badgeByKey s) k = Some i \<Longrightarrow>
   \<exists>b. get_map (m_badges s) i = Some b \<and> Badge_Key b = k \<and> Badge_ID b = i"
  unfolding badges_ok_def by blast

lemma badges_ok_row:
  "badges_ok s \<Longrightarrow> get_map (m_badges s) i = Some b \<Longrightarrow>
   Badge_ID b = i \<and> get_map (m_badgeByKey s) (Badge_Key b) = Some i"
  unfolding badges_ok_def by blast

lemma badge_key_unique:
  "badges_ok s \<Longrightarrow> get_map (m_badges s) i = Some a \<Longrightarrow> get_map (m_badges s) j = Some b \<Longrightarrow>
   Badge_Key a = Badge_Key b \<Longrightarrow> i = j"
  by (metis badges_ok_row option.inject)

lemma badges_ok_Create:
  assumes ok: "badges_ok s" and new: "get_map (m_badges s) (Badge_ID badge) = None"
  shows "badges_ok (snd (run_state (BadgeRepository_Create badge) s))"
proof (cases "get_map (m_badgeByKey s) (Badge_Key badge)")
  case None
  then show ?thesis
    using badges_ok_byKey [OF ok] badges_ok_row [OF ok] new
    by (fastforce simp: BadgeRepository_Create_def run_simps badges_ok_def split: if_splits)
qed (use ok in \<open>simp add: BadgeRepository_Create_def run_simps\<close>)

lemma badges_ok_Update:
  assumes ok: "badges_ok s"
  shows "badges_ok (snd (run_state (BadgeRepository_Update badge) s))"
  using badges_ok_byKey [OF ok] badges_ok_row [OF ok] ok
  by (cases "get_map (m_badges s) (Badge_ID badge)")
    (fastforce simp: BadgeRepository_Update_def run_simps badges_ok_def split: if_splits)+

lemma run_GetByKey:
  assumes ok: "badges_ok s"
  shows "run_state (BadgeRepository_GetByKey k) s =
     (Inr (case get_map (m_badgeByKey s) k of Some i \<Rightarrow> get_map (m_badges s) i | None \<Rightarrow> None), s)"
  using badges_ok_byKey [OF ok, of k]
  by (auto simp: BadgeRepository_GetByKey_def run_simps split: option.split)

section \<open>The badges of a user\<close>

definition badge_rows :: "(string, Badge) go_map \<Rightarrow> time \<Rightarrow> string \<Rightarrow> ((string \<times> string) \<times> UserBadge) list \<Rightarrow> Badge list" where
  "badge_rows badges now u rows =
     [b. Some b \<leftarrow> map (\<lambda>((v, i), ub). if v = u \<and> grant_active now ub then get_map badges i else None) rows]"

definition badges_of_user :: "mem \<Rightarrow> time \<Rightarrow> string \<Rightarrow> Badge list" where
  "badges_of_user s now u = sortBadgesByPriority (badge_rows (m_badges s) now u (entries (m_userBadges s)))"

lemma badge_rows_simps [simp]:
  "badge_rows badges now u [] = []"
  "badge_rows badges now u (((v, i), ub) # rows) =
     (if v = u \<and> grant_active now ub
      then (case get_map badges i of Some b \<Rightarrow> b # badge_rows badges now u rows | None \<Rightarrow> badge_rows badges now u rows)
      else badge_rows badges now u rows)"
  by (simp_all add: badge_rows_def split: option.split)

lemma badge_rows_eq:
  "badge_rows badges now u rows = map (\<lambda>x. the (get_map badges (snd (fst x))))
     (filter (\<lambda>x. fst (fst x) = u \<and> grant_active now (snd x) \<and> get_map badges (snd (fst x)) \<noteq> None) rows)"
  by (induction rows) (auto split: option.split)

lemma distinct_badge_rows:
  assumes ok: "badges_ok s" and d: "distinct (map fst rows)"
  shows "distinct (map Badge_Key (badge_rows (m_badges s) now u rows))"
proof -
  let ?live = "filter (\<lambda>x. fst (fst x) = u \<and> grant_active now (snd x) \<and> get_map (m_badges s) (snd (fst x)) \<noteq> None) rows"
  have "inj_on (\<lambda>x. Badge_Key (the (get_map (m_badges s) (snd (fst x))))) (set ?live)"
  proof (rule inj_onI)
    fix x y
    assume x: "x \<in> set ?live" and y: "y \<in> set ?live"
      and eq: "Badge_Key (the (get_map (m_badges s) (snd (fst x)))) = Badge_Key (the (get_map (m_badges s) (snd (fst y))))"
    then have "snd (fst x) = snd (fst y)"
      using badge_key_unique [OF ok] by fastforce
    then have "fst x = fst y" using x y by (simp add: prod_eq_iff)
    then show "x = y" using d x y by (auto simp: distinct_map dest: inj_onD)
  qed
  moreover have "distinct ?live" using d by (simp add: distinct_map)
  ultimately show ?thesis by (simp add: badge_rows_eq distinct_map comp_def)
qed

lemma badges_total:
  "distinct (map Badge_Key bs) \<Longrightarrow> a \<in> set bs \<Longrightarrow> b \<in> set bs \<Longrightarrow> a \<noteq> b \<Longrightarrow> badge_less a b \<or> badge_less b a"
  using key_total [of Badge_Key bs a b] by (auto simp: badge_less_def)

lemma sort_badges_perm:
  assumes d: "distinct (map Badge_Key bs)" and m: "mset bs' = mset bs"
  shows "sortBadgesByPriority bs' = sortBadgesByPriority bs"
proof -
  have d': "distinct (map Badge_Key bs')" using d m by (metis mset_eq_imp_distinct_iff mset_map)
  show ?thesis unfolding sortBadgesByPriority_def
    by (rule badge_order.strict_sorted_unique)
      (use d d' badges_total distinct_of_map m in \<open>auto intro!: badge_order.sorted_total\<close>)
qed

lemma fold_badge_rows:
  "fold (\<lambda>((u, i), ub) result.
       if u \<noteq> v then result
       else if \<not> grant_active now ub then result
       else case get_map badges i of Some b \<Rightarrow> result @ [b] | None \<Rightarrow> result) rows acc =
     acc @ badge_rows badges now v rows"
  by (induction rows arbitrary: acc) (auto split: option.split)

lemma fold_badge_map:
  "fold (\<lambda>((u, i), ub) out.
       if u \<notin> set us then out
       else if \<not> grant_active now ub then out
       else case get_map badges i of
              Some b \<Rightarrow> out(u \<mapsto> (case out u of Some bs \<Rightarrow> bs | None \<Rightarrow> []) @ [b])
            | None \<Rightarrow> out) rows out v =
     (if v \<in> set us \<and> badge_rows badges now v rows \<noteq> []
      then Some ((case out v of Some bs \<Rightarrow> bs | None \<Rightarrow> []) @ badge_rows badges now v rows) else out v)"
proof (induction rows arbitrary: out)
  case (Cons r rows)
  obtain u i ub where r: "r = ((u, i), ub)" by (metis prod.exhaust)
  show ?case
  proof (cases "u \<in> set us \<and> grant_active now ub \<and> get_map badges i \<noteq> None")
    case True
    then show ?thesis using r by (cases "u = v") (auto simp: Cons.IH)
  next
    case False
    then have "\<not> (u \<in> set us \<and> grant_active now ub) \<or> get_map badges i = None" by blast
    then show ?thesis using r by (auto simp: Cons.IH)
  qed
qed simp

lemma badge_rows_shuffle:
  assumes ok: "badges_ok s"
  shows "sortBadgesByPriority (badge_rows (m_badges s) now u (shuffle c (entries (m_userBadges s)))) = badges_of_user s now u"
  unfolding badges_of_user_def
proof (rule sort_badges_perm)
  show "distinct (map Badge_Key (badge_rows (m_badges s) now u (entries (m_userBadges s))))"
    by (rule distinct_badge_rows [OF ok]) simp
  show "mset (badge_rows (m_badges s) now u (shuffle c (entries (m_userBadges s)))) =
      mset (badge_rows (m_badges s) now u (entries (m_userBadges s)))"
    unfolding badge_rows_eq mset_map mset_filter mset_shuffle ..
qed

lemma badge_rows_empty: "badge_rows badges now u (shuffle c rows) = [] \<longleftrightarrow> badge_rows badges now u rows = []"
  by (simp add: badge_rows_eq filter_empty_conv)

lemma sortBadges_Nil [simp]: "sortBadgesByPriority bs = [] \<longleftrightarrow> bs = []"
  by (metis length_0_conv length_sort_slice sortBadgesByPriority_def)

lemma run_badge_ListByUserID:
  assumes ok: "badges_ok s"
  shows "run_state (BadgeRepository_ListByUserID u) s =
     (Inr (badges_of_user s (rt_clock s (rt_ticks s)) u),
      s\<lparr>rt_ticks := Suc (rt_ticks s), rt_ranges := Suc (rt_ranges s)\<rparr>)"
  using badge_rows_shuffle [OF ok]
  by (simp add: BadgeRepository_ListByUserID_def run_simps fold_badge_rows)

text \<open>The batch agrees with the single lookup; users without an active badge are absent.\<close>

lemma run_badge_ListByUserIDs:
  assumes ok: "badges_ok s"
  shows "run_state (BadgeRepository_ListByUserIDs us) s =
     (Inr (\<lambda>u. if u \<in> set us \<and> badges_of_user s (rt_clock s (rt_ticks s)) u \<noteq> []
        then Some (badges_of_user s (rt_clock s (rt_ticks s)) u) else None),
      s\<lparr>rt_ticks := Suc (rt_ticks s), rt_ranges := Suc (rt_ranges s)\<rparr>)"
  using badge_rows_shuffle [OF ok, of "rt_clock s (rt_ticks s)" _ "rt_order s (rt_ranges s)"]
  by (simp add: BadgeRepository_ListByUserIDs_def run_simps fold_badge_map fun_eq_iff badges_of_user_def
      badge_rows_empty)

end
