(* ===== verification/UC_User.thy ===== *)
theory UC_User
  imports Repository
begin

text \<open>
  \<open>internal/usecase/user\<close> and \<open>internal/usecase/admin\<close>: the mirror of AuthCore identities, which
  is created on first sight and refreshed when it is older than its TTL, profile updates, and
  the admin check. The AuthCore client is an interface (\<open>pkg/authcore.Client\<close>); the caller's
  access token is read from the request context, \<open>[]\<close> where there is none. Log lines are left
  out.
\<close>

section \<open>The AuthCore client\<close>

record Profile =
  Profile_Sub :: string
  Profile_PublicID :: string
  Profile_IconURL :: string
  Profile_Email :: string

record Session =
  Session_Sub :: string
  Session_ExpiresAt :: time
  Session_PublicID :: string

record 's Client =
  client_Introspect :: "string \<Rightarrow> ('s, Session) fallible"
  client_GetProfile :: "string \<Rightarrow> ('s, Profile) fallible"

definition ErrInvalidSession :: go_error where
  "ErrInvalidSession = Sentinel ''authcore: invalid session''"

definition ErrUpstream :: go_error where
  "ErrUpstream = Sentinel ''authcore: upstream error''"

definition ErrNotFound :: go_error where
  "ErrNotFound = Sentinel ''authcore: resource not found''"

section \<open>Reading and hydrating\<close>

definition GetUser_Execute :: "'s UserRepository \<Rightarrow> string \<Rightarrow> ('s, User) fallible" where
  "GetUser_Execute userRepo sub =
     (if sub = [] then ret (Inl (InvalidRequest ''sub is required'' None))
      else bind_or (users_GetBySub userRepo sub) (DatabaseError ''failed to get user'') (\<lambda>user.
        case user of
          None \<Rightarrow> ret (Inl (NotFound ''user not found''))
        | Some u \<Rightarrow> ret (Inr u)))"

definition DefaultProfileTTL :: duration where
  "DefaultProfileTTL = Hour"

record 's GetOrHydrateUserUseCase =
  hydrate_userRepo :: "'s UserRepository"
  hydrate_authcore :: "'s Client"
  hydrate_ttl :: duration

definition NewGetOrHydrateUserUseCase :: "'s UserRepository \<Rightarrow> 's Client \<Rightarrow> duration \<Rightarrow> 's GetOrHydrateUserUseCase" where
  "NewGetOrHydrateUserUseCase userRepo client ttl =
     \<lparr>hydrate_userRepo = userRepo, hydrate_authcore = client,
      hydrate_ttl = (if ttl \<le> 0 then DefaultProfileTTL else ttl)\<rparr>"

definition applyProfile :: "User \<Rightarrow> Profile \<Rightarrow> User" where
  "applyProfile user profile =
     (let user = user\<lparr>User_DisplayIDCached := Profile_PublicID profile, User_IconURLCached := Profile_IconURL profile\<rparr>
      in if User_DisplayNameCached user = [] then user\<lparr>User_DisplayNameCached := Profile_PublicID profile\<rparr> else user)"

text \<open>\<open>&domain.User{Sub: sub, CreatedAt: now, UpdatedAt: now}\<close>\<close>

definition zero_user :: "string \<Rightarrow> time \<Rightarrow> User" where
  "zero_user sub now =
     \<lparr>User_Sub = sub, User_DisplayNameCached = [], User_DisplayIDCached = [], User_IconURLCached = [],
      User_ProfileRefreshedAt = zero_time, User_Bio = [], User_BannerURL = [], User_IsAdmin = False,
      User_FollowersCount = 0, User_FollowingCount = 0, User_CreatedAt = now, User_UpdatedAt = now,
      User_DeletedAt = None\<rparr>"

definition lazyCreate :: "'s GetOrHydrateUserUseCase \<Rightarrow> string \<Rightarrow> string \<Rightarrow> time \<Rightarrow> ('s, User) fallible" where
  "lazyCreate uc sub accessToken now = do {
     let user = zero_user sub now;
     filled \<leftarrow> (if accessToken \<noteq> [] then do {
         r \<leftarrow> client_GetProfile (hydrate_authcore uc) accessToken;
         (case r of
            Inr profile \<Rightarrow> ret (Inr ((applyProfile user profile)\<lparr>User_ProfileRefreshedAt := now\<rparr>))
          | Inl perr \<Rightarrow>
              if errors_Is perr ErrNotFound then ret (Inl (NotFound ''user not found in authcore''))
              else ret (Inr user))
       } else ret (Inr user));
     (case filled of
        Inl err \<Rightarrow> ret (Inl err)
      | Inr user \<Rightarrow>
          bind_or (users_Upsert (hydrate_userRepo uc) user) (DatabaseError ''failed to create user'') (\<lambda>saved.
            ret (Inr saved)))
   }"

definition refresh :: "'s GetOrHydrateUserUseCase \<Rightarrow> User \<Rightarrow> string \<Rightarrow> time \<Rightarrow> ('s, User) fallible" where
  "refresh uc existing accessToken now =
     (if accessToken = [] then ret (Inr existing)
      else do {
        r \<leftarrow> client_GetProfile (hydrate_authcore uc) accessToken;
        (case r of
           Inl perr \<Rightarrow>
             if errors_Is perr ErrNotFound then ret (Inl (NotFound ''user not found in authcore''))
             else ret (Inr existing)
         | Inr profile \<Rightarrow>
             bind_or (users_Upsert (hydrate_userRepo uc) ((applyProfile existing profile)\<lparr>User_ProfileRefreshedAt := now\<rparr>))
               (DatabaseError ''failed to refresh user'') (\<lambda>saved. ret (Inr saved)))
      })"

definition GetOrHydrate_Execute ::
    "('z runtime_scheme) GetOrHydrateUserUseCase \<Rightarrow> string \<Rightarrow> string \<Rightarrow> ('z runtime_scheme, User) fallible"
  where "GetOrHydrate_Execute uc accessToken sub =
     (if sub = [] then ret (Inl (InvalidRequest ''sub is required'' None))
      else bind_or (users_GetBySub (hydrate_userRepo uc) sub) (DatabaseError ''failed to get user'') (\<lambda>existing. do {
        now \<leftarrow> Now;
        (case existing of
           None \<Rightarrow> lazyCreate uc sub accessToken now
         | Some u \<Rightarrow>
             if time_Sub now (User_ProfileRefreshedAt u) < hydrate_ttl uc then ret (Inr u)
             else refresh uc u accessToken now)
      }))"

section \<open>Updating and listing\<close>

definition UpdateUserProfile_Execute ::
    "'s UserRepository \<Rightarrow> string \<Rightarrow> string \<Rightarrow> UpdateUserProfileRequest option \<Rightarrow> ('s, User) fallible"
  where "UpdateUserProfile_Execute userRepo targetSub currentSub req' =
     (if targetSub \<noteq> currentSub then ret (Inl (Forbidden ''you can only update your own profile''))
      else case req' of
        None \<Rightarrow> ret (Inl (InvalidRequest ''request body is required'' None))
      | Some req \<Rightarrow>
          let probe = zero_user [] zero_time;
              probe = (case UpdReq_Bio req of Some b \<Rightarrow> probe\<lparr>User_Bio := b\<rparr> | None \<Rightarrow> probe);
              probe = (case UpdReq_BannerURL req of Some b \<Rightarrow> probe\<lparr>User_BannerURL := b\<rparr> | None \<Rightarrow> probe)
          in case User_Validate probe of
               Some err \<Rightarrow> ret (Inl (ValidationFailed (Error err)))
             | None \<Rightarrow>
                 bind_or (users_UpdateProfile userRepo targetSub req) (DatabaseError ''failed to update user profile'') (\<lambda>updated.
                   case updated of
                     None \<Rightarrow> ret (Inl (NotFound ''user not found''))
                   | Some u \<Rightarrow> ret (Inr u)))"

definition ListUsers_Execute :: "'s UserRepository \<Rightarrow> int \<Rightarrow> int \<Rightarrow> ('s, User list \<times> int) fallible" where
  "ListUsers_Execute userRepo limit offset =
     (let limit = (if limit \<le> 0 \<or> limit > 100 then 20 else limit);
          offset = (if offset < 0 then 0 else offset)
      in bind_or (users_List userRepo limit offset) (DatabaseError ''failed to list users'') (\<lambda>r. ret (Inr r)))"

section \<open>Admin check\<close>

definition IsAdmin :: "'s UserRepository \<Rightarrow> string \<Rightarrow> ('s, bool) fallible" where
  "IsAdmin userRepo sub =
     bind_or (users_GetBySub userRepo sub) (DatabaseError ''failed to load user for admin check'') (\<lambda>user.
       case user of None \<Rightarrow> ret (Inr False) | Some u \<Rightarrow> ret (Inr (User_IsAdmin u)))"

definition ensureAdmin :: "'s UserRepository \<Rightarrow> string \<Rightarrow> ('s, unit) fallible" where
  "ensureAdmin userRepo sub =
     (if sub = [] then ret (Inl (Unauthorized ''authentication required''))
      else bind_or (IsAdmin userRepo sub) id (\<lambda>ok.
        if \<not> ok then ret (Inl (Forbidden ''admin privilege required'')) else ret (Inr ())))"

end
