(* ===== verification/Http.thy ===== *)
theory Http
  imports UC_User
begin

text \<open>
  The HTTP layer below the handlers: the request context of \<open>pkg/auth\<close>, the error responses of
  \<open>internal/handler/handler.go\<close>, the cookies of \<open>pkg/cookie\<close> with the session endpoints, and the
  middleware of \<open>internal/middleware\<close>. Of a request the model keeps what the source reads of
  it; a header, path or query value that is absent is the empty string, as \<open>Header.Get\<close>,
  \<open>PathValue\<close> and \<open>Query().Get\<close> return it. A handler maps a request and its context to a
  response; bodies are the values that are encoded as JSON.
\<close>

section \<open>Requests, contexts and responses\<close>

record http_request =
  Req_Method :: string
  Req_Authorization :: string
  Req_Origin :: string
  Req_Cookies :: "(string \<times> string) list"
  Req_PathValue :: "string \<Rightarrow> string"
  Req_Query :: "string \<Rightarrow> string"

record request_ctx =
  ctx_subKey :: "string option"
  ctx_accessTokenKey :: "string option"
  ctx_expiresAtKey :: "time option"
  ctx_currentUserKey :: "User option"

definition emptyContext :: request_ctx where
  "emptyContext = \<lparr>ctx_subKey = None, ctx_accessTokenKey = None, ctx_expiresAtKey = None, ctx_currentUserKey = None\<rparr>"

definition SetSubInContext :: "request_ctx \<Rightarrow> string \<Rightarrow> request_ctx" where
  "SetSubInContext ctx sub = ctx\<lparr>ctx_subKey := Some sub\<rparr>"

definition GetSubFromContext :: "request_ctx \<Rightarrow> string option" where
  "GetSubFromContext ctx = (case ctx_subKey ctx of
     Some sub \<Rightarrow> if sub = [] then None else Some sub | None \<Rightarrow> None)"

definition SetAccessTokenInContext :: "request_ctx \<Rightarrow> string \<Rightarrow> request_ctx" where
  "SetAccessTokenInContext ctx token = ctx\<lparr>ctx_accessTokenKey := Some token\<rparr>"

definition GetAccessTokenFromContext :: "request_ctx \<Rightarrow> string option" where
  "GetAccessTokenFromContext ctx = (case ctx_accessTokenKey ctx of
     Some tok \<Rightarrow> if tok = [] then None else Some tok | None \<Rightarrow> None)"

definition SetExpiresAtInContext :: "request_ctx \<Rightarrow> time \<Rightarrow> request_ctx" where
  "SetExpiresAtInContext ctx t = ctx\<lparr>ctx_expiresAtKey := Some t\<rparr>"

definition GetExpiresAtFromContext :: "request_ctx \<Rightarrow> time option" where
  "GetExpiresAtFromContext ctx = (case ctx_expiresAtKey ctx of
     Some t \<Rightarrow> if IsZero t then None else Some t | None \<Rightarrow> None)"

definition SetCurrentUserInContext :: "request_ctx \<Rightarrow> User \<Rightarrow> request_ctx" where
  "SetCurrentUserInContext ctx user = ctx\<lparr>ctx_currentUserKey := Some user\<rparr>"

definition GetCurrentUserFromContext :: "request_ctx \<Rightarrow> User option" where
  "GetCurrentUserFromContext ctx = ctx_currentUserKey ctx"

text \<open>\<open>http.SameSite\<close> and \<open>http.Cookie\<close>, as far as they are set.\<close>

datatype SameSite = SameSiteDefaultMode | SameSiteLaxMode | SameSiteStrictMode | SameSiteNoneMode

record Cookie =
  Cookie_Name :: string
  Cookie_Value :: string
  Cookie_Path :: string
  Cookie_Domain :: string
  Cookie_MaxAge :: int
  Cookie_Secure :: bool
  Cookie_HttpOnly :: bool
  Cookie_SameSite :: SameSite

record ErrorResponse =
  ErrResp_Code :: string
  ErrResp_Message :: string
  ErrResp_Timestamp :: time

datatype 'b body = NoBody | ErrorBody ErrorResponse | Body 'b

record 'b http_response =
  Resp_StatusCode :: int
  Resp_Header :: "(string \<times> string) list"
  Resp_SetCookie :: "Cookie list"
  Resp_Body :: "'b body"

type_synonym ('s, 'b) handler = "http_request \<Rightarrow> request_ctx \<Rightarrow> ('s, 'b http_response) state"

definition ContentTypeJSON :: string where
  "ContentTypeJSON = ''application/json''"

definition json_response :: "int \<Rightarrow> 'b body \<Rightarrow> 'b http_response" where
  "json_response statusCode b =
     \<lparr>Resp_StatusCode = statusCode, Resp_Header = [(''Content-Type'', ContentTypeJSON)], Resp_SetCookie = [], Resp_Body = b\<rparr>"

definition WriteSuccessResponse :: "'b \<Rightarrow> int \<Rightarrow> 'b http_response" where
  "WriteSuccessResponse data statusCode = json_response statusCode (Body data)"

definition no_content :: "'b http_response" where
  "no_content = \<lparr>Resp_StatusCode = 204, Resp_Header = [], Resp_SetCookie = [], Resp_Body = NoBody\<rparr>"

definition buildErrorResponse :: "go_error \<Rightarrow> ('z runtime_scheme, ErrorResponse) state" where
  "buildErrorResponse err = do {
     now \<leftarrow> Now;
     ret (case IsAppError err of
            Some appErr \<Rightarrow> \<lparr>ErrResp_Code = Code appErr, ErrResp_Message = Message appErr, ErrResp_Timestamp = now\<rparr>
          | None \<Rightarrow> \<lparr>ErrResp_Code = ''INTERNAL_ERROR'', ErrResp_Message = Error err, ErrResp_Timestamp = now\<rparr>)
   }"

definition WriteErrorResponse :: "go_error \<Rightarrow> ('z runtime_scheme, 'b http_response) state" where
  "WriteErrorResponse err = do {
     let statusCode = ToHTTPStatus err;
     errResp \<leftarrow> buildErrorResponse err;
     ret (json_response statusCode (ErrorBody errResp))
   }"

section \<open>Cookies and the session endpoints\<close>

record Attrs =
  Attrs_Name :: string
  Attrs_Value :: string
  Attrs_MaxAge :: duration
  Attrs_Secure :: bool
  Attrs_SameSite :: SameSite
  Attrs_Domain :: string
  Attrs_Path :: string

text \<open>The float64 nearest to \<open>p / q\<close> (not negative, below \<open>2 ^ 53\<close>) as a pair \<open>(m, k)\<close>, which stands for
  \<open>m / 2 ^ k\<close>: \<open>k\<close> leaves 53 significant bits, and of two nearest ones the even \<open>m\<close> is taken.\<close>

definition round_even :: "int \<Rightarrow> int \<Rightarrow> int" where
  "round_even p q = (let n = p div q; r = 2 * (p mod q) in if r < q \<or> r = q \<and> even n then n else n + 1)"

fun doublings :: "nat \<Rightarrow> int \<Rightarrow> int \<Rightarrow> nat" where
  "doublings 0 p q = 0"
| "doublings (Suc n) p q = (if 2 ^ 52 * q \<le> p then 0 else Suc (doublings n (2 * p) q))"

definition float64 :: "int \<Rightarrow> int \<Rightarrow> int \<times> nat" where
  "float64 p q = (let k = (if p = 0 then 0 else doublings 1074 p q) in (round_even (p * 2 ^ k) q, k))"

text \<open>\<open>int(d.Seconds())\<close> for a duration that is not negative. \<open>Seconds\<close> divides the nanoseconds by \<open>1e9\<close> and
  adds the whole seconds, as floats; the conversion truncates.\<close>

definition whole_seconds :: "duration \<Rightarrow> int" where
  "whole_seconds d = (let (m, k) = float64 (d mod Second) Second; (m', k') = float64 ((d div Second) * 2 ^ k + m) (2 ^ k) in m' div 2 ^ k')"

lemma float64_nonneg: "0 \<le> p \<Longrightarrow> 0 < q \<Longrightarrow> 0 \<le> fst (float64 p q)"
  by (auto simp: float64_def round_even_def Let_def pos_imp_zdiv_nonneg_iff)

lemma whole_seconds_nonneg: "0 \<le> d \<Longrightarrow> 0 \<le> whole_seconds d"
  using float64_nonneg [of "d mod Second" Second] float64_nonneg
  by (auto simp: whole_seconds_def Second_def case_prod_beta Let_def pos_imp_zdiv_nonneg_iff)

definition Build :: "Attrs \<Rightarrow> Cookie" where
  "Build a =
     \<lparr>Cookie_Name = Attrs_Name a, Cookie_Value = Attrs_Value a,
      Cookie_Path = (if Attrs_Path a = [] then ''/'' else Attrs_Path a),
      Cookie_Domain = Attrs_Domain a,
      Cookie_MaxAge = (if Attrs_MaxAge a < 0 then -1 else whole_seconds (Attrs_MaxAge a)),
      Cookie_Secure = Attrs_Secure a, Cookie_HttpOnly = True, Cookie_SameSite = Attrs_SameSite a\<rparr>"

definition ParseSameSite :: "string \<Rightarrow> go_error + SameSite" where
  "ParseSameSite s =
     (if s = ''Lax'' then Inr SameSiteLaxMode
      else if s = ''Strict'' then Inr SameSiteStrictMode
      else if s = ''None'' then Inr SameSiteNoneMode
      else Inl (Sentinel (''cookie: unknown SameSite value '' @ quoted s @ '' (want Lax, Strict, or None)'')))"

record SessionCookieConfig =
  SCC_Name :: string
  SCC_Secure :: bool
  SCC_SameSite :: SameSite
  SCC_Domain :: string
  SCC_Path :: string
  SCC_FallbackMaxAge :: duration

definition minCookieMaxAge :: duration where
  "minCookieMaxAge = Second"

definition session_attrs :: "SessionCookieConfig \<Rightarrow> string \<Rightarrow> duration \<Rightarrow> Attrs" where
  "session_attrs cfg v maxAge =
     \<lparr>Attrs_Name = SCC_Name cfg, Attrs_Value = v, Attrs_MaxAge = maxAge, Attrs_Secure = SCC_Secure cfg,
      Attrs_SameSite = SCC_SameSite cfg, Attrs_Domain = SCC_Domain cfg, Attrs_Path = SCC_Path cfg\<rparr>"

definition Issue :: "SessionCookieConfig \<Rightarrow> ('z runtime_scheme, 'b) handler" where
  "Issue cfg r ctx = (case GetAccessTokenFromContext ctx of
     None \<Rightarrow> WriteErrorResponse (InternalServer ''access token missing from context'' None)
   | Some token \<Rightarrow> do {
       maxAge \<leftarrow> (case GetExpiresAtFromContext ctx of
          Some exp \<Rightarrow> do {
            now \<leftarrow> Now;
            let remaining = time_Sub exp now;
            ret (if remaining \<ge> minCookieMaxAge then remaining else SCC_FallbackMaxAge cfg)
          }
        | None \<Rightarrow> ret (SCC_FallbackMaxAge cfg));
       ret (no_content\<lparr>Resp_SetCookie := [Build (session_attrs cfg token maxAge)]\<rparr>)
     })"

definition Revoke :: "SessionCookieConfig \<Rightarrow> ('z runtime_scheme, 'b) handler" where
  "Revoke cfg r ctx = ret (no_content\<lparr>Resp_SetCookie := [Build (session_attrs cfg [] (-1))]\<rparr>)"

section \<open>Middleware\<close>

definition writeAuthError :: "int \<Rightarrow> string \<Rightarrow> string \<Rightarrow> ('z runtime_scheme, 'b http_response) state" where
  "writeAuthError statusCode code message = do {
     now \<leftarrow> Now;
     ret (json_response statusCode (ErrorBody \<lparr>ErrResp_Code = code, ErrResp_Message = message, ErrResp_Timestamp = now\<rparr>))
   }"

text \<open>\<open>strings.SplitN(s, " ", 2)\<close>: two parts when there is a space, else one. \<open>strings.EqualFold\<close>
  against a word of letters whose only case variants are ASCII.\<close>

fun split_first :: "char \<Rightarrow> string \<Rightarrow> (string \<times> string) option" where
  "split_first c [] = None"
| "split_first c (x # xs) = (if x = c then Some ([], xs) else map_option (\<lambda>(a, b). (x # a, b)) (split_first c xs))"

definition ascii_lower :: "char \<Rightarrow> char" where
  "ascii_lower c = (if CHR ''A'' \<le> c \<and> c \<le> CHR ''Z'' then char_of ((of_char c :: nat) + 32) else c)"

definition EqualFold :: "string \<Rightarrow> string \<Rightarrow> bool" where
  "EqualFold s t \<longleftrightarrow> map ascii_lower s = map ascii_lower t"

definition extractBearerToken :: "string \<Rightarrow> string option" where
  "extractBearerToken header =
     (if header = [] then None
      else case split_first (CHR '' '') header of
        None \<Rightarrow> None
      | Some (scheme, token) \<Rightarrow>
          if \<not> EqualFold scheme ''Bearer'' \<or> token = [] then None else Some token)"

definition extractAuthToken :: "http_request \<Rightarrow> string \<Rightarrow> string option" where
  "extractAuthToken r cookieName = (case extractBearerToken (Req_Authorization r) of
     Some token \<Rightarrow> Some token
   | None \<Rightarrow>
       if cookieName = [] then None
       else case map_of (Req_Cookies r) cookieName of
         None \<Rightarrow> None
       | Some v \<Rightarrow> if v = [] then None else Some v)"

definition AuthMiddleware :: "('z runtime_scheme) Client \<Rightarrow> string \<Rightarrow> ('z runtime_scheme, 'b) handler \<Rightarrow> ('z runtime_scheme, 'b) handler" where
  "AuthMiddleware client cookieName next r ctx = (case extractAuthToken r cookieName of
     None \<Rightarrow> writeAuthError 401 ''UNAUTHORIZED'' ''authentication required''
   | Some token \<Rightarrow> do {
       res \<leftarrow> client_Introspect client token;
       (case res of
          Inl err \<Rightarrow>
            if errors_Is err ErrInvalidSession then writeAuthError 401 ''UNAUTHORIZED'' ''invalid session''
            else writeAuthError 503 ''EXTERNAL_SERVICE_ERROR'' ''authentication backend unavailable''
        | Inr session \<Rightarrow>
            next r (SetExpiresAtInContext (SetAccessTokenInContext (SetSubInContext ctx (Session_Sub session)) token)
              (Session_ExpiresAt session)))
     })"

definition writeHydrateError :: "go_error \<Rightarrow> ('z runtime_scheme, 'b http_response) state" where
  "writeHydrateError err = (case IsAppError err of
     Some appErr \<Rightarrow> writeAuthError (StatusCode appErr) (Code appErr) (Message appErr)
   | None \<Rightarrow> writeAuthError 500 ''INTERNAL_ERROR'' ''failed to load user'')"

text \<open>\<open>GetOrHydrateUserUseCase.Execute\<close> reads the access token from the context.\<close>

definition context_token :: "request_ctx \<Rightarrow> string" where
  "context_token ctx = (case GetAccessTokenFromContext ctx of Some tok \<Rightarrow> tok | None \<Rightarrow> [])"

definition HydrateUserMiddleware ::
    "('z runtime_scheme) GetOrHydrateUserUseCase \<Rightarrow> ('z runtime_scheme, 'b) handler \<Rightarrow> ('z runtime_scheme, 'b) handler" where
  "HydrateUserMiddleware uc next r ctx = (case GetSubFromContext ctx of
     None \<Rightarrow> writeAuthError 401 ''UNAUTHORIZED'' ''authentication required''
   | Some sub \<Rightarrow> do {
       res \<leftarrow> GetOrHydrate_Execute uc (context_token ctx) sub;
       (case res of
          Inl err \<Rightarrow> writeHydrateError err
        | Inr user \<Rightarrow> next r (SetCurrentUserInContext ctx user))
     })"

definition AdminMiddleware :: "('z runtime_scheme, 'b) handler \<Rightarrow> ('z runtime_scheme, 'b) handler" where
  "AdminMiddleware next r ctx = (case GetCurrentUserFromContext ctx of
     None \<Rightarrow> writeAuthError 401 ''UNAUTHORIZED'' ''authentication required''
   | Some user \<Rightarrow>
       if \<not> User_IsAdmin user then writeAuthError 403 ''FORBIDDEN'' ''admin privilege required''
       else next r ctx)"

text \<open>The chains of \<open>cmd/server/main.go\<close>.\<close>

definition authed ::
    "('z runtime_scheme) Client \<Rightarrow> string \<Rightarrow> ('z runtime_scheme) GetOrHydrateUserUseCase \<Rightarrow>
     ('z runtime_scheme, 'b) handler \<Rightarrow> ('z runtime_scheme, 'b) handler" where
  "authed client cookieName uc next = AuthMiddleware client cookieName (HydrateUserMiddleware uc next)"

definition adminOnly ::
    "('z runtime_scheme) Client \<Rightarrow> string \<Rightarrow> ('z runtime_scheme) GetOrHydrateUserUseCase \<Rightarrow>
     ('z runtime_scheme, 'b) handler \<Rightarrow> ('z runtime_scheme, 'b) handler" where
  "adminOnly client cookieName uc next =
     AuthMiddleware client cookieName (HydrateUserMiddleware uc (AdminMiddleware next))"

section \<open>CORS\<close>

fun split_all :: "char \<Rightarrow> string \<Rightarrow> string list" where
  "split_all c [] = [[]]"
| "split_all c (x # xs) = (if x = c then [] # split_all c xs
     else case split_all c xs of [] \<Rightarrow> [[x]] | w # ws \<Rightarrow> (x # w) # ws)"

text \<open>\<open>strings.TrimSpace\<close> on ASCII text.\<close>

definition is_space :: "char \<Rightarrow> bool" where
  "is_space c \<longleftrightarrow> c = CHR '' '' \<or> (CHR 0x09 \<le> c \<and> c \<le> CHR 0x0D)"

definition TrimSpace :: "string \<Rightarrow> string" where
  "TrimSpace s = rev (dropWhile is_space (rev (dropWhile is_space s)))"

definition isOriginAllowed :: "string \<Rightarrow> string \<Rightarrow> bool" where
  "isOriginAllowed origin allowedOrigins =
     (if origin = [] then False
      else list_ex (\<lambda>allowed. TrimSpace allowed = origin) (split_all (CHR '','') allowedOrigins))"

definition set_header :: "string \<Rightarrow> string \<Rightarrow> (string \<times> string) list \<Rightarrow> (string \<times> string) list" where
  "set_header k v h = (k, v) # filter (\<lambda>x. fst x \<noteq> k) h"

definition cors_headers :: "string \<Rightarrow> string \<Rightarrow> (string \<times> string) list" where
  "cors_headers allowedOrigins origin =
     (let h = (if allowedOrigins = ''*'' then [(''Access-Control-Allow-Origin'', ''*'')]
        else if isOriginAllowed origin allowedOrigins then
          [(''Access-Control-Allow-Credentials'', ''true''), (''Access-Control-Allow-Origin'', origin)]
        else [])
      in set_header ''Access-Control-Max-Age'' ''3600''
        (set_header ''Access-Control-Allow-Headers'' ''Content-Type, Authorization''
          (set_header ''Access-Control-Allow-Methods'' ''GET, POST, PUT, DELETE, OPTIONS'' h)))"

definition CORSMiddleware :: "string \<Rightarrow> ('s, 'b) handler \<Rightarrow> ('s, 'b) handler" where
  "CORSMiddleware allowedOrigins next r ctx =
     (let h = cors_headers allowedOrigins (Req_Origin r) in
      if Req_Method r = ''OPTIONS'' then
        ret \<lparr>Resp_StatusCode = 200, Resp_Header = h, Resp_SetCookie = [], Resp_Body = NoBody\<rparr>
      else do {
        resp \<leftarrow> next r ctx;
        ret (resp\<lparr>Resp_Header := fold (\<lambda>(k, v). set_header k v) (rev (Resp_Header resp)) h\<rparr>)
      })"

end
