(* ===== verification/UC_Badge.thy ===== *)
theory UC_Badge
  imports UC_User
begin

text \<open>
  \<open>internal/usecase/badge\<close>: reading badges, and the admin-only flows on badges and grants.
  \<open>url_Parse\<close> stands for \<open>net/url.Parse\<close> in \<open>Badge.Validate\<close>.
\<close>

definition GetUserBadges_Execute :: "'s BadgeRepository \<Rightarrow> string \<Rightarrow> ('s, Badge list) fallible" where
  "GetUserBadges_Execute badgeRepo sub =
     (if sub = [] then ret (Inl (InvalidRequest ''sub is required'' None))
      else bind_or (badges_ListByUserID badgeRepo sub) (DatabaseError ''failed to list user badges'') (\<lambda>badges.
        ret (Inr badges)))"

definition ListUserBadgesBatch_Execute :: "'s BadgeRepository \<Rightarrow> string list \<Rightarrow> ('s, string \<rightharpoonup> Badge list) fallible" where
  "ListUserBadgesBatch_Execute badgeRepo subs =
     (if length subs = 0 then ret (Inr Map.empty)
      else bind_or (badges_ListByUserIDs badgeRepo subs) (DatabaseError ''failed to list user badges'') (\<lambda>out.
        ret (Inr out)))"

definition GrantBadge_Execute ::
    "'s BadgeRepository \<Rightarrow> 's UserRepository \<Rightarrow> string \<Rightarrow> string \<Rightarrow> GrantBadgeRequest option \<Rightarrow> ('s, Badge) fallible"
  where "GrantBadge_Execute badgeRepo userRepo adminSub targetSub req' =
     bind_or (ensureAdmin userRepo adminSub) id (\<lambda>_.
       case req' of
         None \<Rightarrow> ret (Inl (InvalidRequest ''request body is required'' None))
       | Some req \<Rightarrow>
       if targetSub = [] then ret (Inl (InvalidRequest ''target sub is required'' None))
       else case GrantBadgeRequest_Validate req of
         Some err \<Rightarrow> ret (Inl (ValidationFailed (Error err)))
       | None \<Rightarrow>
       bind_or (badges_GetByKey badgeRepo (Grant_BadgeKey req)) (DatabaseError ''failed to load badge'') (\<lambda>badge.
         case badge of
           None \<Rightarrow> ret (Inl (NotFound ''badge not found''))
         | Some b \<Rightarrow>
         bind_or (users_GetBySub userRepo targetSub) (DatabaseError ''failed to load user'') (\<lambda>user.
           if user = None then ret (Inl (NotFound ''user not found''))
           else bind_or (badges_Grant badgeRepo targetSub (Badge_ID b) adminSub (Grant_ExpiresAt req) (Grant_Reason req))
             (DatabaseError ''failed to grant badge'') (\<lambda>_. ret (Inr b)))))"

definition RevokeBadge_Execute ::
    "'s BadgeRepository \<Rightarrow> 's UserRepository \<Rightarrow> string \<Rightarrow> string \<Rightarrow> string \<Rightarrow> ('s, unit) fallible"
  where "RevokeBadge_Execute badgeRepo userRepo adminSub targetSub badgeID =
     bind_or (ensureAdmin userRepo adminSub) id (\<lambda>_.
       if targetSub = [] \<or> badgeID = [] then ret (Inl (InvalidRequest ''target sub and badge id are required'' None))
       else bind_or (badges_Revoke badgeRepo targetSub badgeID) (DatabaseError ''failed to revoke badge'') (\<lambda>_.
         ret (Inr ())))"

definition ListBadges_Execute :: "'s BadgeRepository \<Rightarrow> ('s, Badge list) fallible" where
  "ListBadges_Execute badgeRepo =
     bind_or (badges_ListAll badgeRepo) (DatabaseError ''failed to list badges'') (\<lambda>badges. ret (Inr badges))"

definition CreateBadge_Execute ::
    "url_parser \<Rightarrow> ('z runtime_scheme) BadgeRepository \<Rightarrow> ('z runtime_scheme) UserRepository \<Rightarrow> string \<Rightarrow>
     Badge option \<Rightarrow> ('z runtime_scheme, Badge) fallible"
  where "CreateBadge_Execute url_Parse badgeRepo userRepo adminSub badge' =
     bind_or (ensureAdmin userRepo adminSub) id (\<lambda>_.
       case badge' of
         None \<Rightarrow> ret (Inl (InvalidRequest ''request body is required'' None))
       | Some badge \<Rightarrow>
       case Badge_Validate url_Parse badge of
         Some err \<Rightarrow> ret (Inl (ValidationFailed (Error err)))
       | None \<Rightarrow>
       bind_or (badges_GetByKey badgeRepo (Badge_Key badge)) (DatabaseError ''failed to check badge uniqueness'') (\<lambda>existing.
         if existing \<noteq> None then ret (Inl (Conflict ''badge key already exists''))
         else do {
           i \<leftarrow> ulid_Make;
           bind_or (badges_Create badgeRepo (badge\<lparr>Badge_ID := i\<rparr>)) (DatabaseError ''failed to create badge'') (\<lambda>created.
             case created of
               None \<Rightarrow> ret (Inl (Conflict ''badge key already exists''))
             | Some b \<Rightarrow> ret (Inr b))
         }))"

definition UpdateBadge_Execute ::
    "url_parser \<Rightarrow> 's BadgeRepository \<Rightarrow> 's UserRepository \<Rightarrow> string \<Rightarrow> string \<Rightarrow> Badge option \<Rightarrow> ('s, Badge) fallible"
  where "UpdateBadge_Execute url_Parse badgeRepo userRepo adminSub badgeID patch' =
     bind_or (ensureAdmin userRepo adminSub) id (\<lambda>_.
       case patch' of
         None \<Rightarrow> ret (Inl (InvalidRequest ''request body is required'' None))
       | Some patch \<Rightarrow>
       bind_or (badges_GetByID badgeRepo badgeID) (DatabaseError ''failed to load badge'') (\<lambda>existing.
         case existing of
           None \<Rightarrow> ret (Inl (NotFound ''badge not found''))
         | Some e \<Rightarrow>
             let e = e\<lparr>Badge_Label := Badge_Label patch, Badge_Description := Badge_Description patch,
                 Badge_IconURL := Badge_IconURL patch, Badge_Color := Badge_Color patch,
                 Badge_Priority := Badge_Priority patch\<rparr>
             in case Badge_Validate url_Parse e of
                  Some err \<Rightarrow> ret (Inl (ValidationFailed (Error err)))
                | None \<Rightarrow>
                    bind_or (badges_Update badgeRepo e) (DatabaseError ''failed to update badge'') (\<lambda>updated.
                      case updated of
                        None \<Rightarrow> ret (Inl (NotFound ''badge not found''))
                      | Some b \<Rightarrow> ret (Inr b))))"

end
