(* ===== verification/UC_Image.thy ===== *)
theory UC_Image
  imports Repository
begin

text \<open>
  \<open>internal/usecase/image\<close>: upload, listing and deletion of images. The object store behind
  \<open>domain.StorageService\<close> (Cloudflare R2) is an interface.
\<close>

record 's StorageService =
  storage_Upload :: "UploadImageRequest \<Rightarrow> ('s, string \<times> string) fallible"
  storage_Delete :: "string \<Rightarrow> ('s, unit) fallible"

definition UploadImage_Execute ::
    "('z runtime_scheme) ImageRepository \<Rightarrow> ('z runtime_scheme) StorageService \<Rightarrow> UploadImageRequest option \<Rightarrow>
     ('z runtime_scheme, Image) fallible"
  where "UploadImage_Execute imageRepo storage req' = (case req' of
     None \<Rightarrow> ret (Inl (InvalidRequest ''upload request is required'' None))
   | Some req \<Rightarrow>
       if length (Upload_FileData req) = 0 then ret (Inl (InvalidRequest ''file data is empty'' None))
       else
         let req = req\<lparr>Upload_FileSize := int (length (Upload_FileData req))\<rparr> in
         if Upload_FileSize req > MaxImageBytes then ret (Inl (InvalidRequest ''file size exceeds 5MB limit'' None))
         else bind_or (storage_Upload storage req) id (\<lambda>(storageKey, publicURL). do {
           i \<leftarrow> ulid_Make;
           bind_or (images_Create imageRepo
             \<lparr>Image_ID = i, Image_StorageKey = storageKey, Image_FileName = Upload_FileName req,
              Image_MimeType = Upload_MimeType req, Image_FileSize = Upload_FileSize req,
              Image_PublicURL = publicURL, Image_UserID = Upload_UserID req, Image_CreatedAt = zero_time,
              Image_UpdatedAt = zero_time, Image_DeletedAt = None\<rparr>)
             (DatabaseError ''failed to save image metadata'') (\<lambda>created. ret (Inr created))
         }))"

definition GetUserImages_Execute :: "'s ImageRepository \<Rightarrow> string \<Rightarrow> ('s, Image list) fallible" where
  "GetUserImages_Execute imageRepo userSub =
     (if userSub = [] then ret (Inl (InvalidRequest ''invalid user sub'' None))
      else bind_or (images_GetByUserID imageRepo userSub) (DatabaseError ''failed to retrieve user images'') (\<lambda>images.
        ret (Inr images)))"

definition DeleteImage_Execute :: "'s ImageRepository \<Rightarrow> 's StorageService \<Rightarrow> string \<Rightarrow> string \<Rightarrow> ('s, unit) fallible" where
  "DeleteImage_Execute imageRepo storage imageID userSub =
     (if imageID = [] then ret (Inl (InvalidRequest ''image ID is required'' None))
      else bind_or (images_GetByID imageRepo imageID) (DatabaseError ''failed to retrieve image'') (\<lambda>im.
        case im of
          None \<Rightarrow> ret (Inl (NotFound ''image not found''))
        | Some m \<Rightarrow>
            if Image_UserID m \<noteq> userSub then ret (Inl (Forbidden ''not authorized to delete this image''))
            else do {
              _ \<leftarrow> storage_Delete storage (Image_StorageKey m);
              bind_or (images_Delete imageRepo imageID) (DatabaseError ''failed to delete image'') (\<lambda>_. ret (Inr ()))
            }))"

end
