(* ===== verification/Handlers.thy ===== *)
theory Handlers
  imports Http UC_Follow UC_Badge UC_Image Go_Time
begin

text \<open>
  \<open>internal/handler\<close>: one definition per endpoint, and the views it returns. A handler is a
  function of the use case it calls, given as the repositories behind it. The JSON body of a
  request enters as the outcome of decoding it (\<open>Inl\<close> what \<open>json.Decoder.Decode\<close> returns,
  \<open>io.EOF\<close> for an empty body); the reading of the bytes is left out, with its size caps.
\<close>

section \<open>Parsing what a request carries\<close>

definition io_EOF :: go_error where
  "io_EOF = Sentinel ''EOF''"

definition decodeJSONBody :: "go_error + 'r \<Rightarrow> go_error + 'r" where
  "decodeJSONBody decoded = (case decoded of
     Inl err \<Rightarrow>
       if err = io_EOF then Inl (InvalidRequest ''request body is required'' None)
       else Inl (InvalidRequest ''invalid request body'' (Some err))
   | Inr req \<Rightarrow> Inr req)"

definition parseUpdateProfileRequest :: "go_error + UpdateUserProfileRequest \<Rightarrow> go_error + UpdateUserProfileRequest" where
  "parseUpdateProfileRequest decoded = (case decoded of
     Inl err \<Rightarrow> Inl (InvalidRequest ''invalid request body'' (Some err))
   | Inr req \<Rightarrow> Inr req)"

definition parseULIDFromPath :: "http_request \<Rightarrow> string \<Rightarrow> string \<Rightarrow> go_error + string" where
  "parseULIDFromPath r name errLabel =
     (let v = Req_PathValue r name in
      if \<not> IsULID v then Inl (InvalidRequest errLabel None) else Inr v)"

definition parseSubFromPath :: "http_request \<Rightarrow> string \<Rightarrow> go_error + string" where
  "parseSubFromPath r name = parseULIDFromPath r name ''invalid sub (expected ULID)''"

definition parsePostIDFromPath :: "http_request \<Rightarrow> go_error + string" where
  "parsePostIDFromPath r = parseULIDFromPath r ''id'' ''invalid post ID''"

text \<open>\<open>strconv.Atoi\<close>: an optional sign and decimal digits, within the range of \<open>int\<close>.\<close>

definition Atoi :: "string \<Rightarrow> int option" where
  "Atoi s =
     (let neg = (s \<noteq> [] \<and> hd s = CHR ''-'');
          ds = (if s \<noteq> [] \<and> (hd s = CHR ''-'' \<or> hd s = CHR ''+'') then tl s else s);
          n = (if neg then - int (digits_value ds) else int (digits_value ds))
      in if ds \<noteq> [] \<and> list_all isDigit ds \<and> min_int64 \<le> n \<and> n \<le> max_int64 then Some n else None)"

definition parseLimitQuery :: "http_request \<Rightarrow> int" where
  "parseLimitQuery r =
     (let raw = Req_Query r ''limit'' in
      if raw = [] then 0 else case Atoi raw of None \<Rightarrow> 0 | Some n \<Rightarrow> n)"

definition parseCursorQuery :: "http_request \<Rightarrow> string option" where
  "parseCursorQuery r =
     (let raw = Req_Query r ''cursor'' in if raw = [] \<or> \<not> IsULID raw then None else Some raw)"

definition parseOpaqueCursorQuery :: "http_request \<Rightarrow> string option" where
  "parseOpaqueCursorQuery r = (let raw = Req_Query r ''cursor'' in if raw = [] then None else Some raw)"

definition parseOptionalUserIDQuery :: "http_request \<Rightarrow> go_error + string option" where
  "parseOptionalUserIDQuery r =
     (let raw = Req_Query r ''user_id'' in
      if raw = [] then Inr None
      else if \<not> IsULID raw then Inl (InvalidRequest ''invalid user_id (expected ULID)'' None)
      else Inr (Some raw))"

definition parsePaginationParams :: "http_request \<Rightarrow> int \<times> int" where
  "parsePaginationParams r =
     (let l = Req_Query r ''limit''; off = Req_Query r ''offset'' in
      (case (if l = [] then None else Atoi l) of Some n \<Rightarrow> if n > 0 then n else 20 | None \<Rightarrow> 20,
       case (if off = [] then None else Atoi off) of Some n \<Rightarrow> if n \<ge> 0 then n else 0 | None \<Rightarrow> 0))"

definition optionalSubFromContext :: "request_ctx \<Rightarrow> string option" where
  "optionalSubFromContext ctx = GetSubFromContext ctx"

text \<open>The steps the handlers share: stop with an error response, read the caller, and answer with
  what a use case returns.\<close>

definition or_error :: "go_error + 'a \<Rightarrow> ('a \<Rightarrow> ('z runtime_scheme, 'b http_response) state) \<Rightarrow> ('z runtime_scheme, 'b http_response) state" where
  "or_error r k = (case r of Inl err \<Rightarrow> WriteErrorResponse err | Inr x \<Rightarrow> k x)"

definition with_caller :: "request_ctx \<Rightarrow> (string \<Rightarrow> ('z runtime_scheme, 'b http_response) state) \<Rightarrow> ('z runtime_scheme, 'b http_response) state" where
  "with_caller ctx k = (case GetSubFromContext ctx of
     None \<Rightarrow> WriteErrorResponse (Unauthorized ''authentication required'') | Some sub \<Rightarrow> k sub)"

definition answer :: "('z runtime_scheme, 'a) fallible \<Rightarrow> ('a \<Rightarrow> ('z runtime_scheme, 'b http_response) state) \<Rightarrow> ('z runtime_scheme, 'b http_response) state" where
  "answer m k = do { r \<leftarrow> m; or_error r k }"

section \<open>Views\<close>

record postImageView =
  PIV_ID :: string
  PIV_PublicURL :: string
  PIV_Position :: int

record postTagView =
  PTV_ID :: string
  PTV_Name :: string

record postAuthorView =
  PAV_Sub :: string
  PAV_DisplayNameCached :: string
  PAV_DisplayIDCached :: string
  PAV_IconURLCached :: string

record postOGPView =
  POV_URL :: string
  POV_Title :: string
  POV_Description :: string
  POV_ImageURL :: string
  POV_SiteName :: string
  POV_CanonicalURL :: string

record postDetailView =
  PDV_ID :: string
  PDV_UserID :: string
  PDV_Content :: string
  PDV_ParentPostID :: "string option"
  PDV_RootPostID :: "string option"
  PDV_LikesCount :: int64
  PDV_RepliesCount :: int64
  PDV_Visibility :: string
  PDV_CreatedAt :: string
  PDV_UpdatedAt :: string
  PDV_Images :: "postImageView list"
  PDV_Tags :: "postTagView list"
  PDV_Author :: "postAuthorView option"
  PDV_OGPPreviews :: "postOGPView list"
  PDV_LikedByViewer :: bool
  PDV_FollowingAuthor :: bool

text \<open>The layout \<open>2006-01-02T15:04:05Z\<close>: RFC 3339 without a fraction.\<close>

definition Format_seconds :: "time \<Rightarrow> string" where
  "Format_seconds t = Format_RFC3339Nano (t - t mod Second)"

definition toPostDetailView :: "Detail \<Rightarrow> postDetailView" where
  "toPostDetailView d = (let p = Detail_Post d in
     \<lparr>PDV_ID = Post_ID p, PDV_UserID = Post_UserID p, PDV_Content = Post_Content p,
      PDV_ParentPostID = Post_ParentPostID p, PDV_RootPostID = Post_RootPostID p,
      PDV_LikesCount = Post_LikesCount p, PDV_RepliesCount = Post_RepliesCount p,
      PDV_Visibility = Post_Visibility p, PDV_CreatedAt = Format_seconds (Post_CreatedAt p),
      PDV_UpdatedAt = Format_seconds (Post_UpdatedAt p),
      PDV_Images = map (\<lambda>(i, m). \<lparr>PIV_ID = Image_ID m, PIV_PublicURL = Image_PublicURL m, PIV_Position = int i\<rparr>)
        (enumerate 0 (Detail_Images d)),
      PDV_Tags = map (\<lambda>t. \<lparr>PTV_ID = Tag_ID t, PTV_Name = Tag_Name t\<rparr>) (Detail_Tags d),
      PDV_Author = map_option (\<lambda>u. \<lparr>PAV_Sub = User_Sub u, PAV_DisplayNameCached = User_DisplayNameCached u,
        PAV_DisplayIDCached = User_DisplayIDCached u, PAV_IconURLCached = User_IconURLCached u\<rparr>) (Detail_Author d),
      PDV_OGPPreviews = map (\<lambda>p. \<lparr>POV_URL = Prev_URL p, POV_Title = Prev_Title p,
        POV_Description = Prev_Description p, POV_ImageURL = Prev_ImageURL p, POV_SiteName = Prev_SiteName p,
        POV_CanonicalURL = Prev_CanonicalURL p\<rparr>) (Detail_OGPPreviews d),
      PDV_LikedByViewer = Detail_LikedByViewer d, PDV_FollowingAuthor = Detail_FollowingAuthor d\<rparr>)"

text \<open>The envelope of the cursor lists: the rows, and \<open>next_cursor\<close> where there is one.\<close>

type_synonym 'v cursor_list = "'v list \<times> string option"

definition next_cursor :: "string \<Rightarrow> string option" where
  "next_cursor c = (if c \<noteq> [] then Some c else None)"

definition toPostListResponse :: "Detail list \<times> string \<Rightarrow> postDetailView cursor_list" where
  "toPostListResponse page = (map toPostDetailView (fst page), next_cursor (snd page))"

record badgeView =
  BV_ID :: string
  BV_Key :: string
  BV_Label :: string
  BV_Description :: string
  BV_IconURL :: string
  BV_Color :: string
  BV_Priority :: int

definition toBadgeView :: "Badge \<Rightarrow> badgeView" where
  "toBadgeView b = \<lparr>BV_ID = Badge_ID b, BV_Key = Badge_Key b, BV_Label = Badge_Label b,
     BV_Description = Badge_Description b, BV_IconURL = Badge_IconURL b, BV_Color = Badge_Color b,
     BV_Priority = Badge_Priority b\<rparr>"

definition toBadgeViews :: "Badge list \<Rightarrow> badgeView list" where
  "toBadgeViews badges = map toBadgeView badges"

record publicUserView =
  PUV_Sub :: string
  PUV_DisplayNameCached :: string
  PUV_DisplayIDCached :: string
  PUV_IconURLCached :: string
  PUV_Bio :: string
  PUV_BannerURL :: string
  PUV_Badges :: "badgeView list"
  PUV_CreatedAt :: time
  PUV_UpdatedAt :: time
  PUV_DeletedAt :: "time option"
  PUV_ProfileRefreshedAt :: time

record selfUserView = publicUserView +
  SUV_IsAdmin :: bool

definition toPublicView :: "User \<Rightarrow> Badge list \<Rightarrow> publicUserView" where
  "toPublicView u badges =
     \<lparr>PUV_Sub = User_Sub u, PUV_DisplayNameCached = User_DisplayNameCached u,
      PUV_DisplayIDCached = User_DisplayIDCached u, PUV_IconURLCached = User_IconURLCached u,
      PUV_Bio = User_Bio u, PUV_BannerURL = User_BannerURL u, PUV_Badges = toBadgeViews badges,
      PUV_CreatedAt = User_CreatedAt u, PUV_UpdatedAt = User_UpdatedAt u, PUV_DeletedAt = User_DeletedAt u,
      PUV_ProfileRefreshedAt = User_ProfileRefreshedAt u\<rparr>"

definition toSelfView :: "User \<Rightarrow> Badge list \<Rightarrow> selfUserView" where
  "toSelfView u badges = publicUserView.extend (toPublicView u badges) (selfUserView.fields (User_IsAdmin u))"

record publicImageView =
  PubImg_ID :: string
  PubImg_FileName :: string
  PubImg_MimeType :: string
  PubImg_FileSize :: int64
  PubImg_PublicURL :: string
  PubImg_UserID :: string
  PubImg_CreatedAt :: time
  PubImg_UpdatedAt :: time
  PubImg_DeletedAt :: "time option"

definition toPublicImageView :: "Image \<Rightarrow> publicImageView" where
  "toPublicImageView m = \<lparr>PubImg_ID = Image_ID m, PubImg_FileName = Image_FileName m, PubImg_MimeType = Image_MimeType m,
     PubImg_FileSize = Image_FileSize m, PubImg_PublicURL = Image_PublicURL m, PubImg_UserID = Image_UserID m,
     PubImg_CreatedAt = Image_CreatedAt m, PubImg_UpdatedAt = Image_UpdatedAt m, PubImg_DeletedAt = Image_DeletedAt m\<rparr>"

definition toPublicImageViews :: "Image list \<Rightarrow> publicImageView list" where
  "toPublicImageViews images = map toPublicImageView images"

record 'v ListResponse =
  List_Data :: "'v list"
  List_Limit :: int
  List_Offset :: int
  List_Total :: int

section \<open>Posts\<close>

definition handler_GetPost ::
    "('z runtime_scheme) PostRepository \<Rightarrow> ('z runtime_scheme) Hydrator \<Rightarrow> ('z runtime_scheme, postDetailView) handler" where
  "handler_GetPost posts hydrator r ctx =
     or_error (parsePostIDFromPath r) (\<lambda>postID.
     answer (GetPost_Execute posts hydrator postID (optionalSubFromContext ctx)) (\<lambda>detail.
     case detail of
       Some d \<Rightarrow> ret (WriteSuccessResponse (toPostDetailView d) 200)
     | None \<Rightarrow> WriteErrorResponse (GoPanic ''nil pointer dereference'')))"

definition handler_CreatePost ::
    "('z runtime_scheme) CreatePostUseCase \<Rightarrow> go_error + CreatePostRequest \<Rightarrow> ('z runtime_scheme, postDetailView) handler" where
  "handler_CreatePost uc decoded r ctx =
     with_caller ctx (\<lambda>sub.
     or_error (decodeJSONBody decoded) (\<lambda>req.
     answer (CreatePost_Execute uc sub (Some req)) (\<lambda>detail.
     ret (WriteSuccessResponse (toPostDetailView detail) 201))))"

definition handler_DeletePost :: "('z runtime_scheme) PostRepository \<Rightarrow> ('z runtime_scheme, 'b) handler" where
  "handler_DeletePost posts r ctx =
     or_error (parsePostIDFromPath r) (\<lambda>postID.
     with_caller ctx (\<lambda>sub.
     answer (DeletePost_Execute posts postID sub) (\<lambda>_. ret no_content)))"

definition handler_ListPosts ::
    "('z runtime_scheme) PostRepository \<Rightarrow> ('z runtime_scheme) Hydrator \<Rightarrow> ('z runtime_scheme, postDetailView cursor_list) handler" where
  "handler_ListPosts posts hydrator r ctx =
     or_error (parseOptionalUserIDQuery r) (\<lambda>userID.
     answer (ListPosts_Execute posts hydrator userID (parseCursorQuery r) (parseLimitQuery r) (optionalSubFromContext ctx))
       (\<lambda>page. ret (json_response 200 (Body (toPostListResponse page)))))"

definition handler_ListReplies ::
    "('z runtime_scheme) PostRepository \<Rightarrow> ('z runtime_scheme) Hydrator \<Rightarrow> ('z runtime_scheme, postDetailView cursor_list) handler" where
  "handler_ListReplies posts hydrator r ctx =
     or_error (parsePostIDFromPath r) (\<lambda>postID.
     answer (ListReplies_Execute posts hydrator postID (parseCursorQuery r) (parseLimitQuery r) (optionalSubFromContext ctx))
       (\<lambda>page. ret (json_response 200 (Body (toPostListResponse page)))))"

definition handler_LikePost ::
    "('z runtime_scheme) PostRepository \<Rightarrow> ('z runtime_scheme) LikeRepository \<Rightarrow>
     (string \<Rightarrow> string \<Rightarrow> ('z runtime_scheme, unit) state) option \<Rightarrow> ('z runtime_scheme, 'b) handler" where
  "handler_LikePost posts likes onCommit r ctx =
     or_error (parsePostIDFromPath r) (\<lambda>postID.
     with_caller ctx (\<lambda>sub.
     answer (LikePost_Execute posts likes onCommit sub postID) (\<lambda>_. ret no_content)))"

definition handler_UnlikePost ::
    "('z runtime_scheme) PostRepository \<Rightarrow> ('z runtime_scheme) LikeRepository \<Rightarrow> ('z runtime_scheme, 'b) handler" where
  "handler_UnlikePost posts likes r ctx =
     or_error (parsePostIDFromPath r) (\<lambda>postID.
     with_caller ctx (\<lambda>sub.
     answer (UnlikePost_Execute posts likes sub postID) (\<lambda>_. ret no_content)))"

section \<open>Follows and timelines\<close>

definition handler_Follow ::
    "('z runtime_scheme) UserRepository \<Rightarrow> ('z runtime_scheme) FollowRepository \<Rightarrow>
     (string \<Rightarrow> string \<Rightarrow> ('z runtime_scheme, unit) state) option \<Rightarrow> ('z runtime_scheme, Result) handler" where
  "handler_Follow users follows onCommit r ctx =
     or_error (parseSubFromPath r ''sub'') (\<lambda>targetSub.
     with_caller ctx (\<lambda>me.
     answer (Follow_Execute users follows onCommit me targetSub) (\<lambda>res.
     ret (WriteSuccessResponse res 200))))"

definition handler_Unfollow ::
    "('z runtime_scheme) UserRepository \<Rightarrow> ('z runtime_scheme) FollowRepository \<Rightarrow> ('z runtime_scheme, Result) handler" where
  "handler_Unfollow users follows r ctx =
     or_error (parseSubFromPath r ''sub'') (\<lambda>targetSub.
     with_caller ctx (\<lambda>me.
     answer (Unfollow_Execute users follows me targetSub) (\<lambda>res.
     ret (WriteSuccessResponse res 200))))"

definition buildFollowListResponse :: "User list \<times> string \<Rightarrow> publicUserView cursor_list" where
  "buildFollowListResponse page = (map (\<lambda>u. toPublicView u []) (fst page), next_cursor (snd page))"

definition handler_ListFollowers ::
    "('z runtime_scheme) UserRepository \<Rightarrow> ('z runtime_scheme) FollowRepository \<Rightarrow> ('z runtime_scheme, publicUserView cursor_list) handler" where
  "handler_ListFollowers users follows r ctx =
     or_error (parseSubFromPath r ''sub'') (\<lambda>targetSub.
     answer (ListFollowers_Execute users follows targetSub (parseOpaqueCursorQuery r) (parseLimitQuery r)) (\<lambda>page.
     ret (json_response 200 (Body (buildFollowListResponse page)))))"

definition handler_ListFollowing ::
    "('z runtime_scheme) UserRepository \<Rightarrow> ('z runtime_scheme) FollowRepository \<Rightarrow> ('z runtime_scheme, publicUserView cursor_list) handler" where
  "handler_ListFollowing users follows r ctx =
     or_error (parseSubFromPath r ''sub'') (\<lambda>targetSub.
     answer (ListFollowing_Execute users follows targetSub (parseOpaqueCursorQuery r) (parseLimitQuery r)) (\<lambda>page.
     ret (json_response 200 (Body (buildFollowListResponse page)))))"

definition handler_Home ::
    "('z runtime_scheme) PostRepository \<Rightarrow> ('z runtime_scheme) FollowRepository \<Rightarrow> ('z runtime_scheme) Hydrator \<Rightarrow>
     ('z runtime_scheme, postDetailView cursor_list) handler" where
  "handler_Home posts follows hydrator r ctx =
     with_caller ctx (\<lambda>me.
     answer (HomeTimeline_Execute posts follows hydrator me (parseCursorQuery r) (parseLimitQuery r)) (\<lambda>page.
     ret (json_response 200 (Body (toPostListResponse page)))))"

definition handler_UserTimeline ::
    "('z runtime_scheme) PostRepository \<Rightarrow> ('z runtime_scheme) Hydrator \<Rightarrow> ('z runtime_scheme, postDetailView cursor_list) handler" where
  "handler_UserTimeline posts hydrator r ctx =
     or_error (parseSubFromPath r ''sub'') (\<lambda>targetSub.
     answer (UserTimeline_Execute posts hydrator targetSub (parseCursorQuery r) (parseLimitQuery r) (optionalSubFromContext ctx))
       (\<lambda>page. ret (json_response 200 (Body (toPostListResponse page)))))"

definition handler_Global ::
    "('z runtime_scheme) PostRepository \<Rightarrow> ('z runtime_scheme) Hydrator \<Rightarrow> ('z runtime_scheme, postDetailView cursor_list) handler" where
  "handler_Global posts hydrator r ctx =
     answer (GlobalTimeline_Execute posts hydrator (parseCursorQuery r) (parseLimitQuery r) (optionalSubFromContext ctx))
       (\<lambda>page. ret (json_response 200 (Body (toPostListResponse page))))"

section \<open>Users\<close>

definition handler_GetUser ::
    "('z runtime_scheme) UserRepository \<Rightarrow> ('z runtime_scheme) BadgeRepository \<Rightarrow> ('z runtime_scheme, publicUserView) handler" where
  "handler_GetUser users badges r ctx =
     or_error (parseSubFromPath r ''sub'') (\<lambda>sub.
     answer (GetUser_Execute users sub) (\<lambda>user.
     answer (GetUserBadges_Execute badges sub) (\<lambda>bs.
     ret (WriteSuccessResponse (toPublicView user bs) 200))))"

definition handler_Me ::
    "('z runtime_scheme) GetOrHydrateUserUseCase \<Rightarrow> ('z runtime_scheme) BadgeRepository \<Rightarrow> ('z runtime_scheme, selfUserView) handler" where
  "handler_Me hydrateUser badges r ctx =
     (let finish = (\<lambda>user.
        answer (GetUserBadges_Execute badges (User_Sub user)) (\<lambda>bs.
        ret (WriteSuccessResponse (toSelfView user bs) 200)))
      in case GetCurrentUserFromContext ctx of
           Some user \<Rightarrow> finish user
         | None \<Rightarrow> with_caller ctx (\<lambda>sub. answer (GetOrHydrate_Execute hydrateUser (context_token ctx) sub) finish))"

definition handler_UpdateUser ::
    "('z runtime_scheme) UserRepository \<Rightarrow> ('z runtime_scheme) BadgeRepository \<Rightarrow> go_error + UpdateUserProfileRequest \<Rightarrow>
     ('z runtime_scheme, selfUserView) handler" where
  "handler_UpdateUser users badges decoded r ctx =
     or_error (parseSubFromPath r ''sub'') (\<lambda>sub.
     with_caller ctx (\<lambda>currentSub.
     or_error (parseUpdateProfileRequest decoded) (\<lambda>req.
     answer (UpdateUserProfile_Execute users sub currentSub (Some req)) (\<lambda>user.
     answer (GetUserBadges_Execute badges (User_Sub user)) (\<lambda>bs.
     ret (WriteSuccessResponse (toSelfView user bs) 200))))))"

definition handler_ListUsers ::
    "('z runtime_scheme) UserRepository \<Rightarrow> ('z runtime_scheme) BadgeRepository \<Rightarrow> ('z runtime_scheme, publicUserView ListResponse) handler" where
  "handler_ListUsers users badges r ctx =
     (case parsePaginationParams r of (limit, offset) \<Rightarrow>
     answer (ListUsers_Execute users limit offset) (\<lambda>(us, total).
     answer (ListUserBadgesBatch_Execute badges (map User_Sub us)) (\<lambda>badgesBySub.
     ret (json_response 200 (Body
       \<lparr>List_Data = map (\<lambda>u. toPublicView u (at_or [] badgesBySub (User_Sub u))) us,
        List_Limit = limit, List_Offset = offset, List_Total = total\<rparr>)))))"

section \<open>Badges\<close>

record updateBadgeRequest =
  BReq_Label :: string
  BReq_Description :: string
  BReq_IconURL :: string
  BReq_Color :: string
  BReq_Priority :: int

record createBadgeRequest = updateBadgeRequest +
  BReq_Key :: string

definition badge_of_request :: "string \<Rightarrow> 'a updateBadgeRequest_scheme \<Rightarrow> Badge" where
  "badge_of_request key req =
     \<lparr>Badge_ID = [], Badge_Key = key, Badge_Label = BReq_Label req, Badge_Description = BReq_Description req,
      Badge_IconURL = BReq_IconURL req, Badge_Color = BReq_Color req, Badge_Priority = BReq_Priority req,
      Badge_CreatedAt = zero_time, Badge_UpdatedAt = zero_time\<rparr>"

definition handler_ListBadges :: "('z runtime_scheme) BadgeRepository \<Rightarrow> ('z runtime_scheme, badgeView list) handler" where
  "handler_ListBadges badges r ctx =
     answer (ListBadges_Execute badges) (\<lambda>bs. ret (WriteSuccessResponse (toBadgeViews bs) 200))"

definition handler_CreateBadge ::
    "url_parser \<Rightarrow> ('z runtime_scheme) BadgeRepository \<Rightarrow> ('z runtime_scheme) UserRepository \<Rightarrow> go_error + createBadgeRequest \<Rightarrow>
     ('z runtime_scheme, badgeView) handler" where
  "handler_CreateBadge url_Parse badges users decoded r ctx =
     with_caller ctx (\<lambda>adminSub.
     or_error (decodeJSONBody decoded) (\<lambda>req.
     answer (CreateBadge_Execute url_Parse badges users adminSub (Some (badge_of_request (BReq_Key req) req))) (\<lambda>created.
     ret (WriteSuccessResponse (toBadgeView created) 201))))"

definition handler_UpdateBadge ::
    "url_parser \<Rightarrow> ('z runtime_scheme) BadgeRepository \<Rightarrow> ('z runtime_scheme) UserRepository \<Rightarrow> go_error + updateBadgeRequest \<Rightarrow>
     ('z runtime_scheme, badgeView) handler" where
  "handler_UpdateBadge url_Parse badges users decoded r ctx =
     or_error (parseULIDFromPath r ''id'' ''invalid badge id (expected ULID)'') (\<lambda>badgeID.
     with_caller ctx (\<lambda>adminSub.
     or_error (decodeJSONBody decoded) (\<lambda>req.
     answer (UpdateBadge_Execute url_Parse badges users adminSub badgeID (Some (badge_of_request [] req))) (\<lambda>updated.
     ret (WriteSuccessResponse (toBadgeView updated) 200)))))"

record grantResponse =
  GrantResp_Status :: string
  GrantResp_UserID :: string
  GrantResp_Badge :: badgeView

definition handler_GrantBadge ::
    "('z runtime_scheme) BadgeRepository \<Rightarrow> ('z runtime_scheme) UserRepository \<Rightarrow> go_error + GrantBadgeRequest \<Rightarrow>
     ('z runtime_scheme, grantResponse) handler" where
  "handler_GrantBadge badges users decoded r ctx =
     or_error (parseSubFromPath r ''sub'') (\<lambda>targetSub.
     with_caller ctx (\<lambda>adminSub.
     or_error (decodeJSONBody decoded) (\<lambda>req.
     answer (GrantBadge_Execute badges users adminSub targetSub (Some req)) (\<lambda>badge.
     ret (WriteSuccessResponse \<lparr>GrantResp_Status = ''granted'', GrantResp_UserID = targetSub, GrantResp_Badge = toBadgeView badge\<rparr> 201)))))"

definition handler_RevokeBadge ::
    "('z runtime_scheme) BadgeRepository \<Rightarrow> ('z runtime_scheme) UserRepository \<Rightarrow> ('z runtime_scheme, 'b) handler" where
  "handler_RevokeBadge badges users r ctx =
     or_error (parseSubFromPath r ''sub'') (\<lambda>targetSub.
     or_error (parseULIDFromPath r ''badge_id'' ''invalid badge id (expected ULID)'') (\<lambda>badgeID.
     with_caller ctx (\<lambda>adminSub.
     answer (RevokeBadge_Execute badges users adminSub targetSub badgeID) (\<lambda>_. ret no_content))))"

section \<open>Images\<close>

text \<open>The multipart form enters as the outcome of parsing it: the file part with its name,
  advertised content type and bytes. \<open>detect\<close> stands for \<open>http.DetectContentType\<close>.\<close>

record filePart =
  File_Name :: string
  File_ContentType :: string
  File_Data :: string

definition has_prefix :: "string \<Rightarrow> string \<Rightarrow> bool" where
  "has_prefix p s \<longleftrightarrow> take (length p) s = p"

definition handler_UploadImage ::
    "(string \<Rightarrow> string) \<Rightarrow> ('z runtime_scheme) ImageRepository \<Rightarrow> ('z runtime_scheme) StorageService \<Rightarrow> go_error + filePart \<Rightarrow>
     ('z runtime_scheme, publicImageView) handler" where
  "handler_UploadImage detect images storage form r ctx =
     with_caller ctx (\<lambda>sub.
     or_error form (\<lambda>file.
       let fileData = File_Data file;
           mimeType = (if File_ContentType file = [] then detect fileData else File_ContentType file)
       in if int (length fileData) > MaxImageBytes then WriteErrorResponse (InvalidRequest ''file size exceeds 5MB limit'' None)
          else if \<not> has_prefix ''image/'' mimeType then
            WriteErrorResponse (InvalidRequest ''advertised content type is not an image'' None)
          else if \<not> has_prefix ''image/'' (detect fileData) then
            WriteErrorResponse (InvalidRequest ''file content is not a recognised image'' None)
          else answer (UploadImage_Execute images storage (Some \<lparr>Upload_FileName = File_Name file, Upload_FileData = fileData,
              Upload_MimeType = mimeType, Upload_FileSize = 0, Upload_UserID = sub\<rparr>)) (\<lambda>im.
            ret (WriteSuccessResponse (toPublicImageView im) 201))))"

definition handler_GetUserImages :: "('z runtime_scheme) ImageRepository \<Rightarrow> ('z runtime_scheme, publicImageView ListResponse) handler" where
  "handler_GetUserImages images r ctx =
     with_caller ctx (\<lambda>sub.
     answer (GetUserImages_Execute images sub) (\<lambda>ims.
     ret (json_response 200 (Body \<lparr>List_Data = toPublicImageViews ims, List_Limit = 100, List_Offset = 0, List_Total = int (length ims)\<rparr>))))"

definition handler_DeleteImage ::
    "('z runtime_scheme) ImageRepository \<Rightarrow> ('z runtime_scheme) StorageService \<Rightarrow> ('z runtime_scheme, 'b) handler" where
  "handler_DeleteImage images storage r ctx =
     with_caller ctx (\<lambda>sub.
     or_error (parseULIDFromPath r ''id'' ''invalid image ID'') (\<lambda>imageID.
     answer (DeleteImage_Execute images storage imageID sub) (\<lambda>_. ret no_content)))"

end
