(* ===== verification/UC_OGP.thy ===== *)
theory UC_OGP
  imports Repository
begin

text \<open>
  \<open>internal/usecase/ogp\<close>: the hook that runs after a post is committed and attaches or enqueues
  its link previews, and the worker that drains the queue. The primitives of \<open>pkg/ogp\<close> are
  the fields of \<open>OGPLib\<close>: URL extraction, normalisation, hashing, and the fetch over the
  network, which is an action on the environment. Log lines are left out.
\<close>

record 's OGPLib =
  ogp_ExtractURLs :: "string \<Rightarrow> string list"
  ogp_Normalize :: "string \<Rightarrow> go_error + string"
  ogp_Hash :: "string \<Rightarrow> string"
  ogp_Fetch :: "string \<Rightarrow> ('s, OGPPreview) fallible"

definition ErrBlockedAddress :: go_error where
  "ErrBlockedAddress = Sentinel ''ogp: address blocked by SSRF guard''"

definition ErrBlockedScheme :: go_error where
  "ErrBlockedScheme = Sentinel ''ogp: only http/https schemes allowed''"

definition ErrNotHTML :: go_error where
  "ErrNotHTML = Sentinel ''ogp: response is not HTML''"

definition DeadlineExceeded :: go_error where
  "DeadlineExceeded = Sentinel ''context deadline exceeded''"

text \<open>\<open>errors.As\<close> for \<open>*ErrBadStatus\<close>.\<close>

fun as_BadStatus :: "go_error \<Rightarrow> int option" where
  "as_BadStatus (ErrBadStatus st) = Some st"
| "as_BadStatus (AppError _ _ _ (Some e)) = as_BadStatus e"
| "as_BadStatus (WrapError _ e) = as_BadStatus e"
| "as_BadStatus _ = None"

definition Retriable :: "go_error \<Rightarrow> bool" where
  "Retriable err = (case as_BadStatus err of
     Some st \<Rightarrow> st \<ge> 500
   | None \<Rightarrow>
       if errors_Is err DeadlineExceeded then True
       else if errors_Is err ErrBlockedAddress \<or> errors_Is err ErrBlockedScheme then False
       else if errors_Is err ErrNotHTML then False
       else True)"

section \<open>After a post is committed\<close>

record 's Enqueuer =
  enq_cache :: "'s OGPCacheRepository"
  enq_queue :: "'s OGPJobQueue"
  enq_posts :: "'s PostRepository"
  enq_lib :: "'s OGPLib"

text \<open>One iteration of the loop over the URLs; a failed call is logged and skipped.\<close>

definition enqueue_url ::
    "('z runtime_scheme) Enqueuer \<Rightarrow> Post \<Rightarrow> time \<Rightarrow> int \<Rightarrow> string \<Rightarrow> ('z runtime_scheme, unit) state"
  where "enqueue_url e post now position raw = (case ogp_Normalize (enq_lib e) raw of
     Inl _ \<Rightarrow> ret ()
   | Inr normalized \<Rightarrow> do {
       let urlHash = ogp_Hash (enq_lib e) normalized;
       r \<leftarrow> ogp_Get (enq_cache e) urlHash;
       let cached = (case r of Inl _ \<Rightarrow> None | Inr c \<Rightarrow> c);
       (case cached of
          Some c \<Rightarrow>
            if \<not> IsExpired c now then
              (if Prev_Status c = OGPStatusOK then do {
                 _ \<leftarrow> posts_AttachOGP (enq_posts e) (Post_ID post) urlHash position;
                 ret ()
               } else ret ())
            else do {
              i \<leftarrow> ulid_Make;
              _ \<leftarrow> jobs_Enqueue (enq_queue e) i urlHash normalized (Post_ID post) position;
              ret ()
            }
        | None \<Rightarrow> do {
            i \<leftarrow> ulid_Make;
            _ \<leftarrow> jobs_Enqueue (enq_queue e) i urlHash normalized (Post_ID post) position;
            ret ()
          })
     })"

fun enqueue_urls ::
    "('z runtime_scheme) Enqueuer \<Rightarrow> Post \<Rightarrow> time \<Rightarrow> int \<Rightarrow> string list \<Rightarrow> ('z runtime_scheme, unit) state"
  where
    "enqueue_urls e post now position [] = ret ()"
  | "enqueue_urls e post now position (raw # urls) = do {
       _ \<leftarrow> enqueue_url e post now position raw;
       enqueue_urls e post now (position + 1) urls
     }"

definition EnqueueForPost :: "('z runtime_scheme) Enqueuer \<Rightarrow> Post \<Rightarrow> ('z runtime_scheme, unit) state" where
  "EnqueueForPost e post =
     (if Post_Content post = [] then ret ()
      else let urls = ogp_ExtractURLs (enq_lib e) (Post_Content post) in
        if length urls = 0 then ret ()
        else do {
          now \<leftarrow> Now;
          enqueue_urls e post now 0 urls
        })"

section \<open>The worker\<close>

definition SuccessTTL :: duration where
  "SuccessTTL = 3 * 24 * Hour"

definition ErrorTTL :: duration where
  "ErrorTTL = 30 * Minute"

definition MaxAttempts :: int where
  "MaxAttempts = 3"

record 's Worker =
  worker_queue :: "'s OGPJobQueue"
  worker_cache :: "'s OGPCacheRepository"
  worker_posts :: "'s PostRepository"
  worker_lib :: "'s OGPLib"

definition truncate_bytes :: "string \<Rightarrow> nat \<Rightarrow> string" where
  "truncate_bytes s maxLen = (if length s \<le> maxLen then s else take maxLen s)"

definition markFailed :: "'s Worker \<Rightarrow> string \<Rightarrow> string \<Rightarrow> bool \<Rightarrow> ('s, unit) state" where
  "markFailed w jobID reason retriable = do {
     _ \<leftarrow> jobs_MarkFailed (worker_queue w) jobID reason retriable;
     ret ()
   }"

definition error_preview :: "OGPJob \<Rightarrow> time \<Rightarrow> go_error \<Rightarrow> OGPPreview" where
  "error_preview job now err =
     \<lparr>Prev_URLHash = Job_URLHash job, Prev_URL = Job_URL job, Prev_Title = [], Prev_Description = [],
      Prev_ImageURL = [], Prev_SiteName = [], Prev_CanonicalURL = [], Prev_FetchedAt = now,
      Prev_ExpiresAt = time_Add now ErrorTTL, Prev_Status = OGPStatusError,
      Prev_ErrorReason = truncate_bytes (Error err) 255\<rparr>"

definition process :: "('z runtime_scheme) Worker \<Rightarrow> OGPJob \<Rightarrow> ('z runtime_scheme, unit) state" where
  "process w job = do {
     r \<leftarrow> ogp_Fetch (worker_lib w) (Job_URL job);
     (case r of
        Inr preview \<Rightarrow> do {
          now \<leftarrow> Now;
          let preview = preview\<lparr>Prev_Status := OGPStatusOK, Prev_ExpiresAt := time_Add now SuccessTTL\<rparr>;
          up \<leftarrow> ogp_Upsert (worker_cache w) (Some preview);
          (case up of
             Inl upsertErr \<Rightarrow> markFailed w (Job_ID job) (Error upsertErr) True
           | Inr _ \<Rightarrow> do {
               _ \<leftarrow> (if Job_PostID job \<noteq> []
                 then posts_AttachOGP (worker_posts w) (Job_PostID job) (Prev_URLHash preview) (Job_Position job)
                 else ret (Inr ()));
               _ \<leftarrow> jobs_MarkDone (worker_queue w) (Job_ID job);
               ret ()
             })
        }
      | Inl err \<Rightarrow>
          if Retriable err \<and> Job_Attempts job < MaxAttempts then markFailed w (Job_ID job) (Error err) True
          else do {
            now \<leftarrow> Now;
            _ \<leftarrow> ogp_Upsert (worker_cache w) (Some (error_preview job now err));
            markFailed w (Job_ID job) (Error err) False
          })
   }"

text \<open>One cycle of the loop; sleeping after a miss has no effect on the state.\<close>

definition runOnce :: "('z runtime_scheme) Worker \<Rightarrow> ('z runtime_scheme, unit) state" where
  "runOnce w = do {
     r \<leftarrow> jobs_Claim (worker_queue w) ''ogp-worker'';
     (case r of
        Inl _ \<Rightarrow> ret ()
      | Inr None \<Rightarrow> ret ()
      | Inr (Some job) \<Rightarrow> process w job)
   }"

end
