(* ===== verification/Server.thy ===== *)
theory Server
  imports Mem_Social Mem_Badge Handlers UC_OGP
begin

text \<open>
  The server of \<open>cmd/server\<close> on the in-memory backend: every route with its middleware chain and
  its handler, and one cycle of the OGP worker, as steps on the state of the backend. What lies
  outside the process is a field of \<open>server\<close>: the AuthCore client, the object store, the fuju
  dispatcher behind the hooks, the primitives of \<open>pkg/ogp\<close>. Without an object store (R2 is not
  configured) the image routes are not mounted, and the mux answers 404 there.
\<close>

record server =
  srv_client :: "mem Client"
  srv_cookieName :: string
  srv_profileTTL :: duration
  srv_tags :: "string \<Rightarrow> string list"
  srv_ogp :: "mem OGPLib"
  srv_fujuPost :: "(Post \<Rightarrow> (mem, unit) state) option"
  srv_fujuLike :: "(string \<Rightarrow> string \<Rightarrow> (mem, unit) state) option"
  srv_fujuFollow :: "(string \<Rightarrow> string \<Rightarrow> (mem, unit) state) option"
  srv_url_Parse :: url_parser
  srv_detect :: "string \<Rightarrow> string"
  srv_storage :: "mem StorageService option"
  srv_session :: SessionCookieConfig

text \<open>\<open>composeCreatePostHooks\<close>: the hooks in turn, without the nil ones.\<close>

fun composeCreatePostHooks :: "(Post \<Rightarrow> ('s, unit) state) option list \<Rightarrow> Post \<Rightarrow> ('s, unit) state" where
  "composeCreatePostHooks [] post = ret ()"
| "composeCreatePostHooks (h # hooks) post = do {
     _ \<leftarrow> (case h of Some f \<Rightarrow> f post | None \<Rightarrow> ret ());
     composeCreatePostHooks hooks post
   }"

definition mem_hydrator :: "mem Hydrator" where
  "mem_hydrator = \<lparr>hyd_imageRepo = NewImageRepository, hyd_tagRepo = NewTagRepository, hyd_likeRepo = NewLikeRepository,
     hyd_userRepo = NewUserRepository, hyd_followRepo = NewFollowRepository, hyd_ogpRepo = NewOGPCacheRepository\<rparr>"

definition ogpEnqueuer :: "server \<Rightarrow> mem Enqueuer" where
  "ogpEnqueuer srv = \<lparr>enq_cache = NewOGPCacheRepository, enq_queue = NewOGPJobQueue, enq_posts = NewPostRepository, enq_lib = srv_ogp srv\<rparr>"

definition ogpWorker :: "server \<Rightarrow> mem Worker" where
  "ogpWorker srv = \<lparr>worker_queue = NewOGPJobQueue, worker_cache = NewOGPCacheRepository, worker_posts = NewPostRepository, worker_lib = srv_ogp srv\<rparr>"

definition createHook :: "server \<Rightarrow> (Post \<Rightarrow> (mem, unit) state) option" where
  "createHook srv = Some (composeCreatePostHooks [Some (EnqueueForPost (ogpEnqueuer srv)), srv_fujuPost srv])"

definition postCreateUC :: "server \<Rightarrow> mem CreatePostUseCase" where
  "postCreateUC srv = \<lparr>create_postRepo = NewPostRepository, create_imageRepo = NewImageRepository, create_tagRepo = NewTagRepository,
     create_tagExtractor = (\<lambda>c. ret (Inr (srv_tags srv c))), create_onCommit = createHook srv\<rparr>"

definition userHydrateUC :: "server \<Rightarrow> mem GetOrHydrateUserUseCase" where
  "userHydrateUC srv = NewGetOrHydrateUserUseCase NewUserRepository (srv_client srv) (srv_profileTTL srv)"

text \<open>The routes, with the decoded body where there is one.\<close>

datatype route =
  PostSession | DeleteSession
| GetMe | GetUsers | GetUser | PutUser "go_error + UpdateUserProfileRequest"
| GetPosts | PostPosts "go_error + CreatePostRequest" | GetPost | GetReplies | DeletePost | PostLike | DeleteLike
| PostImages "go_error + filePart" | GetImages | DeleteImage
| PostFollow | DeleteFollow | GetFollowers | GetFollowing
| GetTimelineHome | GetTimelineUser | GetTimelineGlobal
| GetAdminBadges | PostAdminBadges "go_error + createBadgeRequest" | PutAdminBadge "go_error + updateBadgeRequest"
| PostUserBadges "go_error + GrantBadgeRequest" | DeleteUserBadge

text \<open>Of a response the run keeps the status code.\<close>

definition status_of :: "('s, 'b) handler \<Rightarrow> http_request \<Rightarrow> ('s, int) state" where
  "status_of h r = do { resp \<leftarrow> h r emptyContext; ret (Resp_StatusCode resp) }"

definition chain :: "server \<Rightarrow> (mem, 'b) handler \<Rightarrow> (mem, 'b) handler" where
  "chain srv = authed (srv_client srv) (srv_cookieName srv) (userHydrateUC srv)"

definition adminChain :: "server \<Rightarrow> (mem, 'b) handler \<Rightarrow> (mem, 'b) handler" where
  "adminChain srv = adminOnly (srv_client srv) (srv_cookieName srv) (userHydrateUC srv)"

text \<open>The image routes, mounted when there is an object store.\<close>

definition withImages :: "server \<Rightarrow> (mem StorageService \<Rightarrow> http_request \<Rightarrow> (mem, int) state) \<Rightarrow> http_request \<Rightarrow> (mem, int) state" where
  "withImages srv h r = (case srv_storage srv of Some storage \<Rightarrow> h storage r | None \<Rightarrow> ret 404)"

definition mounted :: "server \<Rightarrow> route \<Rightarrow> bool" where
  "mounted srv rt \<longleftrightarrow> (case rt of
     PostImages _ \<Rightarrow> srv_storage srv \<noteq> None | GetImages \<Rightarrow> srv_storage srv \<noteq> None | DeleteImage \<Rightarrow> srv_storage srv \<noteq> None
   | _ \<Rightarrow> True)"

fun serve :: "server \<Rightarrow> route \<Rightarrow> http_request \<Rightarrow> (mem, int) state" where
  "serve srv PostSession = status_of (AuthMiddleware (srv_client srv) (srv_cookieName srv) (Issue (srv_session srv) :: (mem, unit) handler))"
| "serve srv DeleteSession = status_of (Revoke (srv_session srv) :: (mem, unit) handler)"
| "serve srv GetMe = status_of (chain srv (handler_Me (userHydrateUC srv) NewBadgeRepository))"
| "serve srv GetUsers = status_of (handler_ListUsers NewUserRepository NewBadgeRepository)"
| "serve srv GetUser = status_of (handler_GetUser NewUserRepository NewBadgeRepository)"
| "serve srv (PutUser b) = status_of (chain srv (handler_UpdateUser NewUserRepository NewBadgeRepository b))"
| "serve srv GetPosts = status_of (handler_ListPosts NewPostRepository mem_hydrator)"
| "serve srv (PostPosts b) = status_of (chain srv (handler_CreatePost (postCreateUC srv) b))"
| "serve srv GetPost = status_of (handler_GetPost NewPostRepository mem_hydrator)"
| "serve srv GetReplies = status_of (handler_ListReplies NewPostRepository mem_hydrator)"
| "serve srv DeletePost = status_of (chain srv (handler_DeletePost NewPostRepository :: (mem, unit) handler))"
| "serve srv PostLike = status_of (chain srv (handler_LikePost NewPostRepository NewLikeRepository (srv_fujuLike srv) :: (mem, unit) handler))"
| "serve srv DeleteLike = status_of (chain srv (handler_UnlikePost NewPostRepository NewLikeRepository :: (mem, unit) handler))"
| "serve srv (PostImages f) = withImages srv (\<lambda>storage. status_of (chain srv (handler_UploadImage (srv_detect srv) NewImageRepository storage f)))"
| "serve srv GetImages = withImages srv (\<lambda>_. status_of (chain srv (handler_GetUserImages NewImageRepository)))"
| "serve srv DeleteImage = withImages srv (\<lambda>storage. status_of (chain srv (handler_DeleteImage NewImageRepository storage :: (mem, unit) handler)))"
| "serve srv PostFollow = status_of (chain srv (handler_Follow NewUserRepository NewFollowRepository (srv_fujuFollow srv)))"
| "serve srv DeleteFollow = status_of (chain srv (handler_Unfollow NewUserRepository NewFollowRepository))"
| "serve srv GetFollowers = status_of (handler_ListFollowers NewUserRepository NewFollowRepository)"
| "serve srv GetFollowing = status_of (handler_ListFollowing NewUserRepository NewFollowRepository)"
| "serve srv GetTimelineHome = status_of (chain srv (handler_Home NewPostRepository NewFollowRepository mem_hydrator))"
| "serve srv GetTimelineUser = status_of (handler_UserTimeline NewPostRepository mem_hydrator)"
| "serve srv GetTimelineGlobal = status_of (handler_Global NewPostRepository mem_hydrator)"
| "serve srv GetAdminBadges = status_of (adminChain srv (handler_ListBadges NewBadgeRepository))"
| "serve srv (PostAdminBadges b) = status_of (adminChain srv (handler_CreateBadge (srv_url_Parse srv) NewBadgeRepository NewUserRepository b))"
| "serve srv (PutAdminBadge b) = status_of (adminChain srv (handler_UpdateBadge (srv_url_Parse srv) NewBadgeRepository NewUserRepository b))"
| "serve srv (PostUserBadges b) = status_of (adminChain srv (handler_GrantBadge NewBadgeRepository NewUserRepository b))"
| "serve srv DeleteUserBadge = status_of (adminChain srv (handler_RevokeBadge NewBadgeRepository NewUserRepository :: (mem, unit) handler))"

text \<open>A run: requests and cycles of the worker, in any order.\<close>

datatype event = Request route http_request | WorkerCycle

fun step :: "server \<Rightarrow> event \<Rightarrow> mem \<Rightarrow> mem" where
  "step srv (Request rt r) s = snd (run_state (serve srv rt r) s)"
| "step srv WorkerCycle s = snd (run_state (runOnce (ogpWorker srv)) s)"

definition run_events :: "server \<Rightarrow> event list \<Rightarrow> mem \<Rightarrow> mem" where
  "run_events srv es s = fold (step srv) es s"

section \<open>Calls that leave the tables alone\<close>

text \<open>A call is \<open>calm\<close> when it changes none of the four tables and takes no id back.\<close>

definition calm :: "(mem, 'a) state \<Rightarrow> bool" where
  "calm m \<longleftrightarrow> (\<forall>s. mem_view (snd (run_state m s)) = mem_view s \<and> later s (snd (run_state m s)))"

named_theorems calm_rules \<open>calls that leave the tables alone\<close>

lemma calmI: "(\<And>s x t. run_state m s = (x, t) \<Longrightarrow> mem_view t = mem_view s \<and> later s t) \<Longrightarrow> calm m"
  by (simp add: calm_def) (metis prod.collapse)

lemma calmD: "calm m \<Longrightarrow> run_state m s = (x, t) \<Longrightarrow> mem_view t = mem_view s \<and> later s t"
  by (metis calm_def snd_conv)

lemma calm_ret [calm_rules]: "calm (ret x)"
  by (simp add: calm_def)

lemma calm_bind [calm_rules]: "calm m \<Longrightarrow> (\<And>x. calm (k x)) \<Longrightarrow> calm (m \<bind> k)"
  unfolding calm_def by (auto split: prod.split) (metis calm_def calmD later_trans snd_conv)+

lemma calm_bind_or [calm_rules]: "calm m \<Longrightarrow> (\<And>x. calm (k x)) \<Longrightarrow> calm (bind_or m wrap k)"
  unfolding bind_or_def by (intro calm_bind) (auto intro: calm_rules split: sum.split)

lemma calm_if [calm_rules]: "(b \<Longrightarrow> calm m) \<Longrightarrow> (\<not> b \<Longrightarrow> calm n) \<Longrightarrow> calm (if b then m else n)"
  by simp

lemma calm_option [calm_rules]:
  "calm m \<Longrightarrow> (\<And>y. calm (f y)) \<Longrightarrow> calm (case x of None \<Rightarrow> m | Some y \<Rightarrow> f y)"
  by (cases x) auto

lemma calm_sum [calm_rules]: "(\<And>y. calm (f y)) \<Longrightarrow> (\<And>y. calm (g y)) \<Longrightarrow> calm (case x of Inl y \<Rightarrow> f y | Inr y \<Rightarrow> g y)"
  by (cases x) auto

lemma calm_prod [calm_rules]: "(\<And>a b. calm (f a b)) \<Longrightarrow> calm (case x of (a, b) \<Rightarrow> f a b)"
  by (cases x) auto

lemma calm_Let [calm_rules]: "calm (f e) \<Longrightarrow> calm (let x = e in f x)"
  by simp

lemma calm_env [calm_rules]: "calm Now" "calm ulid_Make" "calm (map_range m)" "calm (gets f)"
  by (simp_all add: calm_def run_simps later_def)

lemma calm_modify [calm_rules]:
  "calm (modify (m_links_update f1))" "calm (modify (m_images_update f2))" "calm (modify (m_tags_update f3))"
  "calm (modify (m_tagByName_update f4))" "calm (modify (m_badges_update f5))" "calm (modify (m_badgeByKey_update f6))"
  "calm (modify (m_userBadges_update f7))" "calm (modify (m_ogpRows_update f8))" "calm (modify (m_jobs_update f9))"
  by (simp_all add: calm_def run_simps later_def mem_view_def like_rows_def follow_rows_def)


text \<open>The operations of the backend that are calm.\<close>

lemma calm_tags_by_posts: "calm (tags_by_posts pids out)"
  by (induction pids arbitrary: out) (simp_all, (intro calm_rules | simp add: tagIDsByPost_def)+)

lemma calm_posts [calm_rules]:
  "calm (posts_GetByID NewPostRepository i)" "calm (posts_List NewPostRepository u c n)"
  "calm (posts_ListByUserIDs NewPostRepository us c n)" "calm (posts_ListReplies NewPostRepository i c n)"
  "calm (posts_AttachOGP NewPostRepository i h k)"
  unfolding NewPostRepository_def PostRepository.simps PostRepository_GetByID_def PostRepository_List_def
    PostRepository_ListByUserIDs_def PostRepository_ListReplies_def PostRepository_AttachOGP_def collectDescending_def
  by (intro calm_rules)+

lemma calm_images [calm_rules]:
  "calm (images_GetByID NewImageRepository i)" "calm (images_GetByUserID NewImageRepository u)"
  "calm (images_Create NewImageRepository im)" "calm (images_Delete NewImageRepository i)"
  "calm (images_ListByPostID NewImageRepository i)" "calm (images_ListByPostIDs NewImageRepository is)"
  unfolding NewImageRepository_def ImageRepository.simps ImageRepository_GetByID_def ImageRepository_GetByUserID_def
    ImageRepository_Create_def ImageRepository_Delete_def ImageRepository_ListByPostID_def ImageRepository_ListByPostIDs_def
  by (intro calm_rules)+

lemma calm_tags [calm_rules]:
  "calm (tags_UpsertByNames NewTagRepository ns)" "calm (tags_ListByPostIDs NewTagRepository is)"
proof -
  show "calm (tags_UpsertByNames NewTagRepository ns)"
    by (rule calmI) (simp add: NewTagRepository_def mem_UpsertByNames)
  show "calm (tags_ListByPostIDs NewTagRepository is)"
    unfolding NewTagRepository_def TagRepository.simps TagRepository_ListByPostIDs_def
    by (intro calm_rules calm_tags_by_posts)
qed

lemma calm_badges [calm_rules]:
  "calm (badges_ListAll NewBadgeRepository)" "calm (badges_GetByKey NewBadgeRepository k)"
  "calm (badges_GetByID NewBadgeRepository i)" "calm (badges_Create NewBadgeRepository b)"
  "calm (badges_Update NewBadgeRepository b)" "calm (badges_Grant NewBadgeRepository u i g e r)"
  "calm (badges_Revoke NewBadgeRepository u i)" "calm (badges_ListByUserID NewBadgeRepository u)"
  "calm (badges_ListByUserIDs NewBadgeRepository us)"
  unfolding NewBadgeRepository_def BadgeRepository.simps BadgeRepository_ListAll_def BadgeRepository_GetByKey_def
    BadgeRepository_GetByID_def BadgeRepository_Create_def BadgeRepository_Update_def BadgeRepository_Grant_def
    BadgeRepository_Revoke_def BadgeRepository_ListByUserID_def BadgeRepository_ListByUserIDs_def
  by (intro calm_rules)+

lemma calm_ogp [calm_rules]:
  "calm (ogp_Get NewOGPCacheRepository h)" "calm (ogp_Upsert NewOGPCacheRepository pv)"
  "calm (ogp_ListByPostIDs NewOGPCacheRepository is)" "calm (jobs_Enqueue NewOGPJobQueue i h u p k)"
  "calm (jobs_Claim NewOGPJobQueue w)" "calm (jobs_MarkDone NewOGPJobQueue i)" "calm (jobs_MarkFailed NewOGPJobQueue i r b)"
  unfolding NewOGPCacheRepository_def OGPCacheRepository.simps NewOGPJobQueue_def OGPJobQueue.simps OGPCacheRepository_Get_def
    OGPCacheRepository_Upsert_def OGPCacheRepository_ListByPostIDs_def OGPJobQueue_Enqueue_def OGPJobQueue_Claim_def
    OGPJobQueue_MarkDone_def OGPJobQueue_MarkFailed_def
  by (intro calm_rules)+

lemma calm_others [calm_rules]:
  "calm (likes_ListLikedPostIDsByUser NewLikeRepository u is)" "calm (follows_AreFollowing NewFollowRepository v ts)"
  "calm (follows_ListFollowingSubs NewFollowRepository v)" "calm (follows_ListFollowers NewFollowRepository v c n)"
  "calm (follows_ListFollowing NewFollowRepository v c n)" "calm (users_GetBySub NewUserRepository v)"
  "calm (users_List NewUserRepository l off)" "calm (users_ListBySubs NewUserRepository ts)"
  unfolding NewLikeRepository_def LikeRepository.simps NewFollowRepository_def FollowRepository.simps NewUserRepository_def
    UserRepository.simps LikeRepository_ListLikedPostIDsByUser_def FollowRepository_AreFollowing_def
    FollowRepository_ListFollowingSubs_def FollowRepository_ListFollowers_def FollowRepository_ListFollowing_def listSide_def
    UserRepository_GetBySub_def UserRepository_List_def UserRepository_ListBySubs_def
  by (intro calm_rules)+

end
