(* ===== verification/Server_Invariant.thy ===== *)
theory Server_Invariant
  imports Server
begin

text \<open>
  The denormalised counters of the server stay exact along every run on the in-memory backend.
  The invariant of a state adds to the exactness of the counters what its preservation rests on:
  users are stored under their sub, post ids have been drawn, and no table has more than \<open>n\<close> rows.
\<close>

definition counters_exact :: "db \<Rightarrow> bool" where
  "counters_exact v \<longleftrightarrow> posts_ok v \<and> likes_exact v \<and> replies_exact v \<and> follows_exact v"

definition users_keyed :: "db \<Rightarrow> bool" where
  "users_keyed v \<longleftrightarrow> (\<forall>sub u. db_users v sub = Some u \<longrightarrow> User_Sub u = sub)"

definition small :: "nat \<Rightarrow> db \<Rightarrow> bool" where
  "small n v \<longleftrightarrow> card (db_likes v) \<le> n \<and> card (dom (db_posts v)) \<le> n \<and> card (db_follows v) \<le> n"

definition sys_ok :: "nat \<Rightarrow> nat \<Rightarrow> mem \<Rightarrow> bool" where
  "sys_ok N n s \<longleftrightarrow> counters_exact (mem_view s) \<and> users_keyed (mem_view s) \<and> small n (mem_view s) \<and>
     (\<forall>i. i \<in> dom (db_posts (mem_view s)) \<longrightarrow> issued s i) \<and> unique_ids N (rt_ulid s)"

lemma small_mono: "small n v \<Longrightarrow> n \<le> m \<Longrightarrow> small m v"
  by (auto simp: small_def)

lemma issued_later: "issued s i \<Longrightarrow> later s t \<Longrightarrow> issued t i"
  unfolding issued_def later_def by (metis less_le_trans)

lemma sys_ok_calm: "sys_ok N n s \<Longrightarrow> mem_view t = mem_view s \<Longrightarrow> later s t \<Longrightarrow> n \<le> m \<Longrightarrow> sys_ok N m t"
  unfolding sys_ok_def using issued_later [of s _ t] small_mono [of n "mem_view s" m] by (auto simp: later_def)

text \<open>The state a request may end in.\<close>

definition settled :: "nat \<Rightarrow> nat \<Rightarrow> mem \<Rightarrow> mem \<Rightarrow> bool" where
  "settled N n s t \<longleftrightarrow> later s t \<and> (rt_ids t \<le> N \<longrightarrow> sys_ok N (Suc n) t)"

lemma settled_calm: "settled N n s t \<Longrightarrow> mem_view u = mem_view t \<Longrightarrow> later t u \<Longrightarrow> settled N n s u"
  unfolding settled_def using sys_ok_calm [of N "Suc n" t u] later_trans [of s t u]
  by (auto simp: later_def)

lemma settled_from: "sys_ok N n s \<Longrightarrow> mem_view t = mem_view s \<Longrightarrow> later s t \<Longrightarrow> settled N n s t"
  by (simp add: settled_def sys_ok_calm)

lemma settled_calm_call: "sys_ok N n s \<Longrightarrow> calm m \<Longrightarrow> wp m (\<lambda>_ t. settled N n s t) s"
  by (rule wpI, drule (1) calmD) (simp add: settled_from)

lemma settled_bind: "wp m (\<lambda>_ t. settled N n s t) s' \<Longrightarrow> (\<And>x. calm (k x)) \<Longrightarrow> wp (m \<bind> k) (\<lambda>_ t. settled N n s t) s'"
proof (rule wp_bind, erule wp_mono)
  fix x t assume k: "\<And>x. calm (k x)" and t: "settled N n s t"
  show "wp (k x) (\<lambda>_ t. settled N n s t) t"
    by (rule wpI, drule calmD [OF k]) (use settled_calm [OF t] in simp)
qed

lemma settled_earlier: "settled N n t u \<Longrightarrow> later s t \<Longrightarrow> settled N n s u"
  by (auto simp: settled_def intro: later_trans)

section \<open>Each kind of change\<close>

lemma small_likes: "finite (db_likes v) \<Longrightarrow> small n v \<Longrightarrow> small (Suc n) (abs_like u p v) \<and> small (Suc n) (abs_unlike u p v)"
  unfolding small_def abs_like_def abs_unlike_def
  by (auto simp: card_insert_if intro: le_SucI order_trans [OF card_Diff1_le])

lemma small_follows: "finite (db_follows v) \<Longrightarrow> small n v \<Longrightarrow> small (Suc n) (abs_follow a b v) \<and> small (Suc n) (abs_unfollow a b v)"
  unfolding small_def abs_follow_def abs_unfollow_def
  by (auto simp: card_insert_if intro: le_SucI order_trans [OF card_Diff1_le])

lemma abs_delete_fields:
  "db_likes (abs_delete i now v) = db_likes v" "db_users (abs_delete i now v) = db_users v"
  "db_follows (abs_delete i now v) = db_follows v" "dom (db_posts (abs_delete i now v)) = dom (db_posts v)"
  by (auto simp: abs_delete_def Let_def split: option.split)

lemma abs_create_fields:
  "db_likes (abs_create p v) = db_likes v" "db_users (abs_create p v) = db_users v"
  "db_follows (abs_create p v) = db_follows v" "dom (db_posts (abs_create p v)) = insert (Post_ID p) (dom (db_posts v))"
  by (auto simp: abs_create_def Let_def split: option.split)

lemma abs_like_fields:
  "db_posts (abs_like u p v) = (if (u, p) \<in> db_likes v then db_posts v else db_posts (on_live p inc_likes v))"
  "dom (db_posts (abs_like u p v)) = dom (db_posts v)" "db_users (abs_like u p v) = db_users v" "db_follows (abs_like u p v) = db_follows v"
  by (auto simp: abs_like_def on_live_def)

lemma abs_unlike_fields:
  "db_posts (abs_unlike u p v) = (if (u, p) \<notin> db_likes v then db_posts v else db_posts (on_live p (\<lambda>p. dec_likes p) v))"
  "dom (db_posts (abs_unlike u p v)) = dom (db_posts v)" "db_users (abs_unlike u p v) = db_users v" "db_follows (abs_unlike u p v) = db_follows v"
  by (auto simp: abs_unlike_def on_live_def)

lemma replies_exact_on_live:
  assumes "replies_exact v" and f: "\<And>p. Post_DeletedAt (f p) = Post_DeletedAt p" "\<And>p. Post_RepliesCount (f p) = Post_RepliesCount p"
    "\<And>p. Post_ParentPostID (f p) = Post_ParentPostID p"
  shows "replies_exact (on_live k f v)"
  using assms(1) f(2) by (auto simp: replies_exact_def live_on_live [OF f(1)] replies_of_on_live [OF f(1,3)] split: if_splits)

lemma replies_exact_cong: "db_posts w = db_posts v \<Longrightarrow> replies_exact w = replies_exact v"
  by (simp add: replies_exact_def replies_of_def)

lemma posts_ok_cong: "db_posts w = db_posts v \<Longrightarrow> posts_ok w = posts_ok v"
  by (simp add: posts_ok_def)

lemma follows_exact_cong: "db_follows w = db_follows v \<Longrightarrow> db_users w = db_users v \<Longrightarrow> follows_exact w = follows_exact v"
  by (simp add: follows_exact_def followers_of_def following_of_def)

lemma likes_exact_cong: "db_posts w = db_posts v \<Longrightarrow> db_likes w = db_likes v \<Longrightarrow> likes_exact w = likes_exact v"
  by (simp add: likes_exact_def likers_of_def)

lemma counters_exact_like:
  assumes ok: "counters_exact v" and "live (db_posts v) p \<noteq> None" "int (card (db_likes v)) < max_int64"
  shows "counters_exact (abs_like u p v)"
proof -
  let ?w = "on_live p inc_likes v"
  have w: "posts_ok ?w" "replies_exact ?w"
    using ok by (auto simp: counters_exact_def intro!: posts_ok_on_live replies_exact_on_live)
  have "posts_ok (abs_like u p v)" "replies_exact (abs_like u p v)"
    using ok w abs_like_fields(1) [of u p v] posts_ok_cong [of "abs_like u p v" v] posts_ok_cong [of "abs_like u p v" ?w]
      replies_exact_cong [of "abs_like u p v" v] replies_exact_cong [of "abs_like u p v" ?w]
    by (auto simp: counters_exact_def split: if_splits)
  then show ?thesis
    using assms likes_exact_like [of v p u] follows_exact_cong [of "abs_like u p v" v] abs_like_fields(3,4) [of u p v]
    by (simp add: counters_exact_def)
qed

lemma counters_exact_unlike:
  assumes ok: "counters_exact v" and "int (card (db_likes v)) < max_int64"
  shows "counters_exact (abs_unlike u p v)"
proof -
  let ?w = "on_live p (\<lambda>p. dec_likes p) v"
  have w: "posts_ok ?w" "replies_exact ?w"
    using ok by (auto simp: counters_exact_def intro!: posts_ok_on_live replies_exact_on_live)
  have "posts_ok (abs_unlike u p v)" "replies_exact (abs_unlike u p v)"
    using ok w abs_unlike_fields(1) [of u p v] posts_ok_cong [of "abs_unlike u p v" v] posts_ok_cong [of "abs_unlike u p v" ?w]
      replies_exact_cong [of "abs_unlike u p v" v] replies_exact_cong [of "abs_unlike u p v" ?w]
    by (auto simp: counters_exact_def split: if_splits)
  then show ?thesis
    using assms likes_exact_unlike [of v u p] follows_exact_cong [of "abs_unlike u p v" v] abs_unlike_fields(3,4) [of u p v]
    by (simp add: counters_exact_def)
qed

lemma counters_exact_follow:
  assumes "counters_exact v" "a \<noteq> b" "a \<in> dom (db_users v)" "b \<in> dom (db_users v)" "int (card (db_follows v)) < max_int64"
  shows "counters_exact (abs_follow a b v)"
proof -
  have "db_posts (abs_follow a b v) = db_posts v" "db_likes (abs_follow a b v) = db_likes v" by (simp_all add: abs_follow_def)
  then show ?thesis
    using assms follows_exact_follow [OF _ assms(2-5)] posts_ok_cong [of "abs_follow a b v" v]
      likes_exact_cong [of "abs_follow a b v" v] replies_exact_cong [of "abs_follow a b v" v]
    by (simp add: counters_exact_def)
qed

lemma counters_exact_unfollow:
  assumes "counters_exact v" "int (card (db_follows v)) < max_int64"
  shows "counters_exact (abs_unfollow a b v)"
proof -
  have "db_posts (abs_unfollow a b v) = db_posts v" "db_likes (abs_unfollow a b v) = db_likes v" by (simp_all add: abs_unfollow_def)
  then show ?thesis
    using assms follows_exact_unfollow [of v a b] posts_ok_cong [of "abs_unfollow a b v" v]
      likes_exact_cong [of "abs_unfollow a b v" v] replies_exact_cong [of "abs_unfollow a b v" v]
    by (simp add: counters_exact_def)
qed


text \<open>Writing a user row that keeps its key and its counters.\<close>

lemma sys_ok_user:
  assumes ok: "sys_ok N n s" and t: "mem_view t = (mem_view s)\<lparr>db_users := (db_users (mem_view s))(sub \<mapsto> u)\<rparr>" "later s t"
    and u: "User_Sub u = sub"
      "case db_users (mem_view s) sub of
         Some e \<Rightarrow> User_FollowersCount u = User_FollowersCount e \<and> User_FollowingCount u = User_FollowingCount e
       | None \<Rightarrow> User_FollowersCount u = 0 \<and> User_FollowingCount u = 0"
  shows "sys_ok N n t"
proof -
  let ?v = "mem_view s"
  have ex: "follows_exact ?v" using ok by (simp add: sys_ok_def counters_exact_def)
  have none: "followers_of ?v sub = {} \<and> following_of ?v sub = {}" if "db_users ?v sub = None"
    using ex that by (auto simp: follows_exact_def followers_of_def following_of_def)
  have sides: "followers_of (mem_view t) = followers_of ?v" "following_of (mem_view t) = following_of ?v"
    by (simp_all add: t(1) followers_of_def following_of_def fun_eq_iff)
  have "follows_exact (mem_view t)"
    unfolding follows_exact_def sides
    using ex u(2) none by (auto simp: t(1) follows_exact_def split: option.splits if_splits)
  moreover have "posts_ok (mem_view t)" "likes_exact (mem_view t)" "replies_exact (mem_view t)"
    using ok posts_ok_cong [of "mem_view t" ?v] likes_exact_cong [of "mem_view t" ?v] replies_exact_cong [of "mem_view t" ?v]
    by (simp_all add: t(1) sys_ok_def counters_exact_def)
  moreover have "users_keyed (mem_view t)" "small n (mem_view t)"
    using ok u(1) by (auto simp: t(1) sys_ok_def users_keyed_def small_def)
  ultimately show ?thesis
    using ok issued_later [OF _ t(2)] t(2) by (auto simp: sys_ok_def counters_exact_def t(1) later_def)
qed

section \<open>Requests\<close>

definition outside :: "server \<Rightarrow> bool" where
  "outside srv \<longleftrightarrow>
     (\<forall>tok. calm (client_Introspect (srv_client srv) tok) \<and> calm (client_GetProfile (srv_client srv) tok)) \<and>
     (\<forall>u. calm (ogp_Fetch (srv_ogp srv) u)) \<and>
     (\<forall>h p. srv_fujuPost srv = Some h \<longrightarrow> calm (h p)) \<and>
     (\<forall>h a b. srv_fujuLike srv = Some h \<longrightarrow> calm (h a b)) \<and>
     (\<forall>h a b. srv_fujuFollow srv = Some h \<longrightarrow> calm (h a b)) \<and>
     (\<forall>st. srv_storage srv = Some st \<longrightarrow> (\<forall>rq. calm (storage_Upload st rq)) \<and> (\<forall>k. calm (storage_Delete st k)))"

lemma upsert_row_counts:
  "User_FollowersCount (upsert_row e user now) = (case e of Some x \<Rightarrow> User_FollowersCount x | None \<Rightarrow> User_FollowersCount user)"
  "User_FollowingCount (upsert_row e user now) = (case e of Some x \<Rightarrow> User_FollowingCount x | None \<Rightarrow> User_FollowingCount user)"
  "User_Sub (upsert_row e user now) = User_Sub user"
  by (simp_all add: upsert_row_def split: option.split)

text \<open>Hydrating keeps the invariant, and leaves a row for the caller when it succeeds.\<close>

definition hydrated :: "nat \<Rightarrow> nat \<Rightarrow> string \<Rightarrow> mem \<Rightarrow> go_error + User \<Rightarrow> mem \<Rightarrow> bool" where
  "hydrated N n sub s r t \<longleftrightarrow> later s t \<and> sys_ok N n t \<and> (isl r \<or> sub \<in> dom (get_map (m_users t)))"

lemma hydrate_upsert:
  assumes ok: "sys_ok N n s" and sub: "User_Sub user = sub"
    and zero: "get_map (m_users s) sub = None \<longrightarrow> User_FollowersCount user = 0 \<and> User_FollowingCount user = 0"
  shows "wp (users_Upsert NewUserRepository user) (\<lambda>r t. hydrated N n sub s r t) s"
proof (rule wpI)
  fix r t assume run: "run_state (users_Upsert NewUserRepository user) s = (r, t)"
  let ?u = "upsert_row (get_map (m_users s) sub) user (rt_clock s (rt_ticks s))"
  have t: "t = s\<lparr>rt_ticks := Suc (rt_ticks s), m_users := set_map sub ?u (m_users s)\<rparr>"
    using run sub by (auto simp: NewUserRepository_def run_simps)
  have "sys_ok N n t"
    by (rule sys_ok_user [OF ok, of t sub ?u]) (use zero sub in \<open>auto simp: t upsert_row_counts later_def split: option.split\<close>)
  then show "hydrated N n sub s r t" by (simp add: hydrated_def t later_def)
qed

lemma hydrated_shift:
  "hydrated N n sub t r u \<Longrightarrow> later s t \<Longrightarrow> hydrated N n sub s r u"
  by (auto simp: hydrated_def intro: later_trans)

lemma hydrated_Inl: "hydrated N n sub s (Inl e) t \<longleftrightarrow> later s t \<and> sys_ok N n t"
  by (simp add: hydrated_def)

lemma later_tick: "later (s\<lparr>rt_ticks := k\<rparr>) t \<longleftrightarrow> later s t"
  by (simp add: later_def)

lemma applyProfile_fields [simp]:
  "User_Sub (applyProfile u p) = User_Sub u" "User_FollowersCount (applyProfile u p) = User_FollowersCount u"
  "User_FollowingCount (applyProfile u p) = User_FollowingCount u"
  by (simp_all add: applyProfile_def Let_def)

lemma userHydrateUC_fields [simp]:
  "hydrate_userRepo (userHydrateUC srv) = NewUserRepository" "hydrate_authcore (userHydrateUC srv) = srv_client srv"
  by (simp_all add: userHydrateUC_def NewGetOrHydrateUserUseCase_def)

lemma wp_calm: "calm m \<Longrightarrow> (\<And>x t. mem_view t = mem_view s \<Longrightarrow> later s t \<Longrightarrow> Q x t) \<Longrightarrow> wp m Q s"
  by (rule wpI) (blast dest: calmD)

lemma users_of_view: "mem_view t = mem_view s \<Longrightarrow> get_map (m_users t) = get_map (m_users s)"
  by (metis mem_view_fields(1))


lemma wp_GetBySub: "Q (Inr (get_map (m_users s) sub)) s \<Longrightarrow> wp (users_GetBySub NewUserRepository sub) Q s"
  by (simp add: wp_def NewUserRepository_def run_simps)

lemma hydrate_keeps:
  assumes out: "outside srv" and ok: "sys_ok N n s"
  shows "wp (GetOrHydrate_Execute (userHydrateUC srv) tok sub) (\<lambda>r t. hydrated N n sub s r t) s"
proof (cases "sub = []")
  case True
  then show ?thesis using ok by (auto simp: GetOrHydrate_Execute_def hydrated_def intro!: wp_rules)
next
  case False
  have prof: "calm (client_GetProfile (srv_client srv) tok)" using out by (simp add: outside_def)
  have row: "wp (users_Upsert NewUserRepository user) Q s'"
    if "mem_view s' = mem_view s" "later s s'" "User_Sub user = sub"
      "get_map (m_users s) sub = None \<longrightarrow> User_FollowersCount user = 0 \<and> User_FollowingCount user = 0"
      "\<And>r t. hydrated N n sub s r t \<Longrightarrow> Q r t" for user s' Q
    by (rule wp_mono [OF hydrate_upsert [OF sys_ok_calm [OF ok that(1,2) order_refl] that(3)]])
      (use that users_of_view [OF that(1)] in \<open>auto intro: hydrated_shift\<close>)
  have stay: "hydrated N n sub s r t"
    if "mem_view t = mem_view s" "later s t" "isl r \<or> sub \<in> dom (get_map (m_users s))" for r t
    using that sys_ok_calm [OF ok that(1,2) order_refl] users_of_view [OF that(1)] by (simp add: hydrated_def)
  have zero: "User_Sub (zero_user sub now) = sub" "User_FollowersCount (zero_user sub now) = 0"
    "User_FollowingCount (zero_user sub now) = 0" for now
    by (simp_all add: zero_user_def)
  let ?tick = "s\<lparr>rt_ticks := Suc (rt_ticks s)\<rparr>"
  have tick: "mem_view ?tick = mem_view s" "later s ?tick" by (simp_all add: later_def)
  have create: "wp (lazyCreate (userHydrateUC srv) sub tok now) (\<lambda>r t. hydrated N n sub s r t) ?tick" for now
    unfolding lazyCreate_def userHydrateUC_fields Let_def
    by (auto intro!: wp_rules wp_calm [OF prof] row intro: stay simp: zero tick hydrated_Inl later_tick sys_ok_calm [OF ok _ _ order_refl]
        split: sum.split)
  have again: "wp (refresh (userHydrateUC srv) u tok now) (\<lambda>r t. hydrated N n sub s r t) ?tick"
    if "get_map (m_users s) sub = Some u" for u now
  proof -
    have su: "User_Sub u = sub" using ok that by (auto simp: sys_ok_def users_keyed_def)
    have same: "hydrated N n sub s (Inr u) t" if "mem_view t = mem_view s" "later s t" for t
      by (rule stay [OF that]) (use \<open>get_map (m_users s) sub = Some u\<close> in auto)
    show ?thesis
      unfolding refresh_def userHydrateUC_fields
      by (auto intro!: wp_rules wp_calm [OF prof] row simp: same su tick that hydrated_Inl later_tick sys_ok_calm [OF ok _ _ order_refl]
          split: sum.split)
  qed
  show ?thesis
    using False unfolding GetOrHydrate_Execute_def userHydrateUC_fields
    by (auto intro!: wp_bind_or wp_GetBySub wp_bind wp_Now wp_if wp_ret stay create again
        simp: tick split: option.split)
qed


lemma calm_responses [calm_rules]:
  "calm (WriteErrorResponse e)" "calm (writeAuthError c k m)" "calm (writeHydrateError e)"
  unfolding WriteErrorResponse_def buildErrorResponse_def writeAuthError_def writeHydrateError_def Let_def
  by (intro calm_rules)+

lemma calm_shapes [calm_rules]:
  "(\<And>x. calm (k x)) \<Longrightarrow> calm (or_error r k)" "(\<And>x. calm (k' x)) \<Longrightarrow> calm (with_caller ctx k')"
  "calm m \<Longrightarrow> (\<And>x. calm (k'' x)) \<Longrightarrow> calm (answer m k'')"
  unfolding or_error_def with_caller_def answer_def by (intro calm_rules | simp add: calm_rules split: sum.split)+

text \<open>A request through the chain of authenticated routes: the handler runs with the caller's row in
  place.\<close>

lemma chain_settles:
  fixes h :: "(mem, 'b) handler"
  assumes out: "outside srv" and ok: "sys_ok N n s"
    and h: "\<And>ctx sub s'. sys_ok N n s' \<Longrightarrow> GetSubFromContext ctx = Some sub \<Longrightarrow> sub \<in> dom (get_map (m_users s')) \<Longrightarrow>
      wp (h r ctx) (\<lambda>_ t. settled N n s' t) s'"
  shows "wp (status_of (chain srv h) r) (\<lambda>_ t. settled N n s t) s"
proof -
  have introspect: "calm (client_Introspect (srv_client srv) tok)" for tok using out by (simp add: outside_def)
  have calm_end: "wp m (\<lambda>_ t. settled N n s t) s'" if "calm m" "mem_view s' = mem_view s" "later s s'"
    for m :: "(mem, 'b http_response) state" and s'
    by (rule wp_mono [OF settled_calm_call [OF sys_ok_calm [OF ok that(2,3) order_refl] that(1)]])
      (rule settled_earlier [OF _ that(3)])
  have ctx: "GetSubFromContext (SetCurrentUserInContext c u) = GetSubFromContext c" for c u
    by (simp add: GetSubFromContext_def SetCurrentUserInContext_def)
  have hyd: "wp (HydrateUserMiddleware (userHydrateUC srv) h r c) (\<lambda>_ t. settled N n s t) s'"
    if s': "mem_view s' = mem_view s" "later s s'" for c s'
  proof (cases "GetSubFromContext c")
    case None
    then show ?thesis using calm_end [OF calm_responses(2) s'] by (simp add: HydrateUserMiddleware_def)
  next
    case (Some sub)
    show ?thesis
      unfolding HydrateUserMiddleware_def Some option.case
    proof (rule wp_bind, rule wp_mono [OF hydrate_keeps [OF out sys_ok_calm [OF ok s' order_refl]]])
      fix res t assume t: "hydrated N n sub s' res t"
      then have t': "sys_ok N n t" "later s t" using s'(2) by (auto simp: hydrated_def intro: later_trans)
      show "wp (case res of Inl err \<Rightarrow> writeHydrateError err | Inr user \<Rightarrow> h r (SetCurrentUserInContext c user)) (\<lambda>_ t. settled N n s t) t"
      proof (cases res)
        case (Inl e)
        have "wp (writeHydrateError e) (\<lambda>_ t. settled N n s t) t"
          by (rule wp_mono [OF settled_calm_call [OF t'(1) calm_responses(3)]]) (rule settled_earlier [OF _ t'(2)])
        then show ?thesis using Inl by simp
      next
        case (Inr u)
        have "wp (h r (SetCurrentUserInContext c u)) (\<lambda>_ t. settled N n s t) t"
          by (rule wp_mono [OF h [OF t'(1), of _ sub]]) (use t Some Inr settled_earlier [OF _ t'(2)] in \<open>auto simp: ctx hydrated_def\<close>)
        then show ?thesis using Inr by simp
      qed
    qed
  qed
  have "wp (chain srv h r emptyContext) (\<lambda>_ t. settled N n s t) s"
    unfolding chain_def authed_def AuthMiddleware_def
    by (auto intro!: wp_rules wp_calm [OF introspect] hyd calm_end [OF calm_responses(2)] split: option.split sum.split)
  then show ?thesis unfolding status_of_def by (rule settled_bind) (rule calm_ret)
qed


section \<open>The routes that write\<close>

named_theorems steady_rules \<open>calls that take no id back\<close>

lemma steady_calm [steady_rules]: "calm m \<Longrightarrow> steady m"
  by (simp add: steady_def calm_def)

lemma steady_bind [steady_rules]: "steady m \<Longrightarrow> (\<And>x. steady (k x)) \<Longrightarrow> steady (m \<bind> k)"
  unfolding steady_def by (auto split: prod.split) (metis later_trans snd_conv)

lemma steady_ret [steady_rules]: "steady (ret x)"
  by (simp add: steady_def)

lemma steady_bind_or [steady_rules]: "steady m \<Longrightarrow> (\<And>x. steady (k x)) \<Longrightarrow> steady (bind_or m wrap k)"
  unfolding bind_or_def by (intro steady_bind) (auto intro: steady_ret split: sum.split)

lemma steady_cases [steady_rules]:
  "steady m \<Longrightarrow> steady m' \<Longrightarrow> steady (if b then m else m')"
  "steady m \<Longrightarrow> (\<And>y. steady (f y)) \<Longrightarrow> steady (case x of None \<Rightarrow> m | Some y \<Rightarrow> f y)"
  by (simp_all split: option.split)

lemma later_likes: "later s (s\<lparr>m_likes := m, rt_ticks := n\<rparr>)" "later s (s\<lparr>m_likes := m\<rparr>)"
  by (simp_all add: later_def)

lemma steady_likes [steady_rules]:
  "steady (likes_Create NewLikeRepository u p)" "steady (likes_Delete NewLikeRepository u p)"
proof -
  show "steady (likes_Create NewLikeRepository u p)"
    by (rule steadyI) (metis NewLikeRepository_def LikeRepository.select_convs(1) later_likes(1) run_like_Create snd_conv)
  show "steady (likes_Delete NewLikeRepository u p)"
    by (rule steadyI) (metis NewLikeRepository_def LikeRepository.select_convs(2) later_likes(2) run_like_Delete snd_conv)
qed

lemma later_fields_more [simp]:
  "later s (s\<lparr>rt_ticks := n, m_posts := ps\<rparr>)" "later s (s\<lparr>rt_ticks := n, m_follows := fs\<rparr>)" "later s (s\<lparr>m_follows := fs\<rparr>)"
  by (simp_all add: later_def)

lemma steady_counts [steady_rules]:
  "steady (posts_IncrementLikesCount NewPostRepository p)" "steady (posts_DecrementLikesCount NewPostRepository p)"
  "steady (posts_DecrementRepliesCount NewPostRepository p)"
  by (simp_all add: steady_def NewPostRepository_def run_post_counters)

lemma steady_writes [steady_rules]:
  "steady (posts_Delete NewPostRepository p)"
  "steady (follows_Create NewFollowRepository u p)" "steady (follows_Delete NewFollowRepository u p)"
  by (simp_all add: steady_def NewPostRepository_def NewFollowRepository_def run_post_Delete run_follow_Create run_follow_Delete
      split: option.split)

lemma later_on_user: "later s (on_user i f s)"
  by (simp add: on_user_def later_def split: option.split)

lemma steady_user_counts [steady_rules]:
  "steady (users_IncrementFollowersCount NewUserRepository i)" "steady (users_DecrementFollowersCount NewUserRepository i)"
  "steady (users_IncrementFollowingCount NewUserRepository i)" "steady (users_DecrementFollowingCount NewUserRepository i)"
  by (auto intro!: steadyI simp: NewUserRepository_def run_simps later_on_user)


lemma wp_steady: "wp m Q s \<Longrightarrow> steady m \<Longrightarrow> (\<And>x t. Q x t \<Longrightarrow> later s t \<Longrightarrow> R x t) \<Longrightarrow> wp m R s"
  unfolding wp_def steady_def by (metis (no_types, lifting) case_prod_beta)

lemma sys_okD:
  assumes "sys_ok N n s" and "int n < max_int64"
  shows "counters_exact (mem_view s)" "users_keyed (mem_view s)" "small n (mem_view s)"
    "int (card (db_likes (mem_view s))) < max_int64" "int (card (db_follows (mem_view s))) < max_int64"
    "int (card (dom (db_posts (mem_view s)))) < max_int64"
    "finite (db_likes (mem_view s))" "finite (db_follows (mem_view s))" "finite (dom (db_posts (mem_view s)))"
  using assms by (auto simp: sys_ok_def small_def counters_exact_def likes_exact_def follows_exact_def posts_ok_def)

text \<open>A change of the tables that adds no post.\<close>

lemma settled_change:
  assumes ok: "sys_ok N n s" and t: "later s t" "counters_exact (mem_view t)" "small (Suc n) (mem_view t)"
    "users_keyed (mem_view t)" "dom (db_posts (mem_view t)) = dom (db_posts (mem_view s))"
  shows "settled N n s t"
  using ok t issued_later [OF _ t(1)] by (auto simp: settled_def sys_ok_def later_def)

lemma outside_hooks:
  assumes "outside srv"
  shows "quiet_hook mem_view (srv_fujuLike srv)" "quiet_hook mem_view (srv_fujuFollow srv)"
    "\<And>a b. calm (case srv_fujuLike srv of Some h \<Rightarrow> h a b | None \<Rightarrow> ret ())"
    "\<And>a b. calm (case srv_fujuFollow srv of Some h \<Rightarrow> h a b | None \<Rightarrow> ret ())"
  using assms by (auto simp: outside_def quiet_hook_def quiet_def calm_def calm_ret split: option.split)

lemma steady_removals:
  "steady (UnlikePost_Execute NewPostRepository NewLikeRepository u p)"
  "steady (DeletePost_Execute NewPostRepository p u)"
  "steady (Unfollow_Execute NewUserRepository NewFollowRepository u p)"
  unfolding UnlikePost_Execute_def DeletePost_Execute_def Unfollow_Execute_def Let_def
  by (intro steady_bind_or steady_cases steady_likes steady_counts steady_user_counts steady_writes steady_ret
      steady_calm [OF calm_posts(1)] steady_calm [OF calm_others(6)])+

lemma steady_additions:
  assumes "outside srv"
  shows "steady (LikePost_Execute NewPostRepository NewLikeRepository (srv_fujuLike srv) u p)"
    "steady (Follow_Execute NewUserRepository NewFollowRepository (srv_fujuFollow srv) u p)"
  unfolding LikePost_Execute_def Follow_Execute_def Let_def
  by (intro steady_bind_or steady_cases steady_likes steady_counts steady_user_counts steady_writes steady_bind steady_ret
      steady_calm [OF calm_posts(1)] steady_calm [OF calm_others(6)]
      steady_calm [OF outside_hooks(3) [OF assms]] steady_calm [OF outside_hooks(4) [OF assms]])+

lemma like_settles:
  assumes out: "outside srv" and ok: "sys_ok N n s" and n: "int n < max_int64"
  shows "wp (LikePost_Execute NewPostRepository NewLikeRepository (srv_fujuLike srv) u p) (\<lambda>_ t. settled N n s t) s"
proof (rule wp_steady [OF mem_atomic(1) [OF outside_hooks(1) [OF out]] steady_additions(1) [OF out]])
  fix r t assume r: "case r of Inr _ \<Rightarrow> u \<noteq> [] \<and> p \<noteq> [] \<and> live (db_posts (mem_view s)) p \<noteq> None \<and>
      mem_view t = abs_like u p (mem_view s) | Inl e \<Rightarrow> mem_view t = mem_view s" and l: "later s t"
  note now = sys_okD [OF ok n]
  show "settled N n s t"
  proof (cases r)
    case (Inr x)
    then show ?thesis
      using r now small_likes [OF now(7,3)] abs_like_fields [of u p "mem_view s"]
      by (intro settled_change [OF ok l]) (auto intro: counters_exact_like simp: users_keyed_def)
  qed (use r l settled_from [OF ok] in simp)
qed

lemma unlike_settles:
  assumes ok: "sys_ok N n s" and n: "int n < max_int64"
  shows "wp (UnlikePost_Execute NewPostRepository NewLikeRepository u p) (\<lambda>_ t. settled N n s t) s"
proof (rule wp_steady [OF mem_atomic(2) steady_removals(1)])
  fix r t assume r: "case r of Inr _ \<Rightarrow> u \<noteq> [] \<and> p \<noteq> [] \<and> mem_view t = abs_unlike u p (mem_view s)
      | Inl e \<Rightarrow> mem_view t = mem_view s" and l: "later s t"
  note now = sys_okD [OF ok n]
  show "settled N n s t"
  proof (cases r)
    case (Inr x)
    then show ?thesis
      using r now small_likes [OF now(7,3)] abs_unlike_fields [of u p "mem_view s"]
      by (intro settled_change [OF ok l]) (auto intro: counters_exact_unlike simp: users_keyed_def)
  qed (use r l settled_from [OF ok] in simp)
qed

lemma delete_settles:
  assumes ok: "sys_ok N n s" and n: "int n < max_int64"
  shows "wp (DeletePost_Execute NewPostRepository i sub) (\<lambda>_ t. settled N n s t) s"
proof (rule wp_steady [OF mem_atomic(3) steady_removals(2)])
  fix r t assume r: "case r of Inr _ \<Rightarrow> (\<exists>p now. live (db_posts (mem_view s)) i = Some p \<and> Post_UserID p = sub \<and>
      mem_view t = abs_delete i now (mem_view s)) | Inl e \<Rightarrow> mem_view t = mem_view s" and l: "later s t"
  note now = sys_okD [OF ok n]
  show "settled N n s t"
  proof (cases r)
    case (Inr x)
    then obtain p c where p: "live (db_posts (mem_view s)) i = Some p" and t: "mem_view t = abs_delete i c (mem_view s)"
      using r by auto
    have "counters_exact (mem_view t)"
      using now(1,6) abs_delete_counts [OF _ _ _ p, of c] follows_exact_cong [of "mem_view t" "mem_view s"]
      by (simp add: counters_exact_def t abs_delete_fields)
    then show ?thesis
      using now(2,3) by (intro settled_change [OF ok l]) (auto simp: t abs_delete_fields users_keyed_def small_def)
  qed (use r l settled_from [OF ok] in simp)
qed

lemma users_keyed_on_row: "users_keyed v \<Longrightarrow> (\<And>u. User_Sub (f u) = User_Sub u) \<Longrightarrow> users_keyed (on_row i f v)"
  by (auto simp: users_keyed_def)

lemma users_keyed_edges: "users_keyed (v\<lparr>db_follows := F\<rparr>) = users_keyed v"
  by (simp add: users_keyed_def)

lemma abs_edge_fields:
  "db_posts (abs_follow a b v) = db_posts v" "db_posts (abs_unfollow a b v) = db_posts v"
  "users_keyed v \<Longrightarrow> users_keyed (abs_follow a b v)" "users_keyed v \<Longrightarrow> users_keyed (abs_unfollow a b v)"
  by (simp_all add: abs_follow_def abs_unfollow_def users_keyed_on_row users_keyed_edges)

lemma follow_settles:
  assumes out: "outside srv" and ok: "sys_ok N n s" and n: "int n < max_int64" and row: "a \<in> dom (get_map (m_users s))"
  shows "wp (Follow_Execute NewUserRepository NewFollowRepository (srv_fujuFollow srv) a b) (\<lambda>_ t. settled N n s t) s"
proof (rule wp_steady [OF mem_atomic(4) [OF outside_hooks(2) [OF out]] steady_additions(2) [OF out]])
  fix r :: "go_error + Result" and t
  assume r: "case r of Inr res \<Rightarrow> (\<exists>u. a \<noteq> [] \<and> b \<noteq> [] \<and> a \<noteq> b \<and> db_users (mem_view s) b = Some u \<and> User_DeletedAt u = None \<and>
        mem_view t = abs_follow a b (mem_view s) \<and> Result_Following res \<and>
        Result_FollowersCount res = (if (a, b) \<in> db_follows (mem_view s) then User_FollowersCount u else inc64 (User_FollowersCount u)))
      | Inl e \<Rightarrow> mem_view t = mem_view s" and l: "later s t"
  note now = sys_okD [OF ok n]
  show "settled N n s t"
  proof (cases r)
    case (Inr x)
    then have e: "a \<noteq> b" "b \<in> dom (db_users (mem_view s))" and t: "mem_view t = abs_follow a b (mem_view s)"
      using r by auto
    show ?thesis
      by (rule settled_change [OF ok l])
        (use now e row small_follows [OF now(8,3)] in \<open>simp_all add: t counters_exact_follow abs_edge_fields\<close>)
  qed (use r l settled_from [OF ok] in simp)
qed

lemma unfollow_settles:
  assumes ok: "sys_ok N n s" and n: "int n < max_int64"
  shows "wp (Unfollow_Execute NewUserRepository NewFollowRepository a b) (\<lambda>_ t. settled N n s t) s"
proof (rule wp_steady [OF mem_atomic(5) steady_removals(3)])
  fix r :: "go_error + Result" and t
  assume r: "case r of Inr res \<Rightarrow> a \<noteq> [] \<and> b \<noteq> [] \<and> a \<noteq> b \<and> mem_view t = abs_unfollow a b (mem_view s) \<and> \<not> Result_Following res \<and>
        Result_FollowersCount res = countOrZero (db_users (mem_view t) b)
      | Inl e \<Rightarrow> mem_view t = mem_view s" and l: "later s t"
  note now = sys_okD [OF ok n]
  show "settled N n s t"
  proof (cases r)
    case (Inr x)
    then have t: "mem_view t = abs_unfollow a b (mem_view s)" using r by auto
    show ?thesis
      by (rule settled_change [OF ok l])
        (use now small_follows [OF now(8,3)] in \<open>simp_all add: t counters_exact_unfollow abs_edge_fields\<close>)
  qed (use r l settled_from [OF ok] in simp)
qed


text \<open>Creating: the commit hook attaches and enqueues link previews, outside the four tables.\<close>

lemma calm_EnqueueForPost: "calm (EnqueueForPost (ogpEnqueuer srv) post)"
proof -
  have url: "calm (enqueue_url (ogpEnqueuer srv) post now k raw)" for now k raw
    unfolding enqueue_url_def ogpEnqueuer_def Enqueuer.simps Let_def
    by (intro calm_sum calm_bind calm_option calm_if calm_ret calm_env calm_posts(5) calm_ogp)
  have "calm (enqueue_urls (ogpEnqueuer srv) post now k urls)" for now k urls
    by (induction urls arbitrary: k) (simp_all add: calm_ret calm_bind url)
  then show ?thesis unfolding EnqueueForPost_def Let_def by (intro calm_if calm_ret calm_bind calm_env)
qed

lemma calm_createHook: "outside srv \<Longrightarrow> createHook srv = Some h \<Longrightarrow> calm (h p)"
  by (auto simp: createHook_def outside_def intro!: calm_bind calm_ret calm_EnqueueForPost split: option.split)

lemma quiet_createHook: "outside srv \<Longrightarrow> quiet_commit mem_view (createHook srv)"
  using calm_createHook [of srv] by (auto simp: quiet_commit_def quiet_def steady_def calm_def)

lemma steady_create: assumes out: "outside srv" shows "steady (CreatePost_Execute (postCreateUC srv) u req)"
proof -
  have images: "steady (check_images NewImageRepository u ids)" for u ids
    by (induction ids) (simp_all add: steady_ret steady_bind_or steady_cases steady_calm [OF calm_images(1)])
  have root: "steady (resolve_root NewPostRepository parent)" for parent
    unfolding resolve_root_def by (intro steady_cases steady_bind_or steady_ret steady_calm [OF calm_posts(1)])
  have hook: "calm (case createHook srv of Some h \<Rightarrow> h p | None \<Rightarrow> ret ())" for p
    using calm_createHook [OF out] by (auto intro: calm_ret split: option.split)
  show ?thesis
    unfolding CreatePost_Execute_def store_post_def Let_def postCreateUC_def CreatePostUseCase.simps
    by (intro steady_cases steady_bind_or steady_bind steady_ret root images steady_calm [OF calm_tags(1)] steady_calm [OF calm_images(5)]
        steady_calm [OF hook] steady_calm [OF calm_env(2)] mem_writer.steady_calls(5,6))
qed

lemma fresh_post:
  assumes ok: "sys_ok N n s" and new: "stored_new s t u rq root p" and le: "rt_ids t \<le> N"
  shows "Post_ID p \<notin> dom (db_posts (mem_view s))" "issued t (Post_ID p)"
proof -
  obtain k where k: "rt_ids s \<le> k" "k < rt_ids t" "rt_ulid t = rt_ulid s" "Post_ID p = rt_ulid s k"
    using new by (auto simp: stored_new_def new_post_def)
  have inj: "inj_on (rt_ulid s) {..<N}" using ok by (simp add: sys_ok_def unique_ids_def)
  have "\<not> issued s (Post_ID p)"
  proof
    assume "issued s (Post_ID p)"
    then obtain j where "j < rt_ids s" "rt_ulid s j = rt_ulid s k" by (auto simp: issued_def k(4))
    then show False using inj_onD [OF inj, of j k] k(1,2) le by simp
  qed
  then show "Post_ID p \<notin> dom (db_posts (mem_view s))" using ok by (auto simp: sys_ok_def)
  show "issued t (Post_ID p)" using k by (auto simp: issued_def)
qed

lemma create_settles:
  assumes out: "outside srv" and ok: "sys_ok N n s" and n: "int n < max_int64"
  shows "wp (CreatePost_Execute (postCreateUC srv) u req) (\<lambda>_ t. settled N n s t) s"
  unfolding postCreateUC_def
proof (rule wp_steady [OF mem_writer_atomic.create_atomic [OF quiet_createHook [OF out]] steady_create [OF out, unfolded postCreateUC_def]])
  fix r t assume r: "case r of Inr d \<Rightarrow> (\<exists>rq root. req = Some rq \<and> allowed (mem_view s) (image_owner s) u rq root \<and>
        stored_new s t u rq root (Detail_Post d) \<and> mem_view t = abs_create (Detail_Post d) (mem_view s))
      | Inl e \<Rightarrow> mem_view t = mem_view s" and l: "later s t"
  note now = sys_okD [OF ok n]
  show "settled N n s t"
  proof (cases r)
    case (Inr d)
    let ?p = "Detail_Post d" and ?v = "mem_view s"
    obtain rq root where rq: "allowed ?v (image_owner s) u rq root" "stored_new s t u rq root ?p" and t: "mem_view t = abs_create ?p ?v"
      using r Inr by auto
    have p: "Post_DeletedAt ?p = None" "Post_LikesCount ?p = 0" "Post_RepliesCount ?p = 0" "Post_ParentPostID ?p = CPReq_ParentPostID rq"
      using rq(2) by (auto simp: stored_new_def new_post_def)
    have parent: "live (db_posts ?v) q \<noteq> None" if "Post_ParentPostID ?p = Some q" for q
      using rq(1) that p(4) by (auto simp: allowed_def root_of_def)
    have "sys_ok N (Suc n) t" if le: "rt_ids t \<le> N"
    proof -
      note new = fresh_post [OF ok rq(2) le]
      have "counters_exact (mem_view t)"
        using now(1,6) abs_create_counts [OF _ _ _ new(1) p(1-3) parent] follows_exact_cong [of "mem_view t" ?v]
        by (simp add: counters_exact_def t abs_create_fields)
      then show ?thesis
        using ok now(2,3,9) new issued_later [OF _ l] l
        by (auto simp: sys_ok_def t abs_create_fields users_keyed_def small_def later_def)
    qed
    then show ?thesis using l by (simp add: settled_def)
  qed (use r l settled_from [OF ok] in simp)
qed


lemma update_settles:
  assumes ok: "sys_ok N n s"
  shows "wp (UpdateUserProfile_Execute NewUserRepository target current req) (\<lambda>_ t. settled N n s t) s"
proof -
  have keep: "settled N n s t" if "sys_ok N n t" "later s t" for t
    using that sys_ok_calm [OF that(1), of t "Suc n"] by (simp add: settled_def)
  have same: "settled N n s s" using settled_from [OF ok, of s] by simp
  have upd: "wp (users_UpdateProfile NewUserRepository target rq) (\<lambda>_ t. settled N n s t) s" for rq
  proof (cases "get_map (m_users s) target")
    case None
    then show ?thesis using same by (simp add: NewUserRepository_def UserRepository_UpdateProfile_def wp_def run_simps)
  next
    case (Some u)
    then have "User_Sub u = target" using ok by (auto simp: sys_ok_def users_keyed_def)
    then have "sys_ok N n (m_users_update (set_map target w) (s\<lparr>rt_ticks := Suc (rt_ticks s)\<rparr>))"
      if "User_Sub w = User_Sub u" "User_FollowersCount w = User_FollowersCount u" "User_FollowingCount w = User_FollowingCount u" for w
      by (intro sys_ok_user [OF ok, of _ target w]) (use Some that in \<open>auto simp: later_def mem_view_def follow_rows_def like_rows_def\<close>)
    then show ?thesis
      using Some
      by (auto simp: NewUserRepository_def UserRepository_UpdateProfile_def wp_def run_simps later_def intro!: keep split: option.split)
  qed
  show ?thesis
    unfolding UpdateUserProfile_Execute_def Let_def
    by (intro wp_if wp_option wp_bind_or wp_ret same wp_mono [OF upd])
      (auto intro!: wp_ret split: sum.split option.split)
qed

section \<open>The routes that read\<close>

lemma calm_Hydrate [calm_rules]: "calm (Hydrate mem_hydrator posts viewer)"
  unfolding Hydrate_def Let_def mem_hydrator_def Hydrator.simps
  by (intro calm_if calm_ret calm_bind calm_env calm_bind_or calm_prod calm_images calm_tags calm_ogp calm_others)

lemma calm_pages [calm_rules]: "calm (hydrate_page mem_hydrator viewer page)" "calm (HydrateOne mem_hydrator p viewer)"
  unfolding hydrate_page_def HydrateOne_def by (intro calm_rules)+

lemma calm_admin [calm_rules]: "calm (ensureAdmin NewUserRepository sub)"
  unfolding ensureAdmin_def IsAdmin_def by (intro calm_rules)+

lemma calm_usecases [calm_rules]:
  "calm (GetPost_Execute NewPostRepository mem_hydrator i v)" "calm (ListPosts_Execute NewPostRepository mem_hydrator uo c k v)"
  "calm (ListReplies_Execute NewPostRepository mem_hydrator i c k v)"
  "calm (HomeTimeline_Execute NewPostRepository NewFollowRepository mem_hydrator i c k)"
  "calm (UserTimeline_Execute NewPostRepository mem_hydrator i c k v)"
  "calm (GlobalTimeline_Execute NewPostRepository mem_hydrator c k v)"
  "calm (ListFollowers_Execute NewUserRepository NewFollowRepository i c k)"
  "calm (ListFollowing_Execute NewUserRepository NewFollowRepository i c k)"
  "calm (GetUser_Execute NewUserRepository i)" "calm (ListUsers_Execute NewUserRepository k off)"
  "calm (GetUserBadges_Execute NewBadgeRepository i)" "calm (ListUserBadgesBatch_Execute NewBadgeRepository is)"
  "calm (ListBadges_Execute NewBadgeRepository)" "calm (GrantBadge_Execute NewBadgeRepository NewUserRepository i j gr)"
  "calm (RevokeBadge_Execute NewBadgeRepository NewUserRepository i j l)"
  "calm (CreateBadge_Execute up NewBadgeRepository NewUserRepository i bo)"
  "calm (UpdateBadge_Execute up NewBadgeRepository NewUserRepository i j bo)"
  "calm (GetUserImages_Execute NewImageRepository i)"
  unfolding GetPost_Execute_def ListPosts_Execute_def ListReplies_Execute_def HomeTimeline_Execute_def UserTimeline_Execute_def
    GlobalTimeline_Execute_def ListFollowers_Execute_def ListFollowing_Execute_def GetUser_Execute_def ListUsers_Execute_def
    GetUserBadges_Execute_def ListUserBadgesBatch_Execute_def ListBadges_Execute_def GrantBadge_Execute_def RevokeBadge_Execute_def
    CreateBadge_Execute_def UpdateBadge_Execute_def GetUserImages_Execute_def Let_def
  by (intro calm_rules)+

lemma calm_storage:
  assumes "outside srv" and "srv_storage srv = Some st"
  shows "calm (UploadImage_Execute NewImageRepository st rq)"
    "calm (DeleteImage_Execute NewImageRepository st i sub)"
  using assms unfolding outside_def UploadImage_Execute_def DeleteImage_Execute_def Let_def
  by (auto intro!: calm_rules)

lemma calm_worker: assumes "outside srv" shows "calm (runOnce (ogpWorker srv))"
  using assms unfolding outside_def runOnce_def process_def markFailed_def ogpWorker_def Worker.simps Let_def
  by (auto intro!: calm_rules)


lemma calm_handlers:
  "calm (handler_ListUsers NewUserRepository NewBadgeRepository r ctx)" "calm (handler_GetUser NewUserRepository NewBadgeRepository r ctx)"
  "calm (handler_ListPosts NewPostRepository mem_hydrator r ctx)" "calm (handler_GetPost NewPostRepository mem_hydrator r ctx)"
  "calm (handler_ListReplies NewPostRepository mem_hydrator r ctx)" "calm (handler_GetUserImages NewImageRepository r ctx)"
  "calm (handler_ListFollowers NewUserRepository NewFollowRepository r ctx)" "calm (handler_ListFollowing NewUserRepository NewFollowRepository r ctx)"
  "calm (handler_Home NewPostRepository NewFollowRepository mem_hydrator r ctx)" "calm (handler_UserTimeline NewPostRepository mem_hydrator r ctx)"
  "calm (handler_Global NewPostRepository mem_hydrator r ctx)" "calm (handler_ListBadges NewBadgeRepository r ctx)"
  "calm (handler_CreateBadge up NewBadgeRepository NewUserRepository cb r ctx)"
  "calm (handler_UpdateBadge up NewBadgeRepository NewUserRepository ub r ctx)"
  "calm (handler_GrantBadge NewBadgeRepository NewUserRepository gb r ctx)" "calm (handler_RevokeBadge NewBadgeRepository NewUserRepository r ctx)"
  unfolding handler_ListUsers_def handler_GetUser_def handler_ListPosts_def handler_GetPost_def handler_ListReplies_def
    handler_GetUserImages_def handler_ListFollowers_def handler_ListFollowing_def handler_Home_def handler_UserTimeline_def
    handler_Global_def handler_ListBadges_def handler_CreateBadge_def handler_UpdateBadge_def handler_GrantBadge_def handler_RevokeBadge_def
  by (intro calm_rules)+

lemma settled_images:
  "sys_ok N n s \<Longrightarrow> (\<And>st. srv_storage srv = Some st \<Longrightarrow> wp (h st r) (\<lambda>_ t. settled N n s t) s) \<Longrightarrow>
   wp (withImages srv h r) (\<lambda>_ t. settled N n s t) s"
  unfolding withImages_def by (cases "srv_storage srv") (simp_all add: settled_calm_call [OF _ calm_ret])

lemma steady_images: "(\<And>st. srv_storage srv = Some st \<Longrightarrow> steady (h st r)) \<Longrightarrow> steady (withImages srv h r)"
  unfolding withImages_def by (cases "srv_storage srv") (simp_all add: steady_calm [OF calm_ret])

lemma calm_status: "(\<And>ctx. calm (h r ctx)) \<Longrightarrow> calm (status_of h r)"
  unfolding status_of_def by (intro calm_rules)

lemma calm_Admin: "(\<And>ctx. calm (h r ctx)) \<Longrightarrow> calm (AdminMiddleware h r ctx)"
  unfolding AdminMiddleware_def by (intro calm_rules)

lemma adminChain_chain: "adminChain srv h = chain srv (AdminMiddleware h)"
  by (simp add: adminChain_def chain_def adminOnly_def authed_def)

lemma settled_answer:
  "wp m (\<lambda>_ t. settled N n s t) s' \<Longrightarrow> (\<And>x. calm (k x)) \<Longrightarrow> wp (answer m k) (\<lambda>_ t. settled N n s t) s'"
  unfolding answer_def by (erule settled_bind) (rule calm_shapes(1))

lemma settled_or_error:
  "sys_ok N n s \<Longrightarrow> (\<And>x. x = projr r \<Longrightarrow> wp (k x) (\<lambda>_ t. settled N n s t) s) \<Longrightarrow> wp (or_error r k) (\<lambda>_ t. settled N n s t) s"
  unfolding or_error_def by (cases r) (auto intro: settled_calm_call calm_responses)

lemma settled_caller:
  "sys_ok N n s \<Longrightarrow> (\<And>sub. GetSubFromContext ctx = Some sub \<Longrightarrow> wp (k sub) (\<lambda>_ t. settled N n s t) s) \<Longrightarrow>
   wp (with_caller ctx k) (\<lambda>_ t. settled N n s t) s"
  unfolding with_caller_def by (auto intro: settled_calm_call calm_responses split: option.split)

lemmas settled_shapes = settled_or_error settled_caller settled_answer

lemma chain_calm:
  "outside srv \<Longrightarrow> sys_ok N n s \<Longrightarrow> (\<And>ctx. calm (h r ctx)) \<Longrightarrow> wp (status_of (chain srv h) r) (\<lambda>_ t. settled N n s t) s"
  by (rule chain_settles) (simp_all add: settled_calm_call)

lemma me_settles:
  assumes out: "outside srv" and ok: "sys_ok N n s"
  shows "wp (handler_Me (userHydrateUC srv) NewBadgeRepository r ctx) (\<lambda>_ t. settled N n s t) s"
proof -
  have fin: "calm (answer (GetUserBadges_Execute NewBadgeRepository i) (\<lambda>bs. ret (f bs)))" for i and f :: "Badge list \<Rightarrow> selfUserView http_response"
    by (intro calm_rules)
  have hyd: "wp (GetOrHydrate_Execute (userHydrateUC srv) tok sub) (\<lambda>_ t. settled N n s t) s" for tok sub
    by (rule wp_mono [OF hydrate_keeps [OF out ok]]) (auto simp: hydrated_def settled_def intro: sys_ok_calm)
  show ?thesis
    unfolding handler_Me_def Let_def
    by (cases "GetCurrentUserFromContext ctx")
      (simp_all add: settled_calm_call [OF ok fin] settled_caller [OF ok settled_answer [OF hyd fin]])
qed

lemma calm_session:
  assumes "outside srv"
  shows "calm (AuthMiddleware (srv_client srv) (srv_cookieName srv) (Issue (srv_session srv)) r ctx)"
  using assms unfolding AuthMiddleware_def Issue_def outside_def Let_def
  by (intro calm_option calm_sum calm_bind calm_if calm_responses calm_ret calm_env) simp

lemma calm_uploads:
  assumes "outside srv" and "srv_storage srv = Some st"
  shows "calm (handler_UploadImage (srv_detect srv) NewImageRepository st f r ctx)"
    "calm (handler_DeleteImage NewImageRepository st r ctx)"
  unfolding handler_UploadImage_def handler_DeleteImage_def Let_def
  by (intro calm_shapes calm_if calm_responses calm_ret calm_storage [OF assms])+

lemma write_settles:
  assumes out: "outside srv" and n: "int n < max_int64" and ok: "sys_ok N n s"
  shows "wp (handler_CreatePost (postCreateUC srv) b r ctx) (\<lambda>_ t. settled N n s t) s"
    "wp (handler_DeletePost NewPostRepository r ctx) (\<lambda>_ t. settled N n s t) s"
    "wp (handler_LikePost NewPostRepository NewLikeRepository (srv_fujuLike srv) r ctx) (\<lambda>_ t. settled N n s t) s"
    "wp (handler_UnlikePost NewPostRepository NewLikeRepository r ctx) (\<lambda>_ t. settled N n s t) s"
    "wp (handler_Unfollow NewUserRepository NewFollowRepository r ctx) (\<lambda>_ t. settled N n s t) s"
    "wp (handler_UpdateUser NewUserRepository NewBadgeRepository pb r ctx) (\<lambda>_ t. settled N n s t) s"
  unfolding handler_CreatePost_def handler_DeletePost_def handler_LikePost_def handler_UnlikePost_def handler_Unfollow_def handler_UpdateUser_def
  by (intro settled_shapes ok create_settles [OF out ok n] delete_settles [OF ok n] like_settles [OF out ok n]
      unlike_settles [OF ok n] unfollow_settles [OF ok n] update_settles [OF ok] calm_ret calm_shapes(3) calm_usecases(11))+

lemma follow_handler_settles:
  assumes out: "outside srv" and n: "int n < max_int64" and ok: "sys_ok N n s"
    and "GetSubFromContext ctx = Some sub" "sub \<in> dom (get_map (m_users s))"
  shows "wp (handler_Follow NewUserRepository NewFollowRepository (srv_fujuFollow srv) r ctx) (\<lambda>_ t. settled N n s t) s"
  unfolding handler_Follow_def
  by (intro settled_shapes ok follow_settles [OF out ok n] calm_ret) (use assms(4,5) in simp)

lemma serve_settles:
  assumes out: "outside srv" and ok: "sys_ok N n s" and n: "int n < max_int64"
  shows "wp (serve srv rt r) (\<lambda>_ t. settled N n s t) s"
proof -
  note c = chain_calm [OF out ok] and g = settled_calm_call [OF ok calm_status]
  note w = chain_settles [OF out ok write_settles(1) [OF out n]] chain_settles [OF out ok write_settles(2) [OF out n]]
    chain_settles [OF out ok write_settles(3) [OF out n]] chain_settles [OF out ok write_settles(4) [OF out n]]
    chain_settles [OF out ok write_settles(5) [OF out n]] chain_settles [OF out ok write_settles(6) [OF out n]]
    chain_settles [OF out ok me_settles [OF out]] chain_settles [OF out ok follow_handler_settles [OF out n]]
  have revoke: "calm (Revoke (srv_session srv) r ctx)" for ctx by (simp add: Revoke_def calm_ret)
  show ?thesis
    by (cases rt)
      (simp_all only: serve.simps adminChain_chain w c [OF calm_Admin] c g calm_handlers calm_session [OF out] calm_uploads [OF out] settled_images [OF ok] revoke)
qed


section \<open>Runs\<close>

lemma step_settles:
  assumes "outside srv" and "sys_ok N n s" and "int n < max_int64"
  shows "settled N n s (step srv e s)"
proof (cases e)
  case (Request rt r)
  then show ?thesis using serve_settles [OF assms, of rt r] by (simp add: wp_def split: prod.splits)
next
  case WorkerCycle
  then show ?thesis
    using settled_calm_call [OF assms(2) calm_worker [OF assms(1)]] by (simp add: wp_def split: prod.splits)
qed

lemma run_events_Cons: "run_events srv (e # es) s = run_events srv es (step srv e s)"
  by (simp add: run_events_def)

text \<open>No step takes an id back.\<close>

lemma steady_sum [steady_rules]: "(\<And>y. steady (f y)) \<Longrightarrow> (\<And>y. steady (g y)) \<Longrightarrow> steady (case x of Inl y \<Rightarrow> f y | Inr y \<Rightarrow> g y)"
  by (cases x) auto

lemma steady_Upsert: "steady (users_Upsert NewUserRepository user)" "steady (users_UpdateProfile NewUserRepository sub rq)"
  by (auto intro!: steadyI simp: NewUserRepository_def UserRepository_UpdateProfile_def run_simps later_def split: option.split)

lemma steady_hydrate: assumes "outside srv" shows "steady (GetOrHydrate_Execute (userHydrateUC srv) tok sub)"
proof -
  have prof: "calm (client_GetProfile (srv_client srv) tok)" using assms by (simp add: outside_def)
  have "steady (lazyCreate (userHydrateUC srv) sub tok now)" "steady (refresh (userHydrateUC srv) u tok now)" for u now
    unfolding lazyCreate_def refresh_def userHydrateUC_fields Let_def
    by (intro steady_bind steady_bind_or steady_cases steady_sum steady_ret steady_calm [OF prof] steady_Upsert)+
  then show ?thesis
    unfolding GetOrHydrate_Execute_def userHydrateUC_fields
    by (intro steady_bind steady_bind_or steady_cases steady_ret steady_calm [OF calm_others(6)] steady_calm [OF calm_env(1)])
qed

lemma steady_shapes:
  fixes k :: "'a \<Rightarrow> (mem, 'b http_response) state" and k' :: "string \<Rightarrow> (mem, 'b http_response) state" and m :: "(mem, 'a) fallible"
  shows "(\<And>x. steady (k x)) \<Longrightarrow> steady (or_error r k)" "(\<And>x. steady (k' x)) \<Longrightarrow> steady (with_caller ctx k')"
    "steady m \<Longrightarrow> (\<And>x. steady (k x)) \<Longrightarrow> steady (answer m k)"
  unfolding or_error_def with_caller_def answer_def
  by (auto intro!: steady_bind steady_calm [OF calm_responses(1)] split: option.split sum.split)

lemma steady_chain:
  assumes out: "outside srv" and "\<And>ctx. steady (h r ctx)" shows "steady (status_of (chain srv h) r)"
  using assms unfolding status_of_def chain_def authed_def AuthMiddleware_def HydrateUserMiddleware_def outside_def
  by (intro steady_bind steady_cases steady_sum steady_ret steady_calm [OF calm_responses(2)] steady_calm [OF calm_responses(3)]
      steady_hydrate [OF out]) (auto intro: steady_calm)

lemma steady_Update: "steady (UpdateUserProfile_Execute NewUserRepository target current req)"
  unfolding UpdateUserProfile_Execute_def Let_def by (intro steady_cases steady_ret steady_bind_or steady_Upsert)

lemma steady_handlers:
  assumes "outside srv"
  shows "steady (handler_CreatePost (postCreateUC srv) b r ctx)" "steady (handler_DeletePost NewPostRepository r ctx)"
    "steady (handler_LikePost NewPostRepository NewLikeRepository (srv_fujuLike srv) r ctx)"
    "steady (handler_UnlikePost NewPostRepository NewLikeRepository r ctx)"
    "steady (handler_Follow NewUserRepository NewFollowRepository (srv_fujuFollow srv) r ctx)"
    "steady (handler_Unfollow NewUserRepository NewFollowRepository r ctx)"
    "steady (handler_UpdateUser NewUserRepository NewBadgeRepository pb r ctx)"
    "steady (handler_Me (userHydrateUC srv) NewBadgeRepository r ctx)"
  unfolding handler_CreatePost_def handler_DeletePost_def handler_LikePost_def handler_UnlikePost_def handler_Follow_def
    handler_Unfollow_def handler_UpdateUser_def handler_Me_def Let_def
  by (intro steady_shapes steady_cases steady_ret steady_create [OF assms] steady_additions [OF assms] steady_removals steady_Update
      steady_hydrate [OF assms] steady_calm [OF calm_usecases(11)])+

lemma steady_serve: assumes out: "outside srv" shows "steady (serve srv rt r)"
proof -
  note c = steady_chain [OF out steady_calm] and g = steady_calm [OF calm_status]
  note w = steady_handlers [OF out, THEN steady_chain [OF out]]
  have revoke: "calm (Revoke (srv_session srv) r ctx)" for ctx by (simp add: Revoke_def calm_ret)
  show ?thesis
    by (cases rt)
      (simp_all only: serve.simps adminChain_chain w c [OF calm_Admin] c g calm_handlers calm_session [OF out] calm_uploads [OF out] steady_images revoke)
qed

lemma run_later: assumes "outside srv" shows "later s (run_events srv es s)"
proof (induction es arbitrary: s)
  case (Cons e es)
  have "later s (step srv e s)"
    using steady_serve [OF assms] steady_calm [OF calm_worker [OF assms]] by (cases e) (simp_all add: steady_def)
  then show ?case using Cons.IH [of "step srv e s"] by (auto simp: run_events_Cons intro: later_trans)
qed (simp add: run_events_def)

text \<open>As long as the ids of a run are unique, the invariant holds at its end.\<close>

lemma run_ok:
  assumes "outside srv" and "sys_ok N n s" and "int n + int (length es) \<le> max_int64" and "rt_ids (run_events srv es s) \<le> N"
  shows "later s (run_events srv es s) \<and> sys_ok N (n + length es) (run_events srv es s)"
  using assms(2-)
proof (induction es arbitrary: n s)
  case (Cons e es)
  let ?s = "step srv e s"
  have e: "settled N n s ?s" using step_settles [OF assms(1) Cons.prems(1)] Cons.prems(2) by simp
  show ?case
  proof (cases "rt_ids ?s \<le> N")
    case True
    then have "sys_ok N (Suc n) ?s" using e by (simp add: settled_def)
    then show ?thesis
      using Cons.IH [of "Suc n" ?s] Cons.prems e by (auto simp: run_events_Cons settled_def intro: later_trans)
  next
    case False
    have "rt_ids ?s \<le> rt_ids (run_events srv es ?s)"
      using run_later [OF assms(1), of ?s es] by (simp add: later_def)
    then show ?thesis using False Cons.prems(3) by (simp add: run_events_Cons)
  qed
qed (simp add: run_events_def)

lemma get_map_empty: "get_map DAList.empty = Map.empty"
  by (simp add: fun_eq_iff)

lemma init_ok: "unique_ids N ulid \<Longrightarrow> sys_ok N 0 (init_mem clock ulid ord)"
  by (simp add: sys_ok_def init_mem_def mem_view_def counters_exact_def posts_ok_def likes_exact_def replies_exact_def
      follows_exact_def users_keyed_def small_def like_rows_def follow_rows_def live_def get_map_empty)

lemma run_from_init:
  assumes "outside srv" and "t = run_events srv es (init_mem clock ulid ord)" and "int (length es) \<le> max_int64"
    and "unique_ids (rt_ids t) ulid"
  shows "sys_ok (rt_ids t) (length es) t"
  using run_ok [OF assms(1) init_ok [OF assms(4), of clock ord], of es] assms(2,3) by simp

end
