(* ===== verification/Server_Relations.thy ===== *)
theory Server_Relations
  imports Server_Invariant
begin

text \<open>
  Relations between the states before and after. A relation that is transitive and allows the
  environment to move on (clock readings, ids, map ranges) holds along a whole run of the server
  as soon as it holds along its writes: the locale \<open>backend_relation\<close> collects the writes, and
  \<open>serve_along\<close> is the conclusion for every route. \<open>Server_Security\<close> and \<open>Server_Store\<close>
  interpret it.
\<close>

definition along :: "('s \<Rightarrow> 's \<Rightarrow> bool) \<Rightarrow> ('s, 'a) state \<Rightarrow> bool" where
  "along R m \<longleftrightarrow> (\<forall>s. R s (snd (run_state m s)))"

text \<open>The environment moves on, the store stays.\<close>

definition drift :: "mem \<Rightarrow> mem \<Rightarrow> bool" where
  "drift s t \<longleftrightarrow> (\<exists>i j k. t = s\<lparr>rt_ticks := i, rt_ids := j, rt_ranges := k\<rparr> \<and> rt_ids s \<le> j)"

lemma driftI: "t = s\<lparr>rt_ticks := i, rt_ids := j, rt_ranges := k\<rparr> \<Longrightarrow> rt_ids s \<le> j \<Longrightarrow> drift s t"
  by (auto simp: drift_def)

lemma drift_refl: "drift s s"
  by (rule driftI [where i = "rt_ticks s" and j = "rt_ids s" and k = "rt_ranges s"]) simp_all

lemma drift_trans: "drift s t \<Longrightarrow> drift t u \<Longrightarrow> drift s u"
  unfolding drift_def by clarsimp (metis (no_types, lifting) mem.update_convs order_trans runtime.update_convs)

lemma drift_later: "drift s t \<Longrightarrow> later s t"
  by (auto simp: drift_def later_def)

lemma drift_steps: "drift s (s\<lparr>rt_ticks := i\<rparr>)" "drift s (s\<lparr>rt_ranges := k\<rparr>)" "rt_ids s \<le> j \<Longrightarrow> drift s (s\<lparr>rt_ids := j\<rparr>)"
  by (rule driftI [where i = i and j = "rt_ids s" and k = "rt_ranges s"], simp_all)
    (rule driftI [where i = "rt_ticks s" and j = "rt_ids s" and k = k], simp_all,
     rule driftI [where i = "rt_ticks s" and j = j and k = "rt_ranges s"], simp_all)

locale mem_relation =
  fixes R :: "mem \<Rightarrow> mem \<Rightarrow> bool"
  assumes R_trans: "R s t \<Longrightarrow> R t u \<Longrightarrow> R s u" and R_drift: "drift s t \<Longrightarrow> R s t"
begin

lemma alongI: "(\<And>s x t. run_state m s = (x, t) \<Longrightarrow> R s t) \<Longrightarrow> along R m"
  by (simp add: along_def) (metis prod.collapse)

lemma along_bind: "along R m \<Longrightarrow> (\<And>x. along R (k x)) \<Longrightarrow> along R (m \<bind> k)"
  unfolding along_def by (auto split: prod.split) (metis R_trans snd_conv)

lemma along_ret: "along R (ret x)"
  by (simp add: along_def R_drift drift_refl)

lemma along_bind_or: "along R m \<Longrightarrow> (\<And>x. along R (k x)) \<Longrightarrow> along R (bind_or m wrap k)"
  unfolding bind_or_def by (intro along_bind) (auto intro: along_ret split: sum.split)

lemma along_cases:
  "(b \<Longrightarrow> along R m) \<Longrightarrow> (\<not> b \<Longrightarrow> along R m') \<Longrightarrow> along R (if b then m else m')"
  "along R m \<Longrightarrow> (\<And>y. along R (f y)) \<Longrightarrow> along R (case x of None \<Rightarrow> m | Some y \<Rightarrow> f y)"
  "(\<And>y. along R (g y)) \<Longrightarrow> (\<And>y. along R (h y)) \<Longrightarrow> along R (case z of Inl y \<Rightarrow> g y | Inr y \<Rightarrow> h y)"
  "(\<And>a b. along R (q a b)) \<Longrightarrow> along R (case w of (a, b) \<Rightarrow> q a b)"
  by (simp_all split: option.split sum.split prod.split)

lemma along_Let: "along R (f e) \<Longrightarrow> along R (let x = e in f x)"
  by simp

lemma along_env: "along R Now" "along R ulid_Make" "along R (map_range m)" "along R (gets f)"
  by (simp_all add: along_def run_simps R_drift drift_steps drift_refl)

lemma along_drift: "along drift m \<Longrightarrow> along R m"
  by (simp add: along_def R_drift)

lemma along_responses: "along R (WriteErrorResponse e)" "along R (writeAuthError c k m)" "along R (writeHydrateError e)"
  unfolding WriteErrorResponse_def buildErrorResponse_def writeAuthError_def writeHydrateError_def Let_def
  by (intro along_bind along_cases along_env along_ret)+

lemma along_shapes:
  "(\<And>x. along R (k x)) \<Longrightarrow> along R (or_error r k)" "(\<And>x. along R (k' x)) \<Longrightarrow> along R (with_caller ctx k')"
  "along R m \<Longrightarrow> (\<And>x. along R (k'' x)) \<Longrightarrow> along R (answer m k'')"
  unfolding or_error_def with_caller_def answer_def
  by (auto intro!: along_bind along_responses split: option.split sum.split)

lemmas along_rules = along_Let along_bind along_bind_or along_cases along_env along_ret along_responses along_shapes

end

interpretation drifting: mem_relation drift
  by unfold_locales (auto intro: drift_trans)

section \<open>Reading\<close>

text \<open>Reading moves the environment only.\<close>

lemma drift_tags_by_posts: "along drift (tags_by_posts pids out)"
  by (induction pids arbitrary: out) (auto simp: tagIDsByPost_def Let_def intro!: drifting.along_rules)

named_theorems drift_rules \<open>calls that leave the store alone\<close>

lemma drift_posts [drift_rules]:
  "along drift (posts_GetByID NewPostRepository i)" "along drift (posts_List NewPostRepository u c n)"
  "along drift (posts_ListByUserIDs NewPostRepository us c n)" "along drift (posts_ListReplies NewPostRepository i c n)"
  unfolding NewPostRepository_def PostRepository.simps PostRepository_GetByID_def PostRepository_List_def
    PostRepository_ListByUserIDs_def PostRepository_ListReplies_def collectDescending_def
  by (intro drifting.along_rules)+

lemma drift_images [drift_rules]:
  "along drift (images_GetByID NewImageRepository i)" "along drift (images_GetByUserID NewImageRepository u)"
  "along drift (images_ListByPostID NewImageRepository i)" "along drift (images_ListByPostIDs NewImageRepository is)"
  unfolding NewImageRepository_def ImageRepository.simps ImageRepository_GetByID_def ImageRepository_GetByUserID_def
    ImageRepository_ListByPostID_def ImageRepository_ListByPostIDs_def
  by (intro drifting.along_rules)+

lemma drift_badges [drift_rules]:
  "along drift (badges_ListAll NewBadgeRepository)" "along drift (badges_GetByKey NewBadgeRepository k)"
  "along drift (badges_GetByID NewBadgeRepository i)" "along drift (badges_ListByUserID NewBadgeRepository u)"
  "along drift (badges_ListByUserIDs NewBadgeRepository us)"
  unfolding NewBadgeRepository_def BadgeRepository.simps BadgeRepository_ListAll_def BadgeRepository_GetByKey_def
    BadgeRepository_GetByID_def BadgeRepository_ListByUserID_def BadgeRepository_ListByUserIDs_def
  by (intro drifting.along_rules)+

lemma drift_others [drift_rules]:
  "along drift (tags_ListByPostIDs NewTagRepository is)" "along drift (ogp_ListByPostIDs NewOGPCacheRepository is)"
  "along drift (ogp_Get NewOGPCacheRepository h)"
  "along drift (likes_ListLikedPostIDsByUser NewLikeRepository u is)" "along drift (follows_AreFollowing NewFollowRepository v ts)"
  "along drift (follows_ListFollowingSubs NewFollowRepository v)" "along drift (follows_ListFollowers NewFollowRepository v c n)"
  "along drift (follows_ListFollowing NewFollowRepository v c n)" "along drift (users_GetBySub NewUserRepository v)"
  "along drift (users_List NewUserRepository l off)" "along drift (users_ListBySubs NewUserRepository ts)"
  unfolding NewTagRepository_def TagRepository.simps TagRepository_ListByPostIDs_def NewOGPCacheRepository_def OGPCacheRepository.simps
    OGPCacheRepository_ListByPostIDs_def OGPCacheRepository_Get_def
    NewLikeRepository_def LikeRepository.simps NewFollowRepository_def FollowRepository.simps NewUserRepository_def
    UserRepository.simps LikeRepository_ListLikedPostIDsByUser_def FollowRepository_AreFollowing_def
    FollowRepository_ListFollowingSubs_def FollowRepository_ListFollowers_def FollowRepository_ListFollowing_def listSide_def
    UserRepository_GetBySub_def UserRepository_List_def UserRepository_ListBySubs_def
  by (intro drifting.along_rules drift_tags_by_posts)+

lemma drift_hydrator [drift_rules]:
  "along drift (Hydrate mem_hydrator posts viewer)" "along drift (hydrate_page mem_hydrator viewer page)"
  "along drift (HydrateOne mem_hydrator p viewer)"
proof -
  show h: "along drift (Hydrate mem_hydrator posts viewer)" for posts viewer
    unfolding Hydrate_def Let_def mem_hydrator_def Hydrator.simps
    by (intro drifting.along_rules drift_images drift_others)
  show "along drift (hydrate_page mem_hydrator viewer page)" "along drift (HydrateOne mem_hydrator p viewer)"
    unfolding hydrate_page_def HydrateOne_def by (intro drifting.along_rules h)+
qed

lemma drift_admin [drift_rules]: "along drift (ensureAdmin NewUserRepository sub)"
  unfolding ensureAdmin_def IsAdmin_def by (intro drifting.along_rules drift_rules)

lemma drift_usecases [drift_rules]:
  "along drift (GetPost_Execute NewPostRepository mem_hydrator i v)" "along drift (ListPosts_Execute NewPostRepository mem_hydrator uo c k v)"
  "along drift (ListReplies_Execute NewPostRepository mem_hydrator i c k v)"
  "along drift (HomeTimeline_Execute NewPostRepository NewFollowRepository mem_hydrator i c k)"
  "along drift (UserTimeline_Execute NewPostRepository mem_hydrator i c k v)"
  "along drift (GlobalTimeline_Execute NewPostRepository mem_hydrator c k v)"
  "along drift (ListFollowers_Execute NewUserRepository NewFollowRepository i c k)"
  "along drift (ListFollowing_Execute NewUserRepository NewFollowRepository i c k)"
  "along drift (GetUser_Execute NewUserRepository i)" "along drift (ListUsers_Execute NewUserRepository k off)"
  "along drift (GetUserBadges_Execute NewBadgeRepository i)" "along drift (ListUserBadgesBatch_Execute NewBadgeRepository is)"
  "along drift (ListBadges_Execute NewBadgeRepository)" "along drift (GetUserImages_Execute NewImageRepository i)"
  unfolding GetPost_Execute_def ListPosts_Execute_def ListReplies_Execute_def HomeTimeline_Execute_def UserTimeline_Execute_def
    GlobalTimeline_Execute_def ListFollowers_Execute_def ListFollowing_Execute_def GetUser_Execute_def ListUsers_Execute_def
    GetUserBadges_Execute_def ListUserBadgesBatch_Execute_def ListBadges_Execute_def GetUserImages_Execute_def Let_def
  by (intro drifting.along_rules drift_posts drift_images drift_badges drift_others drift_hydrator)+

lemma drift_handlers [drift_rules]:
  "along drift (handler_ListUsers NewUserRepository NewBadgeRepository r ctx)" "along drift (handler_GetUser NewUserRepository NewBadgeRepository r ctx)"
  "along drift (handler_ListPosts NewPostRepository mem_hydrator r ctx)" "along drift (handler_GetPost NewPostRepository mem_hydrator r ctx)"
  "along drift (handler_ListReplies NewPostRepository mem_hydrator r ctx)" "along drift (handler_GetUserImages NewImageRepository r ctx)"
  "along drift (handler_ListFollowers NewUserRepository NewFollowRepository r ctx)"
  "along drift (handler_ListFollowing NewUserRepository NewFollowRepository r ctx)"
  "along drift (handler_Home NewPostRepository NewFollowRepository mem_hydrator r ctx)"
  "along drift (handler_UserTimeline NewPostRepository mem_hydrator r ctx)"
  "along drift (handler_Global NewPostRepository mem_hydrator r ctx)" "along drift (handler_ListBadges NewBadgeRepository r ctx)"
  unfolding handler_ListUsers_def handler_GetUser_def handler_ListPosts_def handler_GetPost_def handler_ListReplies_def
    handler_GetUserImages_def handler_ListFollowers_def handler_ListFollowing_def handler_Home_def handler_UserTimeline_def
    handler_Global_def handler_ListBadges_def
  by (intro drifting.along_rules drift_usecases)+

section \<open>Writing\<close>

text \<open>What is outside the process does not touch the store: AuthCore, the object store, the fuju
  dispatcher and the fetcher of link previews.\<close>

definition detached :: "server \<Rightarrow> bool" where
  "detached srv \<longleftrightarrow>
     (\<forall>tok. along drift (client_Introspect (srv_client srv) tok) \<and> along drift (client_GetProfile (srv_client srv) tok)) \<and>
     (\<forall>u. along drift (ogp_Fetch (srv_ogp srv) u)) \<and>
     (\<forall>h p. srv_fujuPost srv = Some h \<longrightarrow> along drift (h p)) \<and>
     (\<forall>h a b. srv_fujuLike srv = Some h \<longrightarrow> along drift (h a b)) \<and>
     (\<forall>h a b. srv_fujuFollow srv = Some h \<longrightarrow> along drift (h a b)) \<and>
     (\<forall>st. srv_storage srv = Some st \<longrightarrow> (\<forall>rq. along drift (storage_Upload st rq)) \<and> (\<forall>k. along drift (storage_Delete st k)))"

lemma drift_view: "drift s t \<Longrightarrow> mem_view t = mem_view s"
  by (auto simp: drift_def)

lemma drift_calm: "along drift m \<Longrightarrow> calm m"
  by (auto simp: along_def calm_def drift_view drift_later)

lemma detached_outside: "detached srv \<Longrightarrow> outside srv"
  by (auto simp: detached_def outside_def intro: drift_calm)

lemma detached_calls:
  assumes "detached srv"
  shows "along drift (client_Introspect (srv_client srv) tok)" "along drift (client_GetProfile (srv_client srv) tok)"
    "along drift (ogp_Fetch (srv_ogp srv) url)" "srv_storage srv = Some st \<Longrightarrow> along drift (storage_Upload st rq)"
    "srv_storage srv = Some st \<Longrightarrow> along drift (storage_Delete st key)"
    "along drift (case srv_fujuPost srv of Some h \<Rightarrow> h post | None \<Rightarrow> ret ())"
    "along drift (case srv_fujuLike srv of Some h \<Rightarrow> h a b | None \<Rightarrow> ret ())"
    "along drift (case srv_fujuFollow srv of Some h \<Rightarrow> h a b | None \<Rightarrow> ret ())"
  using assms by (auto simp: detached_def intro: drifting.along_ret split: option.split)

text \<open>The writes of the backend. Where a write is right only in its place in a use case (a row with a
  fresh id, a check of the caller), the law is about the use case.\<close>

locale backend_relation = mem_relation +
  assumes likes: "along R (likes_Create NewLikeRepository u p)" "along R (likes_Delete NewLikeRepository u p)"
    and follows: "along R (follows_Create NewFollowRepository a b)" "along R (follows_Delete NewFollowRepository a b)"
    and posts: "along R (posts_Delete NewPostRepository p)" "along R (posts_DecrementRepliesCount NewPostRepository p)"
      "along R (posts_IncrementLikesCount NewPostRepository p)" "along R (posts_DecrementLikesCount NewPostRepository p)"
    and users: "along R (users_IncrementFollowersCount NewUserRepository a)" "along R (users_DecrementFollowersCount NewUserRepository a)"
      "along R (users_IncrementFollowingCount NewUserRepository a)" "along R (users_DecrementFollowingCount NewUserRepository a)"
      "along R (users_UpdateProfile NewUserRepository a rq)"
    and images: "along R (images_Create NewImageRepository im)" "along R (images_Delete NewImageRepository i)"
    and badges: "along R (GrantBadge_Execute NewBadgeRepository NewUserRepository a b gr)"
      "along R (RevokeBadge_Execute NewBadgeRepository NewUserRepository a b i)"
      "along R (CreateBadge_Execute up NewBadgeRepository NewUserRepository a bo)"
      "along R (UpdateBadge_Execute up NewBadgeRepository NewUserRepository a i bo)"
    and hydrating: "detached srv \<Longrightarrow> along R (GetOrHydrate_Execute (userHydrateUC srv) tok sub)"
    and creates: "along R (tags_UpsertByNames NewTagRepository ns)" "along R (posts_Create NewPostRepository post imgs ts)"
      "along R (posts_IncrementRepliesCount NewPostRepository p)" "along R (posts_AttachOGP NewPostRepository p h k)"
      "along R (jobs_Enqueue NewOGPJobQueue i h url p k)"
    and working: "detached srv \<Longrightarrow> along R (runOnce (ogpWorker srv))"
begin

lemma enqueuing: "along R (EnqueueForPost (ogpEnqueuer srv) post)"
proof -
  have url: "along R (enqueue_url (ogpEnqueuer srv) post now k raw)" for now k raw
    unfolding enqueue_url_def ogpEnqueuer_def Enqueuer.simps Let_def
    by (intro along_rules creates along_drift [OF drift_others(3)])
  have "along R (enqueue_urls (ogpEnqueuer srv) post now k urls)" for now k urls
    by (induction urls arbitrary: k) (simp_all add: along_ret along_bind url)
  then show ?thesis unfolding EnqueueForPost_def Let_def by (intro along_rules)
qed

lemma creating:
  assumes "detached srv"
  shows "along R (CreatePost_Execute (postCreateUC srv) u req)"
proof -
  have check: "along R (check_images NewImageRepository u ids)" for u ids
    by (induction ids) (auto intro!: along_rules along_drift [OF drift_images(1)])
  have root: "along R (resolve_root NewPostRepository parent)" for parent
    unfolding resolve_root_def by (intro along_rules along_drift [OF drift_posts(1)])
  have hook: "along R (composeCreatePostHooks [Some (EnqueueForPost (ogpEnqueuer srv)), srv_fujuPost srv] post)" for post
    unfolding composeCreatePostHooks.simps option.case
    by (intro along_bind along_ret enqueuing along_drift [OF detached_calls(6) [OF assms]])
  show ?thesis
    unfolding CreatePost_Execute_def store_post_def Let_def postCreateUC_def createHook_def CreatePostUseCase.simps option.case
    by (intro along_rules root check creates hook along_drift [OF drift_images(3)])
qed

lemma write_usecases:
  assumes "detached srv"
  shows "along R (UnlikePost_Execute NewPostRepository NewLikeRepository u p)"
    "along R (DeletePost_Execute NewPostRepository p u)"
    "along R (Unfollow_Execute NewUserRepository NewFollowRepository u p)"
    "along R (LikePost_Execute NewPostRepository NewLikeRepository (srv_fujuLike srv) u p)"
    "along R (Follow_Execute NewUserRepository NewFollowRepository (srv_fujuFollow srv) u p)"
    "along R (UpdateUserProfile_Execute NewUserRepository p u rq)"
    "srv_storage srv = Some st \<Longrightarrow> along R (UploadImage_Execute NewImageRepository st up)"
    "srv_storage srv = Some st \<Longrightarrow> along R (DeleteImage_Execute NewImageRepository st i u)"
  unfolding UnlikePost_Execute_def DeletePost_Execute_def Unfollow_Execute_def LikePost_Execute_def Follow_Execute_def
    UpdateUserProfile_Execute_def UploadImage_Execute_def DeleteImage_Execute_def Let_def
  by ((intro along_rules likes follows posts users images along_drift [OF drift_posts(1)] along_drift [OF drift_others(9)]
      along_drift [OF drift_images(1)] detached_calls [OF assms, THEN along_drift]) | assumption)+

lemma write_handlers:
  assumes "detached srv"
  shows "along R (handler_CreatePost (postCreateUC srv) b r ctx)" "along R (handler_DeletePost NewPostRepository r ctx)"
    "along R (handler_LikePost NewPostRepository NewLikeRepository (srv_fujuLike srv) r ctx)"
    "along R (handler_UnlikePost NewPostRepository NewLikeRepository r ctx)"
    "along R (handler_Follow NewUserRepository NewFollowRepository (srv_fujuFollow srv) r ctx)"
    "along R (handler_Unfollow NewUserRepository NewFollowRepository r ctx)"
    "along R (handler_UpdateUser NewUserRepository NewBadgeRepository pb r ctx)"
    "along R (handler_Me (userHydrateUC srv) NewBadgeRepository r ctx)"
    "srv_storage srv = Some st \<Longrightarrow> along R (handler_UploadImage (srv_detect srv) NewImageRepository st f r ctx)"
    "srv_storage srv = Some st \<Longrightarrow> along R (handler_DeleteImage NewImageRepository st r ctx)"
    "along R (handler_CreateBadge up NewBadgeRepository NewUserRepository cb r ctx)"
    "along R (handler_UpdateBadge up NewBadgeRepository NewUserRepository ub r ctx)"
    "along R (handler_GrantBadge NewBadgeRepository NewUserRepository gb r ctx)"
    "along R (handler_RevokeBadge NewBadgeRepository NewUserRepository r ctx)"
  unfolding handler_CreatePost_def handler_DeletePost_def handler_LikePost_def handler_UnlikePost_def handler_Follow_def
    handler_Unfollow_def handler_UpdateUser_def handler_Me_def handler_UploadImage_def handler_DeleteImage_def
    handler_CreateBadge_def handler_UpdateBadge_def handler_GrantBadge_def handler_RevokeBadge_def Let_def
  by ((intro along_rules write_usecases [OF assms] creating [OF assms] hydrating [OF assms] badges along_drift [OF drift_usecases(11)]) | assumption)+

lemma along_status: "(\<And>ctx. along R (h r ctx)) \<Longrightarrow> along R (status_of h r)"
  unfolding status_of_def by (intro along_rules)

lemma along_Auth:
  assumes "detached srv" and "\<And>ctx. along R (h r ctx)"
  shows "along R (AuthMiddleware (srv_client srv) (srv_cookieName srv) h r ctx)"
  unfolding AuthMiddleware_def
  by (intro along_rules assms detached_calls(1) [OF assms(1), THEN along_drift])

lemma along_chain:
  assumes "detached srv" and "\<And>ctx. along R (h r ctx)"
  shows "along R (chain srv h r ctx)"
  unfolding chain_def authed_def HydrateUserMiddleware_def
  by (intro along_Auth along_rules assms hydrating)

lemma along_Admin: "(\<And>ctx. along R (h r ctx)) \<Longrightarrow> along R (AdminMiddleware h r ctx)"
  unfolding AdminMiddleware_def by (intro along_rules)

lemma along_session: "along R (Issue cfg r ctx)" "along R (Revoke cfg r ctx)"
  unfolding Issue_def Revoke_def by (intro along_rules)+

lemma along_images: "(\<And>st. srv_storage srv = Some st \<Longrightarrow> along R (h st r)) \<Longrightarrow> along R (withImages srv h r)"
  unfolding withImages_def by (cases "srv_storage srv") (simp_all add: along_ret)

lemma serve_along:
  assumes d: "detached srv" shows "along R (serve srv rt r)"
  by (cases rt)
    (simp_all only: serve.simps adminChain_chain along_status along_Auth [OF d] along_chain [OF d] along_Admin write_handlers [OF d]
      along_images along_session drift_handlers [THEN along_drift])

lemma step_along: "detached srv \<Longrightarrow> R s (step srv e s)"
  using serve_along [unfolded along_def] working [unfolded along_def] by (cases e) simp_all

lemma run_along: "detached srv \<Longrightarrow> R s (run_events srv es s)"
  by (induction es arbitrary: s)
    (auto simp: run_events_Cons intro: R_trans step_along, simp add: run_events_def R_drift drift_refl)

end

end
