(* ===== verification/Server_Security.thy ===== *)
theory Server_Security
  imports Server_Relations
begin

text \<open>
  Who may do what, over whole runs: no request makes an administrator, a badge is granted only by
  one, and without an administrator the badge tables do not change at all.
\<close>

definition admins :: "mem \<Rightarrow> string set" where
  "admins s = {sub. \<exists>u. get_map (m_users s) sub = Some u \<and> User_IsAdmin u}"

definition same_badges :: "mem \<Rightarrow> mem \<Rightarrow> bool" where
  "same_badges s t \<longleftrightarrow> m_badges t = m_badges s \<and> m_badgeByKey t = m_badgeByKey s \<and> m_userBadges t = m_userBadges s"

definition guarded :: "mem \<Rightarrow> mem \<Rightarrow> bool" where
  "guarded s t \<longleftrightarrow> (users_keyed (mem_view s) \<longrightarrow> users_keyed (mem_view t) \<and> admins t \<subseteq> admins s \<and>
     (\<forall>k ub. get_map (m_userBadges t) k = Some ub \<longrightarrow> get_map (m_userBadges s) k = Some ub \<or> UB_GrantedBy ub \<in> admins s) \<and>
     (admins s = {} \<longrightarrow> same_badges s t))"

lemma guardedI:
  "(users_keyed (mem_view s) \<Longrightarrow> users_keyed (mem_view t) \<and> admins t \<subseteq> admins s) \<Longrightarrow> same_badges s t \<Longrightarrow> guarded s t"
  by (simp add: guarded_def same_badges_def)

lemma guarded_unkeyed: "\<not> users_keyed (mem_view s) \<Longrightarrow> guarded s t"
  by (simp add: guarded_def)

lemma guarded_other: "m_users t = m_users s \<Longrightarrow> same_badges s t \<Longrightarrow> guarded s t"
  by (rule guardedI) (simp_all only: admins_def users_keyed_def mem_view_fields order_refl simp_thms)

lemma guarded_trans:
  assumes s: "guarded s t" and t: "guarded t u"
  shows "guarded s u"
  unfolding guarded_def
proof (intro impI conjI allI)
  assume "users_keyed (mem_view s)"
  then have s': "users_keyed (mem_view t)" "admins t \<subseteq> admins s"
      "\<And>k ub. get_map (m_userBadges t) k = Some ub \<Longrightarrow> get_map (m_userBadges s) k = Some ub \<or> UB_GrantedBy ub \<in> admins s"
      "admins s = {} \<Longrightarrow> same_badges s t"
    using s by (simp_all only: guarded_def simp_thms)
  then have t': "users_keyed (mem_view u)" "admins u \<subseteq> admins t"
      "\<And>k ub. get_map (m_userBadges u) k = Some ub \<Longrightarrow> get_map (m_userBadges t) k = Some ub \<or> UB_GrantedBy ub \<in> admins t"
      "admins t = {} \<Longrightarrow> same_badges t u"
    using t by (simp_all only: guarded_def simp_thms)
  show "users_keyed (mem_view u)" by (rule t')
  show "admins u \<subseteq> admins s" using s' t' by blast
  show "get_map (m_userBadges s) k = Some ub \<or> UB_GrantedBy ub \<in> admins s" if "get_map (m_userBadges u) k = Some ub" for k ub
    using s'(2,3) t'(3) that by blast
  show "same_badges s u" if "admins s = {}"
    using s'(2,4) t'(4) that by (simp add: same_badges_def)
qed

interpretation guarding: mem_relation guarded
  by unfold_locales (auto intro: guarded_trans guarded_other simp: drift_def same_badges_def)

text \<open>Writes to the row of a user that leave the admin flag.\<close>

lemma keyed_update:
  assumes "get_map (m_users t) = (get_map (m_users s))(sub \<mapsto> w)" and "User_Sub w = sub" and "User_IsAdmin w \<Longrightarrow> sub \<in> admins s"
    and "users_keyed (mem_view s)"
  shows "users_keyed (mem_view t) \<and> admins t \<subseteq> admins s"
  using assms by (auto simp: admins_def users_keyed_def split: if_splits)

lemma guarded_on_user:
  assumes "\<And>u. User_IsAdmin (f u) = User_IsAdmin u" "\<And>u. User_Sub (f u) = User_Sub u"
  shows "guarded s (on_user sub f s)"
  using assms
  by (intro guardedI) (auto simp: admins_def users_keyed_def same_badges_def on_user_def split: option.splits if_splits)

lemma guarded_Upsert:
  assumes "get_map (m_users s) (User_Sub user) = None \<Longrightarrow> \<not> User_IsAdmin user"
  shows "wp (users_Upsert NewUserRepository user) (\<lambda>_ t. guarded s t) s"
proof -
  let ?w = "upsert_row (get_map (m_users s) (User_Sub user)) user (rt_clock s (rt_ticks s))"
  have w: "User_Sub user \<in> admins s" if "User_IsAdmin ?w"
    using assms that by (cases "get_map (m_users s) (User_Sub user)") (simp_all add: admins_def upsert_row_new upsert_row_preserves [OF refl])
  have "guarded s (s\<lparr>rt_ticks := Suc (rt_ticks s), m_users := set_map (User_Sub user) ?w (m_users s)\<rparr>)"
    by (intro guardedI keyed_update [OF _ _ w]) (auto simp: same_badges_def upsert_row_counts)
  then show ?thesis by (simp add: wp_def NewUserRepository_def run_simps Let_def)
qed

lemma guarded_hydrate:
  assumes d: "detached srv"
  shows "along guarded (GetOrHydrate_Execute (userHydrateUC srv) tok sub)"
proof (rule guarding.alongI)
  fix s r t assume run: "run_state (GetOrHydrate_Execute (userHydrateUC srv) tok sub) s = (r, t)"
  have prof: "wp (client_GetProfile (srv_client srv) tok) (\<lambda>_ t. drift s t) s" for s
    using detached_calls(2) [OF d, of tok] by (simp add: along_def wp_def split: prod.split) (metis snd_conv)
  have upsert: "wp (users_Upsert NewUserRepository user) (\<lambda>_ t. guarded s t) s'"
    if "drift s s'" "get_map (m_users s) (User_Sub user) = None \<Longrightarrow> \<not> User_IsAdmin user" for user s'
    by (rule wp_mono [OF guarded_Upsert])
      (use that guarding.R_trans [OF guarding.R_drift [OF that(1)]] in \<open>auto simp: drift_def\<close>)
  have new: "wp (lazyCreate (userHydrateUC srv) sub tok now) (\<lambda>_ t. guarded s t) s'" if "drift s s'" for now s'
    unfolding lazyCreate_def userHydrateUC_fields
    by (intro wp_rules) (auto intro!: wp_rules wp_mono [OF prof] wp_mono [OF upsert] drift_trans [OF that] drift_refl
        guarding.R_drift simp: zero_user_def applyProfile_def Let_def split: sum.split)
  have old: "wp (refresh (userHydrateUC srv) u tok now) (\<lambda>_ t. guarded s t) s'"
    if "drift s s'" "get_map (m_users s) (User_Sub u) \<noteq> None" for u now s'
    unfolding refresh_def userHydrateUC_fields
    by (intro wp_rules) (use that in \<open>auto intro!: wp_rules wp_mono [OF prof] wp_mono [OF upsert] drift_trans [OF that(1)] drift_refl
        guarding.R_drift simp: applyProfile_def Let_def split: sum.split\<close>)
  have "wp (GetOrHydrate_Execute (userHydrateUC srv) tok sub) (\<lambda>_ t. guarded s t) s" if "users_keyed (mem_view s)"
    using that unfolding GetOrHydrate_Execute_def userHydrateUC_fields
    by (auto intro!: wp_rules wp_GetBySub new old guarding.R_drift drift_refl drift_steps split: option.split
        simp: users_keyed_def)
  then show "guarded s t"
    using wpD [OF _ run, of "\<lambda>_ t. guarded s t"] guarded_unkeyed by (cases "users_keyed (mem_view s)") blast+
qed

section \<open>Badges\<close>

lemma wp_ensureAdmin:
  "(\<And>e. Q (Inl e) s) \<Longrightarrow> (a \<in> admins s \<Longrightarrow> Q (Inr ()) s) \<Longrightarrow> wp (ensureAdmin NewUserRepository a) Q s"
  unfolding ensureAdmin_def IsAdmin_def
  by (auto intro!: wp_rules wp_GetBySub simp: admins_def split: option.split)

text \<open>A write by an administrator that leaves the users alone.\<close>

lemma guarded_by_admin:
  assumes "a \<in> admins s" and "m_users t = m_users s"
    and "\<And>k ub. get_map (m_userBadges t) k = Some ub \<Longrightarrow> get_map (m_userBadges s) k = Some ub \<or> UB_GrantedBy ub \<in> admins s"
  shows "guarded s t"
proof -
  have "admins t = admins s" "users_keyed (mem_view t) = users_keyed (mem_view s)"
    using assms(2) by (simp_all only: admins_def users_keyed_def mem_view_fields)
  then show ?thesis using assms(1,3) unfolding guarded_def by blast
qed

lemma guarded_badge_usecases:
  "along guarded (GrantBadge_Execute NewBadgeRepository NewUserRepository a b gr)"
  "along guarded (RevokeBadge_Execute NewBadgeRepository NewUserRepository a b i)"
  "along guarded (CreateBadge_Execute up NewBadgeRepository NewUserRepository a bo)"
  "along guarded (UpdateBadge_Execute up NewBadgeRepository NewUserRepository a i bo')"
proof -
  have along_wp: "along guarded m" if "\<And>s. wp m (\<lambda>_ t. guarded s t) s" for m :: "(mem, 'x) state"
    using that by (auto intro!: guarding.alongI dest: wpD)
  have refl: "guarded s s" for s by (rule guarding.R_drift [OF drift_refl])
  have key: "wp (badges_GetByKey NewBadgeRepository k) Q s" if "\<And>r. Q r s" for k Q s
    using that by (simp add: NewBadgeRepository_def BadgeRepository_GetByKey_def wp_def run_simps)
  have gid: "wp (badges_GetByID NewBadgeRepository k) Q s" if "\<And>r. Q r s" for k Q s
    using that by (simp add: NewBadgeRepository_def BadgeRepository_GetByID_def wp_def run_simps)
  have grant: "wp (badges_Grant NewBadgeRepository b k a e w) (\<lambda>_ t. guarded s t) s" if "a \<in> admins s" for s k e w
    using that by (auto simp: NewBadgeRepository_def BadgeRepository_Grant_def wp_def run_simps intro!: guarded_by_admin split: if_splits)
  have revoke: "wp (badges_Revoke NewBadgeRepository b k) (\<lambda>_ t. guarded s t) s" if "a \<in> admins s" for s k
    using that by (auto simp: NewBadgeRepository_def BadgeRepository_Revoke_def wp_def run_simps lookup_delete intro!: guarded_by_admin split: if_splits)
  have create: "wp (badges_Create NewBadgeRepository bd) (\<lambda>_ t. guarded s t) s'"
    if "a \<in> admins s" "drift s s'" for s s' bd
    using that by (auto simp: NewBadgeRepository_def BadgeRepository_Create_def wp_def run_simps Let_def drift_def intro!: guarded_by_admin)
  have update: "wp (badges_Update NewBadgeRepository bd) (\<lambda>_ t. guarded s t) s" if "a \<in> admins s" for s bd
    using that by (auto simp: NewBadgeRepository_def BadgeRepository_Update_def wp_def run_simps Let_def intro!: guarded_by_admin refl split: option.split)
  show "along guarded (GrantBadge_Execute NewBadgeRepository NewUserRepository a b gr)"
    unfolding GrantBadge_Execute_def
    by (intro along_wp wp_bind_or wp_ensureAdmin)
      (auto intro!: wp_rules key wp_GetBySub refl wp_mono [OF grant] split: sum.split)
  show "along guarded (RevokeBadge_Execute NewBadgeRepository NewUserRepository a b i)"
    unfolding RevokeBadge_Execute_def
    by (intro along_wp wp_bind_or wp_ensureAdmin) (auto intro!: wp_rules refl wp_mono [OF revoke] split: sum.split)
  show "along guarded (CreateBadge_Execute up NewBadgeRepository NewUserRepository a bo)"
    unfolding CreateBadge_Execute_def
    by (intro along_wp wp_bind_or wp_ensureAdmin)
      (auto intro!: wp_rules key refl wp_mono [OF create] drift_steps split: sum.split)
  show "along guarded (UpdateBadge_Execute up NewBadgeRepository NewUserRepository a i bo')"
    unfolding UpdateBadge_Execute_def Let_def
    by (intro along_wp wp_bind_or wp_ensureAdmin)
      (auto intro!: wp_rules gid refl wp_mono [OF update] split: sum.split)
qed

section \<open>The other writes\<close>

lemma guarded_modify:
  "along guarded (modify (m_likes_update f))" "along guarded (modify (m_follows_update f'))" "along guarded (modify (m_images_update f1))"
  "along guarded (modify (m_posts_update f2))" "along guarded (modify (m_links_update f3))" "along guarded (modify (m_jobs_update f4))"
  "along guarded (modify (m_tags_update f5))" "along guarded (modify (m_tagByName_update f6))" "along guarded (modify (m_ogpRows_update f7))"
  by (simp_all add: along_def run_simps guarded_other same_badges_def)

lemma guarded_writes:
  "along guarded (likes_Create NewLikeRepository u p)" "along guarded (likes_Delete NewLikeRepository u p)"
  "along guarded (follows_Create NewFollowRepository a b)" "along guarded (follows_Delete NewFollowRepository a b)"
  "along guarded (images_Create NewImageRepository im)" "along guarded (images_Delete NewImageRepository i)"
  "along guarded (jobs_Enqueue NewOGPJobQueue i h url p k)" "along guarded (jobs_Claim NewOGPJobQueue w)"
  "along guarded (jobs_MarkDone NewOGPJobQueue i)" "along guarded (jobs_MarkFailed NewOGPJobQueue i e fl)"
  "along guarded (ogp_Upsert NewOGPCacheRepository pv)"
  unfolding NewLikeRepository_def LikeRepository.simps NewFollowRepository_def FollowRepository.simps NewImageRepository_def
    ImageRepository.simps NewOGPJobQueue_def OGPJobQueue.simps NewOGPCacheRepository_def OGPCacheRepository.simps
    LikeRepository_Create_def LikeRepository_Delete_def FollowRepository_Create_def FollowRepository_Delete_def
    ImageRepository_Create_def ImageRepository_Delete_def OGPJobQueue_Enqueue_def OGPJobQueue_Claim_def OGPJobQueue_MarkDone_def
    OGPJobQueue_MarkFailed_def OGPCacheRepository_Upsert_def Let_def
  by (intro guarding.along_rules guarded_modify)+

lemma guarded_posts:
  "along guarded (posts_Create NewPostRepository post imgs ts)" "along guarded (posts_Delete NewPostRepository p)"
  "along guarded (posts_AttachOGP NewPostRepository p h k)" "along guarded (posts_IncrementRepliesCount NewPostRepository p)"
  "along guarded (posts_DecrementRepliesCount NewPostRepository p)" "along guarded (posts_IncrementLikesCount NewPostRepository p)"
  "along guarded (posts_DecrementLikesCount NewPostRepository p)"
  by (auto simp: along_def NewPostRepository_def run_simps same_badges_def on_live_post_def Let_def intro!: guarded_other split: option.split)

lemma guarded_tags: "along guarded (tags_UpsertByNames NewTagRepository ns)"
proof -
  have "along guarded (upsert_names now seen ns)" for now seen
    by (induction ns arbitrary: seen) (auto simp: Let_def intro!: guarding.along_rules guarded_modify)
  then show ?thesis
    unfolding NewTagRepository_def TagRepository.simps TagRepository_UpsertByNames_def by (intro guarding.along_rules)
qed

lemma guarded_users:
  "along guarded (users_IncrementFollowersCount NewUserRepository a)" "along guarded (users_DecrementFollowersCount NewUserRepository a)"
  "along guarded (users_IncrementFollowingCount NewUserRepository a)" "along guarded (users_DecrementFollowingCount NewUserRepository a)"
  "along guarded (users_UpdateProfile NewUserRepository a rq)"
proof -
  have "guarded s (m_users_update (set_map a w) (s\<lparr>rt_ticks := n\<rparr>))"
    if "get_map (m_users s) a = Some u" "User_Sub w = User_Sub u" "User_IsAdmin w = User_IsAdmin u" for s u w n
    using that by (intro guardedI keyed_update [where w = w and sub = a]) (auto simp: same_badges_def admins_def users_keyed_def)
  then show "along guarded (users_UpdateProfile NewUserRepository a rq)"
    by (auto simp: along_def NewUserRepository_def UserRepository_UpdateProfile_def run_simps Let_def
        intro!: guarding.R_drift drift_refl split: option.split)
qed (auto simp: along_def NewUserRepository_def run_simps intro!: guarded_on_user split: if_splits)

lemma guarded_worker:
  assumes "detached srv"
  shows "along guarded (runOnce (ogpWorker srv))"
  unfolding runOnce_def process_def markFailed_def ogpWorker_def Worker.simps Let_def
  by (intro guarding.along_rules guarded_writes guarded_posts guarding.along_drift [OF detached_calls(3) [OF assms]])

interpretation guarded_backend: backend_relation guarded
  by unfold_locales (fact guarded_writes guarded_posts guarded_users guarded_tags guarded_badge_usecases guarded_hydrate guarded_worker)+

section \<open>Sessions\<close>

text \<open>The routes that are not behind \<open>AuthMiddleware\<close>.\<close>

definition public_route :: "route \<Rightarrow> bool" where
  "public_route rt \<longleftrightarrow> rt \<in> {DeleteSession, GetUsers, GetUser, GetPosts, GetPost, GetReplies, GetFollowers, GetFollowing,
     GetTimelineUser, GetTimelineGlobal}"

text \<open>No session: no token in the request, or one AuthCore calls invalid.\<close>

definition no_session :: "server \<Rightarrow> http_request \<Rightarrow> mem \<Rightarrow> bool" where
  "no_session srv r s \<longleftrightarrow> (case extractAuthToken r (srv_cookieName srv) of None \<Rightarrow> True
     | Some tok \<Rightarrow> (\<exists>e. fst (run_state (client_Introspect (srv_client srv) tok) s) = Inl e \<and> errors_Is e ErrInvalidSession))"

lemma wp_writeAuthError: "wp (writeAuthError c code msg) (\<lambda>resp t. Resp_StatusCode resp = c \<and> drift s t) s"
  unfolding writeAuthError_def by (auto intro!: wp_rules simp: json_response_def drift_steps)

lemma refused_Auth:
  assumes d: "detached srv" and no: "no_session srv r s"
  shows "wp (AuthMiddleware (srv_client srv) (srv_cookieName srv) h r ctx) (\<lambda>resp t. Resp_StatusCode resp = 401 \<and> drift s t) s"
proof (cases "extractAuthToken r (srv_cookieName srv)")
  case None
  then show ?thesis by (simp add: AuthMiddleware_def wp_writeAuthError)
next
  case (Some tok)
  then obtain e t where e: "run_state (client_Introspect (srv_client srv) tok) s = (Inl e, t)" "errors_Is e ErrInvalidSession"
    using no by (auto simp: no_session_def) (metis prod.collapse)
  have "drift s t" using detached_calls(1) [OF d, of tok] e(1) by (simp add: along_def) (metis snd_conv)
  then have "wp (writeAuthError 401 ''UNAUTHORIZED'' ''invalid session'') (\<lambda>resp t. Resp_StatusCode resp = 401 \<and> drift s t) t"
    by (intro wp_mono [OF wp_writeAuthError]) (auto intro: drift_trans)
  then show ?thesis using Some e by (simp add: AuthMiddleware_def wp_def split: prod.splits)
qed

lemma wp_status_of:
  "wp (h r emptyContext) (\<lambda>resp t. Resp_StatusCode resp = c \<and> P t) s \<Longrightarrow> wp (status_of h r) (\<lambda>c' t. c' = c \<and> P t) s"
  unfolding status_of_def by (auto intro!: wp_rules elim: wp_mono)

lemma refused_status:
  "detached srv \<Longrightarrow> no_session srv r s \<Longrightarrow>
   wp (status_of (AuthMiddleware (srv_client srv) (srv_cookieName srv) h) r) (\<lambda>c t. c = 401 \<and> drift s t) s"
  by (rule wp_status_of, rule refused_Auth)

lemma refused_route:
  assumes "detached srv" and "no_session srv r s" and "\<not> public_route rt"
  shows "wp (serve srv rt r) (\<lambda>c t. c = (if mounted srv rt then 401 else 404) \<and> drift s t) s"
  using assms(3)
  by (cases rt) (simp_all add: public_route_def adminChain_chain chain_def authed_def refused_status [OF assms(1,2)]
      mounted_def withImages_def wp_ret drift_refl split: option.split)

end
