(* ===== verification/Server_Store.thy ===== *)
theory Server_Store
  imports Server_Relations
begin

text \<open>
  The well-formedness of the rest of the store, over whole runs: tag names and badge keys are
  unique and their indexes agree with the rows, rows are stored under their own keys, the
  previews of a post are in order, and no fetch job is tried more than \<open>MaxAttempts\<close> times.
\<close>

definition jobs_ok :: "mem \<Rightarrow> bool" where
  "jobs_ok s \<longleftrightarrow> (\<forall>i j. get_map (m_jobs s) i = Some j \<longrightarrow> Job_ID j = i \<and> 0 \<le> Job_Attempts j \<and> Job_Attempts j \<le> MaxAttempts \<and>
     (Job_Status j = OGPJobQueued \<longrightarrow> Job_Attempts j < MaxAttempts))"

definition tidy :: "mem \<Rightarrow> bool" where
  "tidy s \<longleftrightarrow> tags_ok s \<and> badges_ok s \<and> (\<forall>i b. get_map (m_badges s) i = Some b \<longrightarrow> issued s i) \<and> links_ok (m_links s) \<and>
     follows_keyed s \<and> posts_keyed s \<and> jobs_ok s"

lemmas tidy_parts = tidy_def tags_ok_def badges_ok_def follows_keyed_def posts_keyed_def jobs_ok_def

definition kept :: "nat \<Rightarrow> mem \<Rightarrow> mem \<Rightarrow> bool" where
  "kept N s t \<longleftrightarrow> later s t \<and> (unique_ids N (rt_ulid s) \<and> rt_ids t \<le> N \<and> tidy s \<longrightarrow> tidy t)"

lemma keptI: "later s t \<Longrightarrow> (unique_ids N (rt_ulid s) \<Longrightarrow> rt_ids t \<le> N \<Longrightarrow> tidy s \<Longrightarrow> tidy t) \<Longrightarrow> kept N s t"
  by (simp add: kept_def)

lemma kept_trans: "kept N s t \<Longrightarrow> kept N t u \<Longrightarrow> kept N s u"
  by (auto simp: kept_def later_def)

lemma tidy_later:
  assumes "tidy s" and "later s t"
    and "m_tags t = m_tags s" "m_tagByName t = m_tagByName s" "m_badges t = m_badges s" "m_badgeByKey t = m_badgeByKey s"
      "m_links t = m_links s" "m_follows t = m_follows s" "m_posts t = m_posts s" "m_jobs t = m_jobs s"
  shows "tidy t"
  using assms issued_later [OF _ assms(2)] by (auto simp: tidy_parts)

lemma kept_other:
  assumes "later s t"
    and "m_tags t = m_tags s" "m_tagByName t = m_tagByName s" "m_badges t = m_badges s" "m_badgeByKey t = m_badgeByKey s"
      "m_links t = m_links s" "m_follows t = m_follows s" "m_posts t = m_posts s" "m_jobs t = m_jobs s"
  shows "kept N s t"
  by (rule keptI [OF assms(1)]) (rule tidy_later [OF _ assms])

interpretation keeping: mem_relation "kept N" for N
  by unfold_locales (auto intro: kept_trans kept_other simp: drift_def later_def)

lemma kept_modify:
  "along (kept N) (modify (m_likes_update f))" "along (kept N) (modify (m_images_update f1))" "along (kept N) (modify (m_ogpRows_update f2))"
  "along (kept N) (modify (m_users_update f3))" "along (kept N) (modify (m_userBadges_update f4))"
  "along (kept N) (modify (on_user a g))"
  by (simp_all add: along_def run_simps kept_other later_def on_user_def split: option.split)

lemma kept_others:
  "along (kept N) (likes_Create NewLikeRepository u p)" "along (kept N) (likes_Delete NewLikeRepository u p)"
  "along (kept N) (images_Create NewImageRepository im)" "along (kept N) (images_Delete NewImageRepository i)"
  "along (kept N) (ogp_Upsert NewOGPCacheRepository pv)" "along (kept N) (users_Upsert NewUserRepository user)"
  "along (kept N) (users_UpdateProfile NewUserRepository a rq)"
  "along (kept N) (users_IncrementFollowersCount NewUserRepository a)" "along (kept N) (users_DecrementFollowersCount NewUserRepository a)"
  "along (kept N) (users_IncrementFollowingCount NewUserRepository a)" "along (kept N) (users_DecrementFollowingCount NewUserRepository a)"
  "along (kept N) (badges_Grant NewBadgeRepository a b c e w)" "along (kept N) (badges_Revoke NewBadgeRepository a b)"
  unfolding NewLikeRepository_def LikeRepository.simps NewImageRepository_def ImageRepository.simps NewOGPCacheRepository_def
    OGPCacheRepository.simps NewUserRepository_def UserRepository.simps NewBadgeRepository_def BadgeRepository.simps
    LikeRepository_Create_def LikeRepository_Delete_def ImageRepository_Create_def ImageRepository_Delete_def OGPCacheRepository_Upsert_def
    UserRepository_Upsert_def UserRepository_UpdateProfile_def UserRepository_IncrementFollowersCount_def
    UserRepository_DecrementFollowersCount_def UserRepository_IncrementFollowingCount_def UserRepository_DecrementFollowingCount_def
    BadgeRepository_Grant_def BadgeRepository_Revoke_def Let_def
  by (intro keeping.along_rules kept_modify)+

section \<open>Follows, posts and links\<close>

lemma kept_follows:
  "along (kept N) (follows_Create NewFollowRepository a b)" "along (kept N) (follows_Delete NewFollowRepository a b)"
proof -
  have "tidy (s\<lparr>rt_ticks := n, m_follows := set_map (a, b)
      \<lparr>Follow_FollowerSub = a, Follow_FolloweeSub = b, Follow_CreatedAt = now\<rparr> (m_follows s)\<rparr>)"
    "tidy (s\<lparr>m_follows := del_map (a, b) (m_follows s)\<rparr>)" if "tidy s" for s n now
    using that by (auto simp: tidy_parts issued_def lookup_delete split: if_splits)
  then show "along (kept N) (follows_Create NewFollowRepository a b)" "along (kept N) (follows_Delete NewFollowRepository a b)"
    by (auto simp: along_def NewFollowRepository_def run_follow_Create run_follow_Delete keeping.R_drift drift_refl intro!: keptI)
qed

lemma tidy_posts:
  "tidy s \<Longrightarrow> links_ok ls \<Longrightarrow> Post_ID p = i \<Longrightarrow> tidy (s\<lparr>rt_ticks := n, m_links := ls, m_posts := set_map i p (m_posts s)\<rparr>)"
  "tidy s \<Longrightarrow> Post_ID p = i \<Longrightarrow> tidy (s\<lparr>rt_ticks := n, m_posts := set_map i p (m_posts s)\<rparr>)"
  "tidy s \<Longrightarrow> Post_ID p = i \<Longrightarrow> tidy (s\<lparr>m_posts := set_map i p (m_posts s)\<rparr>)"
  by (auto simp: tidy_parts issued_def split: if_splits)

lemma links_ok_attach: "links_ok (attachImages i xs ls) = links_ok ls" "links_ok (attachTags i xs ls) = links_ok ls"
  by (simp_all add: links_ok_def attachImages_def attachTags_def Let_def)

lemma tidy_posts_row: "tidy s \<Longrightarrow> get_map (m_posts s) i = Some p \<Longrightarrow> Post_ID p = i"
  by (auto simp: tidy_def dest: posts_keyedD)

lemma kept_on_live_post: "(\<And>p. Post_ID (f p) = Post_ID p) \<Longrightarrow> kept N s (on_live_post i f s)"
  by (rule keptI) (auto simp: on_live_post_def tidy_posts tidy_posts_row split: option.split)

lemma kept_posts:
  "along (kept N) (posts_Create NewPostRepository post imgs ts)" "along (kept N) (posts_Delete NewPostRepository p)"
  "along (kept N) (posts_IncrementRepliesCount NewPostRepository p)"
  "along (kept N) (posts_DecrementRepliesCount NewPostRepository p)" "along (kept N) (posts_IncrementLikesCount NewPostRepository p)"
  "along (kept N) (posts_DecrementLikesCount NewPostRepository p)"
proof -
  show "along (kept N) (posts_Create NewPostRepository post imgs ts)"
    by (auto simp: along_def NewPostRepository_def run_simps Let_def later_def links_ok_attach intro!: keptI tidy_posts)
      (auto simp: tidy_def)
  show "along (kept N) (posts_Delete NewPostRepository p)"
    by (auto simp: along_def NewPostRepository_def run_simps intro!: keptI tidy_posts split: option.split dest: tidy_posts_row)
qed (auto simp: along_def NewPostRepository_def run_simps intro!: kept_on_live_post)

lemma kept_AttachOGP: "along (kept N) (posts_AttachOGP NewPostRepository p h k)"
proof -
  have "tidy (m_links_update (attachOGP p h k) s)" if "tidy s" for s
    using that links_ok_attachOGP [of "m_links s" p h k] by (auto simp: tidy_parts issued_def)
  then show ?thesis by (auto simp: along_def NewPostRepository_def run_simps later_def intro!: keptI)
qed

section \<open>Tags and badges\<close>

lemma kept_add_tag:
  assumes "get_map (m_tagByName s) name = None"
  shows "kept N s (add_tag now name s)"
proof (rule keptI)
  show "later s (add_tag now name s)" by (simp add: later_def)
  assume ids: "unique_ids N (rt_ulid s)" "rt_ids (add_tag now name s) \<le> N" and s: "tidy s"
  then have "tags_ok (add_tag now name s)" using tags_ok_add_tag [OF _ ids(1) _ assms] by (simp add: tidy_def)
  then show "tidy (add_tag now name s)"
    using s by (auto simp: tidy_def add_tag_def badges_ok_def follows_keyed_def posts_keyed_def jobs_ok_def Let_def issued_def less_Suc_eq)
qed

lemma kept_refl: "kept N s s"
  by (rule keeping.R_drift [OF drift_refl])

lemma kept_upsert_names: "wp (upsert_names now seen names) (\<lambda>_ t. kept N s t) s"
proof (induction names arbitrary: seen s)
  case (Cons name names)
  have rest: "wp (bind_or (upsert_names now seen' names) id (\<lambda>out. ret (Inr (x # out)))) (\<lambda>_ t. kept N s' t) s'" for seen' s' x
    by (intro wp_rules wp_mono [OF Cons.IH]) (auto intro!: wp_rules split: sum.split)
  let ?i = "rt_ulid s (rt_ids s)"
  have same: "m_tagByName_update (set_map name ?i) (m_tags_update (set_map ?i \<lparr>Tag_ID = ?i, Tag_Name = name, Tag_CreatedAt = now\<rparr>)
      (s\<lparr>rt_ids := Suc (rt_ids s)\<rparr>)) = add_tag now name s"
    by (simp add: add_tag_def Let_def)
  have "wp (bind_or (upsert_names now seen' names) id (\<lambda>out. ret (Inr (x # out)))) (\<lambda>_ t. kept N s t) (add_tag now name s)"
    if "get_map (m_tagByName s) name = None" for seen' x
    by (rule wp_mono [OF rest]) (rule kept_trans [OF kept_add_tag [OF that]])
  note add = this [folded same]
  show ?case
    unfolding upsert_names.simps
    by (intro wp_if wp_bind wp_gets wp_option wp_ulid_Make wp_Let wp_modify wp_ret Cons.IH rest kept_refl add) auto
qed (auto intro!: wp_rules kept_refl)

lemma kept_tags: "along (kept N) (tags_UpsertByNames NewTagRepository ns)"
proof (rule keeping.alongI)
  fix s r t assume run: "run_state (tags_UpsertByNames NewTagRepository ns) s = (r, t)"
  have "wp (tags_UpsertByNames NewTagRepository ns) (\<lambda>_ t. kept N s t) s"
    unfolding NewTagRepository_def TagRepository.simps TagRepository_UpsertByNames_def
    by (intro wp_rules wp_mono [OF kept_upsert_names]) (rule kept_trans [OF keeping.R_drift [OF drift_steps(1)]])
  then show "kept N s t" by (rule wpD) (rule run)
qed

lemma tidy_badges:
  assumes "tidy s" and "later s t" and "badges_ok t"
    and "m_tags t = m_tags s" "m_tagByName t = m_tagByName s" "m_links t = m_links s" "m_follows t = m_follows s" "m_posts t = m_posts s"
      "m_jobs t = m_jobs s"
    and "\<And>i b. get_map (m_badges t) i = Some b \<Longrightarrow> issued t i"
  shows "tidy t"
  using assms issued_later [OF _ assms(2)] by (auto simp: tidy_def tags_ok_def follows_keyed_def posts_keyed_def jobs_ok_def)

lemma badge_writes:
  fixes s :: mem and b :: Badge
  defines "t \<equiv> snd (run_state (BadgeRepository_Create b) s)" and "u \<equiv> snd (run_state (BadgeRepository_Update b) s)"
  shows "later s t" "m_tags t = m_tags s" "m_tagByName t = m_tagByName s" "m_links t = m_links s" "m_follows t = m_follows s"
    "m_posts t = m_posts s" "m_jobs t = m_jobs s" "dom (get_map (m_badges t)) \<subseteq> insert (Badge_ID b) (dom (get_map (m_badges s)))"
    "later s u" "m_tags u = m_tags s" "m_tagByName u = m_tagByName s" "m_links u = m_links s" "m_follows u = m_follows s"
    "m_posts u = m_posts s" "m_jobs u = m_jobs s" "badges_ok s \<Longrightarrow> dom (get_map (m_badges u)) \<subseteq> dom (get_map (m_badges s))"
  unfolding t_def u_def BadgeRepository_Create_def BadgeRepository_Update_def
  by (auto simp: run_simps Let_def later_def badges_ok_def split: option.split if_splits)

lemma issued_badges: "tidy s \<Longrightarrow> i \<in> dom (get_map (m_badges s)) \<Longrightarrow> issued s i"
  by (auto simp: tidy_def)

lemma kept_CreateBadge: "along (kept N) (CreateBadge_Execute up NewBadgeRepository NewUserRepository a bo)"
proof (rule keeping.alongI)
  fix s r t assume run: "run_state (CreateBadge_Execute up NewBadgeRepository NewUserRepository a bo) s = (r, t)"
  have create: "wp (badges_Create NewBadgeRepository (bd\<lparr>Badge_ID := rt_ulid s (rt_ids s)\<rparr>)) (\<lambda>_ t. kept N s t) (s\<lparr>rt_ids := Suc (rt_ids s)\<rparr>)" for s bd
  proof -
    let ?s = "s\<lparr>rt_ids := Suc (rt_ids s)\<rparr>" and ?b = "bd\<lparr>Badge_ID := rt_ulid s (rt_ids s)\<rparr>"
    let ?t = "snd (run_state (BadgeRepository_Create ?b) ?s)"
    note t = badge_writes(1-8) [where s = ?s and b = ?b]
    have l: "later s ?s" by (simp add: later_def)
    have "tidy ?t" if ids: "unique_ids N (rt_ulid s)" "rt_ids ?t \<le> N" and s: "tidy s"
    proof -
      have "rt_ids s < N" using t(1) ids(2) by (simp add: later_def)
      note fresh = fresh_id [OF ids(1) this]
      have s': "tidy ?s" by (rule tidy_later [OF s l]) simp_all
      have "get_map (m_badges ?s) (Badge_ID ?b) = None" using fresh issued_badges [OF s] by auto
      then have "badges_ok ?t" using s' by (intro badges_ok_Create) (simp_all add: tidy_def)
      moreover have "issued ?t i" if "get_map (m_badges ?t) i = Some b" for i b
        using t(8) that issued_badges [OF s', of i] by (intro issued_later [OF _ t(1)]) (auto simp: issued_Suc)
      ultimately show ?thesis by (intro tidy_badges [OF s' t(1) _ t(2-7)])
    qed
    then have "kept N s ?t" by (intro keptI later_trans [OF l t(1)])
    then show ?thesis by (simp add: wp_def NewBadgeRepository_def case_prod_beta)
  qed
  have key: "wp (badges_GetByKey NewBadgeRepository k) Q s" if "\<And>r. Q r s" for k Q s
    using that by (simp add: NewBadgeRepository_def BadgeRepository_GetByKey_def wp_def run_simps)
  have admin: "wp (ensureAdmin NewUserRepository a) Q s" if "\<And>r. Q r s" for Q s
    using that unfolding ensureAdmin_def IsAdmin_def by (auto intro!: wp_rules wp_GetBySub split: option.split)
  have "wp (CreateBadge_Execute up NewBadgeRepository NewUserRepository a bo) (\<lambda>_ t. kept N s t) s"
    unfolding CreateBadge_Execute_def
    by (auto intro!: wp_rules key admin kept_refl wp_mono [OF create] split: sum.split)
  then show "kept N s t" by (rule wpD) (rule run)
qed

lemma kept_badges:
  "along (kept N) (GrantBadge_Execute NewBadgeRepository NewUserRepository a b gr)"
  "along (kept N) (RevokeBadge_Execute NewBadgeRepository NewUserRepository a b i)"
  "along (kept N) (UpdateBadge_Execute up NewBadgeRepository NewUserRepository a i bo)"
proof -
  have update: "along (kept N) (badges_Update NewBadgeRepository bd)" for bd
    unfolding along_def
  proof (intro allI keptI)
    fix s
    let ?t = "snd (run_state (BadgeRepository_Update bd) s)"
    note t = badge_writes(9-16) [where s = s and b = bd]
    show "later s (snd (run_state (badges_Update NewBadgeRepository bd) s))" using t(1) by (simp add: NewBadgeRepository_def)
    assume s: "tidy s"
    then have ok: "badges_ok s" by (simp add: tidy_def)
    have "tidy ?t"
      by (rule tidy_badges [OF s t(1) badges_ok_Update [OF ok] t(2-7)])
        (use t(8) [OF ok] issued_badges [OF s] issued_later [OF _ t(1)] in auto)
    then show "tidy (snd (run_state (badges_Update NewBadgeRepository bd) s))" by (simp add: NewBadgeRepository_def)
  qed
  show "along (kept N) (GrantBadge_Execute NewBadgeRepository NewUserRepository a b gr)"
    "along (kept N) (RevokeBadge_Execute NewBadgeRepository NewUserRepository a b i)"
    "along (kept N) (UpdateBadge_Execute up NewBadgeRepository NewUserRepository a i bo)"
    unfolding GrantBadge_Execute_def RevokeBadge_Execute_def UpdateBadge_Execute_def Let_def
    by (intro keeping.along_rules kept_others(12,13) update keeping.along_drift [OF drift_admin] keeping.along_drift [OF drift_badges(2)]
        keeping.along_drift [OF drift_badges(3)] keeping.along_drift [OF drift_others(9)])+
qed

section \<open>Fetch jobs\<close>

lemma tidy_job:
  "tidy s \<Longrightarrow> Job_ID j = i \<Longrightarrow> 0 \<le> Job_Attempts j \<Longrightarrow> Job_Attempts j \<le> MaxAttempts \<Longrightarrow>
   (Job_Status j = OGPJobQueued \<Longrightarrow> Job_Attempts j < MaxAttempts) \<Longrightarrow> tidy (m_jobs_update (set_map i j) s)"
  by (auto simp: tidy_parts issued_def)

lemma tidy_env: "tidy s \<Longrightarrow> tidy (s\<lparr>rt_ticks := n\<rparr>)" "tidy s \<Longrightarrow> tidy (s\<lparr>rt_ranges := k\<rparr>)"
  "tidy s \<Longrightarrow> tidy (s\<lparr>rt_ranges := k, rt_ticks := n\<rparr>)"
  by (rule tidy_later, assumption, simp_all add: later_def)+

lemma jobs_okD: "jobs_ok s \<Longrightarrow> get_map (m_jobs s) i = Some j \<Longrightarrow> Job_ID j = i \<and> 0 \<le> Job_Attempts j \<and> Job_Attempts j \<le> MaxAttempts \<and>
    (Job_Status j = OGPJobQueued \<longrightarrow> Job_Attempts j < MaxAttempts)"
  by (auto simp: jobs_ok_def)

lemma tidy_jobs: "tidy s \<Longrightarrow> jobs_ok s"
  by (simp add: tidy_def)

lemmas tidy_jobD = jobs_okD [OF tidy_jobs]

lemma later_job: "later s (m_jobs_update f s)" "later s (m_jobs_update f (s\<lparr>rt_ticks := n\<rparr>))"
  by (simp_all add: later_def)

lemma kept_Enqueue: "along (kept N) (jobs_Enqueue NewOGPJobQueue i h url p k)"
  by (auto simp: along_def NewOGPJobQueue_def OGPJobQueue_Enqueue_def run_simps kept_refl MaxAttempts_def later_job
      intro!: keptI tidy_job tidy_env)

lemma kept_MarkDone: "along (kept N) (jobs_MarkDone NewOGPJobQueue i)"
  by (auto simp: along_def NewOGPJobQueue_def OGPJobQueue_MarkDone_def run_simps kept_refl later_job
      intro!: keptI tidy_job tidy_env split: option.split dest: tidy_jobD)

lemma wp_MarkFailed:
  "\<not> retriable \<or> (\<exists>j. get_map (m_jobs s) i = Some j \<and> Job_Attempts j < MaxAttempts) \<Longrightarrow>
   wp (jobs_MarkFailed NewOGPJobQueue i reason retriable) (\<lambda>_ t. kept N s t) s"
proof (cases "get_map (m_jobs s) i")
  case (Some j)
  assume r: "\<not> retriable \<or> (\<exists>j. get_map (m_jobs s) i = Some j \<and> Job_Attempts j < MaxAttempts)"
  have "tidy (m_jobs_update (set_map i (j\<lparr>Job_LastError := reason, Job_Status := OGPJobQueued, Job_StartedAt := None\<rparr>)) s)"
    if "tidy s" "retriable"
    using r that Some tidy_jobD [OF that(1) Some] by (intro tidy_job) auto
  moreover have "tidy (m_jobs_update (set_map i (j\<lparr>Job_LastError := reason, Job_Status := OGPJobFailed, Job_FinishedAt := f\<rparr>))
      (s\<lparr>rt_ticks := n\<rparr>))" if "tidy s" for f n
    using tidy_jobD [OF that Some] by (intro tidy_job tidy_env that) auto
  ultimately show ?thesis
    using Some by (cases retriable) (auto simp: wp_def NewOGPJobQueue_def OGPJobQueue_MarkFailed_def run_simps later_job intro!: keptI)
qed (simp add: wp_def NewOGPJobQueue_def OGPJobQueue_MarkFailed_def run_simps kept_refl)

lemma ogpWorker_fields [simp]:
  "worker_queue (ogpWorker srv) = NewOGPJobQueue" "worker_cache (ogpWorker srv) = NewOGPCacheRepository"
  "worker_posts (ogpWorker srv) = NewPostRepository" "worker_lib (ogpWorker srv) = srv_ogp srv"
  by (simp_all add: ogpWorker_def)

lemma wp_Claim:
  "wp (jobs_Claim NewOGPJobQueue w) (\<lambda>r t. \<exists>found. r = Inr found \<and> kept N s t \<and>
     (\<forall>job. found = Some job \<longrightarrow> (tidy s \<longrightarrow> get_map (m_jobs t) (Job_ID job) = Some job))) s"
proof (cases rule: run_Claim_cases [of w s])
  case none
  then show ?thesis by (simp add: wp_def NewOGPJobQueue_def keeping.R_drift drift_steps)
next
  case (claimed i j)
  let ?job = "j\<lparr>Job_Status := OGPJobRunning, Job_StartedAt := Some (rt_clock s (rt_ticks s)), Job_Attempts := inc64 (Job_Attempts j)\<rparr>"
  have job: "Job_ID ?job = i" "0 \<le> Job_Attempts ?job" "Job_Attempts ?job \<le> MaxAttempts" if "tidy s"
    using tidy_jobD [OF that claimed(1)] claimed(2) by (auto simp: MaxAttempts_def max_int64_def)
  have t: "run_state (jobs_Claim NewOGPJobQueue w) s =
      (Inr (Some ?job), m_jobs_update (set_map i ?job) (s\<lparr>rt_ranges := Suc (rt_ranges s), rt_ticks := Suc (rt_ticks s)\<rparr>))"
    using claimed(4) by (simp add: NewOGPJobQueue_def Let_def)
  have "kept N s (m_jobs_update (set_map i ?job) (s\<lparr>rt_ranges := Suc (rt_ranges s), rt_ticks := Suc (rt_ticks s)\<rparr>))"
    by (intro keptI tidy_job tidy_env job) (simp_all add: later_def)
  then show ?thesis using t job(1) by (simp add: wp_def)
qed

lemma wp_along: "along (kept N) m \<Longrightarrow> kept N s t \<Longrightarrow> wp m (\<lambda>_ u. kept N s u) t"
  by (rule wpI) (metis along_def kept_trans snd_conv)

lemma kept_process:
  assumes d: "detached srv" and t: "kept N s t" and row: "get_map (m_jobs t) (Job_ID job) = Some job"
  shows "wp (process (ogpWorker srv) job) (\<lambda>_ u. kept N s u) t"
proof -
  have fetch: "wp (ogp_Fetch (srv_ogp srv) url) (\<lambda>_ u. drift t u) t" for url
    using detached_calls(3) [OF d, of url] by (simp add: along_def wp_def case_prod_beta)
  have fail: "wp (markFailed (ogpWorker srv) (Job_ID job) reason retriable) (\<lambda>_ v. kept N s v) u"
    if "kept N s u" "m_jobs u = m_jobs t" "\<not> retriable \<or> Job_Attempts job < MaxAttempts" for u reason retriable
    unfolding markFailed_def ogpWorker_fields
    by (intro wp_bind wp_ret wp_mono [OF wp_MarkFailed]) (use that row kept_trans [OF that(1)] in auto)
  have upsert: "wp (ogp_Upsert NewOGPCacheRepository pv) (\<lambda>r v. (\<exists>x. r = Inr x) \<and> kept N s v \<and> m_jobs v = m_jobs u) u"
    if "kept N s u" for pv u
    using wp_along [OF kept_others(5) that, of pv] by (auto simp: wp_def NewOGPCacheRepository_def run_simps split: option.splits if_splits)
  have mark: "wp (jobs_MarkDone NewOGPJobQueue (Job_ID job)) (\<lambda>_. wp (ret ()) (\<lambda>_ v. kept N s v)) u" if "kept N s u" for u
    by (rule wp_mono [OF wp_along [OF kept_MarkDone that]], rule wp_ret)
  have attach: "wp (posts_AttachOGP NewPostRepository (Job_PostID job) h k)
      (\<lambda>_. wp (jobs_MarkDone NewOGPJobQueue (Job_ID job) \<bind> (\<lambda>_. ret ())) (\<lambda>_ v. kept N s v)) u" if "kept N s u" for h k u
    by (rule wp_mono [OF wp_along [OF kept_AttachOGP that]]) (rule wp_bind, rule mark)
  have tick: "kept N s (u\<lparr>rt_ticks := n\<rparr>)" if "drift t u" for u n
    by (rule kept_trans [OF t keeping.R_drift [OF drift_trans [OF that drift_steps(1)]]])
  have moved: "m_jobs u = m_jobs t" "kept N s u" if "drift t u" for u
    using that kept_trans [OF t keeping.R_drift [OF that]] by (auto simp: drift_def)
  show ?thesis
    unfolding process_def ogpWorker_fields Let_def
    by (intro wp_bind wp_mono [OF fetch])
      (auto intro!: mark attach wp_rules fail tick wp_mono [OF upsert] dest: moved split: sum.split)
qed

lemma kept_worker:
  assumes d: "detached srv"
  shows "along (kept N) (runOnce (ogpWorker srv))"
proof (rule keeping.alongI)
  fix s r t assume run: "run_state (runOnce (ogpWorker srv)) s = (r, t)"
  show "kept N s t"
  proof (cases "tidy s")
    case True
    have "wp (runOnce (ogpWorker srv)) (\<lambda>_ t. kept N s t) s"
      unfolding runOnce_def ogpWorker_fields
      by (intro wp_bind wp_mono [OF wp_Claim])
        (use True kept_process [OF d] in \<open>auto intro!: wp_rules split: option.split\<close>)
    then show ?thesis by (rule wpD) (rule run)
  next
    case False
    have "later s t" using steady_calm [OF calm_worker [OF detached_outside [OF d]]] run by (simp add: steady_def) (metis snd_conv)
    then show ?thesis using False by (simp add: kept_def)
  qed
qed


lemma kept_hydrate:
  assumes d: "detached srv"
  shows "along (kept N) (GetOrHydrate_Execute (userHydrateUC srv) tok sub)"
proof -
  have "along (kept N) (lazyCreate (userHydrateUC srv) sub tok now)" "along (kept N) (refresh (userHydrateUC srv) u tok now)" for u now
    unfolding lazyCreate_def refresh_def userHydrateUC_fields Let_def
    by (intro keeping.along_rules kept_others(6) keeping.along_drift [OF detached_calls(2) [OF d]])+
  then show ?thesis
    unfolding GetOrHydrate_Execute_def userHydrateUC_fields
    by (intro keeping.along_rules keeping.along_drift [OF drift_others(9)])
qed

interpretation kept_backend: backend_relation "kept N" for N
  by unfold_locales
    (fact kept_others kept_follows kept_posts kept_AttachOGP kept_tags kept_CreateBadge kept_badges kept_Enqueue kept_worker kept_hydrate)+

section \<open>Reachable states\<close>

text \<open>A state the server reaches from the empty store, by fewer steps than the counters can count,
  in an environment whose ids are unique as far as they were drawn.\<close>

definition reachable :: "server \<Rightarrow> mem \<Rightarrow> bool" where
  "reachable srv t \<longleftrightarrow> (\<exists>es clock ulid ord. t = run_events srv es (init_mem clock ulid ord) \<and> int (length es) \<le> max_int64 \<and>
     unique_ids (rt_ids t) ulid)"

lemma tidy_init: "tidy (init_mem clock ulid ord)"
  by (simp add: tidy_parts init_mem_def get_map_empty NewLinkStore_def links_ok_def)

lemma reachable_tidy:
  assumes "detached srv" and "reachable srv t"
  shows "tidy t"
proof -
  obtain es clock ulid ord where t: "t = run_events srv es (init_mem clock ulid ord)" and ids: "unique_ids (rt_ids t) ulid"
    using assms(2) by (auto simp: reachable_def)
  have "kept (rt_ids t) (init_mem clock ulid ord) t"
    using kept_backend.run_along [OF assms(1)] t by simp
  then show ?thesis using ids tidy_init by (simp add: kept_def init_mem_def)
qed

lemma reachable_sys_ok:
  assumes "detached srv" and "reachable srv t"
  shows "\<exists>n. sys_ok (rt_ids t) n t"
  using assms(2) run_from_init [OF detached_outside [OF assms(1)]] unfolding reachable_def by blast

end
