(* ===== verification/Server_Worker.thy ===== *)
theory Server_Worker
  imports Server_Store
begin

text \<open>
  Progress of the OGP worker: a cycle takes the oldest queued job one attempt further, every job
  has at most \<open>MaxAttempts\<close> of them, and so the queue runs empty.
\<close>

text \<open>What a finished attempt leaves of its job.\<close>

definition attempted :: "OGPJob \<Rightarrow> OGPJob \<Rightarrow> bool" where
  "attempted j j' \<longleftrightarrow> Job_ID j' = Job_ID j \<and> Job_Attempts j' = Job_Attempts j \<and>
     (Job_Status j' \<in> {OGPJobDone, OGPJobFailed} \<or> Job_Status j' = OGPJobQueued \<and> Job_Attempts j < MaxAttempts)"

lemma wp_drift: "along drift m \<Longrightarrow> (\<And>x t. drift s t \<Longrightarrow> Q x t) \<Longrightarrow> wp m Q s"
  by (rule wpI) (metis along_def snd_conv)

lemma drift_jobs: "drift s t \<Longrightarrow> m_jobs t = m_jobs s"
  by (auto simp: drift_def)

lemma job_calls:
  "wp (ogp_Upsert NewOGPCacheRepository pv) (\<lambda>r t. r = Inr () \<and> m_jobs t = m_jobs s) s"
  "wp (posts_AttachOGP NewPostRepository i h k) (\<lambda>_ t. m_jobs t = m_jobs s) s"
  by (auto simp: wp_def NewOGPCacheRepository_def NewPostRepository_def run_simps split: option.split)

definition settled_job :: "mem \<Rightarrow> OGPJob \<Rightarrow> mem \<Rightarrow> bool" where
  "settled_job s job t \<longleftrightarrow> (\<exists>j'. attempted job j' \<and> get_map (m_jobs t) = (get_map (m_jobs s))(Job_ID job \<mapsto> j'))"

lemma settled_job_set:
  "attempted job j' \<Longrightarrow> settled_job s job (m_jobs_update (set_map (Job_ID job) j') s)"
  "attempted job j' \<Longrightarrow> settled_job s job (m_jobs_update (set_map (Job_ID job) j') (s\<lparr>rt_ticks := n\<rparr>))"
  by (auto simp: settled_job_def)

lemma settled_job_from: "m_jobs u = m_jobs s \<Longrightarrow> settled_job u job t = settled_job s job t"
  by (simp add: settled_job_def)

lemma job_marks:
  assumes "get_map (m_jobs s) (Job_ID job) = Some job"
  shows "wp (jobs_MarkDone NewOGPJobQueue (Job_ID job)) (\<lambda>_ t. settled_job s job t) s"
    "\<not> retriable \<or> Job_Attempts job < MaxAttempts \<Longrightarrow>
     wp (jobs_MarkFailed NewOGPJobQueue (Job_ID job) reason retriable) (\<lambda>_ t. settled_job s job t) s"
  using assms
  by (auto simp: wp_def NewOGPJobQueue_def OGPJobQueue_MarkDone_def OGPJobQueue_MarkFailed_def run_simps attempted_def
      intro!: settled_job_set)

lemma process_jobs:
  assumes d: "detached srv" and row: "get_map (m_jobs s) (Job_ID job) = Some job"
  shows "wp (process (ogpWorker srv) job) (\<lambda>_ t. settled_job s job t) s"
proof -
  have mark: "wp (jobs_MarkDone NewOGPJobQueue (Job_ID job))
      (\<lambda>_. wp (ret ()) (\<lambda>_ t. settled_job s job t)) u"
    if "m_jobs u = m_jobs s" for u
    using that row by (intro wp_mono [OF job_marks(1)]) (auto intro!: wp_ret simp: settled_job_from [OF that])
  have fail: "wp (markFailed (ogpWorker srv) (Job_ID job) reason retriable)
      (\<lambda>_ t. settled_job s job t) u"
    if "m_jobs u = m_jobs s" "\<not> retriable \<or> Job_Attempts job < MaxAttempts" for u reason retriable
    unfolding markFailed_def ogpWorker_fields
    using that row by (intro wp_bind wp_mono [OF job_marks(2)]) (auto intro!: wp_ret simp: settled_job_from [OF that(1)])
  have attach: "wp (posts_AttachOGP NewPostRepository i h k) (\<lambda>_. wp (jobs_MarkDone NewOGPJobQueue (Job_ID job) \<bind> (\<lambda>_. ret ()))
      (\<lambda>_ t. settled_job s job t)) u"
    if "m_jobs u = m_jobs s" for u i h k
    by (rule wp_mono [OF job_calls(2)], rule wp_bind, rule mark) (simp add: that)
  show ?thesis
    unfolding process_def ogpWorker_fields Let_def
    by (intro wp_bind wp_drift [OF detached_calls(3) [OF d]])
      (auto intro!: mark attach fail wp_rules wp_mono [OF job_calls(1)] dest: drift_jobs split: sum.split)
qed

lemma runOnce_jobs:
  assumes d: "detached srv" and s: "jobs_ok s"
  obtains (idle) t where "run_state (runOnce (ogpWorker srv)) s = ((), t)" "m_jobs t = m_jobs s"
      "\<And>i j. get_map (m_jobs s) i = Some j \<Longrightarrow> Job_Status j \<noteq> OGPJobQueued"
  | (attempt) t i j j' where "run_state (runOnce (ogpWorker srv)) s = ((), t)" "get_map (m_jobs s) i = Some j" "Job_Status j = OGPJobQueued"
      "Job_ID j' = i" "Job_Attempts j' = Job_Attempts j + 1"
      "Job_Status j' \<in> {OGPJobDone, OGPJobFailed} \<or> Job_Status j' = OGPJobQueued \<and> Job_Attempts j' < MaxAttempts"
      "get_map (m_jobs t) = (get_map (m_jobs s))(i \<mapsto> j')"
proof (cases rule: run_Claim_cases [of "''ogp-worker''" s])
  case none
  show ?thesis
    by (rule idle [of "s\<lparr>rt_ranges := Suc (rt_ranges s)\<rparr>"]) (use none in \<open>auto simp: runOnce_def NewOGPJobQueue_def\<close>)
next
  case (claimed i j)
  let ?job = "j\<lparr>Job_Status := OGPJobRunning, Job_StartedAt := Some (rt_clock s (rt_ticks s)), Job_Attempts := inc64 (Job_Attempts j)\<rparr>"
  let ?u = "s\<lparr>rt_ranges := Suc (rt_ranges s), rt_ticks := Suc (rt_ticks s), m_jobs := set_map i ?job (m_jobs s)\<rparr>"
  have j: "Job_ID j = i" "inc64 (Job_Attempts j) = Job_Attempts j + 1"
    using jobs_okD [OF s claimed(1)] claimed(2) by (auto simp: MaxAttempts_def max_int64_def)
  have row: "get_map (m_jobs ?u) (Job_ID ?job) = Some ?job" using j by simp
  obtain t where t: "run_state (process (ogpWorker srv) ?job) ?u = ((), t)" by (metis old.unit.exhaust prod.exhaust)
  obtain j' where j': "attempted ?job j'" "get_map (m_jobs t) = (get_map (m_jobs ?u))(Job_ID ?job \<mapsto> j')"
    using wpD [OF process_jobs [OF d row] t] by (auto simp: settled_job_def)
  show ?thesis
  proof (rule attempt)
    show "run_state (runOnce (ogpWorker srv)) s = ((), t)"
      using claimed(4) t by (simp add: runOnce_def NewOGPJobQueue_def Let_def)
    show "get_map (m_jobs s) i = Some j" "Job_Status j = OGPJobQueued" by (rule claimed)+
  qed (use j j' in \<open>auto simp: attempted_def\<close>)
qed

section \<open>The queue runs empty\<close>

definition job_work :: "OGPJob \<Rightarrow> nat" where
  "job_work j = (if Job_Status j = OGPJobQueued then nat (MaxAttempts - Job_Attempts j) else 0)"

definition work_left :: "mem \<Rightarrow> nat" where
  "work_left s = (\<Sum>i\<in>dom (get_map (m_jobs s)). job_work (the (get_map (m_jobs s) i)))"

definition finished :: "OGPJob \<Rightarrow> bool" where
  "finished j \<longleftrightarrow> Job_Status j \<in> {OGPJobDone, OGPJobFailed}"

definition none_running :: "mem \<Rightarrow> bool" where
  "none_running s \<longleftrightarrow> (\<forall>i j. get_map (m_jobs s) i = Some j \<longrightarrow> Job_Status j \<noteq> OGPJobRunning)"

lemma work_left_0:
  assumes "jobs_ok s" and "work_left s = 0" and "get_map (m_jobs s) i = Some j"
  shows "Job_Status j \<noteq> OGPJobQueued"
proof -
  have "job_work (the (get_map (m_jobs s) i)) = 0" using assms(2,3) unfolding work_left_def by (auto dest: bspec [OF _ domI])
  then show ?thesis using jobs_okD [OF assms(1,3)] assms(3) by (auto simp: job_work_def)
qed

lemma idle_work: "(\<And>i j. get_map (m_jobs s) i = Some j \<Longrightarrow> Job_Status j \<noteq> OGPJobQueued) \<Longrightarrow> work_left s = 0"
  by (auto simp: work_left_def job_work_def)

lemma work_left_update:
  assumes i: "get_map (m_jobs s) i = Some j" and t: "get_map (m_jobs t) = (get_map (m_jobs s))(i \<mapsto> j')"
  shows "work_left t + job_work j = work_left s + job_work j'"
proof -
  let ?D = "dom (get_map (m_jobs s))"
  have D: "finite ?D" "i \<in> ?D" using i by auto
  have "work_left t = job_work j' + (\<Sum>k\<in>?D - {i}. job_work (the (get_map (m_jobs s) k)))"
    unfolding work_left_def t using D by (simp add: insert_absorb sum.remove [of ?D i])
  moreover have "work_left s = job_work j + (\<Sum>k\<in>?D - {i}. job_work (the (get_map (m_jobs s) k)))"
    unfolding work_left_def using D i by (simp add: sum.remove [of ?D i])
  ultimately show ?thesis by simp
qed

lemma worker_progress:
  assumes d: "detached srv" and s: "jobs_ok s" "none_running s"
  defines "t \<equiv> step srv WorkerCycle s"
  shows "jobs_ok t" "none_running t" "work_left t \<le> work_left s - 1" "dom (get_map (m_jobs t)) = dom (get_map (m_jobs s))"
proof -
  have "jobs_ok t \<and> none_running t \<and> work_left t \<le> work_left s - 1 \<and> dom (get_map (m_jobs t)) = dom (get_map (m_jobs s))"
  proof (cases rule: runOnce_jobs [OF d s(1)])
    case (1 u)
    then have "work_left s = 0" by (intro idle_work)
    then show ?thesis using s 1(1,2) by (simp add: t_def none_running_def work_left_def jobs_ok_def)
  next
    case (2 u i j j')
    then have u: "t = u" by (simp add: t_def)
    note j = jobs_okD [OF s(1) 2(2)]
    have "job_work j' < job_work j" using 2(3,5,6) j by (auto simp: job_work_def)
    then have "work_left u < work_left s" using work_left_update [OF 2(2,7)] by simp
    moreover have "jobs_ok u" using s(1) 2(3-7) j by (auto simp: jobs_ok_def)
    ultimately show ?thesis using s(2) 2(2,6,7) u by (auto simp: none_running_def)
  qed
  then show "jobs_ok t" "none_running t" "work_left t \<le> work_left s - 1" "dom (get_map (m_jobs t)) = dom (get_map (m_jobs s))" by auto
qed

lemma worker_empties:
  assumes d: "detached srv" and "jobs_ok s" "none_running s" and "work_left s \<le> n"
  defines "t \<equiv> run_events srv (replicate n WorkerCycle) s"
  shows "dom (get_map (m_jobs t)) = dom (get_map (m_jobs s))" "\<And>i j. get_map (m_jobs t) i = Some j \<Longrightarrow> finished j \<and> Job_Attempts j \<le> MaxAttempts"
proof -
  have "dom (get_map (m_jobs t)) = dom (get_map (m_jobs s)) \<and> jobs_ok t \<and> none_running t \<and> work_left t = 0"
    using assms(2-4) unfolding t_def
  proof (induction n arbitrary: s)
    case (Suc n)
    note p = worker_progress [OF d Suc.prems(1,2)]
    show ?case using Suc.IH [OF p(1,2)] p(3,4) Suc.prems(3) by (simp add: run_events_Cons)
  qed (simp add: run_events_def)
  then show "dom (get_map (m_jobs t)) = dom (get_map (m_jobs s))"
    "\<And>i j. get_map (m_jobs t) i = Some j \<Longrightarrow> finished j \<and> Job_Attempts j \<le> MaxAttempts"
    using work_left_0 [of t] jobs_okD [of t]
    by (auto simp: finished_def none_running_def) (metis OGPJobStatus.exhaust)
qed

lemma work_left_bound:
  assumes "jobs_ok s"
  shows "work_left s \<le> 3 * card (dom (get_map (m_jobs s)))"
proof -
  have "work_left s \<le> (\<Sum>i\<in>dom (get_map (m_jobs s)). 3)"
    unfolding work_left_def
  proof (rule sum_mono)
    fix i assume "i \<in> dom (get_map (m_jobs s))"
    then obtain j where j: "get_map (m_jobs s) i = Some j" by auto
    show "job_work (the (get_map (m_jobs s) i)) \<le> 3"
      using jobs_okD [OF assms j] j by (simp add: job_work_def MaxAttempts_def nat_le_iff)
  qed
  then show ?thesis by simp
qed


end
