(* ===== verification/Server_Reads.thy ===== *)
theory Server_Reads
  imports Server_Store
begin

text \<open>
  What the list endpoints return on the in-memory backend: the batched lookups of the hydrator give
  every post what a lookup for it alone would give, and a client that follows the cursors of a
  timeline to the end has seen every post of it once, newest id first.
\<close>

section \<open>Hydration\<close>

text \<open>What a post looks like to a viewer, by lookups for this post alone.\<close>

definition seen_by :: "string option \<Rightarrow> string \<Rightarrow> bool" where
  "seen_by viewer sub \<longleftrightarrow> viewer = Some sub \<and> sub \<noteq> []"

definition detail_of :: "mem \<Rightarrow> string option \<Rightarrow> Post \<Rightarrow> Detail" where
  "detail_of s viewer p =
     \<lparr>Detail_Post = p, Detail_Images = images_of_post s (Post_ID p), Detail_Tags = tags_of_post s (Post_ID p),
      Detail_LikedByViewer = (\<exists>v. seen_by viewer v \<and> (v, Post_ID p) \<in> like_rows s),
      Detail_Author = (case get_map (m_users s) (Post_UserID p) of
        Some u \<Rightarrow> if User_DeletedAt u = None then Some u else None | None \<Rightarrow> None),
      Detail_FollowingAuthor = (\<exists>v. seen_by viewer v \<and> (v, Post_UserID p) \<in> follow_rows s),
      Detail_OGPPreviews = filter (\<lambda>o'. Prev_Status o' = OGPStatusOK) (previews_of_post s (Post_ID p))\<rparr>"

lemma ranges_fields [simp]:
  "images_of_post (s\<lparr>rt_ranges := n\<rparr>) = images_of_post s" "previews_of_post (s\<lparr>rt_ranges := n\<rparr>) = previews_of_post s"
  "like_rows (s\<lparr>rt_ranges := n\<rparr>) = like_rows s" "follow_rows (s\<lparr>rt_ranges := n\<rparr>) = follow_rows s"
  "posts_keyed (s\<lparr>rt_ranges := n\<rparr>) = posts_keyed s" "feed flt (s\<lparr>rt_ranges := n\<rparr>) = feed flt s"
  "follows_keyed (s\<lparr>rt_ranges := n\<rparr>) = follows_keyed s" "follow_feed side sub (s\<lparr>rt_ranges := n\<rparr>) = follow_feed side sub s"
  by (simp_all add: fun_eq_iff images_of_post_def previews_of_post_def like_rows_def follow_rows_def posts_keyed_def feed_def
      follows_keyed_def follow_feed_def)

lemma detail_of_ranges [simp]: "detail_of (s\<lparr>rt_ranges := n\<rparr>) = detail_of s"
  by (simp add: fun_eq_iff detail_of_def)

lemma fst_entries: "fst ` set (entries m) = dom (get_map m)"
proof -
  have "k \<in> fst ` set (entries m) \<longleftrightarrow> (\<exists>v. (k, v) \<in> set (entries m))" for k by (force simp del: mem_entries)
  then show ?thesis by auto
qed

lemma authors_of_posts:
  "get_map (fold (\<lambda>p. set_map (Post_UserID p) ()) posts m) u \<noteq> None \<longleftrightarrow> u \<in> Post_UserID ` set posts \<or> get_map m u \<noteq> None"
  by (induction posts arbitrary: m) (auto split: if_splits)

lemma mem_hydrator_fields [simp]:
  "hyd_imageRepo mem_hydrator = NewImageRepository" "hyd_tagRepo mem_hydrator = NewTagRepository"
  "hyd_likeRepo mem_hydrator = NewLikeRepository" "hyd_userRepo mem_hydrator = NewUserRepository"
  "hyd_followRepo mem_hydrator = NewFollowRepository" "hyd_ogpRepo mem_hydrator = NewOGPCacheRepository"
  by (simp_all add: mem_hydrator_def)

lemma run_Hydrate:
  assumes tags: "tags_ok s"
  shows "\<exists>n. run_state (Hydrate mem_hydrator posts viewer) s = (Inr (map (detail_of s viewer) posts), s\<lparr>rt_ranges := n\<rparr>)"
proof (cases "posts = []")
  case True
  then show ?thesis by (auto simp: Hydrate_def intro: exI [of _ "rt_ranges s"])
next
  case False
  let ?ids = "map Post_ID posts"
  let ?authors = "map fst (shuffle (rt_order s (rt_ranges s)) (entries (fold (\<lambda>p. set_map (Post_UserID p) ()) posts DAList.empty)))"
  have authors: "set ?authors = Post_UserID ` set posts"
    using authors_of_posts [of posts DAList.empty] by (auto simp: fst_entries set_map get_map_empty simp del: mem_entries)
  obtain n where n: "run_state (tags_by_posts ?ids Map.empty) (s\<lparr>rt_ranges := Suc (rt_ranges s)\<rparr>) =
      (\<lambda>p. if p \<in> set ?ids \<and> tags_of_post s p \<noteq> [] then Some (tags_of_post s p) else None, s\<lparr>rt_ranges := n\<rparr>)"
    using run_tags_by_posts [of "s\<lparr>rt_ranges := Suc (rt_ranges s)\<rparr>" ?ids Map.empty, unfolded tags_of_post_ranges] tags by auto
  have tag: "run_state (tags_ListByPostIDs NewTagRepository ?ids) (s\<lparr>rt_ranges := Suc (rt_ranges s)\<rparr>) =
      (Inr (\<lambda>p. if p \<in> set ?ids \<and> tags_of_post s p \<noteq> [] then Some (tags_of_post s p) else None), s\<lparr>rt_ranges := n\<rparr>)"
    using n by (simp add: NewTagRepository_def TagRepository_ListByPostIDs_def)
  note fields = NewImageRepository_def NewUserRepository_def NewOGPCacheRepository_def NewLikeRepository_def NewFollowRepository_def
  have "run_state (Hydrate mem_hydrator posts viewer) s = (Inr (map (detail_of s viewer) posts), s\<lparr>rt_ranges := n\<rparr>)"
  proof (cases "viewer = None \<or> viewer = Some []")
    case True
    then show ?thesis
      using False tag authors
      by (auto simp: Hydrate_def Let_def run_simps fields detail_of_def at_or_def seen_by_def filterOKPreviews_def)
  next
    case view: False
    then obtain v where v: "viewer = Some v" "v \<noteq> []" by auto
    show ?thesis
      using False tag authors v
      by (auto simp: Hydrate_def Let_def run_simps fields detail_of_def at_or_def seen_by_def filterOKPreviews_def)
  qed
  then show ?thesis ..
qed

section \<open>Timelines\<close>

interpretation detail_pages: cursor_paging "\<lambda>d. Post_ID (Detail_Post d)" "\<lambda>i. i" "\<lambda>c. c" "\<lambda>i. i \<noteq> []"
  by unfold_locales auto

lemma Detail_Post_of [simp]: "Detail_Post (detail_of s v p) = p"
  by (simp add: detail_of_def)

lemma after_details: "detail_pages.after c (map (detail_of s v) ps) = map (detail_of s v) (post_pages.after c ps)"
  by (simp add: detail_pages.after_def post_pages.after_def filter_map comp_def split: option.split)

lemma page_details:
  "0 < n \<Longrightarrow> detail_pages.page_of n (map (detail_of s v) ps) = apfst (map (detail_of s v)) (post_pages.page_of n ps)"
  by (simp add: detail_pages.page_of_def post_pages.page_of_def take_map)

text \<open>The endpoints that list posts hydrate a page of a feed; \<open>lists\<close> says so of one of them.\<close>

definition lists :: "mem \<Rightarrow> string option \<Rightarrow> (Post \<Rightarrow> bool) \<Rightarrow> int \<Rightarrow> (string option \<Rightarrow> (mem, Detail list \<times> string) fallible) \<Rightarrow> bool" where
  "lists s viewer flt limit page \<longleftrightarrow> (\<forall>c m. \<exists>m'. run_state (page c) (s\<lparr>rt_ranges := m\<rparr>) =
     (Inr (apfst (map (detail_of s viewer)) (paginate (post_pages.after c (feed flt s)) limit)), s\<lparr>rt_ranges := m'\<rparr>))"

lemma run_hydrate_page:
  assumes "tags_ok s"
  shows "\<exists>m'. run_state (hydrate_page mem_hydrator viewer page) (s\<lparr>rt_ranges := m\<rparr>) =
     (Inr (apfst (map (detail_of s viewer)) page), s\<lparr>rt_ranges := m'\<rparr>)"
  using run_Hydrate [of "s\<lparr>rt_ranges := m\<rparr>" "fst page" viewer] assms
  by (cases page) (auto simp: hydrate_page_def run_simps)

lemma lists_of:
  assumes "tags_ok s"
    and "\<And>c m. \<exists>m'. run_state (rows c) (s\<lparr>rt_ranges := m\<rparr>) =
      (Inr (paginate (post_pages.after c (feed flt s)) limit), s\<lparr>rt_ranges := m'\<rparr>)"
  shows "lists s viewer flt limit (\<lambda>c. bind_or (rows c) (DatabaseError msg) (hydrate_page mem_hydrator viewer))"
  unfolding lists_def
proof (intro allI)
  fix c m
  obtain m1 where "run_state (rows c) (s\<lparr>rt_ranges := m\<rparr>) =
      (Inr (paginate (post_pages.after c (feed flt s)) limit), s\<lparr>rt_ranges := m1\<rparr>)" using assms(2) by blast
  then show "\<exists>m'. run_state (bind_or (rows c) (DatabaseError msg) (hydrate_page mem_hydrator viewer)) (s\<lparr>rt_ranges := m\<rparr>) =
     (Inr (apfst (map (detail_of s viewer)) (paginate (post_pages.after c (feed flt s)) limit)), s\<lparr>rt_ranges := m'\<rparr>)"
    using run_hydrate_page [OF assms(1), of viewer _ m1] by (simp add: run_simps)
qed

lemma post_lists:
  assumes s: "tidy s"
  shows "lists s viewer (list_filter author) (NormalizeLimit n) (\<lambda>c. ListPosts_Execute NewPostRepository mem_hydrator author c n viewer)"
    "lists s viewer (list_filter None) (NormalizeLimit n) (\<lambda>c. GlobalTimeline_Execute NewPostRepository mem_hydrator c n viewer)"
    "sub \<noteq> [] \<Longrightarrow> lists s viewer (list_filter (Some sub)) (NormalizeLimit n)
       (\<lambda>c. UserTimeline_Execute NewPostRepository mem_hydrator sub c n viewer)"
    "i \<noteq> [] \<Longrightarrow> lists s viewer (replies_filter i) (NormalizeLimit n) (\<lambda>c. ListReplies_Execute NewPostRepository mem_hydrator i c n viewer)"
proof -
  have "tags_ok s" "posts_keyed s" using s by (simp_all add: tidy_def)
  then show "lists s viewer (list_filter author) (NormalizeLimit n) (\<lambda>c. ListPosts_Execute NewPostRepository mem_hydrator author c n viewer)"
    "lists s viewer (list_filter None) (NormalizeLimit n) (\<lambda>c. GlobalTimeline_Execute NewPostRepository mem_hydrator c n viewer)"
    "sub \<noteq> [] \<Longrightarrow> lists s viewer (list_filter (Some sub)) (NormalizeLimit n)
       (\<lambda>c. UserTimeline_Execute NewPostRepository mem_hydrator sub c n viewer)"
    "i \<noteq> [] \<Longrightarrow> lists s viewer (replies_filter i) (NormalizeLimit n) (\<lambda>c. ListReplies_Execute NewPostRepository mem_hydrator i c n viewer)"
    unfolding ListPosts_Execute_def GlobalTimeline_Execute_def UserTimeline_Execute_def ListReplies_Execute_def
    by (auto simp: NewPostRepository_def pages_of_List intro!: lists_of exI)
qed

text \<open>Home: the authors are the caller and the users the caller follows.\<close>

definition home_filter :: "mem \<Rightarrow> string \<Rightarrow> Post \<Rightarrow> bool" where
  "home_filter s me p \<longleftrightarrow> Post_DeletedAt p = None \<and> Post_ParentPostID p = None \<and> (Post_UserID p = me \<or> (me, Post_UserID p) \<in> follow_rows s)"

lemma home_lists:
  assumes s: "tidy s" and me: "me \<noteq> []"
  shows "lists s (Some me) (home_filter s me) (NormalizeLimit n)
    (\<lambda>c. HomeTimeline_Execute NewPostRepository NewFollowRepository mem_hydrator me c n)"
  unfolding lists_def
proof (intro allI)
  fix c m
  have ok: "tags_ok s" "posts_keyed s" using s by (simp_all add: tidy_def)
  obtain subs where subs: "run_state (FollowRepository_ListFollowingSubs me) (s\<lparr>rt_ranges := m\<rparr>) = (Inr subs, s\<lparr>rt_ranges := Suc m\<rparr>)"
      "set subs = {b. (me, b) \<in> follow_rows s}"
    using run_ListFollowingSubs [of me "s\<lparr>rt_ranges := m\<rparr>"] by auto
  have "authors_filter (subs @ [me]) = home_filter s me"
    using subs(2) by (auto simp: authors_filter_def home_filter_def fun_eq_iff)
  then have page: "run_state (PostRepository_ListByUserIDs (subs @ [me]) c (NormalizeLimit n)) (s\<lparr>rt_ranges := Suc m\<rparr>) =
      (Inr (paginate (post_pages.after c (feed (home_filter s me) s)) (NormalizeLimit n)), s\<lparr>rt_ranges := Suc (Suc m)\<rparr>)"
    using ok(2) by (simp add: pages_of_List)
  show "\<exists>m'. run_state (HomeTimeline_Execute NewPostRepository NewFollowRepository mem_hydrator me c n) (s\<lparr>rt_ranges := m\<rparr>) =
     (Inr (apfst (map (detail_of s (Some me))) (paginate (post_pages.after c (feed (home_filter s me) s)) (NormalizeLimit n))), s\<lparr>rt_ranges := m'\<rparr>)"
    using run_hydrate_page [OF ok(1), of "Some me" _ "Suc (Suc m)"] subs(1) page me
    by (simp add: HomeTimeline_Execute_def run_simps NewFollowRepository_def NewPostRepository_def Let_def)
qed

lemma length_feed: "length (feed flt s) \<le> card (dom (get_map (m_posts s)))"
proof -
  have "length (feed flt s) \<le> length (entries (m_posts s))" by (simp add: feed_def length_filter_le)
  also have "\<dots> = card (set (map fst (entries (m_posts s))))" 
    using distinct_card [of "map fst (entries (m_posts s))"] by simp
  finally show ?thesis by (simp add: fst_entries)
qed

lemma walk_lists:
  assumes s: "tidy s" "get_map (m_posts s) [] = None" and page: "lists s viewer flt (NormalizeLimit n) page"
  shows "\<exists>pages m. run_state (walk_pages (Suc (card (dom (get_map (m_posts s))))) page None) s = (Some pages, s\<lparr>rt_ranges := m\<rparr>) \<and>
     concat pages = map (detail_of s viewer) (feed flt s) \<and> (\<forall>p\<in>set (butlast pages). length p = nat (NormalizeLimit n))"
proof -
  let ?rows = "map (detail_of s viewer) (feed flt s)" and ?n = "nat (NormalizeLimit n)"
  have keyed: "posts_keyed s" using s by (simp add: tidy_def)
  have n: "0 < NormalizeLimit n" "0 < ?n" using NormalizeLimit_range(1) [of n] by simp_all
  have pages: "\<exists>s'. run_state (page c) t = (Inr (detail_pages.page_of ?n (detail_pages.after c ?rows)), s') \<and> (\<exists>m. s' = s\<lparr>rt_ranges := m\<rparr>)"
    if "\<exists>m. t = s\<lparr>rt_ranges := m\<rparr>" for c t
    using page that n unfolding lists_def paginate_page_of [OF n(1)] page_details [OF n(2)] after_details by blast
  have good: "\<forall>d\<in>set ?rows. Post_ID (Detail_Post d) \<noteq> []"
  proof
    fix d assume "d \<in> set ?rows"
    then obtain i p where "get_map (m_posts s) i = Some p" "Detail_Post d = p" by (auto simp: mem_feed)
    then show "Post_ID (Detail_Post d) \<noteq> []" using posts_keyedD [OF keyed] s(2) by force
  qed
  have sorted: "sorted_wrt (\<lambda>a b. Post_ID (Detail_Post a) > Post_ID (Detail_Post b)) ?rows"
    using sorted_feed [OF keyed, of flt] by (simp add: sorted_wrt_map)
  have here: "\<exists>m. s = s\<lparr>rt_ranges := m\<rparr>" by (rule exI [of _ "rt_ranges s"]) simp
  have fuel: "length ?rows < Suc (card (dom (get_map (m_posts s))))" using length_feed [of flt s] by simp
  show ?thesis
    using detail_pages.walk_complete [where ok = "\<lambda>t. \<exists>m. t = s\<lparr>rt_ranges := m\<rparr>", OF pages n(2) sorted good here fuel]
    by blast
qed

lemma reachable_no_empty_id:
  assumes "detached srv" and "reachable srv s"
  shows "get_map (m_posts s) [] = None"
proof -
  obtain n where ok: "sys_ok (rt_ids s) n s" using reachable_sys_ok [OF assms] by blast
  have "i \<noteq> []" if "i \<in> dom (get_map (m_posts s))" for i
    using ok that by (intro issued_not_Nil [of "rt_ids s" s]) (auto simp: sys_ok_def)
  then show ?thesis by auto
qed

lemma walk_feed_complete:
  assumes "detached srv" and "reachable srv s" and page: "lists s viewer flt (NormalizeLimit n) page" and flt: "\<And>p. flt p \<longleftrightarrow> P p"
  shows "\<exists>pages m. run_state (walk_pages (Suc (card (dom (get_map (m_posts s))))) page None) s = (Some pages, s\<lparr>rt_ranges := m\<rparr>) \<and>
    sorted_wrt (\<lambda>d e. Post_ID (Detail_Post d) > Post_ID (Detail_Post e)) (concat pages) \<and>
    Detail_Post ` set (concat pages) = {p. (\<exists>i. get_map (m_posts s) i = Some p) \<and> P p} \<and>
    (\<forall>p\<in>set (butlast pages). length p = nat (NormalizeLimit n))"
proof -
  note s = reachable_tidy [OF assms(1,2)]
  obtain pages m where walk: "run_state (walk_pages (Suc (card (dom (get_map (m_posts s))))) page None) s = (Some pages, s\<lparr>rt_ranges := m\<rparr>)"
    "concat pages = map (detail_of s viewer) (feed flt s)" "\<forall>p\<in>set (butlast pages). length p = nat (NormalizeLimit n)"
    using walk_lists [OF s reachable_no_empty_id [OF assms(1,2)] page] by blast
  have "posts_keyed s" using s by (simp add: tidy_def)
  then have "sorted_wrt (\<lambda>d e. Post_ID (Detail_Post d) > Post_ID (Detail_Post e)) (concat pages)"
    unfolding walk(2) using sorted_feed [of s flt] by (simp add: sorted_wrt_map)
  moreover have "Detail_Post ` set (concat pages) = {p. (\<exists>i. get_map (m_posts s) i = Some p) \<and> P p}"
    unfolding walk(2) using flt by (auto simp: image_image mem_feed)
  ultimately show ?thesis using walk(1,3) by blast
qed

lemma filters:
  "list_filter author p \<longleftrightarrow> Post_DeletedAt p = None \<and> Post_ParentPostID p = None \<and> (author = None \<or> author = Some (Post_UserID p))"
  "replies_filter i p \<longleftrightarrow> Post_DeletedAt p = None \<and> Post_ParentPostID p = Some i"
  by (auto simp: list_filter_def replies_filter_def split: option.splits)

section \<open>Follow lists\<close>

lemma walk_pages_map:
  assumes "\<And>c t. P t \<Longrightarrow> run_state (page' c) t = map_prod (map_sum wrap (apfst f)) id (run_state (page c) t)"
    and "\<And>c t. P t \<Longrightarrow> P (snd (run_state (page c) t))" and "P t"
  shows "run_state (walk_pages n page' c) t = apfst (map_option (map f)) (run_state (walk_pages n page c) t)"
  using assms(3)
proof (induction n arbitrary: c t)
  case (Suc n)
  obtain r t' where run: "run_state (page c) t = (r, t')" by (cases "run_state (page c) t")
  then have t': "P t'" using assms(2) [OF Suc.prems, of c] by simp
  show ?case
    using run assms(1) [OF Suc.prems, of c] Suc.IH [OF t']
    by (cases r) (auto simp: option.map_comp comp_def split: prod.splits)
qed simp

definition live_user :: "mem \<Rightarrow> string \<Rightarrow> User option" where
  "live_user s sub = (case get_map (m_users s) sub of Some u \<Rightarrow> if User_DeletedAt u = None then Some u else None | None \<Rightarrow> None)"

definition users_of_rows :: "mem \<Rightarrow> bool \<Rightarrow> Follow list \<Rightarrow> User list" where
  "users_of_rows s side rows = [u. Some u \<leftarrow> map (\<lambda>f. live_user s (peerSub side f)) rows]"

lemma users_of_rows_append [simp]: "users_of_rows s side (xs @ ys) = users_of_rows s side xs @ users_of_rows s side ys"
  by (simp add: users_of_rows_def)

lemma users_of_rows_concat: "concat (map (users_of_rows s side) pages) = users_of_rows s side (concat pages)"
  by (induction pages) (simp_all add: users_of_rows_def)

lemma orderedUsers_rows:
  "orderedUsers (map (peerSub side) rows) (\<lambda>sub. if sub \<in> set (map (peerSub side) rows) then live_user s sub else None) = users_of_rows s side rows"
  unfolding orderedUsers_def users_of_rows_def map_map by (intro arg_cong [where f = concat] map_cong) (auto split: option.split)

definition followList :: "bool \<Rightarrow> string \<Rightarrow> string option \<Rightarrow> int \<Rightarrow> (mem, User list \<times> string) fallible" where
  "followList side sub c n = (if side then ListFollowers_Execute NewUserRepository NewFollowRepository sub c n
     else ListFollowing_Execute NewUserRepository NewFollowRepository sub c n)"

lemma run_listUsers:
  "run_state (UserRepository_ListBySubs (map (peerSub side) rows)) t =
     (Inr (\<lambda>sub. if sub \<in> set (map (peerSub side) rows) then live_user t sub else None), t)"
  by (simp only: run_ListBySubs live_user_def)

lemma peer_maps: "map Follow_FollowerSub rows = map (peerSub True) rows" "map Follow_FolloweeSub rows = map (peerSub False) rows"
  by (simp_all add: peerSub_def)

lemma listSide_users: "m_users (snd (run_state (listSide sub c l side) t)) = m_users t"
  by (simp add: listSide_def run_simps Let_def)

lemma run_followList:
  assumes "sub \<noteq> []" and "m_users t = m_users s"
  shows "run_state (followList side sub c n) t =
    map_prod (map_sum (DatabaseError (if side then ''failed to list followers'' else ''failed to list following''))
      (apfst (users_of_rows s side))) id (run_state (listSide sub c (normalizeLimit n) side) t)"
proof -
  obtain r t' where run: "run_state (listSide sub c (normalizeLimit n) side) t = (r, t')" by (cases "run_state (listSide sub c (normalizeLimit n) side) t")
  then have "m_users t' = m_users s" using listSide_users [of sub c "normalizeLimit n" side t] assms(2) by simp
  then have live: "users_of_rows t' = users_of_rows s" by (simp add: users_of_rows_def live_user_def fun_eq_iff)
  show ?thesis
    using assms(1) run
    by (cases side; cases r)
      (auto simp: followList_def ListFollowers_Execute_def ListFollowing_Execute_def NewFollowRepository_def NewUserRepository_def
        FollowRepository_ListFollowers_def FollowRepository_ListFollowing_def run_bind_or Let_def peer_maps run_listUsers
        orderedUsers_rows live simp del: set_map list.set_map map_map)
qed

lemma length_follow_feed: "length (follow_feed side sub s) \<le> card (follow_rows s)"
proof -
  have "length (follow_feed side sub s) \<le> length (entries (m_follows s))" by (simp add: follow_feed_def length_filter_le)
  also have "\<dots> = card (set (map fst (entries (m_follows s))))"
    using distinct_card [of "map fst (entries (m_follows s))"] by simp
  finally show ?thesis by (simp add: fst_entries follow_rows_def)
qed

lemma walk_followList:
  assumes keyed: "follows_keyed s" and sub: "sub \<noteq> []"
    and good: "\<forall>f\<in>set (follow_feed side sub s). four_digit_year (Follow_CreatedAt f) \<and> peerSub side f \<noteq> []"
  shows "\<exists>pages t. run_state (walk_pages (Suc (card (follow_rows s))) (\<lambda>c. followList side sub c n) None) s = (Some pages, t) \<and>
     concat pages = users_of_rows s side (follow_feed side sub s)"
proof -
  have n: "0 < normalizeLimit n" by (simp add: normalizeLimit_def)
  obtain pages t where walk: "run_state (walk_pages (Suc (card (follow_rows s))) (\<lambda>c. listSide sub c (normalizeLimit n) side) None) s = (Some pages, t)"
      "concat pages = follow_feed side sub s"
    using walk_follow_feed [OF keyed n good, of "Suc (card (follow_rows s))"] length_follow_feed [of side sub s] by auto
  have "run_state (walk_pages (Suc (card (follow_rows s))) (\<lambda>c. followList side sub c n) None) s =
      apfst (map_option (map (users_of_rows s side)))
        (run_state (walk_pages (Suc (card (follow_rows s))) (\<lambda>c. listSide sub c (normalizeLimit n) side) None) s)"
    by (rule walk_pages_map [where P = "\<lambda>t. m_users t = m_users s"]) (auto simp: run_followList [OF sub] listSide_users)
  then show ?thesis using walk by (simp add: users_of_rows_concat)
qed


end
