(* ===== verification/Samples.thy ===== *)
theory Samples
  imports Server_Security Server_Worker Server_Reads "HOL-Library.Code_Target_Nat"
begin

text \<open>Concrete environments, servers and requests, at which the witnesses evaluate the properties.
  The ids of the sample environment are distinct for the first 32 draws.\<close>

definition sample_ulid :: "nat \<Rightarrow> string" where
  "sample_ulid n = replicate 25 (CHR ''0'') @ [crockford ! n]"

definition sample_env :: mem where
  "sample_env = init_mem (\<lambda>n. 1 + int n) sample_ulid (\<lambda>_. [])"

definition sample_writer :: "mem CreatePostUseCase" where
  "sample_writer = \<lparr>create_postRepo = NewPostRepository, create_imageRepo = NewImageRepository,
     create_tagRepo = NewTagRepository, create_tagExtractor = (\<lambda>c. ret (Inr [])), create_onCommit = None\<rparr>"

definition sample_request :: CreatePostRequest where
  "sample_request = \<lparr>CPReq_Content = ''hello'', CPReq_ImageIDs = [], CPReq_ParentPostID = None\<rparr>"

lemma quiet_commit_None: "quiet_commit view None"
  by (simp add: quiet_commit_def)

lemma quiet_hook_None: "quiet_hook view None"
  by (simp add: quiet_hook_def)

text \<open>An AuthCore that knows two tokens, and a server around it without the optional parts.\<close>

definition alice :: string where "alice = ''01HAAAAAAAAAAAAAAAAAAAAAAA''"

definition bob :: string where "bob = ''01HBBBBBBBBBBBBBBBBBBBBBBB''"

definition sample_client :: "mem Client" where
  "sample_client = \<lparr>client_Introspect = (\<lambda>tok. ret (
       if tok = ''a'' then Inr \<lparr>Session_Sub = alice, Session_ExpiresAt = 0, Session_PublicID = ''alice''\<rparr>
       else if tok = ''b'' then Inr \<lparr>Session_Sub = bob, Session_ExpiresAt = 0, Session_PublicID = ''bob''\<rparr>
       else Inl ErrInvalidSession)),
     client_GetProfile = (\<lambda>tok. ret (Inl ErrUpstream))\<rparr>"

definition sample_server :: server where
  "sample_server = \<lparr>srv_client = sample_client, srv_cookieName = ''fuju_access'', srv_profileTTL = 0, srv_tags = (\<lambda>_. []),
     srv_ogp = \<lparr>ogp_ExtractURLs = (\<lambda>c. if c = ''hello'' then [''http://a''] else []), ogp_Normalize = Inr, ogp_Hash = id,
       ogp_Fetch = (\<lambda>_. ret (Inl DeadlineExceeded))\<rparr>,
     srv_fujuPost = None, srv_fujuLike = None, srv_fujuFollow = None, srv_url_Parse = (\<lambda>_. None), srv_detect = (\<lambda>_. []),
     srv_storage = Some \<lparr>storage_Upload = (\<lambda>_. ret (Inl ErrUpstream)), storage_Delete = (\<lambda>_. ret (Inr ()))\<rparr>,
     srv_session = \<lparr>SCC_Name = ''fuju_access'', SCC_Secure = True, SCC_SameSite = SameSiteLaxMode, SCC_Domain = [], SCC_Path = [],
       SCC_FallbackMaxAge = Hour\<rparr>\<rparr>"

lemma sample_outside: "outside sample_server"
  by (simp add: outside_def sample_server_def sample_client_def calm_ret)

definition sample_http :: "string \<Rightarrow> string \<Rightarrow> string \<Rightarrow> http_request" where
  "sample_http token name v = \<lparr>Req_Method = ''POST'', Req_Authorization = ''Bearer '' @ token, Req_Origin = [], Req_Cookies = [],
     Req_PathValue = (\<lambda>k. if k = name then v else []), Req_Query = (\<lambda>_. [])\<rparr>"

text \<open>Alice signs in; Bob follows her, twice; and a request without a session is refused.\<close>

definition sample_events :: "event list" where
  "sample_events = [Request GetMe (sample_http ''a'' [] []), Request PostFollow (sample_http ''b'' ''sub'' alice),
     Request PostFollow (sample_http ''b'' ''sub'' alice), Request PostFollow (sample_http ''c'' ''sub'' alice), WorkerCycle]"

definition sample_end :: mem where
  "sample_end = run_events sample_server sample_events sample_env"

lemma sample_run:
  "map_option User_FollowersCount (get_map (m_users sample_end) alice) = Some 1" "rt_ids sample_end = 0"
  by code_simp+

lemma sample_unique: "unique_ids 0 sample_ulid"
  by (simp add: unique_ids_def)

lemma sample_detached: "detached sample_server"
  by (simp add: detached_def sample_server_def sample_client_def drifting.along_ret)

text \<open>The state after a signed-in user posts.\<close>

lemma step_post:
  assumes "extractAuthToken r (srv_cookieName srv) = Some tok" and "run_state (client_Introspect (srv_client srv) tok) s = (Inr sess, s1)"
    and "Session_Sub sess \<noteq> []" and "run_state (GetOrHydrate_Execute (userHydrateUC srv) tok (Session_Sub sess)) s1 = (Inr u, s2)"
    and "run_state (CreatePost_Execute (postCreateUC srv) (Session_Sub sess) (Some rq)) s2 = (Inr d, t)" and "tok \<noteq> []"
  shows "step srv (Request (PostPosts (Inr rq)) r) s = t"
  using assms
  by (simp add: status_of_def chain_def authed_def AuthMiddleware_def HydrateUserMiddleware_def handler_CreatePost_def with_caller_def
      GetSubFromContext_def SetSubInContext_def SetAccessTokenInContext_def SetExpiresAtInContext_def SetCurrentUserInContext_def
      or_error_def decodeJSONBody_def answer_def context_token_def GetAccessTokenFromContext_def)

definition sample_signed :: mem where
  "sample_signed = snd (run_state (GetOrHydrate_Execute (userHydrateUC sample_server) ''a'' alice) sample_env)"

definition sample_posted :: mem where
  "sample_posted = snd (run_state (CreatePost_Execute (postCreateUC sample_server) alice (Some sample_request)) sample_signed)"

abbreviation sample_post :: string where
  "sample_post \<equiv> sample_ulid 0"

lemma sample_post_step:
  "run_events sample_server [Request (PostPosts (Inr sample_request)) (sample_http ''a'' [] [])] sample_env = sample_posted"
proof -
  let ?hyd = "run_state (GetOrHydrate_Execute (userHydrateUC sample_server) ''a'' alice) sample_env"
  let ?new = "run_state (CreatePost_Execute (postCreateUC sample_server) alice (Some sample_request)) sample_signed"
  have "\<not> isl (fst ?hyd)" "\<not> isl (fst ?new)" by code_simp+
  then obtain u d where h: "?hyd = (Inr u, sample_signed)" and c: "?new = (Inr d, sample_posted)"
    unfolding sample_signed_def sample_posted_def by (metis isl_def prod.collapse sum.exhaust_sel)
  have tok: "extractAuthToken (sample_http ''a'' [] []) (srv_cookieName sample_server) = Some ''a''" by code_simp
  have sess: "run_state (client_Introspect (srv_client sample_server) ''a'') sample_env =
      (Inr \<lparr>Session_Sub = alice, Session_ExpiresAt = 0, Session_PublicID = ''alice''\<rparr>, sample_env)"
    by (simp add: sample_server_def sample_client_def)
  have "step sample_server (Request (PostPosts (Inr sample_request)) (sample_http ''a'' [] [])) sample_env = sample_posted"
    by (rule step_post [OF tok sess]) (use h c in \<open>simp_all add: alice_def\<close>)
  then show ?thesis by (simp add: run_events_def)
qed


lemma sample_unique_2: "unique_ids 2 sample_ulid"
proof -
  have "IsULID (sample_ulid 0)" "IsULID (sample_ulid 1)" "sample_ulid 0 \<noteq> sample_ulid 1" by code_simp+
  then show ?thesis by (auto simp: unique_ids_def inj_on_def less_2_cases_iff)
qed

lemma sample_reachable: "reachable sample_server sample_posted"
proof -
  have "rt_ids sample_posted = 2" by code_simp
  then show ?thesis
    unfolding reachable_def
    by (intro exI [of _ "[Request (PostPosts (Inr sample_request)) (sample_http ''a'' [] [])]"] exI [of _ "\<lambda>n. 1 + int n"]
        exI [of _ sample_ulid] exI [of _ "\<lambda>_. []"])
      (simp add: sample_post_step [unfolded sample_env_def] sample_unique_2 max_int64_def)
qed

lemma sample_end_reachable: "reachable sample_server sample_end"
proof -
  have "int (length sample_events) \<le> max_int64" by (simp add: sample_events_def max_int64_def)
  moreover have "sample_end = run_events sample_server sample_events (init_mem (\<lambda>n. 1 + int n) sample_ulid (\<lambda>_. []))"
    by (simp only: sample_end_def sample_env_def)
  ultimately show ?thesis
    unfolding reachable_def using sample_unique sample_run(2) by metis
qed

lemma sample_posted_facts:
  "live (get_map (m_posts sample_posted)) sample_post \<noteq> None" "(bob, sample_post) \<notin> like_rows sample_posted"
  "bob \<noteq> []" "sample_post \<noteq> []"
proof -
  show "live (get_map (m_posts sample_posted)) sample_post \<noteq> None" by code_simp
  have "get_map (m_likes sample_posted) bob = None" by code_simp
  then show "(bob, sample_post) \<notin> like_rows sample_posted" by (simp add: like_rows_def)
  show "bob \<noteq> []" "sample_post \<noteq> []" by code_simp+
qed

lemma sample_row:
  obtains p where "get_map (m_posts sample_posted) sample_post = Some p" "Post_ID p = sample_post" "Post_UserID p = alice"
    "Post_ParentPostID p = None" "Post_DeletedAt p = None"
proof -
  have "map_option (\<lambda>p. (Post_ID p, Post_UserID p, Post_ParentPostID p, Post_DeletedAt p)) (get_map (m_posts sample_posted) sample_post) =
      Some (sample_post, alice, None, None)" by code_simp
  then show ?thesis using that by auto
qed

lemma sample_follows:
  "\<forall>a f. get_map (m_follows sample_end) (a, alice) = Some f \<longrightarrow> a \<noteq> [] \<and> four_digit_year (Follow_CreatedAt f)"
  "map_option Follow_FollowerSub (get_map (m_follows sample_end) (bob, alice)) = Some bob"
  "map_option User_Sub (live_user sample_end bob) = Some bob" "alice \<noteq> []"
proof -
  have "list_all (\<lambda>((a, b), f). a \<noteq> [] \<and> four_digit_year (Follow_CreatedAt f)) (entries (m_follows sample_end))" by code_simp
  then show "\<forall>a f. get_map (m_follows sample_end) (a, alice) = Some f \<longrightarrow> a \<noteq> [] \<and> four_digit_year (Follow_CreatedAt f)"
    by (auto simp: list_all_iff)
  show "map_option Follow_FollowerSub (get_map (m_follows sample_end) (bob, alice)) = Some bob" by code_simp
  show "map_option User_Sub (live_user sample_end bob) = Some bob" by code_simp
  show "alice \<noteq> []" by code_simp
qed

text \<open>The post of Alice links a page: its fetch job is queued.\<close>

lemma sample_job:
  obtains i j where "get_map (m_jobs sample_posted) i = Some j" "Job_Status j = OGPJobQueued" "Job_Attempts j = 0"
proof -
  have "map_option (\<lambda>j. (Job_Status j, Job_Attempts j)) (get_map (m_jobs sample_posted) (sample_ulid 1)) = Some (OGPJobQueued, 0)" by code_simp
  then show ?thesis using that by auto
qed

lemma sample_none_running: "none_running sample_posted" "card (dom (get_map (m_jobs sample_posted))) = 1"
proof -
  have rows: "map (\<lambda>(i, j). (i, Job_Status j)) (entries (m_jobs sample_posted)) = [(sample_ulid 1, OGPJobQueued)]" by code_simp
  then obtain j where j: "entries (m_jobs sample_posted) = [(sample_ulid 1, j)]" "Job_Status j = OGPJobQueued"
    by (auto simp: map_eq_Cons_conv)
  have "get_map (m_jobs sample_posted) i = Some j' \<longleftrightarrow> i = sample_ulid 1 \<and> j' = j" for i j'
    using mem_entries [of i j' "m_jobs sample_posted"] unfolding j(1) by auto
  then show "none_running sample_posted" "card (dom (get_map (m_jobs sample_posted))) = 1"
    using j(2) by (auto simp: none_running_def dom_def)
qed

end
