(* ===== verification/Go_Net.thy ===== *)
theory Go_Net
  imports Sharedcursor Http
begin

text \<open>
  What the clients of other services use of the standard library: percent escapes
  (\<open>url.QueryEscape\<close>, \<open>url.Values.Encode\<close>), padded base64 (\<open>base64.StdEncoding\<close>), \<open>strings.TrimRight\<close>,
  and \<open>net/http\<close> on the client side. The network is a field of \<open>http_client\<close>: building a
  request can fail on the URL, and a round trip returns an error or a response, whose body
  enters as the outcome of decoding it.
\<close>

section \<open>Strings\<close>

definition TrimRight :: "string \<Rightarrow> char \<Rightarrow> string" where
  "TrimRight s c = rev (dropWhile (\<lambda>x. x = c) (rev s))"

definition TrimSuffix :: "string \<Rightarrow> string \<Rightarrow> string" where
  "TrimSuffix s suffix = (if suffix \<noteq> [] \<and> length suffix \<le> length s \<and> drop (length s - length suffix) s = suffix
     then take (length s - length suffix) s else s)"

definition is_alnum :: "char \<Rightarrow> bool" where
  "is_alnum c \<longleftrightarrow> list_ex (\<lambda>(lo, hi). lo \<le> c \<and> c \<le> hi) [(CHR ''0'', CHR ''9''), (CHR ''A'', CHR ''Z''), (CHR ''a'', CHR ''z'')]"

definition hex_upper :: "nat \<Rightarrow> char" where
  "hex_upper n = ''0123456789ABCDEF'' ! n"

definition escape_char :: "char \<Rightarrow> string" where
  "escape_char c = (if is_alnum c \<or> c \<in> set ''-_.~'' then [c]
     else if c = CHR '' '' then ''+''
     else CHR ''%'' # [hex_upper (of_char c div 16), hex_upper (of_char c mod 16)])"

definition QueryEscape :: "string \<Rightarrow> string" where
  "QueryEscape s = concat (map escape_char s)"

text \<open>\<open>url.Values.Encode\<close> on values set once each: the keys in order.\<close>

definition encode_values :: "(string \<times> string) list \<Rightarrow> string" where
  "encode_values kvs = concat (map (\<lambda>(i, k, v). (if i = 0 then [] else ''&'') @ QueryEscape k @ ''='' @ QueryEscape v)
     (enumerate 0 (sort_slice (\<lambda>a b. fst a < fst b) kvs)))"

definition std_alphabet :: string where
  "std_alphabet = ''ABCDEFGHIJKLMNOPQRSTUVWXYZabcdefghijklmnopqrstuvwxyz0123456789+/''"

definition StdEncoding_Encode :: "string \<Rightarrow> string" where
  "StdEncoding_Encode s = (let ds = b64_sextets (map of_char s) in
     map (\<lambda>i. std_alphabet ! i) ds @ replicate ((4 - length ds mod 4) mod 4) (CHR ''=''))"

section \<open>Requests to other services\<close>

record out_request =
  Out_Method :: string
  Out_URL :: string
  Out_Headers :: "(string \<times> string) list"
  Out_Body :: string

record 'b in_response =
  In_StatusCode :: int
  In_Body :: "go_error + 'b"

record ('s, 'b) http_client =
  http_NewRequest :: "string \<Rightarrow> string \<Rightarrow> go_error option"
  http_Do :: "out_request \<Rightarrow> ('s, 'b in_response) fallible"

text \<open>An error wrapped with \<open>fmt.Errorf("%w: ...", sentinel, ...)\<close>.\<close>

definition wrapped :: "go_error \<Rightarrow> string \<Rightarrow> go_error" where
  "wrapped sentinel text = WrapError (Error sentinel @ '': '' @ text) sentinel"

lemma errors_Is_wrapped_sentinel [simp]: "errors_Is (wrapped (Sentinel a) t) (Sentinel b) \<longleftrightarrow> a = b"
  by (auto simp: wrapped_def)

section \<open>Escaping is injective\<close>

lemma hex_upper_inj: "a < 16 \<Longrightarrow> b < 16 \<Longrightarrow> hex_upper a = hex_upper b \<Longrightarrow> a = b"
proof -
  have "\<forall>a<16. \<forall>b<16. hex_upper a = hex_upper b \<longrightarrow> a = b" unfolding hex_upper_def by code_simp
  then show "a < 16 \<Longrightarrow> b < 16 \<Longrightarrow> hex_upper a = hex_upper b \<Longrightarrow> a = b" by blast
qed

lemma escape_char_prefix: "escape_char a @ x = escape_char b @ y \<Longrightarrow> a = b \<and> x = y"
proof -
  assume eq: "escape_char a @ x = escape_char b @ y"
  have inj: "a = b" if "hex_upper (of_char a div 16) = hex_upper (of_char b div 16)" "hex_upper (of_char a mod 16) = hex_upper (of_char b mod 16)"
  proof -
    have "(of_char a :: nat) < 256" "(of_char b :: nat) < 256" by simp_all
    then have "of_char a div 16 = (of_char b div 16 :: nat)" "of_char a mod 16 = (of_char b mod 16 :: nat)"
      using that by (auto intro!: hex_upper_inj simp: less_mult_imp_div_less)
    then have "of_char a = (of_char b :: nat)" by (metis div_mod_decomp)
    then show ?thesis by simp
  qed
  show ?thesis using eq inj by (auto simp: escape_char_def is_alnum_def split: if_splits)
qed

lemma QueryEscape_inj: "QueryEscape s = QueryEscape t \<Longrightarrow> s = t"
proof (induction s arbitrary: t)
  case Nil
  then show ?case by (cases t) (auto simp: QueryEscape_def escape_char_def split: if_splits)
next
  case (Cons a s)
  show ?case
  proof (cases t)
    case Nil
    then show ?thesis using Cons.prems by (auto simp: QueryEscape_def escape_char_def split: if_splits)
  next
    case (Cons b t')
    then have "escape_char a @ QueryEscape s = escape_char b @ QueryEscape t'" using Cons.prems by (simp add: QueryEscape_def)
    then show ?thesis using escape_char_prefix Cons.IH Cons by blast
  qed
qed

lemma hex_upper_clean: "n < 16 \<Longrightarrow> hex_upper n \<notin> set ''&;=#/? ''"
proof -
  have "\<forall>n<16. hex_upper n \<notin> set ''&;=#/? ''" unfolding hex_upper_def by code_simp
  then show "n < 16 \<Longrightarrow> hex_upper n \<notin> set ''&;=#/? ''" by blast
qed

lemma escape_char_clean: "set (escape_char c) \<inter> set ''&;=#/? '' = {}"
proof -
  have "of_char c div 16 < (16 :: nat)" "of_char c mod 16 < (16 :: nat)" by (simp_all add: less_mult_imp_div_less)
  then have "hex_upper (of_char c div 16) \<notin> set ''&;=#/? ''" "hex_upper (of_char c mod 16) \<notin> set ''&;=#/? ''"
    using hex_upper_clean by blast+
  then show ?thesis by (auto simp: escape_char_def is_alnum_def)
qed

lemma QueryEscape_clean: "set (QueryEscape s) \<inter> set ''&;=#/? '' = {}"
  using escape_char_clean by (fastforce simp: QueryEscape_def)

end
