(* ===== verification/Authcore.thy ===== *)
theory Authcore
  imports Go_Net
begin

text \<open>
  \<open>pkg/authcore\<close>: the HTTP client of AuthCore (introspection, profile, service token), the cache of
  service tokens, and the introspection cache with its collapsing of concurrent calls.

  The service token cache runs under one mutex and is a function on its state. In the
  introspection cache the upstream call runs outside the mutex, so goroutines interleave:
  \<open>cache_step\<close> has one step for each critical section of the source.
\<close>

section \<open>The HTTP client\<close>

record ('s, 'i, 'p, 't) HTTPClient =
  hc_baseURL :: string
  hc_clientID :: string
  hc_clientSecret :: string
  hc_introspectPath :: string
  hc_profilePath :: string
  hc_introspectClient :: "('s, 'i) http_client"
  hc_profileClient :: "('s, 'p) http_client"
  hc_tokenClient :: "('s, 't) http_client"
  hc_introspectTO :: duration
  hc_getProfileTO :: duration

text \<open>One \<open>*http.Client\<close> serves the three endpoints; it appears once for each type of decoded body.\<close>

record ('s, 'i, 'p, 't) Options =
  opt_BaseURL :: string
  opt_ClientID :: string
  opt_ClientSecret :: string
  opt_IntrospectPath :: string
  opt_ProfilePath :: string
  opt_IntrospectTimeout :: duration
  opt_ProfileTimeout :: duration
  opt_introspectClient :: "('s, 'i) http_client"
  opt_profileClient :: "('s, 'p) http_client"
  opt_tokenClient :: "('s, 't) http_client"

definition Millisecond :: duration where
  "Millisecond = 1000000"

definition NewHTTPClient :: "('s, 'i, 'p, 't) Options \<Rightarrow> ('s, 'i, 'p, 't) HTTPClient" where
  "NewHTTPClient opts =
     \<lparr>hc_baseURL = TrimRight (opt_BaseURL opts) (CHR ''/''),
      hc_clientID = opt_ClientID opts, hc_clientSecret = opt_ClientSecret opts,
      hc_introspectPath = (if opt_IntrospectPath opts = [] then ''/v1/auth/introspect'' else opt_IntrospectPath opts),
      hc_profilePath = (if opt_ProfilePath opts = [] then ''/v1/user/profile'' else opt_ProfilePath opts),
      hc_introspectClient = opt_introspectClient opts, hc_profileClient = opt_profileClient opts,
      hc_tokenClient = opt_tokenClient opts,
      hc_introspectTO = (if opt_IntrospectTimeout opts = 0 then 500 * Millisecond else opt_IntrospectTimeout opts),
      hc_getProfileTO = (if opt_ProfileTimeout opts = 0 then 1 * Second else opt_ProfileTimeout opts)\<rparr>"

record introspectResponse =
  intro_Active :: bool
  intro_Sub :: string
  intro_EXP :: int64
  intro_Username :: string

record profileResponse =
  prof_ID :: string
  prof_Email :: string
  prof_PublicID :: string
  prof_IconURL :: "string option"

record tokenResponse =
  tok_AccessToken :: string
  tok_ExpiresIn :: int64
  tok_TokenType :: string

type_synonym 's AuthCore = "('s, introspectResponse, profileResponse, tokenResponse) HTTPClient"

definition basicAuth :: "string \<Rightarrow> string \<Rightarrow> string" where
  "basicAuth i secret = ''Basic '' @ StdEncoding_Encode (i @ '':'' @ secret)"

text \<open>\<open>time.Unix\<close>: seconds since 1970, kept as seconds since year 1 in an int64.\<close>

definition time_Unix :: "int64 \<Rightarrow> time" where
  "time_Unix sec = wrap64 (sec + 62135596800) * Second"

definition status_text :: "int \<Rightarrow> string" where
  "status_text st = ''status='' @ itoa st"

definition introspect_request :: "'s AuthCore \<Rightarrow> string \<Rightarrow> out_request" where
  "introspect_request c accessToken = \<lparr>Out_Method = ''POST'', Out_URL = hc_baseURL c @ hc_introspectPath c,
     Out_Headers = [(''Authorization'', basicAuth (hc_clientID c) (hc_clientSecret c)),
       (''Content-Type'', ''application/x-www-form-urlencoded''), (''Accept'', ''application/json'')],
     Out_Body = encode_values [(''token'', accessToken)]\<rparr>"

definition HTTPClient_Introspect :: "'s AuthCore \<Rightarrow> string \<Rightarrow> ('s, Session) fallible" where
  "HTTPClient_Introspect c accessToken =
     (if accessToken = [] then ret (Inl ErrInvalidSession)
      else let url = hc_baseURL c @ hc_introspectPath c in
      case http_NewRequest (hc_introspectClient c) ''POST'' url of
        Some err \<Rightarrow> ret (Inl (WrapError (''authcore: build introspect request: '' @ Error err) err))
      | None \<Rightarrow> do {
          r \<leftarrow> http_Do (hc_introspectClient c) (introspect_request c accessToken);
          ret (case r of
            Inl err \<Rightarrow> Inl (wrapped ErrUpstream (Error err))
          | Inr resp \<Rightarrow>
              let st = In_StatusCode resp in
              if st \<ge> 500 then Inl (wrapped ErrUpstream (status_text st))
              else if st = 401 \<or> st = 403 then Inl (wrapped ErrUpstream (''client credentials rejected ('' @ status_text st @ '')''))
              else if st \<noteq> 200 then Inl (wrapped ErrUpstream (''unexpected '' @ status_text st))
              else case In_Body resp of
                Inl err \<Rightarrow> Inl (wrapped ErrUpstream (''decode body: '' @ Error err))
              | Inr out \<Rightarrow>
                  if \<not> intro_Active out then Inl ErrInvalidSession
                  else if intro_Sub out = [] then Inl (wrapped ErrUpstream ''active response missing sub'')
                  else Inr \<lparr>Session_Sub = intro_Sub out,
                    Session_ExpiresAt = (if intro_EXP out > 0 then time_Unix (intro_EXP out) else zero_time),
                    Session_PublicID = intro_Username out\<rparr>)
        })"

definition HTTPClient_GetProfile :: "'s AuthCore \<Rightarrow> string \<Rightarrow> ('s, Profile) fallible" where
  "HTTPClient_GetProfile c accessToken =
     (if accessToken = [] then ret (Inl ErrInvalidSession)
      else let url = hc_baseURL c @ hc_profilePath c in
      case http_NewRequest (hc_profileClient c) ''GET'' url of
        Some err \<Rightarrow> ret (Inl (WrapError (''authcore: build profile request: '' @ Error err) err))
      | None \<Rightarrow> do {
          r \<leftarrow> http_Do (hc_profileClient c) \<lparr>Out_Method = ''GET'', Out_URL = url,
            Out_Headers = [(''Authorization'', ''Bearer '' @ accessToken), (''Accept'', ''application/json'')], Out_Body = []\<rparr>;
          ret (case r of
            Inl err \<Rightarrow> Inl (wrapped ErrUpstream (Error err))
          | Inr resp \<Rightarrow>
              let st = In_StatusCode resp in
              if st = 404 then Inl ErrNotFound
              else if st = 401 \<or> st = 403 then Inl ErrInvalidSession
              else if st \<ge> 500 then Inl (wrapped ErrUpstream (status_text st))
              else if st \<noteq> 200 then Inl (wrapped ErrUpstream (''unexpected '' @ status_text st))
              else case In_Body resp of
                Inl err \<Rightarrow> Inl (wrapped ErrUpstream (''decode body: '' @ Error err))
              | Inr out \<Rightarrow> Inr \<lparr>Profile_Sub = prof_ID out, Profile_PublicID = prof_PublicID out,
                  Profile_IconURL = (case prof_IconURL out of Some u \<Rightarrow> u | None \<Rightarrow> []), Profile_Email = prof_Email out\<rparr>)
        })"

definition IssueServiceToken :: "'s AuthCore \<Rightarrow> string \<Rightarrow> ('s, string \<times> duration) fallible" where
  "IssueServiceToken c scope =
     (let url = hc_baseURL c @ ''/oauth/token'' in
      case http_NewRequest (hc_tokenClient c) ''POST'' url of
        Some err \<Rightarrow> ret (Inl (WrapError (''authcore: build token request: '' @ Error err) err))
      | None \<Rightarrow> do {
          r \<leftarrow> http_Do (hc_tokenClient c) \<lparr>Out_Method = ''POST'', Out_URL = url,
            Out_Headers = [(''Authorization'', basicAuth (hc_clientID c) (hc_clientSecret c)),
              (''Content-Type'', ''application/x-www-form-urlencoded''), (''Accept'', ''application/json'')],
            Out_Body = encode_values ((''grant_type'', ''client_credentials'') # (if scope \<noteq> [] then [(''scope'', scope)] else []))\<rparr>;
          ret (case r of
            Inl err \<Rightarrow> Inl (wrapped ErrUpstream (Error err))
          | Inr resp \<Rightarrow>
              let st = In_StatusCode resp in
              if st \<ge> 500 then Inl (wrapped ErrUpstream (status_text st))
              else if st = 401 \<or> st = 403 then Inl (wrapped ErrUpstream (''client credentials rejected ('' @ status_text st @ '')''))
              else if st \<noteq> 200 then Inl (wrapped ErrUpstream (''unexpected '' @ status_text st))
              else case In_Body resp of
                Inl err \<Rightarrow> Inl (wrapped ErrUpstream (''decode body: '' @ Error err))
              | Inr out \<Rightarrow>
                  if tok_AccessToken out = [] then Inl (wrapped ErrUpstream ''missing access_token'')
                  else let ttl = wrap64 (tok_ExpiresIn out * Second) in
                    Inr (tok_AccessToken out, if ttl \<le> 0 then Hour else ttl))
        })"

section \<open>The cache of service tokens\<close>

record token_source = runtime +
  ts_token :: string
  ts_expiresAt :: time
  ts_scope :: string

type_synonym 'z serviceTokenIssuer = "string \<Rightarrow> ('z token_source_scheme, string \<times> duration) fallible"

record 'z CachedServiceTokenSource =
  cs_issuer :: "'z serviceTokenIssuer"
  cs_refreshLeadTime :: duration

definition NewCachedServiceTokenSource :: "'z serviceTokenIssuer \<Rightarrow> duration \<Rightarrow> 'z CachedServiceTokenSource" where
  "NewCachedServiceTokenSource issuer refreshLeadTime =
     \<lparr>cs_issuer = issuer, cs_refreshLeadTime = (if refreshLeadTime \<le> 0 then 60 * Second else refreshLeadTime)\<rparr>"

definition GetServiceToken :: "'z CachedServiceTokenSource \<Rightarrow> string \<Rightarrow> ('z token_source_scheme, string) fallible" where
  "GetServiceToken c scope = do {
     now \<leftarrow> Now;
     token \<leftarrow> gets ts_token;
     held \<leftarrow> gets ts_scope;
     expiresAt \<leftarrow> gets ts_expiresAt;
     if token \<noteq> [] \<and> held = scope \<and> time_Add now (cs_refreshLeadTime c) < expiresAt then ret (Inr token)
     else bind_or (cs_issuer c scope) id (\<lambda>(tok, ttl). do {
       _ \<leftarrow> modify (\<lambda>s. s\<lparr>ts_token := tok, ts_scope := scope, ts_expiresAt := time_Add now ttl\<rparr>);
       ret (Inr tok)
     })
   }"

section \<open>The introspection cache\<close>

record cacheEntry =
  entry_session :: Session
  entry_fetchedAt :: time

record introspectCall =
  call_token :: string
  call_started :: time
  call_result :: "(go_error + Session) option"

text \<open>A goroutine inside \<open>Introspect\<close>: it waits for a call another one made, makes the call itself, or
  has its answer, from the cache or from a call.\<close>

datatype progress = Waiting nat | Calling nat | Hit Session | Answered nat "go_error + Session" | GaveUp

record goroutine =
  g_token :: string
  g_at :: time
  g_progress :: progress

text \<open>The maps of the cache; the calls made so far are kept with their results.\<close>

record IntrospectCache =
  ic_ttl :: duration
  ic_items :: "string \<rightharpoonup> cacheEntry"
  ic_inFlight :: "string \<rightharpoonup> nat"
  ic_calls :: "introspectCall list"
  ic_routines :: "goroutine list"

definition NewIntrospectCache :: "duration \<Rightarrow> IntrospectCache" where
  "NewIntrospectCache ttl = \<lparr>ic_ttl = (if ttl \<le> 0 then 30 * Second else ttl), ic_items = Map.empty, ic_inFlight = Map.empty,
     ic_calls = [], ic_routines = []\<rparr>"

definition isFresh :: "duration \<Rightarrow> cacheEntry \<Rightarrow> time \<Rightarrow> bool" where
  "isFresh ttl entry now =
     (if time_Sub now (entry_fetchedAt entry) \<ge> ttl then False
      else if \<not> IsZero (Session_ExpiresAt (entry_session entry)) \<and> \<not> now < Session_ExpiresAt (entry_session entry) then False
      else True)"

text \<open>The first critical section of \<open>Introspect\<close>; \<open>begin_call\<close> registers a new upstream call.\<close>

definition begin_call :: "time \<Rightarrow> string \<Rightarrow> IntrospectCache \<Rightarrow> IntrospectCache" where
  "begin_call now accessToken c = c\<lparr>ic_inFlight := (ic_inFlight c)(accessToken \<mapsto> length (ic_calls c)),
     ic_calls := ic_calls c @ [\<lparr>call_token = accessToken, call_started = now, call_result = None\<rparr>]\<rparr>"

definition lookup_token :: "time \<Rightarrow> string \<Rightarrow> IntrospectCache \<Rightarrow> progress \<times> IntrospectCache" where
  "lookup_token now accessToken c =
     (let missed = (\<lambda>c. case ic_inFlight c accessToken of
        Some k \<Rightarrow> (Waiting k, c)
      | None \<Rightarrow> (Calling (length (ic_calls c)), begin_call now accessToken c))
      in case ic_items c accessToken of
        Some entry \<Rightarrow>
          if isFresh (ic_ttl c) entry now then (Hit (entry_session entry), c)
          else missed (c\<lparr>ic_items := (ic_items c)(accessToken := None)\<rparr>)
      | None \<Rightarrow> missed c)"

text \<open>The second one, after the upstream call \<open>k\<close> returned \<open>r\<close>.\<close>

definition store_result :: "nat \<Rightarrow> go_error + Session \<Rightarrow> IntrospectCache \<Rightarrow> IntrospectCache" where
  "store_result k r c = (let call = ic_calls c ! k; tok = call_token call in
     c\<lparr>ic_inFlight := (ic_inFlight c)(tok := None),
       ic_calls := (ic_calls c)[k := call\<lparr>call_result := Some r\<rparr>],
       ic_items := (case r of Inr session \<Rightarrow> (ic_items c)(tok \<mapsto> \<lparr>entry_session = session, entry_fetchedAt = call_started call\<rparr>)
         | Inl _ \<Rightarrow> ic_items c)\<rparr>)"

definition Invalidate :: "string \<Rightarrow> IntrospectCache \<Rightarrow> IntrospectCache" where
  "Invalidate accessToken c = c\<lparr>ic_items := (ic_items c)(accessToken := None)\<rparr>"

definition SweepExpired :: "time \<Rightarrow> IntrospectCache \<Rightarrow> IntrospectCache" where
  "SweepExpired now c = c\<lparr>ic_items := (\<lambda>k. case ic_items c k of
     Some v \<Rightarrow> if \<not> isFresh (ic_ttl c) v now then None else Some v | None \<Rightarrow> None)\<rparr>"

definition set_progress :: "nat \<Rightarrow> progress \<Rightarrow> IntrospectCache \<Rightarrow> IntrospectCache" where
  "set_progress i p c = c\<lparr>ic_routines := (ic_routines c)[i := (ic_routines c ! i)\<lparr>g_progress := p\<rparr>]\<rparr>"

inductive cache_step :: "IntrospectCache \<Rightarrow> IntrospectCache \<Rightarrow> bool" where
  Ask: "lookup_token now tok c = (p, c') \<Longrightarrow>
    cache_step c (c'\<lparr>ic_routines := ic_routines c' @ [\<lparr>g_token = tok, g_at = now, g_progress = p\<rparr>]\<rparr>)"
| Return: "i < length (ic_routines c) \<Longrightarrow> g_progress (ic_routines c ! i) = Calling k \<Longrightarrow>
    cache_step c (set_progress i (Answered k r) (store_result k r c))"
| Join: "i < length (ic_routines c) \<Longrightarrow> g_progress (ic_routines c ! i) = Waiting k \<Longrightarrow> call_result (ic_calls c ! k) = Some r \<Longrightarrow>
    cache_step c (set_progress i (Answered k r) c)"
| Cancelled: "i < length (ic_routines c) \<Longrightarrow> g_progress (ic_routines c ! i) = Waiting k \<Longrightarrow>
    cache_step c (set_progress i GaveUp c)"
| Drop: "cache_step c (Invalidate tok c)"
| Sweep: "cache_step c (SweepExpired now c)"

end
