(* ===== verification/Authcore_Cache.thy ===== *)
theory Authcore_Cache
  imports Authcore UC_OGP
begin

text \<open>
  The theorems on \<open>pkg/authcore\<close>: which errors the client gives AuthCore's answers, that a cached
  service token was issued for its scope and is not about to expire, and that under every
  interleaving the introspection cache answers with what AuthCore said of the very token, no
  longer ago than its TTL, with one upstream call per token at a time.
\<close>

section \<open>The introspection cache\<close>

definition confirmed :: "introspectCall list \<Rightarrow> string \<Rightarrow> Session \<Rightarrow> time \<Rightarrow> bool" where
  "confirmed calls tok session started \<longleftrightarrow> (\<exists>k<length calls. calls ! k = \<lparr>call_token = tok, call_started = started, call_result = Some (Inr session)\<rparr>)"

definition still_good :: "duration \<Rightarrow> Session \<Rightarrow> time \<Rightarrow> time \<Rightarrow> bool" where
  "still_good ttl session started now \<longleftrightarrow> now - started < ttl \<and> (Session_ExpiresAt session = zero_time \<or> now < Session_ExpiresAt session)"

fun progress_ok :: "IntrospectCache \<Rightarrow> string \<Rightarrow> time \<Rightarrow> progress \<Rightarrow> bool" where
  "progress_ok c tok now (Waiting k) \<longleftrightarrow> k < length (ic_calls c) \<and> call_token (ic_calls c ! k) = tok"
| "progress_ok c tok now (Calling k) \<longleftrightarrow> k < length (ic_calls c) \<and> call_token (ic_calls c ! k) = tok \<and>
     call_result (ic_calls c ! k) = None \<and> ic_inFlight c tok = Some k"
| "progress_ok c tok now (Hit session) \<longleftrightarrow> (\<exists>t. confirmed (ic_calls c) tok session t \<and> still_good (ic_ttl c) session t now)"
| "progress_ok c tok now (Answered k r) \<longleftrightarrow> k < length (ic_calls c) \<and> call_token (ic_calls c ! k) = tok \<and>
     call_result (ic_calls c ! k) = Some r"
| "progress_ok c tok now GaveUp \<longleftrightarrow> True"

definition calling :: "IntrospectCache \<Rightarrow> nat \<Rightarrow> nat \<Rightarrow> bool" where
  "calling c k i \<longleftrightarrow> i < length (ic_routines c) \<and> g_progress (ic_routines c ! i) = Calling k"

definition cache_ok :: "IntrospectCache \<Rightarrow> bool" where
  "cache_ok c \<longleftrightarrow>
     (\<forall>g\<in>set (ic_routines c). progress_ok c (g_token g) (g_at g) (g_progress g)) \<and>
     (\<forall>tok e. ic_items c tok = Some e \<longrightarrow> confirmed (ic_calls c) tok (entry_session e) (entry_fetchedAt e)) \<and>
     (\<forall>tok k. ic_inFlight c tok = Some k \<longrightarrow> k < length (ic_calls c) \<and> call_token (ic_calls c ! k) = tok \<and> call_result (ic_calls c ! k) = None) \<and>
     (\<forall>k<length (ic_calls c). call_result (ic_calls c ! k) = None \<longrightarrow> ic_inFlight c (call_token (ic_calls c ! k)) = Some k \<and> (\<exists>!i. calling c k i))"

lemma cache_okD:
  assumes "cache_ok c"
  shows "g \<in> set (ic_routines c) \<Longrightarrow> progress_ok c (g_token g) (g_at g) (g_progress g)"
    and "ic_items c tok = Some e \<Longrightarrow> confirmed (ic_calls c) tok (entry_session e) (entry_fetchedAt e)"
    and "ic_inFlight c tok = Some k \<Longrightarrow> k < length (ic_calls c) \<and> call_token (ic_calls c ! k) = tok \<and> call_result (ic_calls c ! k) = None"
    and "k < length (ic_calls c) \<Longrightarrow> call_result (ic_calls c ! k) = None \<Longrightarrow> ic_inFlight c (call_token (ic_calls c ! k)) = Some k \<and> (\<exists>!i. calling c k i)"
  using assms unfolding cache_ok_def by blast+

lemma confirmed_append: "confirmed calls tok s t \<Longrightarrow> confirmed (calls @ later_calls) tok s t"
  unfolding confirmed_def by (metis length_append nth_append trans_less_add1)

lemma confirmed_update:
  "confirmed calls tok s t \<Longrightarrow> call_result (calls ! k) = None \<Longrightarrow> confirmed (calls[k := x]) tok s t"
  unfolding confirmed_def by (metis introspectCall.select_convs(3) length_list_update nth_list_update_neq option.distinct(1))

lemma isFresh_good:
  "isFresh ttl e now \<Longrightarrow> 0 < ttl \<Longrightarrow> ttl \<le> max_int64 \<Longrightarrow> still_good ttl (entry_session e) (entry_fetchedAt e) now"
  by (auto simp: isFresh_def still_good_def IsZero_def not_le time_Sub_def min_int64_def max_int64_def split: if_splits)

text \<open>Forgetting entries is harmless.\<close>

lemma progress_ok_items: "progress_ok (c\<lparr>ic_items := f\<rparr>) tok now p = progress_ok c tok now p"
  by (cases p) simp_all

lemma cache_ok_forget:
  assumes "cache_ok c" and "\<And>tok e. f tok = Some e \<Longrightarrow> ic_items c tok = Some e"
  shows "cache_ok (c\<lparr>ic_items := f\<rparr>)"
  using assms unfolding cache_ok_def progress_ok_items calling_def by (auto dest!: assms(2))

lemma cache_ok_Invalidate: "cache_ok c \<Longrightarrow> cache_ok (Invalidate tok c)"
  unfolding Invalidate_def by (rule cache_ok_forget) (auto split: if_splits)

lemma cache_ok_Sweep: "cache_ok c \<Longrightarrow> cache_ok (SweepExpired now c)"
  unfolding SweepExpired_def by (rule cache_ok_forget) (auto split: option.splits if_splits)

text \<open>A goroutine arrives.\<close>

definition arrive :: "goroutine \<Rightarrow> IntrospectCache \<Rightarrow> IntrospectCache" where
  "arrive g c = c\<lparr>ic_routines := ic_routines c @ [g]\<rparr>"

lemma arrive_fields [simp]: "ic_ttl (arrive g c) = ic_ttl c" "ic_items (arrive g c) = ic_items c"
    "ic_inFlight (arrive g c) = ic_inFlight c" "ic_calls (arrive g c) = ic_calls c" "ic_routines (arrive g c) = ic_routines c @ [g]"
  by (simp_all add: arrive_def)

lemma progress_ok_arrive [simp]: "progress_ok (arrive g c) tok now p = progress_ok c tok now p"
  by (cases p) simp_all

lemma calling_arrive: "calling (arrive g c) k i \<longleftrightarrow> calling c k i \<or> i = length (ic_routines c) \<and> g_progress g = Calling k"
  by (auto simp: calling_def nth_append less_Suc_eq)

lemma cache_ok_arrive:
  assumes "cache_ok c" and "progress_ok c (g_token g) (g_at g) (g_progress g)" and "\<forall>k. g_progress g \<noteq> Calling k"
  shows "cache_ok (arrive g c)"
proof -
  have "calling (arrive g c) = calling c" using assms(3) by (intro ext) (simp add: calling_arrive)
  then show ?thesis using assms(1,2) unfolding cache_ok_def by simp
qed

text \<open>A goroutine starts a call.\<close>

lemma begin_fields [simp]: "ic_ttl (begin_call now tok c) = ic_ttl c" "ic_items (begin_call now tok c) = ic_items c"
    "ic_inFlight (begin_call now tok c) = (ic_inFlight c)(tok \<mapsto> length (ic_calls c))" "ic_routines (begin_call now tok c) = ic_routines c"
    "ic_calls (begin_call now tok c) = ic_calls c @ [\<lparr>call_token = tok, call_started = now, call_result = None\<rparr>]"
  by (simp_all add: begin_call_def)

lemma progress_ok_begin:
  "progress_ok c t at p \<Longrightarrow> ic_inFlight c tok = None \<Longrightarrow> progress_ok (begin_call now tok c) t at p"
  by (cases p) (auto simp: nth_append intro: confirmed_append)

lemma cache_ok_begin:
  assumes ok: "cache_ok c" and none: "ic_inFlight c tok = None"
  shows "cache_ok (arrive \<lparr>g_token = tok, g_at = now, g_progress = Calling (length (ic_calls c))\<rparr> (begin_call now tok c))"
    (is "cache_ok ?c")
proof -
  have old: "call_token (ic_calls c ! k) \<noteq> tok" if "k < length (ic_calls c)" "call_result (ic_calls c ! k) = None" for k
    using cache_okD(4) [OF ok that] none by auto
  have nobody: "\<not> calling c (length (ic_calls c)) i" for i
    using cache_okD(1) [OF ok, of "ic_routines c ! i"] by (auto simp: calling_def)
  have new: "calling ?c (length (ic_calls c)) i \<longleftrightarrow> i = length (ic_routines c)" for i
    unfolding calling_arrive using nobody [of i] by (auto simp: calling_def)
  have kept: "calling ?c k = calling c k" if "k < length (ic_calls c)" for k
    using that by (intro ext) (simp add: calling_arrive, simp add: calling_def)
  show ?thesis
    unfolding cache_ok_def
  proof (intro conjI allI impI ballI)
    show "progress_ok ?c (g_token g) (g_at g) (g_progress g)" if "g \<in> set (ic_routines ?c)" for g
      using that progress_ok_begin [OF _ none] cache_okD(1) [OF ok] by auto
    show "confirmed (ic_calls ?c) t (entry_session e) (entry_fetchedAt e)" if "ic_items ?c t = Some e" for t e
      using that cache_okD(2) [OF ok] by (simp add: confirmed_append)
    fix k assume k: "k < length (ic_calls ?c)" "call_result (ic_calls ?c ! k) = None"
    show "\<exists>!i. calling ?c k i"
    proof (cases "k = length (ic_calls c)")
      case False
      then show ?thesis using k kept cache_okD(4) [OF ok, of k] by (simp add: nth_append)
    qed (simp add: new)
    show "ic_inFlight ?c (call_token (ic_calls ?c ! k)) = Some k"
      using k old [of k] cache_okD(4) [OF ok, of k] by (auto simp: nth_append less_Suc_eq)
  qed (use cache_okD(3) [OF ok] in \<open>auto simp: nth_append less_Suc_eq split: if_splits\<close>)
qed

text \<open>The whole first critical section.\<close>

lemma cache_ok_ask:
  assumes ok: "cache_ok c" and ttl: "0 < ic_ttl c" "ic_ttl c \<le> max_int64" and look: "lookup_token now tok c = (p, c')"
  shows "cache_ok (arrive \<lparr>g_token = tok, g_at = now, g_progress = p\<rparr> c')"
proof -
  let ?missed = "\<lambda>c. case ic_inFlight c tok of Some k \<Rightarrow> (Waiting k, c) | None \<Rightarrow> (Calling (length (ic_calls c)), begin_call now tok c)"
  have miss: "cache_ok (arrive \<lparr>g_token = tok, g_at = now, g_progress = p\<rparr> c')" if "cache_ok d" "?missed d = (p, c')" for d
    using that cache_ok_begin [of d tok now] cache_okD(3) [of d tok]
    by (auto split: option.splits intro!: cache_ok_arrive)
  show ?thesis
  proof (cases "ic_items c tok")
    case None
    then show ?thesis using miss [OF ok] look by (simp add: lookup_token_def)
  next
    case (Some e)
    show ?thesis
    proof (cases "isFresh (ic_ttl c) e now")
      case True
      then show ?thesis using look Some cache_okD(2) [OF ok Some] isFresh_good [OF True ttl] ok
        by (auto simp: lookup_token_def intro!: cache_ok_arrive)
    next
      case False
      then show ?thesis using miss [OF cache_ok_Invalidate [OF ok, of tok], unfolded Invalidate_def] look Some
        by (simp add: lookup_token_def)
    qed
  qed
qed

text \<open>A goroutine moves on.\<close>

lemma set_progress_fields [simp]: "ic_ttl (set_progress i p c) = ic_ttl c" "ic_items (set_progress i p c) = ic_items c"
    "ic_inFlight (set_progress i p c) = ic_inFlight c" "ic_calls (set_progress i p c) = ic_calls c"
    "ic_routines (set_progress i p c) = (ic_routines c)[i := (ic_routines c ! i)\<lparr>g_progress := p\<rparr>]"
  by (simp_all add: set_progress_def)

lemma progress_ok_set [simp]: "progress_ok (set_progress i p c) t at q = progress_ok c t at q"
  by (cases q) simp_all

lemma cache_ok_wait_over:
  assumes ok: "cache_ok c" and i: "i < length (ic_routines c)" "g_progress (ic_routines c ! i) = Waiting k"
    and p: "progress_ok c (g_token (ic_routines c ! i)) (g_at (ic_routines c ! i)) p" "\<forall>k. p \<noteq> Calling k"
  shows "cache_ok (set_progress i p c)"
proof -
  have "calling (set_progress i p c) = calling c"
    using i p(2) by (intro ext) (auto simp: calling_def nth_list_update)
  then show ?thesis using ok p(1) unfolding cache_ok_def by (auto dest!: set_update_subset_insert [THEN subsetD])
qed

text \<open>The upstream call returns.\<close>

lemma store_fields [simp]: "ic_ttl (store_result k r c) = ic_ttl c" "ic_routines (store_result k r c) = ic_routines c"
    "ic_inFlight (store_result k r c) = (ic_inFlight c)(call_token (ic_calls c ! k) := None)"
    "ic_calls (store_result k r c) = (ic_calls c)[k := (ic_calls c ! k)\<lparr>call_result := Some r\<rparr>]"
    "ic_items (store_result k r c) = (case r of Inr s \<Rightarrow>
       (ic_items c)(call_token (ic_calls c ! k) \<mapsto> \<lparr>entry_session = s, entry_fetchedAt = call_started (ic_calls c ! k)\<rparr>) | Inl _ \<Rightarrow> ic_items c)"
  by (simp_all add: store_result_def Let_def)

lemma cache_ok_return:
  assumes ok: "cache_ok c" and i: "i < length (ic_routines c)" "g_progress (ic_routines c ! i) = Calling k"
  shows "cache_ok (set_progress i (Answered k r) (store_result k r c))" (is "cache_ok ?c")
proof -
  let ?call = "ic_calls c ! k"
  have k: "k < length (ic_calls c)" "call_result ?call = None" "call_token ?call = g_token (ic_routines c ! i)"
      "ic_inFlight c (call_token ?call) = Some k"
    using cache_okD(1) [OF ok, of "ic_routines c ! i"] i by auto
  have one: "calling c k j \<longleftrightarrow> j = i" for j
    using cache_okD(4) [OF ok k(1,2)] i unfolding calling_def by blast
  have now: "confirmed (ic_calls ?c) (call_token ?call) s (call_started ?call)" if "r = Inr s" for s
    unfolding confirmed_def using k(1) that by (intro exI [of _ k]) (cases ?call, simp)
  have others: "progress_ok ?c (g_token g) (g_at g) (g_progress g)" if g: "g \<in> set (ic_routines c)" "g_progress g \<noteq> Calling k" for g
  proof (cases "g_progress g")
    case (Calling l)
    then have "call_token (ic_calls c ! l) \<noteq> call_token ?call" "l \<noteq> k" using cache_okD(1) [OF ok g(1)] k(4) g(2) by auto
    then show ?thesis using cache_okD(1) [OF ok g(1)] Calling by simp
  next
    case (Hit s)
    then obtain t where "confirmed (ic_calls c) (g_token g) s t" "still_good (ic_ttl c) s t (g_at g)"
      using cache_okD(1) [OF ok g(1)] by auto
    then show ?thesis using Hit confirmed_update [OF _ k(2)] by (simp, blast)
  qed (use cache_okD(1) [OF ok g(1)] k(1,2) in \<open>auto simp: nth_list_update\<close>)
  show ?thesis
    unfolding cache_ok_def
  proof (intro conjI allI impI ballI)
    fix g assume "g \<in> set (ic_routines ?c)"
    then obtain j where j: "j < length (ic_routines c)" "g = ic_routines ?c ! j" by (auto simp: in_set_conv_nth)
    show "progress_ok ?c (g_token g) (g_at g) (g_progress g)"
    proof (cases "j = i")
      case True
      then show ?thesis using j k i(1) by simp
    next
      case False
      then show ?thesis using j others [of "ic_routines c ! j"] one [of j] by (simp add: calling_def)
    qed
  next
    fix t e assume "ic_items ?c t = Some e"
    then show "confirmed (ic_calls ?c) t (entry_session e) (entry_fetchedAt e)"
      using now cache_okD(2) [OF ok, of t e] confirmed_update [OF _ k(2)]
      by (auto split: sum.splits if_splits)
  next
    fix l assume l: "l < length (ic_calls ?c)" "call_result (ic_calls ?c ! l) = None"
    then have "l \<noteq> k" using k(1) by auto
    then have l': "l < length (ic_calls c)" "call_result (ic_calls c ! l) = None" "ic_calls ?c ! l = ic_calls c ! l"
      using l by simp_all
    then have "call_token (ic_calls c ! l) \<noteq> call_token ?call" using cache_okD(4) [OF ok l'(1,2)] k(4) \<open>l \<noteq> k\<close> by auto
    then show "ic_inFlight ?c (call_token (ic_calls ?c ! l)) = Some l" using cache_okD(4) [OF ok l'(1,2)] l'(3) by simp
    have "calling ?c l = calling c l"
      using i \<open>l \<noteq> k\<close> by (intro ext) (auto simp: calling_def nth_list_update)
    then show "\<exists>!j. calling ?c l j" using cache_okD(4) [OF ok l'(1,2)] by simp
  next
    fix t l assume "ic_inFlight ?c t = Some l"
    then have "t \<noteq> call_token ?call" "ic_inFlight c t = Some l" by (simp_all split: if_splits)
    moreover from this have "l \<noteq> k" using cache_okD(3) [OF ok] by blast
    ultimately show "l < length (ic_calls ?c)" "call_token (ic_calls ?c ! l) = t" "call_result (ic_calls ?c ! l) = None"
      using cache_okD(3) [OF ok, of t l] by simp_all
  qed
qed

lemma cache_step_ttl: "cache_step c d \<Longrightarrow> ic_ttl d = ic_ttl c"
  by (induction rule: cache_step.induct)
    (auto simp: lookup_token_def begin_call_def Invalidate_def SweepExpired_def Let_def split: option.splits if_splits)

lemma cache_step_ok:
  assumes "cache_step c d" and "cache_ok c" and "0 < ic_ttl c" and "ic_ttl c \<le> max_int64"
  shows "cache_ok d"
  using assms
proof (induction rule: cache_step.induct)
  case (Ask now tok c p c')
  then show ?case using cache_ok_ask by (simp add: arrive_def)
next
  case (Join i c k r)
  then show ?case using cache_okD(1) [of c "ic_routines c ! i"] by (intro cache_ok_wait_over) auto
next
  case (Cancelled i c k)
  then show ?case by (intro cache_ok_wait_over) auto
qed (simp_all add: cache_ok_return cache_ok_Invalidate cache_ok_Sweep)

lemma cache_reachable_ok:
  assumes "cache_step\<^sup>*\<^sup>* (NewIntrospectCache ttl) c" and "ttl \<le> max_int64"
  shows "cache_ok c \<and> ic_ttl c = (if ttl \<le> 0 then 30 * Second else ttl)"
  using assms(1)
proof (induction rule: rtranclp_induct)
  case base
  then show ?case by (simp add: NewIntrospectCache_def cache_ok_def)
next
  case (step d e)
  have "0 < ic_ttl d" "ic_ttl d \<le> max_int64"
    using step.IH assms(2) by (auto simp: Second_def max_int64_def)
  then show ?case using cache_step_ok [OF step.hyps(2)] cache_step_ttl [OF step.hyps(2)] step.IH by simp
qed


section \<open>Properties\<close>

text \<open>C29. However requests, upstream calls, invalidations and sweeps interleave, what a request gets
  from the introspection cache is what AuthCore answered for its own token: a cached session was
  confirmed by a call begun less than the TTL before the request and has not expired, a shared
  answer, error or session, is the result of the one call for that token, and a request that
  waits for a call is never left alone: as long as the call has no result, some goroutine is
  making it.\<close>

theorem introspect_cache_sound:
  assumes "cache_step\<^sup>*\<^sup>* (NewIntrospectCache ttl) c" and "0 < ttl" and "ttl \<le> max_int64" and "g \<in> set (ic_routines c)"
  shows "case g_progress g of
     Hit s \<Rightarrow> (\<exists>call \<in> set (ic_calls c). call_token call = g_token g \<and> call_result call = Some (Inr s) \<and>
       g_at g - call_started call < ttl \<and> (Session_ExpiresAt s = zero_time \<or> g_at g < Session_ExpiresAt s))
   | Answered k r \<Rightarrow> k < length (ic_calls c) \<and> call_token (ic_calls c ! k) = g_token g \<and> call_result (ic_calls c ! k) = Some r
   | Waiting k \<Rightarrow> k < length (ic_calls c) \<and> call_token (ic_calls c ! k) = g_token g \<and>
       (call_result (ic_calls c ! k) = None \<longrightarrow> (\<exists>h \<in> set (ic_routines c). g_progress h = Calling k))
   | Calling k \<Rightarrow> k < length (ic_calls c) \<and> call_token (ic_calls c ! k) = g_token g
   | GaveUp \<Rightarrow> True"
proof -
  have ok: "cache_ok c" "ic_ttl c = ttl" using cache_reachable_ok [OF assms(1,3)] assms(2) by auto
  show ?thesis
  proof (cases "g_progress g")
    case (Waiting k)
    then have "k < length (ic_calls c)" "call_token (ic_calls c ! k) = g_token g" using cache_okD(1) [OF ok(1) assms(4)] by auto
    then show ?thesis using cache_okD(4) [OF ok(1), of k] Waiting by (auto simp: calling_def) (metis nth_mem)
  next
    case (Hit s)
    then obtain k t where k: "k < length (ic_calls c)" "still_good ttl s t (g_at g)"
        "ic_calls c ! k = \<lparr>call_token = g_token g, call_started = t, call_result = Some (Inr s)\<rparr>"
      using cache_okD(1) [OF ok(1) assms(4)] ok(2) by (auto simp: confirmed_def)
    then show ?thesis using Hit nth_mem [OF k(1)] by (auto simp: still_good_def intro!: bexI [of _ "ic_calls c ! k"])
  qed (use cache_okD(1) [OF ok(1) assms(4)] in auto)
qed

definition sample_session :: Session where
  "sample_session = \<lparr>Session_Sub = ''alice'', Session_ExpiresAt = 0, Session_PublicID = ''a''\<rparr>"

text \<open>A first request asks AuthCore, a second one is served from the cache.\<close>

definition sample_asked :: IntrospectCache where
  "sample_asked = set_progress 0 (Answered 0 (Inr sample_session)) (store_result 0 (Inr sample_session)
     (arrive \<lparr>g_token = ''t'', g_at = 1, g_progress = Calling 0\<rparr> (begin_call 1 ''t'' (NewIntrospectCache 5))))"

definition sample_cached :: IntrospectCache where
  "sample_cached = arrive \<lparr>g_token = ''t'', g_at = 3, g_progress = Hit sample_session\<rparr> sample_asked"

lemma sample_cached_reachable: "cache_step\<^sup>*\<^sup>* (NewIntrospectCache 5) sample_cached"
proof -
  let ?a = "arrive \<lparr>g_token = ''t'', g_at = 1, g_progress = Calling 0\<rparr> (begin_call 1 ''t'' (NewIntrospectCache 5))"
  have "cache_step (NewIntrospectCache 5) ?a"
    unfolding arrive_def by (rule Ask) (simp add: lookup_token_def NewIntrospectCache_def)
  moreover have "cache_step ?a sample_asked"
    unfolding sample_asked_def by (rule Return) (simp_all add: NewIntrospectCache_def)
  moreover have "cache_step sample_asked sample_cached"
    unfolding sample_cached_def arrive_def [of _ sample_asked]
    by (rule Ask) (simp add: lookup_token_def sample_asked_def NewIntrospectCache_def isFresh_def sample_session_def
      time_Sub_def min_int64_def max_int64_def IsZero_def zero_time_def)
  ultimately show ?thesis by (meson converse_rtranclp_into_rtranclp r_into_rtranclp)
qed

theorem introspect_cache_sound_witness:
  "\<exists>call \<in> set (ic_calls sample_cached). call_token call = ''t'' \<and> 3 - call_started call < 5"
proof -
  let ?g = "\<lparr>g_token = ''t'', g_at = 3, g_progress = Hit sample_session\<rparr>"
  have "?g \<in> set (ic_routines sample_cached)" by (simp add: sample_cached_def)
  then show ?thesis
    using introspect_cache_sound [OF sample_cached_reachable, of ?g] by (auto simp: max_int64_def)
qed

text \<open>C30. Concurrent requests for one token collapse into one: at any moment at most one goroutine is
  calling AuthCore for a token, and a session is kept in the cache only if AuthCore confirmed it
  for that token; errors are never cached.\<close>

theorem introspect_single_flight:
  assumes "cache_step\<^sup>*\<^sup>* (NewIntrospectCache ttl) c" and "ttl \<le> max_int64"
  shows "(\<forall>i j k l. i < length (ic_routines c) \<and> j < length (ic_routines c) \<and> g_token (ic_routines c ! i) = g_token (ic_routines c ! j) \<and>
      g_progress (ic_routines c ! i) = Calling k \<and> g_progress (ic_routines c ! j) = Calling l \<longrightarrow> i = j) \<and>
    (\<forall>tok e. ic_items c tok = Some e \<longrightarrow> (\<exists>call \<in> set (ic_calls c). call_token call = tok \<and> call_result call = Some (Inr (entry_session e))))"
proof (intro conjI allI impI)
  have ok: "cache_ok c" using cache_reachable_ok [OF assms] by simp
  fix i j k l
  assume r: "i < length (ic_routines c) \<and> j < length (ic_routines c) \<and> g_token (ic_routines c ! i) = g_token (ic_routines c ! j) \<and>
      g_progress (ic_routines c ! i) = Calling k \<and> g_progress (ic_routines c ! j) = Calling l"
  then have "k = l" "k < length (ic_calls c)" "call_result (ic_calls c ! k) = None"
    using cache_okD(1) [OF ok, of "ic_routines c ! i"] cache_okD(1) [OF ok, of "ic_routines c ! j"] by auto
  then show "i = j" using cache_okD(4) [OF ok, of k] r by (auto simp: calling_def)
next
  fix tok e assume "ic_items c tok = Some e"
  then have "confirmed (ic_calls c) tok (entry_session e) (entry_fetchedAt e)"
    using cache_reachable_ok [OF assms] cache_okD(2) by blast
  then show "\<exists>call \<in> set (ic_calls c). call_token call = tok \<and> call_result call = Some (Inr (entry_session e))"
    unfolding confirmed_def by (metis introspectCall.select_convs(1,3) nth_mem)
qed

theorem introspect_single_flight_witness:
  "\<exists>call \<in> set (ic_calls sample_cached). call_token call = ''t'' \<and> call_result call = Some (Inr sample_session)"
proof -
  have "ic_items sample_cached ''t'' = Some \<lparr>entry_session = sample_session, entry_fetchedAt = 1\<rparr>"
    by (simp add: sample_cached_def sample_asked_def NewIntrospectCache_def)
  then show ?thesis
    using introspect_single_flight [OF sample_cached_reachable] by (force simp: max_int64_def)
qed

text \<open>C31. AuthCore being down is never taken for an invalid session. An empty token is an invalid
  session without asking AuthCore, and a request that cannot be built is an error of its own. For a
  request that is sent, the client reports an invalid session exactly when AuthCore answered 200 with an
  inactive token, and returns the session exactly when it answered 200 with an active token that has a
  subject; every other outcome, an answer 401 or 403 to the client's own credentials included, is an
  upstream error.\<close>

theorem introspect_classifies:
  assumes "run_state (HTTPClient_Introspect c accessToken) s = (r, t)"
    and "run_state (http_Do (hc_introspectClient c) (introspect_request c accessToken)) s = (reply, u)"
  shows "if accessToken = [] then r = Inl ErrInvalidSession \<and> t = s
    else case http_NewRequest (hc_introspectClient c) ''POST'' (hc_baseURL c @ hc_introspectPath c) of
      Some err \<Rightarrow> r = Inl (WrapError (''authcore: build introspect request: '' @ Error err) err) \<and> t = s
    | None \<Rightarrow> t = u \<and>
        (r = Inl ErrInvalidSession \<longleftrightarrow> (\<exists>out. reply = Inr \<lparr>In_StatusCode = 200, In_Body = Inr out\<rparr> \<and> \<not> intro_Active out)) \<and>
        (\<forall>session. r = Inr session \<longleftrightarrow> (\<exists>out. reply = Inr \<lparr>In_StatusCode = 200, In_Body = Inr out\<rparr> \<and> intro_Active out \<and> intro_Sub out \<noteq> [] \<and>
           session = \<lparr>Session_Sub = intro_Sub out, Session_ExpiresAt = (if intro_EXP out > 0 then time_Unix (intro_EXP out) else zero_time),
             Session_PublicID = intro_Username out\<rparr>)) \<and>
        (\<forall>e. r = Inl e \<longrightarrow> e = ErrInvalidSession \<or> errors_Is e ErrUpstream \<and> \<not> errors_Is e ErrInvalidSession)"
proof -
  have w: "wrapped ErrUpstream x \<noteq> ErrInvalidSession" "errors_Is (wrapped ErrUpstream x) ErrUpstream"
      "\<not> errors_Is (wrapped ErrUpstream x) ErrInvalidSession" for x
    by (simp_all add: ErrUpstream_def ErrInvalidSession_def wrapped_def)
  show ?thesis
  proof (cases reply)
    case (Inl err)
    then show ?thesis using assms w by (auto simp: HTTPClient_Introspect_def Let_def run_simps split: option.splits)
  next
    case (Inr resp)
    then show ?thesis using assms w
      by (cases resp; cases "In_Body resp") (auto simp: HTTPClient_Introspect_def Let_def run_simps split: option.splits if_splits)
  qed
qed

definition sample_authcore :: "unit AuthCore" where
  "sample_authcore = NewHTTPClient
     \<lparr>opt_BaseURL = ''https://auth/'', opt_ClientID = ''id'', opt_ClientSecret = ''secret'', opt_IntrospectPath = [], opt_ProfilePath = [],
      opt_IntrospectTimeout = 0, opt_ProfileTimeout = 0,
      opt_introspectClient = \<lparr>http_NewRequest = \<lambda>_ _. None, http_Do = \<lambda>_. ret (Inr \<lparr>In_StatusCode = 503, In_Body = Inl DeadlineExceeded\<rparr>)\<rparr>,
      opt_profileClient = \<lparr>http_NewRequest = \<lambda>_ _. None, http_Do = \<lambda>_. ret (Inl DeadlineExceeded)\<rparr>,
      opt_tokenClient = \<lparr>http_NewRequest = \<lambda>_ _. None, http_Do = \<lambda>_. ret (Inl DeadlineExceeded)\<rparr>\<rparr>"

theorem introspect_classifies_witness:
  "\<exists>e. run_state (HTTPClient_Introspect sample_authcore ''tok'') () = (Inl e, ()) \<and> errors_Is e ErrUpstream"
proof -
  let ?reply = "Inr \<lparr>In_StatusCode = 503, In_Body = Inl DeadlineExceeded\<rparr> :: go_error + introspectResponse in_response"
  have "run_state (http_Do (hc_introspectClient sample_authcore) (introspect_request sample_authcore ''tok'')) () = (?reply, ())"
    and new: "http_NewRequest (hc_introspectClient sample_authcore) ''POST'' (hc_baseURL sample_authcore @ hc_introspectPath sample_authcore) = None"
    by (simp_all add: sample_authcore_def NewHTTPClient_def)
  then obtain r where r: "run_state (HTTPClient_Introspect sample_authcore ''tok'') () = (r, ())" "r \<noteq> Inl ErrInvalidSession" "\<forall>x. r \<noteq> Inr x"
      "\<forall>e. r = Inl e \<longrightarrow> e = ErrInvalidSession \<or> errors_Is e ErrUpstream"
    using introspect_classifies [of sample_authcore "''tok''" "()" _ _ ?reply "()"] by (cases "run_state (HTTPClient_Introspect sample_authcore ''tok'') ()") auto
  then show ?thesis by (cases r) auto
qed

text \<open>Validity is any predicate the issuer grants for the lifetime it reports.\<close>

definition token_held :: "(string \<Rightarrow> string \<Rightarrow> time \<Rightarrow> bool) \<Rightarrow> 'z token_source_scheme \<Rightarrow> bool" where
  "token_held valid s \<longleftrightarrow> (ts_token s \<noteq> [] \<longrightarrow> valid (ts_token s) (ts_scope s) (ts_expiresAt s))"

definition grants :: "'z serviceTokenIssuer \<Rightarrow> (string \<Rightarrow> string \<Rightarrow> time \<Rightarrow> bool) \<Rightarrow> bool" where
  "grants issuer valid \<longleftrightarrow> (\<forall>scope s r t. run_state (issuer scope) s = (r, t) \<longrightarrow>
     ts_token t = ts_token s \<and> ts_scope t = ts_scope s \<and> ts_expiresAt t = ts_expiresAt s \<and>
     (\<forall>tok ttl. r = Inr (tok, ttl) \<longrightarrow> valid tok scope (rt_clock s (rt_ticks s - 1) + ttl)))"

text \<open>A service token is reused only for the scope it was issued for and only while it is valid for
  at least the refresh lead time; otherwise the caller gets the token just issued for its scope.\<close>

theorem service_token_fresh:
  assumes "grants (cs_issuer c) valid" and "token_held valid s" and "run_state (GetServiceToken c scope) s = (r, t)"
  shows "token_held valid t \<and> (\<forall>tok. r = Inr tok \<longrightarrow> (\<exists>until. valid tok scope until \<and>
    (rt_clock s (rt_ticks s) + cs_refreshLeadTime c < until \<or>
     (\<exists>ttl u. run_state (cs_issuer c scope) (s\<lparr>rt_ticks := Suc (rt_ticks s)\<rparr>) = (Inr (tok, ttl), u) \<and> until = rt_clock s (rt_ticks s) + ttl))))"
proof -
  let ?s = "s\<lparr>rt_ticks := Suc (rt_ticks s)\<rparr>"
  obtain q u where call: "run_state (cs_issuer c scope) ?s = (q, u)" by fastforce
  have law: "ts_token u = ts_token s \<and> ts_scope u = ts_scope s \<and> ts_expiresAt u = ts_expiresAt s \<and>
      (\<forall>tok ttl. q = Inr (tok, ttl) \<longrightarrow> valid tok scope (rt_clock s (rt_ticks s) + ttl))"
    using assms(1) call unfolding grants_def by fastforce
  show ?thesis
    using assms(2,3) call law
    by (auto simp: GetServiceToken_def run_simps bind_or_def token_held_def time_Add_def split: if_splits sum.splits)
qed

definition sample_source :: "unit CachedServiceTokenSource" where
  "sample_source = NewCachedServiceTokenSource (\<lambda>scope. ret (Inr (''svc-'' @ scope, Hour))) 0"

definition sample_tokens :: token_source where
  "sample_tokens = \<lparr>rt_clock = \<lambda>n. int n, rt_ulid = \<lambda>_. [], rt_order = \<lambda>_. [], rt_ticks = 0, rt_ids = 0, rt_ranges = 0,
     ts_token = [], ts_expiresAt = zero_time, ts_scope = []\<rparr>"

theorem service_token_fresh_witness:
  "token_held (\<lambda>tok scope until. tok = ''svc-'' @ scope) (snd (run_state (GetServiceToken sample_source ''events'') sample_tokens))"
proof -
  have "grants (cs_issuer sample_source) (\<lambda>tok scope until. tok = ''svc-'' @ scope)"
    by (simp add: grants_def sample_source_def NewCachedServiceTokenSource_def)
  moreover have "token_held (\<lambda>tok scope until. tok = ''svc-'' @ scope) sample_tokens"
    by (simp add: token_held_def sample_tokens_def)
  ultimately show ?thesis
    using service_token_fresh [of sample_source _ sample_tokens "''events''"] by (metis prod.collapse)
qed

end
