(* ===== verification/UC_Fuju.thy ===== *)
theory UC_Fuju
  imports UC_Post UC_Follow "HOL-Library.Sublist"
begin

text \<open>
  \<open>internal/usecase/fuju/dispatcher.go\<close> and the hooks of \<open>cmd/server/fuju_hooks.go\<close>. Request
  handlers push contents and events into two bounded channels; one background goroutine collects
  them into batches and hands the batches to the sender.

  The goroutines interleave between any two channel operations: \<open>disp_step\<close> is the step relation
  of the dispatcher with any number of concurrent callers, one step for each \<open>select\<close> of the
  source. \<open>EnqueueContent\<close> and \<open>EnqueueEvent\<close> are the calls that no other goroutine interrupts.
\<close>

section \<open>Payloads\<close>

text \<open>The payloads of \<open>pkg/fujumodel\<close>, with the fields the hooks can set; the other fields are
  optional, left nil by every caller, and dropped from the JSON.\<close>

record Content =
  Content_ContentID :: string
  Content_AuthorID :: string
  Content_Text :: "string option"
  Content_CreatedAt :: "time option"

datatype EventType = EventViewStart | EventViewEnd | EventScrollStop | EventRewind | EventSave | EventUnsave
  | EventShare | EventComment | EventLike | EventFollow | EventReport

record Event =
  Event_UserID :: string
  Event_ItemID :: string
  Event_EventType :: EventType
  Event_Timestamp :: time
  Event_Text :: "string option"

section \<open>Channels and enqueueing\<close>

text \<open>A buffered channel of capacity \<open>cap\<close> is the list of what it holds, oldest first. A caller
  of \<open>EnqueueContent\<close> or \<open>EnqueueEvent\<close> is about to run one of the three \<open>select\<close> statements.\<close>

datatype 'a call = TrySend 'a | DropOldest 'a | SendAgain 'a

fun item :: "'a call \<Rightarrow> 'a" where
  "item (TrySend x) = x"
| "item (DropOldest x) = x"
| "item (SendAgain x) = x"

text \<open>One \<open>select\<close>: what the caller does next, the channel after it, what was dropped.\<close>

fun enqueue_select :: "nat \<Rightarrow> 'a call \<Rightarrow> 'a list \<Rightarrow> 'a call option \<times> 'a list \<times> 'a list" where
  "enqueue_select cap (TrySend x) ch = (if length ch < cap then (None, ch @ [x], []) else (Some (DropOldest x), ch, []))"
| "enqueue_select cap (DropOldest x) [] = (Some (SendAgain x), [], [])"
| "enqueue_select cap (DropOldest x) (y # ch) = (Some (SendAgain x), ch, [y])"
| "enqueue_select cap (SendAgain x) ch = (if length ch < cap then (None, ch @ [x], []) else (None, ch, [x]))"

text \<open>One of the two streams: its channel, the callers inside \<open>Enqueue\<close>, the batch the loop is
  collecting, the batches given to the sender, and, for the record, what was dropped and every
  item a call was made with.\<close>

record 'a stream =
  st_ch :: "'a list"
  st_calls :: "'a call list"
  st_batch :: "'a list"
  st_sent :: "'a list list"
  st_dropped :: "'a list"
  st_called :: "'a list"

definition start_call :: "'a \<Rightarrow> 'a stream \<Rightarrow> 'a stream" where
  "start_call x s = s\<lparr>st_calls := st_calls s @ [TrySend x], st_called := st_called s @ [x]\<rparr>"

definition advance :: "nat \<Rightarrow> nat \<Rightarrow> 'a stream \<Rightarrow> 'a stream" where
  "advance cap i s = (case enqueue_select cap (st_calls s ! i) (st_ch s) of
     (next_call, ch, gone) \<Rightarrow> s\<lparr>st_ch := ch, st_dropped := st_dropped s @ gone,
       st_calls := take i (st_calls s) @ (case next_call of None \<Rightarrow> [] | Some c \<Rightarrow> [c]) @ drop (Suc i) (st_calls s)\<rparr>)"

definition enqueue :: "nat \<Rightarrow> 'a \<Rightarrow> 'a list \<Rightarrow> 'a list \<times> 'a list" where
  "enqueue cap x ch = (case enqueue_select cap (TrySend x) ch of
     (None, ch1, gone1) \<Rightarrow> (ch1, gone1)
   | (Some c1, ch1, gone1) \<Rightarrow> (case enqueue_select cap c1 ch1 of
       (None, ch2, gone2) \<Rightarrow> (ch2, gone1 @ gone2)
     | (Some c2, ch2, gone2) \<Rightarrow> (case enqueue_select cap c2 ch2 of (_, ch3, gone3) \<Rightarrow> (ch3, gone1 @ gone2 @ gone3))))"

section \<open>The flusher\<close>

text \<open>\<open>flushContents\<close> and \<open>flushEvents\<close>: an error of the sender is logged, and the batch is gone.\<close>

definition flush :: "'a stream \<Rightarrow> 'a stream" where
  "flush s = (if st_batch s = [] then s else s\<lparr>st_sent := st_sent s @ [st_batch s], st_batch := []\<rparr>)"

text \<open>A receive of the loop, which flushes a full batch, and a receive of the final drain.\<close>

definition take_item :: "'a stream \<Rightarrow> 'a stream" where
  "take_item s = s\<lparr>st_ch := tl (st_ch s), st_batch := st_batch s @ [hd (st_ch s)]\<rparr>"

definition receive :: "nat \<Rightarrow> 'a stream \<Rightarrow> 'a stream" where
  "receive batchSize s = (let t = take_item s in if batchSize \<le> length (st_batch t) then flush t else t)"

datatype phase = Looping | DrainContents | DrainEvents | Done

record Dispatcher =
  d_batchSize :: nat
  d_capacity :: nat
  d_contents :: "Content stream"
  d_events :: "Event stream"
  d_phase :: phase

definition empty_stream :: "'a stream" where
  "empty_stream = \<lparr>st_ch = [], st_calls = [], st_batch = [], st_sent = [], st_dropped = [], st_called = []\<rparr>"

text \<open>\<open>NewDispatcher\<close>, with the sender and the logger present: the defaults; a negative capacity
  (the product can overflow) makes \<open>make\<close> panic.\<close>

definition NewDispatcher :: "int \<Rightarrow> int \<Rightarrow> go_error + Dispatcher" where
  "NewDispatcher BatchSize QueueCapacity = (let
     bs = (if BatchSize \<le> 0 then 50 else BatchSize);
     cap = (if QueueCapacity \<le> 0 then wrap64 (bs * 8) else QueueCapacity)
     in if cap < 0 then Inl (GoPanic ''makechan: size out of range'')
        else Inr \<lparr>d_batchSize = nat bs, d_capacity = nat cap, d_contents = empty_stream, d_events = empty_stream, d_phase = Looping\<rparr>)"

definition EnqueueContent :: "Content \<Rightarrow> Dispatcher \<Rightarrow> Dispatcher" where
  "EnqueueContent c d = (let s = d_contents d; r = enqueue (d_capacity d) c (st_ch s) in
     d\<lparr>d_contents := s\<lparr>st_ch := fst r, st_dropped := st_dropped s @ snd r, st_called := st_called s @ [c]\<rparr>\<rparr>)"

definition EnqueueEvent :: "Event \<Rightarrow> Dispatcher \<Rightarrow> Dispatcher" where
  "EnqueueEvent e d = (let s = d_events d; r = enqueue (d_capacity d) e (st_ch s) in
     d\<lparr>d_events := s\<lparr>st_ch := fst r, st_dropped := st_dropped s @ snd r, st_called := st_called s @ [e]\<rparr>\<rparr>)"

text \<open>Every step any goroutine can take. The first two rules for each stream are the callers, who
  go on after the loop has ended; the others are \<open>loop\<close> and \<open>flushFinal\<close>.\<close>

inductive disp_step :: "Dispatcher \<Rightarrow> Dispatcher \<Rightarrow> bool" where
  CallContent: "disp_step d (d\<lparr>d_contents := start_call c (d_contents d)\<rparr>)"
| AdvanceContent: "i < length (st_calls (d_contents d)) \<Longrightarrow>
    disp_step d (d\<lparr>d_contents := advance (d_capacity d) i (d_contents d)\<rparr>)"
| CallEvent: "disp_step d (d\<lparr>d_events := start_call e (d_events d)\<rparr>)"
| AdvanceEvent: "i < length (st_calls (d_events d)) \<Longrightarrow>
    disp_step d (d\<lparr>d_events := advance (d_capacity d) i (d_events d)\<rparr>)"
| ReceiveContent: "d_phase d = Looping \<Longrightarrow> st_ch (d_contents d) \<noteq> [] \<Longrightarrow>
    disp_step d (d\<lparr>d_contents := receive (d_batchSize d) (d_contents d)\<rparr>)"
| ReceiveEvent: "d_phase d = Looping \<Longrightarrow> st_ch (d_events d) \<noteq> [] \<Longrightarrow>
    disp_step d (d\<lparr>d_events := receive (d_batchSize d) (d_events d)\<rparr>)"
| Tick: "d_phase d = Looping \<Longrightarrow> disp_step d (d\<lparr>d_contents := flush (d_contents d), d_events := flush (d_events d)\<rparr>)"
| Cancel: "d_phase d = Looping \<Longrightarrow> disp_step d (d\<lparr>d_phase := DrainContents\<rparr>)"
| DrainContent: "d_phase d = DrainContents \<Longrightarrow> st_ch (d_contents d) \<noteq> [] \<Longrightarrow>
    disp_step d (d\<lparr>d_contents := take_item (d_contents d)\<rparr>)"
| ContentsDrained: "d_phase d = DrainContents \<Longrightarrow> st_ch (d_contents d) = [] \<Longrightarrow> disp_step d (d\<lparr>d_phase := DrainEvents\<rparr>)"
| DrainEvent: "d_phase d = DrainEvents \<Longrightarrow> st_ch (d_events d) \<noteq> [] \<Longrightarrow>
    disp_step d (d\<lparr>d_events := take_item (d_events d)\<rparr>)"
| EventsDrained: "d_phase d = DrainEvents \<Longrightarrow> st_ch (d_events d) = [] \<Longrightarrow>
    disp_step d (d\<lparr>d_contents := flush (d_contents d), d_events := flush (d_events d), d_phase := Done\<rparr>)"

text \<open>The final drain on its own, \<open>flushFinal\<close> when nobody enqueues meanwhile.\<close>

definition drained :: "'a stream \<Rightarrow> 'a stream" where
  "drained s = s\<lparr>st_batch := st_batch s @ st_ch s, st_ch := []\<rparr>"

definition flushFinal :: "Dispatcher \<Rightarrow> Dispatcher" where
  "flushFinal d = d\<lparr>d_contents := flush (drained (d_contents d)), d_events := flush (drained (d_events d)), d_phase := Done\<rparr>"

section \<open>The hooks\<close>

text \<open>\<open>cmd/server/fuju_hooks.go\<close>: the hooks see the dispatcher through its two operations, \<open>None\<close> is
  the nil dispatcher of a server without the integration. A hook is called with a committed
  post, never nil.\<close>

record 's DispatcherOps =
  ops_EnqueueContent :: "Content \<Rightarrow> ('s, unit) state"
  ops_EnqueueEvent :: "Event \<Rightarrow> ('s, unit) state"

definition fujuPostCommitHook :: "'s DispatcherOps option \<Rightarrow> (Post \<Rightarrow> ('s, unit) state) option" where
  "fujuPostCommitHook d' = (case d' of None \<Rightarrow> None | Some d \<Rightarrow> Some (\<lambda>post. do {
     _ \<leftarrow> ops_EnqueueContent d \<lparr>Content_ContentID = Post_ID post, Content_AuthorID = Post_UserID post,
       Content_Text = Some (Post_Content post), Content_CreatedAt = Some (Post_CreatedAt post)\<rparr>;
     (case Post_ParentPostID post of
        None \<Rightarrow> ret ()
      | Some parent \<Rightarrow> ops_EnqueueEvent d \<lparr>Event_UserID = Post_UserID post, Event_ItemID = parent,
          Event_EventType = EventComment, Event_Timestamp = Post_CreatedAt post, Event_Text = Some (Post_Content post)\<rparr>)
   }))"

definition fujuLikeCommitHook ::
    "('z runtime_scheme) DispatcherOps option \<Rightarrow> (string \<Rightarrow> string \<Rightarrow> ('z runtime_scheme, unit) state) option"
  where "fujuLikeCommitHook d' = (case d' of None \<Rightarrow> None | Some d \<Rightarrow> Some (\<lambda>userSub postID. do {
     now \<leftarrow> Now;
     ops_EnqueueEvent d \<lparr>Event_UserID = userSub, Event_ItemID = postID, Event_EventType = EventLike,
       Event_Timestamp = now, Event_Text = None\<rparr>
   }))"

definition fujuFollowCommitHook ::
    "('z runtime_scheme) DispatcherOps option \<Rightarrow> (string \<Rightarrow> string \<Rightarrow> ('z runtime_scheme, unit) state) option"
  where "fujuFollowCommitHook d' = (case d' of None \<Rightarrow> None | Some d \<Rightarrow> Some (\<lambda>followerSub followeeSub. do {
     now \<leftarrow> Now;
     ops_EnqueueEvent d \<lparr>Event_UserID = followerSub, Event_ItemID = followeeSub, Event_EventType = EventFollow,
       Event_Timestamp = now, Event_Text = None\<rparr>
   }))"

section \<open>Enqueueing drops the oldest\<close>

lemma enqueue_spec:
  "length ch \<le> cap \<Longrightarrow> 0 < cap \<Longrightarrow> enqueue cap x ch =
     (if length ch < cap then (ch @ [x], []) else (tl ch @ [x], [hd ch]))"
  by (cases ch) (auto simp: enqueue_def)

section \<open>What holds of a stream\<close>

text \<open>The callers hand over items, they neither lose nor copy them.\<close>

definition conserved :: "'a stream \<Rightarrow> bool" where
  "conserved s \<longleftrightarrow> mset (st_called s) =
     mset (map item (st_calls s)) + mset (st_ch s) + mset (st_batch s) + mset (concat (st_sent s)) + mset (st_dropped s)"

definition bounded :: "nat \<Rightarrow> 'a stream \<Rightarrow> bool" where
  "bounded cap s \<longleftrightarrow> length (st_ch s) \<le> cap"

lemma enqueue_select_mset:
  assumes "enqueue_select cap c ch = (n, ch', gone)"
  shows "mset ch + {#item c#} = mset (case n of None \<Rightarrow> [] | Some c' \<Rightarrow> [item c']) + mset ch' + mset gone"
    and "length ch \<le> cap \<Longrightarrow> length ch' \<le> cap"
  using assms by (cases "(cap, c, ch)" rule: enqueue_select.cases; auto split: if_splits)+

lemma mset_nth_split: "i < length xs \<Longrightarrow> mset xs = mset (take i xs) + {#xs ! i#} + mset (drop (Suc i) xs)"
  by (subst id_take_nth_drop) simp_all

lemma conserved_call: "conserved s \<Longrightarrow> conserved (start_call x s)"
  by (simp add: conserved_def start_call_def)

lemma conserved_advance:
  assumes "conserved s" and "i < length (st_calls s)"
  shows "conserved (advance cap i s)"
proof -
  obtain n ch gone where sel: "enqueue_select cap (st_calls s ! i) (st_ch s) = (n, ch, gone)"
    by (metis prod_cases3)
  have split: "mset (map item (st_calls s)) =
      mset (map item (take i (st_calls s))) + {#item (st_calls s ! i)#} + mset (map item (drop (Suc i) (st_calls s)))"
    using mset_nth_split [of i "map item (st_calls s)"] assms(2) by (simp add: take_map drop_map)
  have "mset (map item (case n of None \<Rightarrow> [] | Some c \<Rightarrow> [c])) = mset (case n of None \<Rightarrow> [] | Some c \<Rightarrow> [item c])"
    by (cases n) auto
  then show ?thesis
    using assms(1) enqueue_select_mset(1) [OF sel] unfolding conserved_def advance_def sel split
    by (simp add: ac_simps)
qed

lemma conserved_flush: "conserved s \<Longrightarrow> conserved (flush s)"
  by (simp add: conserved_def flush_def)

lemma conserved_take: "conserved s \<Longrightarrow> st_ch s \<noteq> [] \<Longrightarrow> conserved (take_item s)"
  by (cases "st_ch s") (simp_all add: conserved_def take_item_def)

lemmas conserved_rules = conserved_call conserved_advance conserved_flush conserved_take

lemma conserved_receive: "conserved s \<Longrightarrow> st_ch s \<noteq> [] \<Longrightarrow> conserved (receive bs s)"
  by (simp add: receive_def Let_def conserved_rules)


text \<open>The channel stays within its capacity, the batch below the batch size, and while the loop
  runs every batch that was sent has at least one item and at most \<open>batchSize\<close>.\<close>

definition within :: "nat \<Rightarrow> nat \<Rightarrow> phase \<Rightarrow> 'a stream \<Rightarrow> bool" where
  "within bs cap ph s \<longleftrightarrow> length (st_ch s) \<le> cap \<and>
     (ph = Looping \<longrightarrow> length (st_batch s) < bs) \<and>
     (ph \<noteq> Done \<longrightarrow> (\<forall>b\<in>set (st_sent s). b \<noteq> [] \<and> length b \<le> bs))"

lemma advance_ch: "length (st_ch s) \<le> cap \<Longrightarrow> length (st_ch (advance cap i s)) \<le> cap"
  using enqueue_select_mset(2) by (auto simp: advance_def split: prod.splits)

lemma advance_other: "st_batch (advance cap i s) = st_batch s" "st_sent (advance cap i s) = st_sent s"
    "st_called (advance cap i s) = st_called s"
  by (simp_all add: advance_def split: prod.splits)

lemma within_steps:
  assumes "within bs cap ph s"
  shows "within bs cap ph (start_call x s)" "within bs cap ph (advance cap i s)"
    "ph = Looping \<Longrightarrow> within bs cap ph (flush s)" "ph = Looping \<Longrightarrow> st_ch s \<noteq> [] \<Longrightarrow> within bs cap ph (receive bs s)"
    "ph = DrainContents \<or> ph = DrainEvents \<Longrightarrow> within bs cap ph (take_item s)" "within bs cap Done (flush s)"
    "ph = Looping \<Longrightarrow> within bs cap DrainContents s" "ph = DrainContents \<Longrightarrow> within bs cap DrainEvents s"
  using assms advance_ch [of s cap i]
  by (auto simp: within_def start_call_def advance_other flush_def receive_def take_item_def Let_def)

text \<open>As long as no more items were offered than the channel holds, none is dropped.\<close>

definition spare :: "nat \<Rightarrow> 'a stream \<Rightarrow> bool" where
  "spare cap s \<longleftrightarrow> (length (st_called s) \<le> cap \<longrightarrow> st_dropped s = [] \<and> (\<forall>c\<in>set (st_calls s). c = TrySend (item c)))"

lemma conserved_length:
  assumes "conserved s"
  shows "length (st_ch s) + length (st_calls s) \<le> length (st_called s)"
  using arg_cong [OF assms [unfolded conserved_def], of size] by simp

lemma spare_advance:
  assumes "conserved s" and "spare cap s" and i: "i < length (st_calls s)"
  shows "spare cap (advance cap i s)"
proof (cases "length (st_called s) \<le> cap")
  case True
  then have calls: "st_calls s ! i = TrySend (item (st_calls s ! i))" and "st_dropped s = []"
      and all: "\<forall>c\<in>set (st_calls s). c = TrySend (item c)"
    using assms(2) nth_mem [OF i] by (auto simp: spare_def)
  have "length (st_ch s) < cap" using conserved_length [OF assms(1)] i True by linarith
  then have "enqueue_select cap (st_calls s ! i) (st_ch s) = (None, st_ch s @ [item (st_calls s ! i)], [])"
    by (subst calls) simp
  then show ?thesis
    using all \<open>st_dropped s = []\<close> by (auto simp: spare_def advance_def dest!: in_set_takeD in_set_dropD)
qed (simp add: spare_def advance_other)

lemma spare_steps:
  "spare cap s \<Longrightarrow> spare cap (start_call x s)" "spare cap s \<Longrightarrow> spare cap (flush s)" "spare cap s \<Longrightarrow> spare cap (take_item s)"
  "spare cap s \<Longrightarrow> spare cap (receive bs s)"
  by (auto simp: spare_def start_call_def flush_def take_item_def receive_def Let_def)

definition stream_ok :: "nat \<Rightarrow> nat \<Rightarrow> phase \<Rightarrow> 'a stream \<Rightarrow> bool" where
  "stream_ok bs cap ph s \<longleftrightarrow> conserved s \<and> within bs cap ph s \<and> spare cap s"

definition disp_ok :: "Dispatcher \<Rightarrow> bool" where
  "disp_ok d \<longleftrightarrow> stream_ok (d_batchSize d) (d_capacity d) (d_phase d) (d_contents d) \<and>
     stream_ok (d_batchSize d) (d_capacity d) (d_phase d) (d_events d)"

lemmas stream_rules = conserved_rules conserved_receive within_steps spare_steps spare_advance

lemma disp_step_ok: "disp_step d d' \<Longrightarrow> disp_ok d \<Longrightarrow> disp_ok d'"
  by (induction rule: disp_step.induct) (auto simp: disp_ok_def stream_ok_def stream_rules)

lemma disp_steps_ok: "disp_step\<^sup>*\<^sup>* d d' \<Longrightarrow> disp_ok d \<Longrightarrow> disp_ok d'"
  by (induction rule: rtranclp_induct) (auto intro: disp_step_ok)

lemma disp_step_config: "disp_step d d' \<Longrightarrow> d_batchSize d' = d_batchSize d \<and> d_capacity d' = d_capacity d"
  by (induction rule: disp_step.induct) auto

lemma disp_steps_config: "disp_step\<^sup>*\<^sup>* d d' \<Longrightarrow> d_batchSize d' = d_batchSize d \<and> d_capacity d' = d_capacity d"
  by (induction rule: rtranclp_induct) (auto dest: disp_step_config)

lemma NewDispatcher_ok: "NewDispatcher bs q = Inr d \<Longrightarrow> disp_ok d"
  by (auto simp: NewDispatcher_def Let_def disp_ok_def stream_ok_def conserved_def within_def spare_def empty_stream_def split: if_splits)

section \<open>The final drain\<close>

lemma drained_nil: "st_ch s = [] \<Longrightarrow> drained s = s"
  by (cases s) (simp add: drained_def)

lemma drained_take: "st_ch s \<noteq> [] \<Longrightarrow> drained (take_item s) = drained s"
  by (cases s) (simp add: drained_def take_item_def)

lemma drain_contents:
  "d_phase d = DrainContents \<Longrightarrow> disp_step\<^sup>*\<^sup>* d (d\<lparr>d_contents := drained (d_contents d), d_phase := DrainEvents\<rparr>)"
proof (induction "length (st_ch (d_contents d))" arbitrary: d)
  case 0
  then show ?case using ContentsDrained [of d] by (auto simp: drained_nil intro!: r_into_rtranclp)
next
  case (Suc n)
  then have ne: "st_ch (d_contents d) \<noteq> []" by auto
  let ?d = "d\<lparr>d_contents := take_item (d_contents d)\<rparr>"
  have "disp_step d ?d" using DrainContent Suc.prems ne by blast
  moreover have "disp_step\<^sup>*\<^sup>* ?d (d\<lparr>d_contents := drained (d_contents d), d_phase := DrainEvents\<rparr>)"
    using Suc.hyps(1) [of ?d] Suc.hyps(2) Suc.prems ne by (simp add: drained_take) (simp add: take_item_def)
  ultimately show ?case by (rule converse_rtranclp_into_rtranclp)
qed

lemma drain_events:
  "d_phase d = DrainEvents \<Longrightarrow>
   disp_step\<^sup>*\<^sup>* d (d\<lparr>d_contents := flush (d_contents d), d_events := flush (drained (d_events d)), d_phase := Done\<rparr>)"
proof (induction "length (st_ch (d_events d))" arbitrary: d)
  case 0
  then show ?case using EventsDrained [of d] by (auto simp: drained_nil intro!: r_into_rtranclp)
next
  case (Suc n)
  then have ne: "st_ch (d_events d) \<noteq> []" by auto
  let ?d = "d\<lparr>d_events := take_item (d_events d)\<rparr>"
  have "disp_step d ?d" using DrainEvent Suc.prems ne by blast
  moreover have "disp_step\<^sup>*\<^sup>* ?d (d\<lparr>d_contents := flush (d_contents d), d_events := flush (drained (d_events d)), d_phase := Done\<rparr>)"
    using Suc.hyps(1) [of ?d] Suc.hyps(2) Suc.prems ne by (simp add: drained_take) (simp add: take_item_def)
  ultimately show ?case by (rule converse_rtranclp_into_rtranclp)
qed

lemma steps_flushFinal:
  assumes "d_phase d = Looping"
  shows "disp_step\<^sup>*\<^sup>* d (flushFinal d)"
proof -
  let ?c = "d\<lparr>d_phase := DrainContents\<rparr>" and ?e = "d\<lparr>d_contents := drained (d_contents d), d_phase := DrainEvents\<rparr>"
  have "disp_step\<^sup>*\<^sup>* d ?c" using Cancel assms by blast
  also have "disp_step\<^sup>*\<^sup>* ?c ?e" using drain_contents [of ?c] by simp
  also have "disp_step\<^sup>*\<^sup>* ?e (flushFinal d)" using drain_events [of ?e] by (simp add: flushFinal_def)
  finally show ?thesis .
qed

lemma conserved_drained: "conserved s \<Longrightarrow> conserved (flush (drained s))"
  by (rule conserved_flush) (simp add: conserved_def drained_def ac_simps)

lemma drained_fields [simp]: "st_batch (flush s) = []" "st_ch (flush s) = st_ch s" "st_calls (flush s) = st_calls s"
    "st_called (flush s) = st_called s" "st_dropped (flush s) = st_dropped s"
    "st_ch (drained s) = []" "st_calls (drained s) = st_calls s" "st_called (drained s) = st_called s"
    "st_dropped (drained s) = st_dropped s"
  by (simp_all add: flush_def drained_def)

lemma drained_delivers:
  "conserved s \<Longrightarrow> st_calls s = [] \<Longrightarrow>
   mset (concat (st_sent (flush (drained s)))) + mset (st_dropped s) = mset (st_called s)"
  using conserved_drained [of s] by (simp add: conserved_def)

section \<open>Uninterrupted calls\<close>

text \<open>An uninterrupted call is three steps of the relation at most, and a row of them leaves the newest
  items in the channel.\<close>

lemma enqueue_row:
  assumes "0 < cap"
  shows "fold (\<lambda>x r. (fst (enqueue cap x (fst r)), snd r @ snd (enqueue cap x (fst r)))) xs ([], []) =
    (drop (length xs - cap) xs, take (length xs - cap) xs)"
proof (induction xs rule: rev_induct)
  case (snoc x xs)
  let ?n = "length xs - cap"
  show ?case
  proof (cases "length xs < cap")
    case True
    then show ?thesis using snoc assms by (simp add: enqueue_spec)
  next
    case False
    then have "drop ?n xs \<noteq> []" "hd (drop ?n xs) = xs ! ?n" "tl (drop ?n xs) = drop (Suc ?n) xs"
      using assms by (simp_all add: hd_drop_conv_nth drop_Suc tl_drop)
    moreover have "Suc (length xs) - cap = Suc ?n" using False by simp
    ultimately show ?thesis using snoc False assms by (simp add: enqueue_spec take_Suc_conv_app_nth)
  qed
qed simp

lemma steps_EnqueueContent:
  assumes "st_calls (d_contents d) = []"
  shows "disp_step\<^sup>*\<^sup>* d (EnqueueContent c d)"
proof -
  let ?cap = "d_capacity d" and ?s = "d_contents d"
  let ?at = "\<lambda>s. d\<lparr>d_contents := s\<rparr>"
  have go: "disp_step (?at s) (?at (advance ?cap 0 s))" if "st_calls s \<noteq> []" for s
    using AdvanceContent [of 0 "?at s"] that by simp
  have start: "disp_step d (?at (start_call c ?s))" by (rule CallContent)
  consider "length (st_ch ?s) < ?cap" | "\<not> length (st_ch ?s) < ?cap" by blast
  then show ?thesis
  proof cases
    case 1
    then have "EnqueueContent c d = ?at (advance ?cap 0 (start_call c ?s))"
      using assms by (cases ?s) (simp add: EnqueueContent_def enqueue_def advance_def start_call_def)
    then show ?thesis using start go [of "start_call c ?s"] by (auto simp: start_call_def)
  next
    case 2
    let ?a = "start_call c ?s" and ?b = "advance ?cap 0 (start_call c ?s)" and ?e = "advance ?cap 0 (advance ?cap 0 (start_call c ?s))"
    have "st_calls ?a \<noteq> []" "st_calls ?b \<noteq> []" "st_calls ?e \<noteq> []"
      using assms 2 by (cases "st_ch ?s"; simp add: advance_def start_call_def)+
    then have "disp_step (?at ?a) (?at ?b)" "disp_step (?at ?b) (?at ?e)" "disp_step (?at ?e) (?at (advance ?cap 0 ?e))"
      using go by blast+
    then have "disp_step\<^sup>*\<^sup>* d (?at (advance ?cap 0 ?e))"
      using start by (meson converse_rtranclp_into_rtranclp r_into_rtranclp)
    moreover have "EnqueueContent c d = ?at (advance ?cap 0 ?e)"
      using assms 2 by (cases ?s; cases "st_ch ?s") (auto simp: EnqueueContent_def enqueue_def advance_def start_call_def Let_def)
    ultimately show ?thesis by simp
  qed
qed

section \<open>Properties\<close>

text \<open>A dispatcher with a batch size of two and room for three, and what it is offered.\<close>

definition sample_dispatcher :: Dispatcher where
  "sample_dispatcher = \<lparr>d_batchSize = 2, d_capacity = 3, d_contents = empty_stream, d_events = empty_stream, d_phase = Looping\<rparr>"

definition sample_content :: Content where
  "sample_content = \<lparr>Content_ContentID = ''p'', Content_AuthorID = ''u'', Content_Text = Some ''hi'', Content_CreatedAt = Some 1\<rparr>"

definition sample_event :: "time \<Rightarrow> Event" where
  "sample_event t = \<lparr>Event_UserID = ''u'', Event_ItemID = ''p'', Event_EventType = EventLike, Event_Timestamp = t, Event_Text = None\<rparr>"

abbreviation sample_offered :: Dispatcher where
  "sample_offered \<equiv> EnqueueContent sample_content sample_dispatcher"

lemma sample_dispatcher_new: "NewDispatcher 2 3 = Inr sample_dispatcher"
  by (simp add: NewDispatcher_def sample_dispatcher_def)

lemma sample_offered_steps: "disp_step\<^sup>*\<^sup>* sample_dispatcher sample_offered"
  by (rule steps_EnqueueContent) (simp add: sample_dispatcher_def empty_stream_def)

lemma sample_offered_fields:
  "st_called (d_contents sample_offered) = [sample_content]" "st_calls (d_contents sample_offered) = []"
  "st_calls (d_events sample_offered) = []" "st_batch (d_contents sample_offered) = []" "st_sent (d_contents sample_offered) = []"
  "st_dropped (d_contents sample_offered) = []" "d_phase sample_offered = Looping" "d_capacity sample_dispatcher = 3"
  by (simp_all add: EnqueueContent_def Let_def sample_dispatcher_def empty_stream_def enqueue_def)

text \<open>C32. However callers, the loop and the shutdown interleave, no event or content is lost
  silently or sent twice: each one a hook offered is in the hands of its caller, in the channel,
  in the batch being collected, in exactly one batch that was sent, or was dropped; the channels
  stay within their capacity.\<close>

theorem dispatcher_conserves:
  assumes "NewDispatcher bs q = Inr d0" and "disp_step\<^sup>*\<^sup>* d0 d"
  shows "mset (st_called (d_events d)) = mset (map item (st_calls (d_events d))) + mset (st_ch (d_events d)) +
      mset (st_batch (d_events d)) + mset (concat (st_sent (d_events d))) + mset (st_dropped (d_events d)) \<and>
    mset (st_called (d_contents d)) = mset (map item (st_calls (d_contents d))) + mset (st_ch (d_contents d)) +
      mset (st_batch (d_contents d)) + mset (concat (st_sent (d_contents d))) + mset (st_dropped (d_contents d)) \<and>
    length (st_ch (d_events d)) \<le> d_capacity d0 \<and> length (st_ch (d_contents d)) \<le> d_capacity d0"
  using disp_steps_ok [OF assms(2) NewDispatcher_ok [OF assms(1)]] disp_steps_config [OF assms(2)]
  by (simp add: disp_ok_def stream_ok_def conserved_def within_def)

theorem dispatcher_conserves_witness:
  "mset (st_ch (d_contents sample_offered)) = {#sample_content#}"
  using dispatcher_conserves [OF sample_dispatcher_new sample_offered_steps] by (simp add: sample_offered_fields)

text \<open>C33. While the loop runs no request to fuju is empty or larger than the batch size; no channel ever holds
  more than its capacity; and nothing is dropped as long as no more items were offered than one channel
  holds.\<close>

theorem dispatcher_batches:
  assumes "NewDispatcher bs q = Inr d0" and "disp_step\<^sup>*\<^sup>* d0 d"
  shows "(d_phase d \<noteq> Done \<longrightarrow> (\<forall>b \<in> set (st_sent (d_events d)). 0 < length b \<and> length b \<le> d_batchSize d0) \<and>
      (\<forall>b \<in> set (st_sent (d_contents d)). 0 < length b \<and> length b \<le> d_batchSize d0)) \<and>
    length (st_ch (d_events d)) \<le> d_capacity d0 \<and> length (st_ch (d_contents d)) \<le> d_capacity d0 \<and>
    (length (st_called (d_events d)) \<le> d_capacity d0 \<longrightarrow> st_dropped (d_events d) = []) \<and>
    (length (st_called (d_contents d)) \<le> d_capacity d0 \<longrightarrow> st_dropped (d_contents d) = [])"
  using disp_steps_ok [OF assms(2) NewDispatcher_ok [OF assms(1)]] disp_steps_config [OF assms(2)]
  by (simp add: disp_ok_def stream_ok_def within_def spare_def)

theorem dispatcher_batches_witness:
  "st_dropped (d_contents sample_offered) = []"
  using dispatcher_batches [OF sample_dispatcher_new sample_offered_steps] by (simp add: sample_offered_fields(1,8))

text \<open>Steps while nobody is inside \<open>Enqueue\<close>, and how many are left of a shutdown.\<close>

definition quiet_step :: "Dispatcher \<Rightarrow> Dispatcher \<Rightarrow> bool" where
  "quiet_step d e \<longleftrightarrow> disp_step d e \<and> st_calls (d_contents e) = [] \<and> st_calls (d_events e) = []"

definition drain_left :: "Dispatcher \<Rightarrow> nat" where
  "drain_left d = length (st_ch (d_contents d)) + length (st_ch (d_events d)) +
     (case d_phase d of DrainContents \<Rightarrow> 2 | DrainEvents \<Rightarrow> 1 | _ \<Rightarrow> 0)"

definition shutting_down :: "Dispatcher \<Rightarrow> bool" where
  "shutting_down d \<longleftrightarrow> d_phase d \<noteq> Looping \<and> st_calls (d_contents d) = [] \<and> st_calls (d_events d) = []"

lemma quiet_step_drains: "quiet_step d e \<Longrightarrow> shutting_down d \<Longrightarrow> shutting_down e \<and> drain_left e < drain_left d"
  unfolding quiet_step_def shutting_down_def drain_left_def
  by (auto elim!: disp_step.cases simp: start_call_def take_item_def flush_def)

lemma quiet_steps_drain: "(quiet_step ^^ n) d e \<Longrightarrow> shutting_down d \<Longrightarrow> shutting_down e \<and> n + drain_left e \<le> drain_left d"
proof (induction n arbitrary: e)
  case (Suc n)
  then obtain m where "(quiet_step ^^ n) d m" "quiet_step m e" by auto
  then show ?case using Suc quiet_step_drains by fastforce
qed simp

lemma drain_goes_on:
  assumes "shutting_down d" and "d_phase d \<noteq> Done"
  shows "\<exists>e. quiet_step d e"
proof (cases "d_phase d")
  case DrainContents
  then show ?thesis using assms(1) DrainContent [of d] ContentsDrained [of d]
    by (cases "st_ch (d_contents d) = []") (fastforce simp: quiet_step_def shutting_down_def take_item_def)+
next
  case DrainEvents
  then show ?thesis using assms(1) DrainEvent [of d] EventsDrained [of d]
    by (cases "st_ch (d_events d) = []") (fastforce simp: quiet_step_def shutting_down_def take_item_def flush_def)+
qed (use assms in \<open>auto simp: shutting_down_def\<close>)

text \<open>C34. Shutdown ends and delivers. When the loop is told to stop and no call is under way, every
  sequence of steps is at most two longer than the two channels together and only stops at the end
  of the loop; the final drain gets there, and then every item ever offered was handed to the sender
  once or is among the dropped.\<close>

theorem dispatcher_drains:
  assumes "NewDispatcher bs q = Inr d0" and "disp_step\<^sup>*\<^sup>* d0 d" and "d_phase d = Looping"
    and "st_calls (d_contents d) = []" and "st_calls (d_events d) = []"
  shows "(\<forall>n e. (quiet_step ^^ n) (d\<lparr>d_phase := DrainContents\<rparr>) e \<longrightarrow>
      n \<le> length (st_ch (d_contents d)) + length (st_ch (d_events d)) + 2 \<and> (d_phase e = Done \<or> (\<exists>e'. quiet_step e e'))) \<and>
    disp_step\<^sup>*\<^sup>* d (flushFinal d) \<and> d_phase (flushFinal d) = Done \<and>
    mset (concat (st_sent (d_contents (flushFinal d)))) + mset (st_dropped (d_contents d)) = mset (st_called (d_contents d)) \<and>
    mset (concat (st_sent (d_events (flushFinal d)))) + mset (st_dropped (d_events d)) = mset (st_called (d_events d))"
proof -
  have "conserved (d_contents d)" "conserved (d_events d)"
    using disp_steps_ok [OF assms(2) NewDispatcher_ok [OF assms(1)]] by (simp_all add: disp_ok_def stream_ok_def)
  moreover have "n \<le> length (st_ch (d_contents d)) + length (st_ch (d_events d)) + 2 \<and> (d_phase e = Done \<or> (\<exists>e'. quiet_step e e'))"
    if "(quiet_step ^^ n) (d\<lparr>d_phase := DrainContents\<rparr>) e" for n e
    using quiet_steps_drain [OF that] drain_goes_on [of e] assms(4,5) by (auto simp: shutting_down_def drain_left_def)
  ultimately show ?thesis
    using steps_flushFinal [OF assms(3)] drained_delivers [of "d_contents d"] drained_delivers [of "d_events d"] assms(4,5)
    by (simp add: flushFinal_def)
qed

theorem dispatcher_drains_witness:
  "mset (concat (st_sent (d_contents (flushFinal sample_offered)))) = {#sample_content#}"
  using dispatcher_drains [OF sample_dispatcher_new sample_offered_steps sample_offered_fields(7,2,3)]
  by (simp add: sample_offered_fields(1,6))

text \<open>Without interference, offering a row of items keeps the newest: the channel holds the last
  ones in order, as many as fit, and the older ones were dropped, oldest first.\<close>

theorem enqueue_keeps_newest:
  assumes "0 < d_capacity d" and "st_ch (d_events d) = []" and "st_dropped (d_events d) = []"
  shows "st_ch (d_events (fold EnqueueEvent es d)) = drop (length es - d_capacity d) es \<and>
    st_dropped (d_events (fold EnqueueEvent es d)) = take (length es - d_capacity d) es"
proof -
  let ?f = "\<lambda>x r. (fst (enqueue (d_capacity d) x (fst r)), snd r @ snd (enqueue (d_capacity d) x (fst r)))"
  have "d_capacity e = d_capacity d \<Longrightarrow>
      (st_ch (d_events (fold EnqueueEvent es e)), st_dropped (d_events (fold EnqueueEvent es e))) =
      fold ?f es (st_ch (d_events e), st_dropped (d_events e))" for e
    by (induction es arbitrary: e) (simp_all add: EnqueueEvent_def Let_def)
  from this [OF refl] show ?thesis unfolding enqueue_row [OF assms(1)] assms(2,3) by simp
qed

theorem enqueue_keeps_newest_witness:
  "map Event_Timestamp (st_ch (d_events (fold EnqueueEvent (map sample_event [1, 2, 3, 4]) sample_dispatcher))) = [2, 3, 4]"
  using enqueue_keeps_newest [of sample_dispatcher "map sample_event [1, 2, 3, 4]"]
  by (simp add: sample_dispatcher_def empty_stream_def sample_event_def)

end
