(* ===== verification/Fujumodel.thy ===== *)
theory Fujumodel
  imports UC_Fuju Authcore
begin

text \<open>
  \<open>pkg/fujumodel/client.go\<close>: the client that registers contents and sends events, with the JSON
  encoding of \<open>encoding/json\<close> for the payloads it sends. Times are encoded in UTC.
\<close>

section \<open>JSON\<close>

definition json_ascii :: "char \<Rightarrow> string" where
  "json_ascii c =
     (if c = CHR 0x22 \<or> c = CHR 0x5C then [CHR 0x5C, c]
      else if c = CHR 0x08 then [CHR 0x5C, CHR ''b'']
      else if c = CHR 0x0C then [CHR 0x5C, CHR ''f'']
      else if c = CHR 0x0A then [CHR 0x5C, CHR ''n'']
      else if c = CHR 0x0D then [CHR 0x5C, CHR ''r'']
      else if c = CHR 0x09 then [CHR 0x5C, CHR ''t'']
      else if c < CHR 0x20 \<or> c = CHR ''<'' \<or> c = CHR ''>'' \<or> c = CHR ''&''
        then CHR 0x5C # ''u00'' @ [hex_lower (of_char c div 16), hex_lower (of_char c mod 16)]
      else [c])"

text \<open>One rune after the other: invalid bytes become U+FFFD, the two line separators are escaped.\<close>

function json_escape :: "string \<Rightarrow> string" where
  "json_escape [] = []"
| "json_escape (c # s) =
     (if c < CHR 0x80 then json_ascii c @ json_escape s
      else let w = rune_width (c # s); rune = take w (c # s) in
        (if w = 1 then CHR 0x5C # ''ufffd''
         else if rune = [CHR 0xE2, CHR 0x80, CHR 0xA8] then CHR 0x5C # ''u2028''
         else if rune = [CHR 0xE2, CHR 0x80, CHR 0xA9] then CHR 0x5C # ''u2029''
         else rune) @ json_escape (drop w (c # s)))"
  by pat_completeness auto
termination
  by (relation "measure length") (auto simp: Let_def)

definition quote :: char where
  "quote = CHR 0x22"

definition json_string :: "string \<Rightarrow> string" where
  "json_string s = quote # json_escape s @ [quote]"

text \<open>\<open>Time.MarshalJSON\<close> refuses years outside 0 to 9999.\<close>

definition json_time :: "time \<Rightarrow> go_error + string" where
  "json_time t = (if 0 \<le> fst (civil t) \<and> fst (civil t) \<le> 9999 then Inr (quote # Format_RFC3339Nano t @ [quote])
     else Inl (Sentinel ''Time.MarshalJSON: year outside of range [0,9999]''))"

definition json_member :: "string \<Rightarrow> string \<Rightarrow> string" where
  "json_member name value = json_string name @ '':'' @ value"

fun join :: "string \<Rightarrow> string list \<Rightarrow> string" where
  "join sep [] = []"
| "join sep [x] = x"
| "join sep (x # y # xs) = x @ sep @ join sep (y # xs)"

definition json_object :: "string list \<Rightarrow> string" where
  "json_object members = ''{'' @ join '','' members @ ''}''"

definition json_array :: "string list \<Rightarrow> string" where
  "json_array elems = ''['' @ join '','' elems @ '']''"

fun event_type :: "EventType \<Rightarrow> string" where
  "event_type EventViewStart = ''view_start''"
| "event_type EventViewEnd = ''view_end''"
| "event_type EventScrollStop = ''scroll_stop''"
| "event_type EventRewind = ''rewind''"
| "event_type EventSave = ''save''"
| "event_type EventUnsave = ''unsave''"
| "event_type EventShare = ''share''"
| "event_type EventComment = ''comment''"
| "event_type EventLike = ''like''"
| "event_type EventFollow = ''follow''"
| "event_type EventReport = ''report''"

definition optional :: "string \<Rightarrow> ('a \<Rightarrow> string) \<Rightarrow> 'a option \<Rightarrow> string list" where
  "optional name enc v = (case v of None \<Rightarrow> [] | Some x \<Rightarrow> [json_member name (enc x)])"

definition marshal_content :: "Content \<Rightarrow> go_error + string" where
  "marshal_content c =
     (let members = (\<lambda>at. json_object ([json_member ''content_id'' (json_string (Content_ContentID c)),
        json_member ''author_id'' (json_string (Content_AuthorID c))] @ optional ''text'' json_string (Content_Text c) @ at))
      in case Content_CreatedAt c of
        None \<Rightarrow> Inr (members [])
      | Some t \<Rightarrow> map_sum id (\<lambda>enc_text. members [json_member ''created_at'' enc_text]) (json_time t))"

definition marshal_event :: "Event \<Rightarrow> go_error + string" where
  "marshal_event e = map_sum id (\<lambda>enc_text. json_object ([json_member ''user_id'' (json_string (Event_UserID e)),
     json_member ''item_id'' (json_string (Event_ItemID e)), json_member ''event_type'' (json_string (event_type (Event_EventType e))),
     json_member ''timestamp'' enc_text] @ optional ''text'' json_string (Event_Text e))) (json_time (Event_Timestamp e))"

text \<open>\<open>json.Marshal\<close> of a slice stops at the first element it cannot encode.\<close>

fun marshal_all :: "('a \<Rightarrow> go_error + string) \<Rightarrow> 'a list \<Rightarrow> go_error + string list" where
  "marshal_all enc [] = Inr []"
| "marshal_all enc (x # xs) = (case enc x of Inl e \<Rightarrow> Inl e | Inr enc_text \<Rightarrow> map_sum id (\<lambda>enc_texts. enc_text # enc_texts) (marshal_all enc xs))"

definition marshal_body :: "string \<Rightarrow> ('a \<Rightarrow> go_error + string) \<Rightarrow> 'a list \<Rightarrow> go_error + string" where
  "marshal_body name enc xs = map_sum id (\<lambda>enc_texts. json_object [json_member name (json_array enc_texts)]) (marshal_all enc xs)"

section \<open>The client\<close>

definition fuju_ErrUpstream :: go_error where
  "fuju_ErrUpstream = Sentinel ''fujumodel: upstream error''"

definition fuju_ErrInvalidPayload :: go_error where
  "fuju_ErrInvalidPayload = Sentinel ''fujumodel: invalid payload''"

definition fuju_ErrUnauthorized :: go_error where
  "fuju_ErrUnauthorized = Sentinel ''fujumodel: unauthorized''"

text \<open>The body of a response is its text.\<close>

record 's FujuClient =
  fc_baseURL :: string
  fc_tenantID :: string
  fc_tokens :: "string \<Rightarrow> ('s, string) fallible"
  fc_scope :: string
  fc_httpClient :: "('s, string) http_client"

definition NewFujuClient ::
    "string \<Rightarrow> string \<Rightarrow> (string \<Rightarrow> ('s, string) fallible) option \<Rightarrow> string \<Rightarrow> ('s, string) http_client \<Rightarrow> go_error + 's FujuClient" where
  "NewFujuClient BaseURL TenantID Tokens Scope httpClient =
     (if BaseURL = [] then Inl (Sentinel ''fujumodel: BaseURL is required'')
      else if TenantID = [] then Inl (Sentinel ''fujumodel: TenantID is required'')
      else case Tokens of
        None \<Rightarrow> Inl (Sentinel ''fujumodel: Tokens (ServiceTokenSource) is required'')
      | Some tokens \<Rightarrow> Inr \<lparr>fc_baseURL = TrimRight BaseURL (CHR ''/''), fc_tenantID = TenantID, fc_tokens = tokens,
          fc_scope = Scope, fc_httpClient = httpClient\<rparr>)"

text \<open>The error for a rejected payload quotes the first 256 bytes of the answer.\<close>

definition postJSON :: "'s FujuClient \<Rightarrow> string \<Rightarrow> go_error + string \<Rightarrow> ('s, unit) fallible" where
  "postJSON c path body = do {
     tk \<leftarrow> fc_tokens c (fc_scope c);
     (case tk of
        Inl err \<Rightarrow> ret (Inl (wrapped fuju_ErrUpstream (''get service token: '' @ Error err)))
      | Inr tok \<Rightarrow>
     (case body of
        Inl err \<Rightarrow> ret (Inl (wrapped fuju_ErrInvalidPayload (''marshal body: '' @ Error err)))
      | Inr encoded \<Rightarrow>
     (case http_NewRequest (fc_httpClient c) ''POST'' (fc_baseURL c @ path) of
        Some err \<Rightarrow> ret (Inl (wrapped fuju_ErrUpstream (''build request: '' @ Error err)))
      | None \<Rightarrow> do {
          r \<leftarrow> http_Do (fc_httpClient c) \<lparr>Out_Method = ''POST'', Out_URL = fc_baseURL c @ path,
            Out_Headers = [(''Authorization'', ''Bearer '' @ tok), (''Content-Type'', ''application/json''), (''Accept'', ''application/json'')],
            Out_Body = encoded\<rparr>;
          ret (case r of
            Inl err \<Rightarrow> Inl (wrapped fuju_ErrUpstream (Error err))
          | Inr resp \<Rightarrow>
              let st = In_StatusCode resp in
              if 200 \<le> st \<and> st < 300 then Inr ()
              else if st = 401 then Inl (wrapped fuju_ErrUnauthorized (status_text st))
              else if 400 \<le> st \<and> st < 500 then
                Inl (wrapped fuju_ErrInvalidPayload (status_text st @ '' body='' @ quoted (case In_Body resp of Inr b \<Rightarrow> take 256 b | Inl _ \<Rightarrow> [])))
              else Inl (wrapped fuju_ErrUpstream (status_text st)))
        })))
   }"

definition RegisterContents :: "'s FujuClient \<Rightarrow> Content list \<Rightarrow> ('s, unit) fallible" where
  "RegisterContents c items = (if length items = 0 then ret (Inr ())
     else postJSON c (''/v1/'' @ fc_tenantID c @ ''/contents'') (marshal_body ''items'' marshal_content items))"

definition SendEvents :: "'s FujuClient \<Rightarrow> Event list \<Rightarrow> ('s, unit) fallible" where
  "SendEvents c events = (if length events = 0 then ret (Inr ())
     else postJSON c (''/v1/'' @ fc_tenantID c @ ''/events'') (marshal_body ''events'' marshal_event events))"

section \<open>Strings stay inside their quotes\<close>

text \<open>How a JSON reader finds the end of a string: an escape takes the next character with it.\<close>

fun after_string :: "string \<Rightarrow> string option" where
  "after_string [] = None"
| "after_string (c # r) =
     (if c = quote then Some r
      else if c = CHR 0x5C then (case r of [] \<Rightarrow> None | _ # r' \<Rightarrow> after_string r')
      else after_string r)"

definition plain :: "string \<Rightarrow> bool" where
  "plain s \<longleftrightarrow> quote \<notin> set s \<and> CHR 0x5C \<notin> set s"

lemma after_plain: "plain s \<Longrightarrow> after_string (s @ r) = after_string r"
  by (induction s) (auto simp: plain_def)

lemma hex_lower_plain: "n < 16 \<Longrightarrow> hex_lower n \<noteq> quote \<and> hex_lower n \<noteq> CHR 0x5C"
proof -
  have "\<forall>n<16. hex_lower n \<noteq> quote \<and> hex_lower n \<noteq> CHR 0x5C" unfolding hex_lower_def quote_def by code_simp
  then show "n < 16 \<Longrightarrow> hex_lower n \<noteq> quote \<and> hex_lower n \<noteq> CHR 0x5C" by blast
qed

lemma after_json_ascii: "after_string (json_ascii c @ r) = after_string r"
proof -
  have "of_char c div 16 < (16 :: nat)" "of_char c mod 16 < (16 :: nat)" by (simp_all add: less_mult_imp_div_less)
  then show ?thesis using hex_lower_plain by (auto simp: json_ascii_def quote_def)
qed

lemma rune_bytes:
  assumes "rune_width s \<noteq> 1"
  shows "\<forall>x \<in> set (take (rune_width s) s). (0x80 :: nat) \<le> of_char x"
proof -
  obtain c0 c1 r where s: "s = c0 # c1 # r"
    using assms by (auto simp: rune_width_def split: list.splits)
  show ?thesis
  proof (cases "cont c0 0xC2 0xDF \<and> cont c1 0x80 0xBF")
    case True
    then have "rune_width s = 2" by (simp add: s rune_width_def)
    then show ?thesis using True by (simp add: s cont_def)
  next
    case two: False
    obtain c2 r' where r: "r = c2 # r'" using assms two by (cases r) (auto simp: s rune_width_def)
    show ?thesis
    proof (cases "cont c2 0x80 0xBF \<and> (cont c0 0xE0 0xE0 \<and> cont c1 0xA0 0xBF \<or> cont c0 0xE1 0xEC \<and> cont c1 0x80 0xBF \<or>
        cont c0 0xED 0xED \<and> cont c1 0x80 0x9F \<or> cont c0 0xEE 0xEF \<and> cont c1 0x80 0xBF)")
      case True
      then have "rune_width s = 3" unfolding s r rune_width_def using two by (simp only: list.case if_False if_True simp_thms)
      moreover have "(0x80 :: nat) \<le> of_char c0" "(0x80 :: nat) \<le> of_char c1" "(0x80 :: nat) \<le> of_char c2"
        using True unfolding cont_def by linarith+
      ultimately show ?thesis by (simp add: s r)
    next
      case three: False
      obtain c3 r'' where r': "r' = c3 # r''" using assms two three by (cases r') (auto simp only: s r rune_width_def list.case if_False)
      let ?four = "cont c2 0x80 0xBF \<and> cont c3 0x80 0xBF \<and> (cont c0 0xF0 0xF0 \<and> cont c1 0x90 0xBF \<or>
        cont c0 0xF1 0xF3 \<and> cont c1 0x80 0xBF \<or> cont c0 0xF4 0xF4 \<and> cont c1 0x80 0x8F)"
      have w: "rune_width s = (if ?four then 4 else 1)"
        unfolding s r r' rune_width_def using two three by (simp only: list.case if_False)
      then have ?four using assms by (metis (full_types))
      moreover from this have "(0x80 :: nat) \<le> of_char c0" "(0x80 :: nat) \<le> of_char c1" "(0x80 :: nat) \<le> of_char c2" "(0x80 :: nat) \<le> of_char c3"
        unfolding cont_def by linarith+
      ultimately show ?thesis using w by (simp add: s r r')
    qed
  qed
qed

lemma rune_plain:
  assumes "rune_width s \<noteq> 1"
  shows "plain (take (rune_width s) s)"
proof -
  have "of_char quote < (0x80 :: nat)" "of_char (CHR 0x5C) < (0x80 :: nat)" by (simp_all add: quote_def)
  then show ?thesis using rune_bytes [OF assms] unfolding plain_def by (metis not_le)
qed

lemma after_escape: "after_string (json_escape s @ r) = after_string r"
proof (induction s arbitrary: r rule: json_escape.induct)
  case (2 c s)
  show ?case
  proof (cases "c < CHR 0x80")
    case True
    then show ?thesis using 2 by (simp add: after_json_ascii)
  next
    case False
    then show ?thesis using 2(2) [OF False refl refl] rune_plain [of "c # s"]
      by (auto simp: Let_def after_plain quote_def)
  qed
qed simp

lemma after_json_string: "after_string (tl (json_string s) @ r) = Some r"
  by (simp add: json_string_def after_escape)

section \<open>What can be encoded\<close>

lemma map_sum_Inr: "\<exists>y. r = Inr y \<Longrightarrow> \<exists>z. map_sum id f r = Inr z"
  by auto

lemma json_time_ok: "four_digit_year t \<Longrightarrow> \<exists>txt'. json_time t = Inr txt'"
  by (elim civil_date) (simp add: json_time_def)

lemma marshal_all_ok: "\<forall>x \<in> set xs. \<exists>txt'. enc x = Inr txt' \<Longrightarrow> \<exists>txts'. marshal_all enc xs = Inr txts'"
  by (induction xs) auto

lemma marshal_events_ok:
  assumes "\<forall>e \<in> set es. four_digit_year (Event_Timestamp e)"
  shows "\<exists>body. marshal_body ''events'' marshal_event es = Inr body"
proof -
  have "\<exists>out. marshal_event e = Inr out" if "e \<in> set es" for e
    using json_time_ok assms that unfolding marshal_event_def by (intro map_sum_Inr) blast
  then show ?thesis unfolding marshal_body_def by (intro map_sum_Inr marshal_all_ok) blast
qed

section \<open>Properties\<close>

text \<open>Whatever bytes a post contains, the JSON string it is sent as ends at its closing quote and
  not before: a reader of the request finds what follows the string, so text cannot break out of
  its field.\<close>

theorem json_text_contained: "after_string (tl (json_string s) @ rest) = Some rest"
  by (rule after_json_string)

text \<open>What a batch of events comes to: with a service token and encodable events, the result is
  success exactly for an answer 2xx; 401 is reported as unauthorized, any other 4xx as an invalid
  payload, and everything else, the transport failing included, as an upstream error; an empty
  batch sends nothing.\<close>

theorem send_events_outcomes:
  assumes "run_state (fc_tokens c (fc_scope c)) s = (Inr tok, t)" and "marshal_body ''events'' marshal_event events = Inr enc_text"
    and "http_NewRequest (fc_httpClient c) ''POST'' (fc_baseURL c @ ''/v1/'' @ fc_tenantID c @ ''/events'') = None"
    and "run_state (http_Do (fc_httpClient c) \<lparr>Out_Method = ''POST'', Out_URL = fc_baseURL c @ ''/v1/'' @ fc_tenantID c @ ''/events'',
      Out_Headers = [(''Authorization'', ''Bearer '' @ tok), (''Content-Type'', ''application/json''), (''Accept'', ''application/json'')],
      Out_Body = enc_text\<rparr>) t = (reply, u)"
  shows "run_state (SendEvents c []) s = (Inr (), s) \<and>
    (events \<noteq> [] \<longrightarrow> (\<exists>r. run_state (SendEvents c events) s = (r, u) \<and>
      (r = Inr () \<longleftrightarrow> (\<exists>resp. reply = Inr resp \<and> 200 \<le> In_StatusCode resp \<and> In_StatusCode resp < 300)) \<and>
      (\<forall>e. r = Inl e \<longrightarrow>
        (errors_Is e fuju_ErrUnauthorized \<longleftrightarrow> (\<exists>resp. reply = Inr resp \<and> In_StatusCode resp = 401)) \<and>
        (errors_Is e fuju_ErrInvalidPayload \<longleftrightarrow> (\<exists>resp. reply = Inr resp \<and> In_StatusCode resp \<in> {400..<500} - {401})) \<and>
        (errors_Is e fuju_ErrUpstream \<longleftrightarrow> (\<forall>resp. reply = Inr resp \<longrightarrow> In_StatusCode resp \<notin> {400..<500})))))"
proof -
  have w: "errors_Is (wrapped fuju_ErrUpstream x) fuju_ErrUpstream" "\<not> errors_Is (wrapped fuju_ErrUpstream x) fuju_ErrUnauthorized"
      "\<not> errors_Is (wrapped fuju_ErrUpstream x) fuju_ErrInvalidPayload" "errors_Is (wrapped fuju_ErrUnauthorized x) fuju_ErrUnauthorized"
      "\<not> errors_Is (wrapped fuju_ErrUnauthorized x) fuju_ErrUpstream" "\<not> errors_Is (wrapped fuju_ErrUnauthorized x) fuju_ErrInvalidPayload"
      "errors_Is (wrapped fuju_ErrInvalidPayload x) fuju_ErrInvalidPayload" "\<not> errors_Is (wrapped fuju_ErrInvalidPayload x) fuju_ErrUpstream"
      "\<not> errors_Is (wrapped fuju_ErrInvalidPayload x) fuju_ErrUnauthorized" for x
    by (simp_all add: fuju_ErrUpstream_def fuju_ErrUnauthorized_def fuju_ErrInvalidPayload_def)
  have "\<exists>r. run_state (SendEvents c events) s = (r, u) \<and> r = (case reply of
      Inl err \<Rightarrow> Inl (wrapped fuju_ErrUpstream (Error err))
    | Inr resp \<Rightarrow> let st = In_StatusCode resp in
        if 200 \<le> st \<and> st < 300 then Inr ()
        else if st = 401 then Inl (wrapped fuju_ErrUnauthorized (status_text st))
        else if 400 \<le> st \<and> st < 500 then
          Inl (wrapped fuju_ErrInvalidPayload (status_text st @ '' body='' @ quoted (case In_Body resp of Inr b \<Rightarrow> take 256 b | Inl _ \<Rightarrow> [])))
        else Inl (wrapped fuju_ErrUpstream (status_text st)))" if "events \<noteq> []"
    using assms that by (simp add: SendEvents_def postJSON_def)
  then show ?thesis
    using w by (cases reply) (auto simp: SendEvents_def Let_def)
qed

definition sample_fuju :: "unit FujuClient" where
  "sample_fuju = \<lparr>fc_baseURL = ''https://fuju'', fc_tenantID = ''sns'', fc_tokens = \<lambda>_. ret (Inr ''tok''), fc_scope = [],
     fc_httpClient = \<lparr>http_NewRequest = \<lambda>_ _. None, http_Do = \<lambda>_. ret (Inr \<lparr>In_StatusCode = 422, In_Body = Inr ''bad''\<rparr>)\<rparr>\<rparr>"

theorem send_events_outcomes_witness:
  "\<exists>e. run_state (SendEvents sample_fuju [sample_event 1]) () = (Inl e, ()) \<and> errors_Is e fuju_ErrInvalidPayload"
proof -
  have "four_digit_year (Event_Timestamp (sample_event 1))"
    by (simp add: sample_event_def four_digit_year_def day_ns_def Hour_def Minute_def Second_def)
  then obtain enc_text where enc_text: "marshal_body ''events'' marshal_event [sample_event 1] = Inr enc_text"
    using marshal_events_ok [of "[sample_event 1]"] by auto
  let ?reply = "Inr \<lparr>In_StatusCode = 422, In_Body = Inr ''bad''\<rparr> :: go_error + string in_response"
  obtain r where "run_state (SendEvents sample_fuju [sample_event 1]) () = (r, ())"
      "r \<noteq> Inr ()" "\<forall>e. r = Inl e \<longrightarrow> errors_Is e fuju_ErrInvalidPayload"
    using send_events_outcomes [OF _ enc_text, of sample_fuju "()" "''tok''" "()" ?reply "()"] by (auto simp: sample_fuju_def)
  then show ?thesis by (cases r) auto
qed

end
