(* ===== verification/OGP_URL.thy ===== *)
theory OGP_URL
  imports Go_Net UC_OGP "HOL-Library.Sublist"
begin

text \<open>
  \<open>pkg/ogp/extractor.go\<close> and \<open>pkg/ogp/normalizer.go\<close>: the URLs of a post, and their canonical
  form, which is the key of the preview cache. \<open>url.Parse\<close>, \<open>URL.String\<close>, \<open>net.ParseIP\<close> and \<open>IP.String\<close>, the
  Unicode case mapping and the \<open>idna\<close> package are the fields of \<open>url_lib\<close>; query strings are
  parsed and printed as \<open>url.ParseQuery\<close> and \<open>url.QueryEscape\<close> do.
\<close>

section \<open>Extraction\<close>

definition MaxExtractedURLs :: nat where
  "MaxExtractedURLs = 5"

text \<open>The class \<open>[^\s<>"'`]\<close> of \<open>urlRE\<close>; \<open>\s\<close> is tab, newline, form feed, carriage return and space,
  so bytes of longer UTF-8 sequences always belong to the class.\<close>

definition url_char :: "char \<Rightarrow> bool" where
  "url_char c \<longleftrightarrow> c \<notin> {CHR 0x09, CHR 0x0A, CHR 0x0C, CHR 0x0D, CHR 0x20, CHR ''<'', CHR ''>'', CHR 0x22, CHR 0x27, CHR 0x60}"

text \<open>The match of \<open>urlRE\<close> at the start of a text.\<close>

definition match_url :: "string \<Rightarrow> string option" where
  "match_url s = (case filter (\<lambda>p. prefix p s) [''https://'', ''http://''] of
     [] \<Rightarrow> None
   | p # _ \<Rightarrow> (let body = takeWhile url_char (drop (length p) s) in if body = [] then None else Some (p @ body)))"

lemma match_url_length: "match_url s = Some m \<Longrightarrow> m \<noteq> []"
  by (auto simp: match_url_def Let_def split: list.splits if_splits)

text \<open>\<open>FindAllString\<close>: leftmost matches that do not overlap.\<close>

function find_urls :: "string \<Rightarrow> string list" where
  "find_urls [] = []"
| "find_urls (c # s) = (case match_url (c # s) of
     Some m \<Rightarrow> m # find_urls (drop (length m) (c # s))
   | None \<Rightarrow> find_urls s)"
  by pat_completeness auto
termination
  by (relation "measure length") (auto dest: match_url_length)

definition trailingTrim :: string where
  "trailingTrim = ''.,;:!?'' @ [CHR 0x22, CHR 0x27, CHR 0x5C] @ ''*>}]''"

definition unbalanced :: "char \<Rightarrow> char \<Rightarrow> string \<Rightarrow> bool" where
  "unbalanced opener closer s \<longleftrightarrow> s \<noteq> [] \<and> last s = closer \<and> count_list s opener < count_list s closer"

function trimTrailing :: "string \<Rightarrow> string" where
  "trimTrailing s =
     (if s = [] then []
      else if last s \<in> set trailingTrim then trimTrailing (butlast s)
      else if unbalanced (CHR ''('') (CHR '')'') s then trimTrailing (butlast s)
      else if unbalanced (CHR ''['') (CHR '']'') s then trimTrailing (butlast s)
      else if unbalanced (CHR ''{'') (CHR ''}'') s then trimTrailing (butlast s)
      else s)"
  by pat_completeness auto
termination
  by (relation "measure length") auto

declare trimTrailing.simps [simp del]

text \<open>The loop of \<open>ExtractURLs\<close> over the matches.\<close>

fun collect_urls :: "string list \<Rightarrow> string list \<Rightarrow> string list" where
  "collect_urls [] out = out"
| "collect_urls (m # ms) out =
     (let t = trimTrailing m in
      if t = [] then collect_urls ms out
      else if t \<in> set out then collect_urls ms out
      else let out' = out @ [t] in
        if length out' \<ge> MaxExtractedURLs then out' else collect_urls ms out')"

definition ExtractURLs :: "string \<Rightarrow> string list" where
  "ExtractURLs content = (let matches = find_urls content in
     if length matches = 0 then [] else collect_urls matches [])"

section \<open>Query strings\<close>

definition trackingParams :: "string set" where
  "trackingParams = {''utm_source'', ''utm_medium'', ''utm_campaign'', ''utm_term'', ''utm_content'', ''gclid'', ''fbclid'', ''ref'', ''mc_cid'', ''mc_eid''}"

definition unhex :: "char \<Rightarrow> nat option" where
  "unhex c = (if CHR ''0'' \<le> c \<and> c \<le> CHR ''9'' then Some (of_char c - 48)
     else if CHR ''a'' \<le> c \<and> c \<le> CHR ''f'' then Some (of_char c - 87)
     else if CHR ''A'' \<le> c \<and> c \<le> CHR ''F'' then Some (of_char c - 55) else None)"

fun QueryUnescape :: "string \<Rightarrow> string option" where
  "QueryUnescape [] = Some []"
| "QueryUnescape (c # s) =
     (if c = CHR ''%'' then
        (case s of
           a # b # r \<Rightarrow> (case (unhex a, unhex b) of
               (Some x, Some y) \<Rightarrow> map_option (\<lambda>t. char_of (16 * x + y) # t) (QueryUnescape r)
             | _ \<Rightarrow> None)
         | _ \<Rightarrow> None)
      else map_option (\<lambda>t. (if c = CHR ''+'' then CHR '' '' else c) # t) (QueryUnescape s))"

text \<open>\<open>strings.Cut(s, "=")\<close>.\<close>

definition cut_eq :: "string \<Rightarrow> string \<times> string" where
  "cut_eq s = (case split_first (CHR ''='') s of Some kv \<Rightarrow> kv | None \<Rightarrow> (s, []))"

text \<open>\<open>url.ParseQuery\<close>: the pairs in order, \<open>None\<close> when any segment has a semicolon or a bad escape.\<close>

fun parse_segments :: "string list \<Rightarrow> (string \<times> string) list option" where
  "parse_segments [] = Some []"
| "parse_segments (seg # segs) =
     (if CHR '';'' \<in> set seg then None
      else if seg = [] then parse_segments segs
      else case (QueryUnescape (fst (cut_eq seg)), QueryUnescape (snd (cut_eq seg))) of
        (Some k, Some v) \<Rightarrow> map_option (\<lambda>kvs. (k, v) # kvs) (parse_segments segs)
      | _ \<Rightarrow> None)"

definition ParseQuery :: "string \<Rightarrow> (string \<times> string) list option" where
  "ParseQuery raw = parse_segments (split_all (CHR ''&'') raw)"

definition values_of :: "string \<Rightarrow> (string \<times> string) list \<Rightarrow> string list" where
  "values_of k kvs = map snd (filter (\<lambda>kv. fst kv = k) kvs)"

text \<open>\<open>fmt\<close> of one pair, and the writing loop, which puts an ampersand before every pair but the first.\<close>

definition encode_pair :: "string \<times> string \<Rightarrow> string" where
  "encode_pair kv = QueryEscape (fst kv) @ ''='' @ QueryEscape (snd kv)"

fun encode_pairs :: "(string \<times> string) list \<Rightarrow> string" where
  "encode_pairs [] = []"
| "encode_pairs [kv] = encode_pair kv"
| "encode_pairs (kv # kv' # kvs) = encode_pair kv @ ''&'' @ encode_pairs (kv' # kvs)"

text \<open>The map of \<open>ParseQuery\<close> is ranged over twice; neither result depends on the order, the first
  loop deletes and the keys of the second are sorted, so first occurrence stands for it.\<close>

definition sorted_pairs :: "(string \<times> string) list \<Rightarrow> (string \<times> string) list" where
  "sorted_pairs kvs = (let keys = sort_slice (<) (rev (remdups (rev (map fst kvs))))
     in concat (map (\<lambda>k. map (\<lambda>v. (k, v)) (values_of k kvs)) keys))"

definition normalizeQuery :: "string \<Rightarrow> string" where
  "normalizeQuery raw =
     (if raw = [] then []
      else case ParseQuery raw of
        None \<Rightarrow> raw
      | Some kvs \<Rightarrow> (let kept = filter (\<lambda>kv. fst kv \<notin> trackingParams) kvs in
          if length kept = 0 then [] else encode_pairs (sorted_pairs kept)))"

section \<open>Paths and hosts\<close>

fun collapse :: "string \<Rightarrow> string" where
  "collapse [] = []"
| "collapse [c] = [c]"
| "collapse (c # d # s) = (if c = CHR ''/'' \<and> d = CHR ''/'' then collapse (d # s) else c # collapse (d # s))"

definition normalizePath :: "string \<Rightarrow> string" where
  "normalizePath path =
     (if path = [] then ''/''
      else let cleaned = collapse path in
        if cleaned = ''/'' then ''/'' else TrimRight cleaned (CHR ''/''))"

text \<open>\<open>net.JoinHostPort\<close> brackets a host with a colon or a percent sign.\<close>

definition net_JoinHostPort :: "string \<Rightarrow> string \<Rightarrow> string" where
  "net_JoinHostPort host port =
     (if CHR '':'' \<in> set host \<or> CHR ''%'' \<in> set host then ''['' @ host @ '']:'' @ port else host @ '':'' @ port)"

definition joinHostPort :: "string \<Rightarrow> string \<Rightarrow> string" where
  "joinHostPort host port =
     (if port = [] then (if CHR '':'' \<in> set host then ''['' @ host @ '']'' else host)
      else net_JoinHostPort host port)"

section \<open>Normalize\<close>

text \<open>The fields of \<open>url.URL\<close> that are read or written, \<open>URL_rest\<close> standing for the others
  (\<open>User\<close>, \<open>RawPath\<close>, \<open>Opaque\<close>, ...).\<close>

record 'x go_url =
  URL_Scheme :: string
  URL_Host :: string
  URL_Path :: string
  URL_RawQuery :: string
  URL_Fragment :: string
  URL_RawFragment :: string
  URL_rest :: 'x

record 'x url_lib =
  lib_Parse :: "string \<Rightarrow> go_error + 'x go_url"
  lib_String :: "'x go_url \<Rightarrow> string"
  lib_Hostname :: "'x go_url \<Rightarrow> string"
  lib_Port :: "'x go_url \<Rightarrow> string"
  lib_IsAbs :: "'x go_url \<Rightarrow> bool"
  lib_ResolveReference :: "'x go_url \<Rightarrow> 'x go_url \<Rightarrow> 'x go_url"
  lib_ParseIP :: "string \<Rightarrow> (nat list) option"
  lib_IPString :: "nat list \<Rightarrow> string"
  lib_ToASCII :: "string \<Rightarrow> go_error + string"
  lib_ToLower :: "string \<Rightarrow> string"

definition default_port :: "string \<Rightarrow> string" where
  "default_port scheme = (if scheme = ''http'' then ''80'' else if scheme = ''https'' then ''443'' else [])"

definition Normalize :: "'x url_lib \<Rightarrow> string \<Rightarrow> go_error + string" where
  "Normalize lib rawURL' = (let rawURL = TrimSpace rawURL' in
     if rawURL = [] then Inl (Sentinel ''empty URL'')
     else case lib_Parse lib rawURL of
       Inl err \<Rightarrow> Inl (WrapError (''parse: '' @ Error err) err)
     | Inr u \<Rightarrow> (let scheme = lib_ToLower lib (URL_Scheme u) in
         if scheme \<noteq> ''http'' \<and> scheme \<noteq> ''https'' then Inl (Sentinel (''unsupported scheme '' @ quoted (URL_Scheme u)))
         else let host = TrimSuffix (lib_ToLower lib (lib_Hostname lib u)) ''.'' in
         if host = [] then Inl (Sentinel ''missing host'')
         else case (if lib_ParseIP lib host = None then lib_ToASCII lib host else Inr host) of
           Inl err \<Rightarrow> Inl (WrapError (''idna: '' @ Error err) err)
         | Inr host \<Rightarrow> (let port = (if lib_Port lib u \<noteq> [] \<and> default_port scheme = lib_Port lib u then [] else lib_Port lib u) in
             Inr (lib_String lib (u\<lparr>URL_Scheme := scheme, URL_Host := joinHostPort host port, URL_Path := normalizePath (URL_Path u),
               URL_Fragment := [], URL_RawFragment := [], URL_RawQuery := normalizeQuery (URL_RawQuery u)\<rparr>)))))"

section \<open>What extraction returns\<close>

lemma match_url_prefix: "match_url s = Some m \<Longrightarrow> prefix m s \<and> (prefix ''http://'' m \<or> prefix ''https://'' m)"
  by (auto simp: match_url_def Let_def prefix_def takeWhile_dropWhile_id split: list.splits if_splits)
    (metis append.assoc takeWhile_dropWhile_id)+

lemma find_urls_matches:
  "m \<in> set (find_urls s) \<Longrightarrow> sublist m s \<and> (prefix ''http://'' m \<or> prefix ''https://'' m)"
proof (induction s rule: find_urls.induct)
  case (2 c s)
  show ?case
  proof (cases "match_url (c # s)")
    case None
    then show ?thesis using 2 by (auto simp: sublist_Cons_right)
  next
    case (Some x)
    show ?thesis
    proof (cases "m = x")
      case True
      then show ?thesis using match_url_prefix [OF Some] by (auto intro: prefix_imp_sublist)
    next
      case False
      then have "sublist m (drop (length x) (c # s))" "prefix ''http://'' m \<or> prefix ''https://'' m"
        using 2 Some by auto
      then show ?thesis using sublist_drop sublist_order.order_trans by blast
    qed
  qed
qed simp

lemma trimTrailing_prefix: "prefix (trimTrailing s) s"
proof (induction s rule: trimTrailing.induct)
  case (1 s)
  have "prefix (butlast s) s" by (rule prefixeq_butlast)
  then show ?case using 1 by (subst trimTrailing.simps) (auto dest: prefix_order.trans)
qed

definition stripped :: "char set" where
  "stripped = set trailingTrim \<union> {CHR '')'', CHR '']'', CHR ''}''}"

lemma trimTrailing_keeps:
  "prefix p s \<Longrightarrow> p \<noteq> [] \<Longrightarrow> last p \<notin> stripped \<Longrightarrow> prefix p (trimTrailing s)"
proof (induction s rule: trimTrailing.induct)
  case (1 s)
  show ?case
  proof (cases "last s \<in> stripped")
    case True
    then have "p \<noteq> s" "s \<noteq> []" using 1(5-7) by auto
    then have "prefix p (butlast s)" using 1(5) by (metis append_butlast_last_id prefix_snoc)
    then show ?thesis using 1 \<open>s \<noteq> []\<close> by (subst trimTrailing.simps) auto
  next
    case False
    then have "trimTrailing s = s" using 1(5,6) by (subst trimTrailing.simps) (auto simp: stripped_def unbalanced_def)
    then show ?thesis using 1(5) by simp
  qed
qed

lemma trimTrailing_step:
  "trimTrailing (s @ [c]) = s @ [c] \<and> c \<notin> set trailingTrim \<or> trimTrailing (s @ [c]) = trimTrailing s"
  unfolding trimTrailing.simps [of "s @ [c]"] by simp

lemma trimTrailing_last: "trimTrailing s \<noteq> [] \<Longrightarrow> last (trimTrailing s) \<notin> set trailingTrim"
proof (induction s rule: rev_induct)
  case Nil
  then show ?case by (simp add: trimTrailing.simps)
next
  case (snoc c s)
  then show ?case using trimTrailing_step [of s c] by auto
qed

lemma collect_urls_props:
  assumes "distinct out" and "length out < MaxExtractedURLs"
  shows "distinct (collect_urls ms out) \<and> length (collect_urls ms out) \<le> MaxExtractedURLs \<and>
    set (collect_urls ms out) \<subseteq> set out \<union> trimTrailing ` set ms"
  using assms
proof (induction ms out rule: collect_urls.induct)
  case (2 m ms out)
  let ?t = "trimTrailing m"
  consider "?t = [] \<or> ?t \<in> set out" | "?t \<noteq> []" "?t \<notin> set out" "Suc (length out) \<ge> MaxExtractedURLs"
    | "?t \<noteq> []" "?t \<notin> set out" "\<not> Suc (length out) \<ge> MaxExtractedURLs" by linarith
  then show ?case
  proof cases
    case 1
    then have "collect_urls (m # ms) out = collect_urls ms out" by (auto simp: Let_def)
    moreover have "distinct (collect_urls ms out) \<and> length (collect_urls ms out) \<le> MaxExtractedURLs \<and>
        set (collect_urls ms out) \<subseteq> set out \<union> trimTrailing ` set ms" using 1 2 by blast
    ultimately show ?thesis by auto
  next
    case full: 2
    then have "collect_urls (m # ms) out = out @ [?t]" by (simp add: Let_def)
    then show ?thesis using full 2(4,5) by auto
  next
    case 3
    then have "collect_urls (m # ms) out = collect_urls ms (out @ [?t])" by (simp add: Let_def)
    moreover have "distinct (collect_urls ms (out @ [?t])) \<and> length (collect_urls ms (out @ [?t])) \<le> MaxExtractedURLs \<and>
        set (collect_urls ms (out @ [?t])) \<subseteq> set (out @ [?t]) \<union> trimTrailing ` set ms"
      using 3 2(3) [OF refl _ _ refl] 2(4) by simp
    ultimately show ?thesis by auto
  qed
qed auto

section \<open>Query strings: printing is read back\<close>

lemma unhex_hex_upper: "n < 16 \<Longrightarrow> unhex (hex_upper n) = Some n"
proof -
  have "\<forall>n<16. unhex (hex_upper n) = Some n" unfolding hex_upper_def unhex_def by code_simp
  then show "n < 16 \<Longrightarrow> unhex (hex_upper n) = Some n" by blast
qed

lemma unescape_char: "QueryUnescape (escape_char c @ s) = map_option (\<lambda>t. c # t) (QueryUnescape s)"
proof -
  have "of_char c div 16 < (16 :: nat)" "of_char c mod 16 < (16 :: nat)" by (simp_all add: less_mult_imp_div_less)
  then have hex: "unhex (hex_upper (of_char c div 16)) = Some (of_char c div 16)"
      "unhex (hex_upper (of_char c mod 16)) = Some (of_char c mod 16)"
    by (simp_all add: unhex_hex_upper)
  have "is_alnum c \<or> c \<in> set ''-_.~'' \<Longrightarrow> c \<noteq> CHR ''%'' \<and> c \<noteq> CHR ''+''" by (auto simp: is_alnum_def)
  moreover have "char_of (16 * (of_char c div 16) + of_char c mod 16 :: nat) = c"
    by (simp only: mult_div_mod_eq char_of_char)
  ultimately show ?thesis using hex by (auto simp: escape_char_def)
qed

lemma unescape_escape: "QueryUnescape (QueryEscape s) = Some s"
proof (induction s)
  case (Cons c s)
  have "QueryUnescape (QueryEscape (c # s)) = QueryUnescape (escape_char c @ QueryEscape s)" by (simp add: QueryEscape_def)
  then show ?case using Cons by (simp add: unescape_char)
qed (simp add: QueryEscape_def)

lemma split_all_none: "c \<notin> set a \<Longrightarrow> split_all c a = [a]"
  by (induction a) auto

lemma split_all_append: "c \<notin> set a \<Longrightarrow> split_all c (a @ c # b) = a # split_all c b"
  by (induction a) auto

lemma split_first_append: "c \<notin> set a \<Longrightarrow> split_first c (a @ c # b) = Some (a, b)"
  by (induction a) auto

lemma encode_pair_facts:
  "CHR ''&'' \<notin> set (encode_pair kv)" "CHR '';'' \<notin> set (encode_pair kv)" "encode_pair kv \<noteq> []"
  "cut_eq (encode_pair kv) = (QueryEscape (fst kv), QueryEscape (snd kv))"
proof -
  have k: "set (QueryEscape (fst kv)) \<inter> set ''&;=#/? '' = {}" and v: "set (QueryEscape (snd kv)) \<inter> set ''&;=#/? '' = {}"
    by (rule QueryEscape_clean)+
  then show "CHR ''&'' \<notin> set (encode_pair kv)" "CHR '';'' \<notin> set (encode_pair kv)" "encode_pair kv \<noteq> []"
    by (auto simp: encode_pair_def)
  have "CHR ''='' \<notin> set (QueryEscape (fst kv))" using k by auto
  then show "cut_eq (encode_pair kv) = (QueryEscape (fst kv), QueryEscape (snd kv))"
    by (simp add: encode_pair_def cut_eq_def split_first_append)
qed

lemma split_encode_pairs: "kvs \<noteq> [] \<Longrightarrow> split_all (CHR ''&'') (encode_pairs kvs) = map encode_pair kvs"
  by (induction kvs rule: encode_pairs.induct) (simp_all add: split_all_none split_all_append encode_pair_facts)

lemma parse_encoded: "parse_segments (map encode_pair kvs) = Some kvs"
  by (induction kvs) (simp_all add: encode_pair_facts unescape_escape)

lemma ParseQuery_encode: "kvs \<noteq> [] \<Longrightarrow> ParseQuery (encode_pairs kvs) = Some kvs"
  by (simp add: ParseQuery_def split_encode_pairs parse_encoded)

lemma encode_pairs_nonempty: "kvs \<noteq> [] \<Longrightarrow> encode_pairs kvs \<noteq> []"
  by (cases kvs rule: encode_pairs.cases) (simp_all add: encode_pair_facts)

section \<open>Sorting by key\<close>

definition sorted_keys :: "(string \<times> string) list \<Rightarrow> string list" where
  "sorted_keys kvs = sort_slice (<) (rev (remdups (rev (map fst kvs))))"

lemma sorted_keys_props: "sorted_wrt (<) (sorted_keys kvs)" "set (sorted_keys kvs) = fst ` set kvs"
proof -
  have c: "comparator ((<) :: string \<Rightarrow> string \<Rightarrow> bool)" using comparator_key [of "\<lambda>x. x"] by simp
  show "sorted_wrt (<) (sorted_keys kvs)"
    unfolding sorted_keys_def by (rule comparator.sorted_total [OF c]) auto
  show "set (sorted_keys kvs) = fst ` set kvs" by (simp add: sorted_keys_def)
qed

lemma sorted_keys_cong:
  assumes "fst ` set kvs = fst ` set kvs'"
  shows "sorted_keys kvs = sorted_keys kvs'"
  using sorted_keys_props [of kvs] sorted_keys_props [of kvs'] assms
  by (metis sorted_list_of_set.idem_if_sorted_distinct strict_sorted_iff)

lemma sorted_pairs_keys: "sorted_pairs kvs = concat (map (\<lambda>k. map (\<lambda>v. (k, v)) (values_of k kvs)) (sorted_keys kvs))"
  by (simp add: sorted_pairs_def sorted_keys_def Let_def)

lemma set_sorted_pairs: "set (sorted_pairs kvs) = set kvs"
  by (auto simp: sorted_pairs_keys sorted_keys_props(2) values_of_def image_iff)

lemma values_concat:
  assumes "distinct ks"
  shows "values_of k (concat (map (\<lambda>k. map (\<lambda>v. (k, v)) (f k)) ks)) = (if k \<in> set ks then f k else [])"
  using assms
proof (induction ks)
  case (Cons l ks)
  have "values_of k (map (\<lambda>v. (l, v)) vs) = (if k = l then vs else [])" for vs by (induction vs) (auto simp: values_of_def)
  moreover have "values_of k (a @ b) = values_of k a @ values_of k b" for a b by (simp add: values_of_def)
  ultimately show ?case using Cons by auto
qed (simp add: values_of_def)

lemma values_sorted_pairs: "values_of k (sorted_pairs kvs) = values_of k kvs"
proof -
  have "distinct (sorted_keys kvs)" using sorted_keys_props(1) [of kvs] strict_sorted_iff by blast
  moreover have "k \<notin> fst ` set kvs \<Longrightarrow> values_of k kvs = []" by (auto simp: values_of_def filter_empty_conv)
  ultimately show ?thesis unfolding sorted_pairs_keys by (simp add: values_concat sorted_keys_props(2))
qed

lemma sorted_pairs_idem: "sorted_pairs (sorted_pairs kvs) = sorted_pairs kvs"
proof -
  have "sorted_keys (sorted_pairs kvs) = sorted_keys kvs" by (rule sorted_keys_cong) (simp add: set_sorted_pairs)
  then show ?thesis by (subst (1 3) sorted_pairs_keys) (simp add: values_sorted_pairs)
qed

lemma sorted_sorted_pairs: "sorted (map fst (sorted_pairs kvs))"
proof -
  have "sorted (map fst (concat (map (\<lambda>k. map (\<lambda>v. (k, v)) (f k)) ks)))" if "sorted ks" for ks :: "string list" and f :: "string \<Rightarrow> string list"
    using that by (induction ks) (auto simp: sorted_append comp_def map_replicate_const)
  then show ?thesis using sorted_keys_props(1) [of kvs] unfolding sorted_pairs_keys by (simp add: strict_sorted_iff)
qed

lemma normalizeQuery_parsed:
  assumes "ParseQuery raw = Some kvs" and "raw \<noteq> []" and "filter (\<lambda>kv. fst kv \<notin> trackingParams) kvs \<noteq> []"
  shows "ParseQuery (normalizeQuery raw) = Some (sorted_pairs (filter (\<lambda>kv. fst kv \<notin> trackingParams) kvs))"
proof -
  let ?kept = "filter (\<lambda>kv. fst kv \<notin> trackingParams) kvs"
  have "sorted_pairs ?kept \<noteq> []" using set_sorted_pairs [of ?kept] assms(3) by (metis set_empty)
  then show ?thesis using assms by (simp add: normalizeQuery_def Let_def ParseQuery_encode)
qed

section \<open>Paths\<close>

fun no_double_slash :: "string \<Rightarrow> bool" where
  "no_double_slash (c # d # s) \<longleftrightarrow> \<not> (c = CHR ''/'' \<and> d = CHR ''/'') \<and> no_double_slash (d # s)"
| "no_double_slash _ \<longleftrightarrow> True"

lemma collapse_hd: "collapse (c # s) \<noteq> [] \<and> hd (collapse (c # s)) = c"
  by (induction s arbitrary: c) auto

lemma no_double_Cons: "no_double_slash (c # s) \<longleftrightarrow> no_double_slash s \<and> (s = [] \<or> \<not> (c = CHR ''/'' \<and> hd s = CHR ''/''))"
  by (cases s) auto

lemma collapse_clean: "no_double_slash (collapse s)"
  by (induction s rule: collapse.induct) (auto simp: no_double_Cons collapse_hd)

lemma collapse_id: "no_double_slash s \<Longrightarrow> collapse s = s"
  by (induction s rule: collapse.induct) auto

lemma no_double_prefix: "no_double_slash (a @ b) \<Longrightarrow> no_double_slash a"
  by (induction a rule: no_double_slash.induct) auto

lemma TrimRight_append: "\<exists>n. s = TrimRight s c @ replicate n c"
proof -
  have "s = rev (dropWhile (\<lambda>x. x = c) (rev s)) @ rev (takeWhile (\<lambda>x. x = c) (rev s))"
    by (metis rev_append rev_rev_ident takeWhile_dropWhile_id)
  moreover have "takeWhile (\<lambda>x. x = c) xs = replicate (length (takeWhile (\<lambda>x. x = c) xs)) c" for xs
    by (induction xs) auto
  ultimately show ?thesis unfolding TrimRight_def by (metis rev_replicate)
qed

lemma TrimRight_last: "TrimRight s c \<noteq> [] \<Longrightarrow> last (TrimRight s c) \<noteq> c"
  unfolding TrimRight_def by (metis (full_types) hd_dropWhile last_rev rev_is_Nil_conv)

lemma TrimRight_id: "s = [] \<or> last s \<noteq> c \<Longrightarrow> TrimRight s c = s"
  by (cases s rule: rev_cases) (auto simp: TrimRight_def)

lemma normalizePath_shape:
  "normalizePath s \<noteq> [] \<and> no_double_slash (normalizePath s) \<and> (normalizePath s = ''/'' \<or> last (normalizePath s) \<noteq> CHR ''/'')"
proof (cases "s = [] \<or> collapse s = ''/''")
  case False
  let ?c = "collapse s" and ?t = "TrimRight (collapse s) (CHR ''/'')"
  obtain n where n: "?c = ?t @ replicate n (CHR ''/'')" using TrimRight_append by blast
  have "?t \<noteq> []"
  proof
    assume "?t = []"
    then have "?c = replicate n (CHR ''/'')" using n by simp
    moreover have "?c \<noteq> []" using False collapse_hd by (cases s) auto
    moreover have "no_double_slash ?c" by (rule collapse_clean)
    ultimately show False using False by (cases n rule: nat.exhaust; cases "n - 1") auto
  qed
  then show ?thesis using False n no_double_prefix collapse_clean [of s] TrimRight_last by (simp add: normalizePath_def) metis
qed (auto simp: normalizePath_def)

lemma normalizePath_idem: "normalizePath (normalizePath s) = normalizePath s"
  using normalizePath_shape [of s] by (auto simp: normalizePath_def [of "normalizePath s"] collapse_id TrimRight_id Let_def)

section \<open>Properties\<close>

text \<open>A post contributes at most five link previews: the extracted URLs are distinct pieces of its
  text, each starts with http:// or https:// and none ends in the punctuation of the sentence
  around it.\<close>

theorem extract_urls_sound:
  "length (ExtractURLs content) \<le> 5 \<and> distinct (ExtractURLs content) \<and>
   (\<nexists>u. u \<in> set (ExtractURLs content) \<and> \<not> (sublist u content \<and> (prefix ''http://'' u \<or> prefix ''https://'' u) \<and> last u \<notin> set trailingTrim))"
proof -
  have props: "distinct (ExtractURLs content)" "length (ExtractURLs content) \<le> 5"
      "set (ExtractURLs content) \<subseteq> trimTrailing ` set (find_urls content)"
    using collect_urls_props [of "[]" "find_urls content"] by (auto simp: ExtractURLs_def MaxExtractedURLs_def Let_def)
  have "sublist u content \<and> (prefix ''http://'' u \<or> prefix ''https://'' u) \<and> last u \<notin> set trailingTrim"
    if u: "u \<in> set (ExtractURLs content)" for u
  proof -
    obtain m where m: "m \<in> set (find_urls content)" "u = trimTrailing m" using u props(3) by auto
    have p: "prefix ''http://'' u \<or> prefix ''https://'' u"
      using find_urls_matches [OF m(1)] trimTrailing_keeps [of "''http://''" m] trimTrailing_keeps [of "''https://''" m]
      by (auto simp: m(2) stripped_def trailingTrim_def)
    have "sublist u m" using trimTrailing_prefix [of m] by (simp add: m(2) prefix_imp_sublist)
    then have "sublist u content" using find_urls_matches [OF m(1)] sublist_order.order_trans by blast
    moreover have "u \<noteq> []" using p by auto
    ultimately show ?thesis using p trimTrailing_last [of m] by (simp add: m(2))
  qed
  then show ?thesis using props by blast
qed

text \<open>C40. The canonical query string is read back as the pairs of the original one without the tracking
  parameters, ordered by key and with the values of a key in their order; normalising it again
  changes nothing, so a URL has one cache key. Queries that do not parse stay as they are.\<close>

theorem normalize_query_canonical:
  "normalizeQuery (normalizeQuery raw) = normalizeQuery raw \<and>
   (case ParseQuery raw of
      None \<Rightarrow> normalizeQuery raw = raw
    | Some kvs \<Rightarrow> \<exists>out. ParseQuery (normalizeQuery raw) = Some out \<and> sorted (map fst out) \<and>
        set out = {kv \<in> set kvs. fst kv \<notin> trackingParams} \<and>
        (\<forall>k. map snd (filter (\<lambda>kv. fst kv = k) out) = (if k \<in> trackingParams then [] else map snd (filter (\<lambda>kv. fst kv = k) kvs))))"
proof (cases "raw = []")
  case True
  then show ?thesis by (simp add: normalizeQuery_def ParseQuery_def)
next
  case ne: False
  show ?thesis
  proof (cases "ParseQuery raw")
    case None
    then show ?thesis using ne by (simp add: normalizeQuery_def)
  next
    case (Some kvs)
    let ?kept = "filter (\<lambda>kv. fst kv \<notin> trackingParams) kvs" and ?out = "sorted_pairs (filter (\<lambda>kv. fst kv \<notin> trackingParams) kvs)"
    have keeps: "values_of k ?kept = (if k \<in> trackingParams then [] else values_of k kvs)" for k
      by (auto simp: values_of_def filter_empty_conv intro!: arg_cong [of _ _ "map snd"] filter_cong)
    show ?thesis
    proof (cases "?kept = []")
      case True
      then have "normalizeQuery raw = []" using Some ne by (simp add: normalizeQuery_def)
      moreover have "values_of k kvs = []" if "k \<notin> trackingParams" for k
        using True that by (auto simp: values_of_def filter_empty_conv)
      ultimately show ?thesis using Some True
        by (auto simp: normalizeQuery_def ParseQuery_def filter_empty_conv values_of_def)
    next
      case False
      have parsed: "ParseQuery (normalizeQuery raw) = Some ?out" by (rule normalizeQuery_parsed [OF Some ne False])
      have out: "?out \<noteq> []" "set ?out = set ?kept" using set_sorted_pairs [of ?kept] False by (auto simp flip: set_empty)
      have norm: "normalizeQuery raw = encode_pairs ?out" using Some ne False by (simp add: normalizeQuery_def Let_def)
      have "filter (\<lambda>kv. fst kv \<notin> trackingParams) ?out = ?out" using out(2) by (auto intro!: filter_True)
      then have "normalizeQuery (encode_pairs ?out) = encode_pairs ?out"
        using encode_pairs_nonempty [OF out(1)] ParseQuery_encode [OF out(1)] out(1) by (simp add: normalizeQuery_def Let_def sorted_pairs_idem)
      moreover have "map snd (filter (\<lambda>kv. fst kv = k) ?out) = values_of k ?kept" for k
        using values_sorted_pairs [of k ?kept] by (simp add: values_of_def)
      ultimately show ?thesis using Some parsed norm out(2) sorted_sorted_pairs keeps by (auto simp: values_of_def)
    qed
  qed
qed

text \<open>Canonical paths: never empty, no doubled slashes, no slash at the end except the root, and
  normalising again changes nothing.\<close>

theorem normalize_path_canonical:
  "normalizePath (normalizePath p) = normalizePath p \<and> normalizePath p \<noteq> [] \<and> \<not> sublist ''//'' (normalizePath p) \<and>
   (normalizePath p = ''/'' \<or> last (normalizePath p) \<noteq> CHR ''/'')"
proof -
  have "\<not> sublist ''//'' s" if "no_double_slash s" for s
  proof
    assume "sublist ''//'' s"
    then obtain a b where "s = a @ ''//'' @ b" unfolding sublist_def by auto
    moreover have "\<not> no_double_slash (a @ ''//'' @ b)" by (induction a) (auto simp: no_double_Cons)
    ultimately show False using that by simp
  qed
  then show ?thesis using normalizePath_idem normalizePath_shape by blast
qed

text \<open>A bracket that the URL itself opened is stripped all the same, since the closing brackets are
  in the list of trailing punctuation: the balance checks for them are never reached.\<close>

theorem trim_strips_balanced_brackets: "trimTrailing (s @ '']'') = trimTrailing s \<and> trimTrailing (s @ ''}'') = trimTrailing s"
  using trimTrailing_step [of s "CHR '']''"] trimTrailing_step [of s "CHR ''}''"] by (simp add: trailingTrim_def)

end
