(* ===== verification/OGP_Fetch.thy ===== *)
theory OGP_Fetch
  imports OGP_URL "HOL-Library.Code_Target_Nat"
begin

text \<open>
  \<open>pkg/ogp/safe_http.go\<close>, \<open>fetcher.go\<close> and \<open>parser.go\<close>: the guard against requests to internal
  addresses, the fetch with its redirects, and the metadata read from the page. Outside are
  the resolver, the dialer and the exchange over an open connection (fields of \<open>net_env\<close>), the
  SHA-256 digest, and \<open>golang.org/x/net/html\<close>, whose node tree is the datatype \<open>node\<close>.
\<close>

section \<open>IP addresses\<close>

text \<open>A \<open>net.IP\<close> is a list of bytes, 4 or 16 of them; the empty list is nil.\<close>

type_synonym IP = "nat list"

definition To4 :: "IP \<Rightarrow> IP option" where
  "To4 ip = (if length ip = 4 then Some ip
     else if length ip = 16 \<and> take 10 ip = replicate 10 0 \<and> ip ! 10 = 255 \<and> ip ! 11 = 255 then Some (drop 12 ip)
     else None)"

definition IsLoopback :: "IP \<Rightarrow> bool" where
  "IsLoopback ip = (case To4 ip of Some v4 \<Rightarrow> v4 ! 0 = 127 | None \<Rightarrow> ip = replicate 15 0 @ [1])"

definition IsLinkLocalUnicast :: "IP \<Rightarrow> bool" where
  "IsLinkLocalUnicast ip = (case To4 ip of Some v4 \<Rightarrow> v4 ! 0 = 169 \<and> v4 ! 1 = 254
     | None \<Rightarrow> length ip = 16 \<and> ip ! 0 = 254 \<and> ip ! 1 div 64 = 2)"

definition IsLinkLocalMulticast :: "IP \<Rightarrow> bool" where
  "IsLinkLocalMulticast ip = (case To4 ip of Some v4 \<Rightarrow> v4 ! 0 = 224 \<and> v4 ! 1 = 0 \<and> v4 ! 2 = 0
     | None \<Rightarrow> length ip = 16 \<and> ip ! 0 = 255 \<and> ip ! 1 mod 16 = 2)"

definition IsMulticast :: "IP \<Rightarrow> bool" where
  "IsMulticast ip = (case To4 ip of Some v4 \<Rightarrow> v4 ! 0 div 16 = 14 | None \<Rightarrow> length ip = 16 \<and> ip ! 0 = 255)"

definition IsUnspecified :: "IP \<Rightarrow> bool" where
  "IsUnspecified ip \<longleftrightarrow> To4 ip = Some (replicate 4 0) \<or> ip = replicate 16 0"

text \<open>A \<open>net.IPNet\<close>: the address and the number of leading ones in the mask.\<close>

type_synonym IPNet = "IP \<times> nat"

definition masked :: "nat \<Rightarrow> IP \<Rightarrow> nat list" where
  "masked ones ip = map (\<lambda>i. let k = min 8 (ones - 8 * i) in ip ! i div 2 ^ (8 - k)) [0..<length ip]"

definition IPNet_Contains :: "IPNet \<Rightarrow> IP \<Rightarrow> bool" where
  "IPNet_Contains n ip' = (let nn = (case To4 (fst n) of Some v4 \<Rightarrow> v4 | None \<Rightarrow> fst n);
     ip = (case To4 ip' of Some v4 \<Rightarrow> v4 | None \<Rightarrow> ip') in
     length ip = length nn \<and> masked (snd n) nn = masked (snd n) ip)"

definition blockedCIDRs :: "IPNet list" where
  "blockedCIDRs = [
     ([127, 0, 0, 0], 8),
     (replicate 15 0 @ [1], 128),
     ([169, 254, 0, 0], 16),
     ([254, 128] @ replicate 14 0, 10),
     ([10, 0, 0, 0], 8),
     ([172, 16, 0, 0], 12),
     ([192, 168, 0, 0], 16),
     ([252, 0] @ replicate 14 0, 7),
     ([0, 0, 0, 0], 8),
     ([255, 255, 255, 255], 32),
     ([224, 0, 0, 0], 4),
     ([255, 0] @ replicate 14 0, 8)]"

definition IsBlockedIP :: "IP \<Rightarrow> bool" where
  "IsBlockedIP ip' =
     (if ip' = [] then True
      else if IsLoopback ip' \<or> IsLinkLocalUnicast ip' \<or> IsLinkLocalMulticast ip' \<or> IsMulticast ip' \<or> IsUnspecified ip' then True
      else let ip = (case To4 ip' of Some v4 \<Rightarrow> v4 | None \<Rightarrow> ip') in list_ex (\<lambda>n. IPNet_Contains n ip) blockedCIDRs)"

section \<open>The guarded client\<close>

definition ErrTooManyRedirects :: go_error where
  "ErrTooManyRedirects = Sentinel ''ogp: too many redirects''"

definition MaxRedirects :: nat where
  "MaxRedirects = 5"

definition checkURL :: "'x url_lib \<Rightarrow> 'x go_url option \<Rightarrow> go_error option" where
  "checkURL lib u' = (case u' of
     None \<Rightarrow> Some ErrBlockedScheme
   | Some u \<Rightarrow>
       if URL_Scheme u \<noteq> ''http'' \<and> URL_Scheme u \<noteq> ''https'' then Some ErrBlockedScheme
       else case lib_ParseIP lib (lib_Hostname lib u) of
         Some ip \<Rightarrow> if IsBlockedIP ip then Some (wrapped ErrBlockedAddress (lib_IPString lib ip)) else None
       | None \<Rightarrow> None)"

text \<open>\<open>net.SplitHostPort\<close>, the inverse of \<open>net.JoinHostPort\<close>.\<close>

definition addr_error :: "string \<Rightarrow> string \<Rightarrow> go_error" where
  "addr_error addr why = Sentinel (''address '' @ addr @ '': '' @ why)"

definition last_index :: "char \<Rightarrow> string \<Rightarrow> nat option" where
  "last_index c s = (if c \<in> set s then Some (length s - 1 - length (takeWhile (\<lambda>x. x \<noteq> c) (rev s))) else None)"

definition SplitHostPort :: "string \<Rightarrow> go_error + (string \<times> string)" where
  "SplitHostPort addr = (case last_index (CHR '':'') addr of
     None \<Rightarrow> Inl (addr_error addr ''missing port in address'')
   | Some i \<Rightarrow>
       if addr ! 0 = CHR ''['' then
         (let e = length (takeWhile (\<lambda>x. x \<noteq> CHR '']'') addr) in
          if e = length addr then Inl (addr_error addr ''missing ']' in address'')
          else if e + 1 = length addr then Inl (addr_error addr ''missing port in address'')
          else if e + 1 \<noteq> i then
            Inl (addr_error addr (if addr ! (e + 1) = CHR '':'' then ''too many colons in address'' else ''missing port in address''))
          else if CHR ''['' \<in> set (drop 1 addr) then Inl (addr_error addr ''unexpected '[' in address'')
          else if CHR '']'' \<in> set (drop (e + 1) addr) then Inl (addr_error addr ''unexpected ']' in address'')
          else Inr (take (e - 1) (drop 1 addr), drop (i + 1) addr))
       else if CHR '':'' \<in> set (take i addr) then Inl (addr_error addr ''too many colons in address'')
       else if CHR ''['' \<in> set addr then Inl (addr_error addr ''unexpected '[' in address'')
       else if CHR '']'' \<in> set addr then Inl (addr_error addr ''unexpected ']' in address'')
       else Inr (take i addr, drop (i + 1) addr))"

record page =
  page_StatusCode :: int
  page_ContentType :: string
  page_Location :: string
  page_Body :: string

text \<open>The world of the client: resolving a name, opening a connection to an address and port, and one
  request over an open connection.\<close>

record ('s, 'c) net_env =
  env_LookupIPAddr :: "string \<Rightarrow> ('s, IP list) fallible"
  env_Dial :: "IP \<Rightarrow> string \<Rightarrow> ('s, 'c) fallible"
  env_Exchange :: "'c \<Rightarrow> out_request \<Rightarrow> ('s, page) fallible"

text \<open>The dialer is called with the address it validated, \<open>IP.String\<close> and its inverse left out.\<close>

definition safeDialContext :: "'x url_lib \<Rightarrow> ('s, 'c) net_env \<Rightarrow> string \<Rightarrow> ('s, 'c) fallible" where
  "safeDialContext lib env addr = (case SplitHostPort addr of
     Inl err \<Rightarrow> ret (Inl err)
   | Inr (host, port) \<Rightarrow>
       bind_or (env_LookupIPAddr env host) id (\<lambda>ips.
         case filter IsBlockedIP ips of
           ip # _ \<Rightarrow> ret (Inl (wrapped ErrBlockedAddress (lib_IPString lib ip)))
         | [] \<Rightarrow> (case ips of
             [] \<Rightarrow> ret (Inl (wrapped ErrBlockedAddress ''no addresses''))
           | ip # _ \<Rightarrow> env_Dial env ip port)))"

text \<open>\<open>http.Client.Do\<close> for a GET with the transport and the redirect policy of \<open>NewSafeClient\<close>: each hop
  dials, a redirect status with a location goes on if \<open>CheckRedirect\<close> allows. The first argument
  is the number of requests \<open>CheckRedirect\<close> still admits, \<open>MaxRedirects\<close> less \<open>len(via)\<close>. Errors
  are wrapped in a \<open>url.Error\<close>.\<close>

definition url_error :: "'x url_lib \<Rightarrow> 'x go_url \<Rightarrow> go_error \<Rightarrow> go_error" where
  "url_error lib u err = WrapError (''Get '' @ quoted (lib_String lib u) @ '': '' @ Error err) err"

definition canonicalAddr :: "'x url_lib \<Rightarrow> 'x go_url \<Rightarrow> string" where
  "canonicalAddr lib u = net_JoinHostPort (lib_Hostname lib u) (if lib_Port lib u = [] then default_port (URL_Scheme u) else lib_Port lib u)"

definition is_redirect :: "int \<Rightarrow> bool" where
  "is_redirect st \<longleftrightarrow> st \<in> {301, 302, 303, 307, 308}"

primrec client_Do ::
    "nat \<Rightarrow> 'x url_lib \<Rightarrow> ('s, 'c) net_env \<Rightarrow> (string \<times> string) list \<Rightarrow> 'x go_url \<Rightarrow> ('s, page \<times> 'x go_url) fallible" where
  "client_Do 0 lib env headers u = ret (Inl (url_error lib u ErrTooManyRedirects))"
| "client_Do (Suc n) lib env headers u =
     bind_or (safeDialContext lib env (canonicalAddr lib u)) (url_error lib u) (\<lambda>conn.
     bind_or (env_Exchange env conn \<lparr>Out_Method = ''GET'', Out_URL = lib_String lib u, Out_Headers = headers, Out_Body = []\<rparr>)
       (url_error lib u) (\<lambda>resp.
       if is_redirect (page_StatusCode resp) \<and> page_Location resp \<noteq> [] then
         (case lib_Parse lib (page_Location resp) of
            Inl err \<Rightarrow> ret (Inl (url_error lib u err))
          | Inr loc \<Rightarrow> (let next_url = lib_ResolveReference lib u loc in
              if n = 0 then ret (Inl (url_error lib next_url ErrTooManyRedirects))
              else case checkURL lib (Some next_url) of
                Some err \<Rightarrow> ret (Inl (url_error lib next_url err))
              | None \<Rightarrow> client_Do n lib env headers next_url))
       else ret (Inr (resp, u))))"

section \<open>Reading the page\<close>

datatype nodeType = ErrorNode | TextNode | DocumentNode | ElementNode | CommentNode | DoctypeNode | RawNode

datatype node = Node (node_Type: nodeType) (node_Data: string) (node_Attr: "(string \<times> string) list") (node_children: "node list")

record Metadata =
  Meta_Title :: string
  Meta_Description :: string
  Meta_ImageURL :: string
  Meta_SiteName :: string
  Meta_CanonicalURL :: string

text \<open>The last value of an attribute, as the loops over \<open>n.Attr\<close> leave it.\<close>

definition attr :: "string \<Rightarrow> node \<Rightarrow> string" where
  "attr key n = fold (\<lambda>(k, v) acc. if k = key then v else acc) (node_Attr n) []"

definition applyMeta :: "node \<Rightarrow> Metadata \<Rightarrow> Metadata" where
  "applyMeta n m = (let property = attr ''property'' n; name = attr ''name'' n; content = TrimSpace (attr ''content'' n) in
     if content = [] then m
     else let m =
       (if property = ''og:title'' then m\<lparr>Meta_Title := content\<rparr>
        else if property = ''og:description'' then m\<lparr>Meta_Description := content\<rparr>
        else if property \<in> {''og:image'', ''og:image:secure_url'', ''og:image:url''} then
          (if Meta_ImageURL m = [] then m\<lparr>Meta_ImageURL := content\<rparr> else m)
        else if property = ''og:site_name'' then m\<lparr>Meta_SiteName := content\<rparr>
        else if property = ''og:url'' then m\<lparr>Meta_CanonicalURL := content\<rparr>
        else m) in
       (if name = ''twitter:title'' then (if Meta_Title m = [] then m\<lparr>Meta_Title := content\<rparr> else m)
        else if name = ''twitter:description'' then (if Meta_Description m = [] then m\<lparr>Meta_Description := content\<rparr> else m)
        else if name \<in> {''twitter:image'', ''twitter:image:src''} then (if Meta_ImageURL m = [] then m\<lparr>Meta_ImageURL := content\<rparr> else m)
        else if name = ''description'' then (if Meta_Description m = [] then m\<lparr>Meta_Description := content\<rparr> else m)
        else m))"

definition applyLink :: "node \<Rightarrow> Metadata \<Rightarrow> Metadata" where
  "applyLink n m =
     (if Meta_CanonicalURL m \<noteq> [] then m
      else if attr ''rel'' n = ''canonical'' then m\<lparr>Meta_CanonicalURL := TrimSpace (attr ''href'' n)\<rparr>
      else m)"

definition textOf :: "node \<Rightarrow> string" where
  "textOf n = TrimSpace (concat (map node_Data (filter (\<lambda>c. node_Type c = TextNode) (node_children n))))"

text \<open>\<open>walk\<close>: the nodes in the order of the visits.\<close>

fun walk :: "node \<Rightarrow> node list" where
  "walk (Node t d as cs) = Node t d as cs # concat (map walk cs)"

definition visit :: "node \<Rightarrow> Metadata \<times> string \<Rightarrow> Metadata \<times> string" where
  "visit n = (\<lambda>(m, title).
     if node_Type n \<noteq> ElementNode then (m, title)
     else if node_Data n = ''title'' then (m, if title = [] then textOf n else title)
     else if node_Data n = ''meta'' then (applyMeta n m, title)
     else if node_Data n = ''link'' then (applyLink n m, title)
     else (m, title))"

definition resolveURL :: "'x url_lib \<Rightarrow> string \<Rightarrow> string \<Rightarrow> string" where
  "resolveURL lib base r =
     (if r = [] then []
      else case lib_Parse lib base of
        Inl _ \<Rightarrow> []
      | Inr b \<Rightarrow>
          if \<not> lib_IsAbs lib b then []
          else case lib_Parse lib r of
            Inl _ \<Rightarrow> []
          | Inr u \<Rightarrow> lib_String lib (lib_ResolveReference lib b u))"

definition resolveSafeURL :: "'x url_lib \<Rightarrow> string \<Rightarrow> string \<Rightarrow> string" where
  "resolveSafeURL lib base r = (let abs_url = resolveURL lib base r in
     if abs_url = [] then []
     else case lib_Parse lib abs_url of
       Inl _ \<Rightarrow> []
     | Inr u \<Rightarrow> if URL_Scheme u \<noteq> ''http'' \<and> URL_Scheme u \<noteq> ''https'' then [] else abs_url)"

definition empty_metadata :: Metadata where
  "empty_metadata = \<lparr>Meta_Title = [], Meta_Description = [], Meta_ImageURL = [], Meta_SiteName = [], Meta_CanonicalURL = []\<rparr>"

definition ogp_Parse :: "'x url_lib \<Rightarrow> node \<Rightarrow> string \<Rightarrow> Metadata" where
  "ogp_Parse lib root baseURL = (let (m, title) = fold visit (walk root) (empty_metadata, []);
     m = (if Meta_Title m = [] then m\<lparr>Meta_Title := title\<rparr> else m) in
     m\<lparr>Meta_ImageURL := resolveSafeURL lib baseURL (Meta_ImageURL m), Meta_CanonicalURL := resolveSafeURL lib baseURL (Meta_CanonicalURL m)\<rparr>)"

section \<open>Fetch\<close>

definition MaxBodyBytes :: nat where
  "MaxBodyBytes = 5 * 1024 * 1024"

definition isHTMLContentType :: "string \<Rightarrow> bool" where
  "isHTMLContentType ct' = (let ct = map ascii_lower (TrimSpace ct') in
     if ct = [] then True
     else let media = (case split_first (CHR '';'') ct of Some (a, _) \<Rightarrow> TrimSpace a | None \<Rightarrow> ct) in
       media = ''text/html'' \<or> media = ''application/xhtml+xml'')"

record ('s, 'c, 'x) Fetcher =
  f_lib :: "'x url_lib"
  f_env :: "('s, 'c) net_env"
  f_userAgent :: string
  f_acceptLanguage :: string
  f_hash :: "string \<Rightarrow> string"
  f_html :: "string \<Rightarrow> node"

definition NewFetcher ::
    "'x url_lib \<Rightarrow> ('s, 'c) net_env \<Rightarrow> (string \<Rightarrow> string) \<Rightarrow> (string \<Rightarrow> node) \<Rightarrow> string \<Rightarrow> string \<Rightarrow> ('s, 'c, 'x) Fetcher" where
  "NewFetcher lib env hash html UserAgent AcceptLanguage =
     \<lparr>f_lib = lib, f_env = env, f_userAgent = (if UserAgent = [] then ''FujuBot/1.0 (+https://fuju.example.com/bot)'' else UserAgent),
      f_acceptLanguage = (if AcceptLanguage = [] then ''en,ja;q=0.8'' else AcceptLanguage), f_hash = hash, f_html = html\<rparr>"

definition Fetch :: "('z runtime_scheme, 'c, 'x) Fetcher \<Rightarrow> string \<Rightarrow> ('z runtime_scheme, OGPPreview) fallible" where
  "Fetch f rawURL = (case Normalize (f_lib f) rawURL of
     Inl err \<Rightarrow> ret (Inl (WrapError (''normalize: '' @ Error err) err))
   | Inr normalized \<Rightarrow> (case lib_Parse (f_lib f) normalized of
     Inl err \<Rightarrow> ret (Inl (WrapError (''build request: '' @ Error err) err))
   | Inr u \<Rightarrow>
       bind_or (client_Do MaxRedirects (f_lib f) (f_env f) [(''User-Agent'', f_userAgent f),
           (''Accept'', ''text/html,application/xhtml+xml;q=0.9,*/*;q=0.1''), (''Accept-Language'', f_acceptLanguage f)] u) id (\<lambda>(resp, final).
         if page_StatusCode resp \<noteq> 200 then ret (Inl (ErrBadStatus (page_StatusCode resp)))
         else if \<not> isHTMLContentType (page_ContentType resp) then ret (Inl ErrNotHTML)
         else if length (page_Body resp) > MaxBodyBytes then
           ret (Inl (WrapError ''parse: http: request body too large'' (Sentinel ''http: request body too large'')))
         else do {
           let meta = ogp_Parse (f_lib f) (f_html f (page_Body resp)) (lib_String (f_lib f) final);
           now \<leftarrow> Now;
           ret (Inr \<lparr>Prev_URLHash = f_hash f normalized, Prev_URL = normalized, Prev_Title = Meta_Title meta,
             Prev_Description = Meta_Description meta, Prev_ImageURL = Meta_ImageURL meta, Prev_SiteName = Meta_SiteName meta,
             Prev_CanonicalURL = Meta_CanonicalURL meta, Prev_FetchedAt = now, Prev_ExpiresAt = zero_time,
             Prev_Status = OGPStatusUnset, Prev_ErrorReason = []\<rparr>)
         })))"

section \<open>Which addresses are blocked\<close>

lemma upt_4: "[0..<4] = [0, 1, 2, 3 :: nat]" and upt_16: "[0..<16] = [0, 1, 2, 3, 4, 5, 6, 7, 8, 9, 10, 11, 12, 13, 14, 15 :: nat]"
  by (simp_all add: upt_rec)

lemma rep: "replicate 4 x = [x, x, x, x]" "replicate 10 x = [x, x, x, x, x, x, x, x, x, x]"
    "replicate 14 x = [x, x, x, x, x, x, x, x, x, x, x, x, x, x]" "replicate 15 x = [x, x, x, x, x, x, x, x, x, x, x, x, x, x, x]"
    "replicate 16 x = [x, x, x, x, x, x, x, x, x, x, x, x, x, x, x, x]"
  by (simp_all add: eval_nat_numeral)

lemma To4_v4 [simp]: "To4 [a, b, c, d] = Some [a, b, c, d]"
  by (simp add: To4_def)

lemma To4_mapped [simp]: "To4 (replicate 10 0 @ [255, 255, a, b, c, d]) = Some [a, b, c, d]"
  by (simp add: To4_def eval_nat_numeral)

lemma contains_v4:
  assumes "a < 256" "b < 256" "c < 256" "d < 256"
  shows "IPNet_Contains ([127, 0, 0, 0], 8) [a, b, c, d] \<longleftrightarrow> a = 127"
    "IPNet_Contains ([169, 254, 0, 0], 16) [a, b, c, d] \<longleftrightarrow> a = 169 \<and> b = 254"
    "IPNet_Contains ([10, 0, 0, 0], 8) [a, b, c, d] \<longleftrightarrow> a = 10"
    "IPNet_Contains ([172, 16, 0, 0], 12) [a, b, c, d] \<longleftrightarrow> a = 172 \<and> 16 \<le> b \<and> b < 32"
    "IPNet_Contains ([192, 168, 0, 0], 16) [a, b, c, d] \<longleftrightarrow> a = 192 \<and> b = 168"
    "IPNet_Contains ([0, 0, 0, 0], 8) [a, b, c, d] \<longleftrightarrow> a = 0"
    "IPNet_Contains ([255, 255, 255, 255], 32) [a, b, c, d] \<longleftrightarrow> a = 255 \<and> b = 255 \<and> c = 255 \<and> d = 255"
    "IPNet_Contains ([224, 0, 0, 0], 4) [a, b, c, d] \<longleftrightarrow> 224 \<le> a \<and> a < 240"
proof -
  have "b div 16 = 1 \<longleftrightarrow> 16 \<le> b \<and> b < 32" "a div 16 = 14 \<longleftrightarrow> 224 \<le> a \<and> a < 240" by auto
  then show "IPNet_Contains ([127, 0, 0, 0], 8) [a, b, c, d] \<longleftrightarrow> a = 127"
    "IPNet_Contains ([169, 254, 0, 0], 16) [a, b, c, d] \<longleftrightarrow> a = 169 \<and> b = 254"
    "IPNet_Contains ([10, 0, 0, 0], 8) [a, b, c, d] \<longleftrightarrow> a = 10"
    "IPNet_Contains ([172, 16, 0, 0], 12) [a, b, c, d] \<longleftrightarrow> a = 172 \<and> 16 \<le> b \<and> b < 32"
    "IPNet_Contains ([192, 168, 0, 0], 16) [a, b, c, d] \<longleftrightarrow> a = 192 \<and> b = 168"
    "IPNet_Contains ([0, 0, 0, 0], 8) [a, b, c, d] \<longleftrightarrow> a = 0"
    "IPNet_Contains ([255, 255, 255, 255], 32) [a, b, c, d] \<longleftrightarrow> a = 255 \<and> b = 255 \<and> c = 255 \<and> d = 255"
    "IPNet_Contains ([224, 0, 0, 0], 4) [a, b, c, d] \<longleftrightarrow> 224 \<le> a \<and> a < 240"
    using assms by (simp_all add: IPNet_Contains_def masked_def upt_4, auto)
qed

lemma To4_v6:
  "To4 (replicate 15 0 @ [1]) = None" "To4 ([254, 128] @ replicate 14 0) = None" "To4 ([252, 0] @ replicate 14 0) = None"
  "To4 ([255, 0] @ replicate 14 0) = None"
  by (simp_all add: To4_def eval_nat_numeral)

lemma contains_v6_v4: "To4 n = None \<Longrightarrow> length n = 16 \<Longrightarrow> \<not> IPNet_Contains (n, k) [a, b, c, d]"
  by (simp add: IPNet_Contains_def)

lemma contains_other:
  "\<not> IPNet_Contains (replicate 15 0 @ [1], 128) [a, b, c, d]" "\<not> IPNet_Contains ([254, 128] @ replicate 14 0, 10) [a, b, c, d]"
  "\<not> IPNet_Contains ([252, 0] @ replicate 14 0, 7) [a, b, c, d]" "\<not> IPNet_Contains ([255, 0] @ replicate 14 0, 8) [a, b, c, d]"
  by (rule contains_v6_v4, rule To4_v6, simp)+

lemma blocked_v4:
  assumes "a < 256" "b < 256" "c < 256" "d < 256"
  shows "IsBlockedIP [a, b, c, d] \<longleftrightarrow> a = 0 \<or> a = 10 \<or> a = 127 \<or> a = 169 \<and> b = 254 \<or> a = 172 \<and> 16 \<le> b \<and> b < 32 \<or>
    a = 192 \<and> b = 168 \<or> 224 \<le> a \<and> a < 240 \<or> a = 255 \<and> b = 255 \<and> c = 255 \<and> d = 255"
proof -
  have "a div 16 = 14 \<longleftrightarrow> 224 \<le> a \<and> a < 240" by auto
  then have special: "IsLoopback [a, b, c, d] \<longleftrightarrow> a = 127" "IsLinkLocalUnicast [a, b, c, d] \<longleftrightarrow> a = 169 \<and> b = 254"
      "IsLinkLocalMulticast [a, b, c, d] \<longleftrightarrow> a = 224 \<and> b = 0 \<and> c = 0" "IsMulticast [a, b, c, d] \<longleftrightarrow> 224 \<le> a \<and> a < 240"
      "IsUnspecified [a, b, c, d] \<longleftrightarrow> a = 0 \<and> b = 0 \<and> c = 0 \<and> d = 0"
    by (simp_all add: IsLoopback_def IsLinkLocalUnicast_def IsLinkLocalMulticast_def IsMulticast_def IsUnspecified_def rep)
  have "list_ex (\<lambda>n. IPNet_Contains n [a, b, c, d]) blockedCIDRs \<longleftrightarrow> a = 127 \<or> a = 169 \<and> b = 254 \<or> a = 10 \<or>
      a = 172 \<and> 16 \<le> b \<and> b < 32 \<or> a = 192 \<and> b = 168 \<or> a = 0 \<or> a = 255 \<and> b = 255 \<and> c = 255 \<and> d = 255 \<or> 224 \<le> a \<and> a < 240"
    unfolding blockedCIDRs_def by (simp only: list_ex_iff list.set bex_simps contains_v4 [OF assms] contains_other simp_thms)
  moreover have "IsBlockedIP [a, b, c, d] \<longleftrightarrow> IsLoopback [a, b, c, d] \<or> IsLinkLocalUnicast [a, b, c, d] \<or> IsLinkLocalMulticast [a, b, c, d] \<or>
      IsMulticast [a, b, c, d] \<or> IsUnspecified [a, b, c, d] \<or> list_ex (\<lambda>n. IPNet_Contains n [a, b, c, d]) blockedCIDRs"
    by (simp add: IsBlockedIP_def)
  moreover have "a = 224 \<Longrightarrow> 224 \<le> a \<and> a < 240" by simp
  ultimately show ?thesis unfolding special by argo
qed

lemma mapped_like_v4: "IsBlockedIP (replicate 10 0 @ [255, 255, a, b, c, d]) = IsBlockedIP [a, b, c, d]"
proof -
  have "replicate 10 0 @ [255, 255, a, b, c, d] \<noteq> replicate 16 (0 :: nat)" "replicate 10 0 @ [255, 255, a, b, c, d] \<noteq> []" "replicate 10 0 @ [255, 255, a, b, c, d] \<noteq> replicate 15 0 @ [1 :: nat]"
    by (simp_all add: rep)
  then show ?thesis
    unfolding IsBlockedIP_def IsLoopback_def IsLinkLocalUnicast_def IsLinkLocalMulticast_def IsMulticast_def IsUnspecified_def
      To4_mapped To4_v4 by (simp add: rep)
qed

lemma masked_eq:
  assumes "length a = length b"
  shows "masked ones a = masked ones b \<longleftrightarrow>
     (\<forall>i<length a. a ! i div 2 ^ (8 - min 8 (ones - 8 * i)) = b ! i div 2 ^ (8 - min 8 (ones - 8 * i)))"
  unfolding masked_def Let_def assms map_eq_conv set_upt by (simp only: atLeast0LessThan lessThan_iff Ball_def)

text \<open>A mask of at most 16 bits looks at the first two bytes.\<close>

lemma masked_two:
  assumes "length a = 16" "length b = 16" "\<forall>x\<in>set a. x < 256" "\<forall>x\<in>set b. x < 256" "ones \<le> 16"
  shows "masked ones a = masked ones b \<longleftrightarrow> a ! 0 div 2 ^ (8 - min 8 ones) = b ! 0 div 2 ^ (8 - min 8 ones) \<and>
    a ! 1 div 2 ^ (8 - min 8 (ones - 8)) = b ! 1 div 2 ^ (8 - min 8 (ones - 8))"
proof -
  have "a ! i div 2 ^ (8 - min 8 (ones - 8 * i)) = b ! i div 2 ^ (8 - min 8 (ones - 8 * i))" if "2 \<le> i" "i < 16" for i
    using that assms by (simp add: div_less)
  moreover have "(\<forall>i<16. P i) \<longleftrightarrow> P 0 \<and> P 1 \<and> (\<forall>i. 2 \<le> i \<and> i < 16 \<longrightarrow> P i)" for P :: "nat \<Rightarrow> bool"
    by (auto simp: less_2_cases_iff not_le) (metis less_2_cases_iff not_le One_nat_def)
  ultimately show ?thesis unfolding masked_eq [OF trans [OF assms(1) assms(2) [symmetric]]] assms(1) by simp
qed

lemma blocked_v6:
  assumes "length ip = 16" and bytes: "\<forall>x\<in>set ip. x < 256" and v6: "To4 ip = None"
  shows "IsBlockedIP ip \<longleftrightarrow> ip = replicate 16 0 \<or> ip = replicate 15 0 @ [1] \<or> ip ! 0 = 254 \<and> ip ! 1 div 64 = 2 \<or> ip ! 0 div 2 = 126 \<or> ip ! 0 = 255"
proof -
  have ne: "ip \<noteq> []" using assms(1) by auto
  have small: "ip ! 0 < 256" "ip ! 1 < 256" using bytes assms(1) by auto
  have four: "\<not> IPNet_Contains ([a, b, c, d], k) ip" for a b c d k using assms(1) v6 by (simp add: IPNet_Contains_def)
  have one: "IPNet_Contains (replicate 15 0 @ [1], 128) ip \<longleftrightarrow> ip = replicate 15 0 @ [1]"
  proof -
    have full: "masked 128 x = x" if "length x = 16" for x using that by (auto simp: masked_def list_eq_iff_nth_eq)
    show ?thesis unfolding IPNet_Contains_def fst_conv snd_conv To4_v6(1) v6 option.case Let_def using assms(1) by (auto simp: full)
  qed
  have two: "IPNet_Contains (n, k) ip \<longleftrightarrow> n ! 0 div 2 ^ (8 - min 8 k) = ip ! 0 div 2 ^ (8 - min 8 k) \<and>
      n ! 1 div 2 ^ (8 - min 8 (k - 8)) = ip ! 1 div 2 ^ (8 - min 8 (k - 8))"
    if "To4 n = None" "length n = 16" "\<forall>x\<in>set n. x < 256" "k \<le> 16" for n k
    using that assms(1) v6 masked_two [OF that(2) assms(1) that(3) bytes that(4)] by (simp add: IPNet_Contains_def)
  have local: "IPNet_Contains ([254, 128] @ replicate 14 0, 10) ip \<longleftrightarrow> ip ! 0 = 254 \<and> ip ! 1 div 64 = 2"
      "IPNet_Contains ([252, 0] @ replicate 14 0, 7) ip \<longleftrightarrow> ip ! 0 div 2 = 126"
      "IPNet_Contains ([255, 0] @ replicate 14 0, 8) ip \<longleftrightarrow> ip ! 0 = 255"
  proof -
    have pow: "(2 :: nat) ^ 6 = 64" "(2 :: nat) ^ 8 = 256" by simp_all
    have len: "length ([x, y] @ replicate 14 0) = 16" "\<forall>z\<in>set ([x, y] @ replicate 14 0). z < 256" if "x < 256" "y < 256" for x y :: nat
      using that by auto
    have nth: "([x, y] @ replicate 14 0) ! 0 = x" "([x, y] @ replicate 14 0) ! 1 = y" for x y :: nat by simp_all
    show "IPNet_Contains ([254, 128] @ replicate 14 0, 10) ip \<longleftrightarrow> ip ! 0 = 254 \<and> ip ! 1 div 64 = 2"
      using two [OF To4_v6(2) len, of 10] small unfolding nth by auto
    show "IPNet_Contains ([252, 0] @ replicate 14 0, 7) ip \<longleftrightarrow> ip ! 0 div 2 = 126"
      using two [OF To4_v6(3) len, of 7] small unfolding nth by auto
    show "IPNet_Contains ([255, 0] @ replicate 14 0, 8) ip \<longleftrightarrow> ip ! 0 = 255"
      using two [OF To4_v6(4) len, of 8] small unfolding nth by auto
  qed
  have special: "IsLoopback ip \<longleftrightarrow> ip = replicate 15 0 @ [1]" "IsLinkLocalUnicast ip \<longleftrightarrow> ip ! 0 = 254 \<and> ip ! 1 div 64 = 2"
      "IsLinkLocalMulticast ip \<longleftrightarrow> ip ! 0 = 255 \<and> ip ! 1 mod 16 = 2" "IsMulticast ip \<longleftrightarrow> ip ! 0 = 255" "IsUnspecified ip \<longleftrightarrow> ip = replicate 16 0"
    using v6 assms(1) by (simp_all add: IsLoopback_def IsLinkLocalUnicast_def IsLinkLocalMulticast_def IsMulticast_def IsUnspecified_def)
  have "list_ex (\<lambda>n. IPNet_Contains n ip) blockedCIDRs \<longleftrightarrow> ip = replicate 15 0 @ [1] \<or> ip ! 0 = 254 \<and> ip ! 1 div 64 = 2 \<or> ip ! 0 div 2 = 126 \<or> ip ! 0 = 255"
    unfolding blockedCIDRs_def by (simp only: list_ex_iff list.set bex_simps four one local simp_thms)
  then show ?thesis unfolding IsBlockedIP_def special v6 option.case Let_def using ne by (simp only: if_False if_True split: if_split) blast
qed

section \<open>Every connection is checked\<close>

text \<open>A computation keeps a property of the world.\<close>

definition keeps :: "('s \<Rightarrow> bool) \<Rightarrow> ('s, 'a) state \<Rightarrow> bool" where
  "keeps P m \<longleftrightarrow> (\<forall>s. P s \<longrightarrow> P (snd (run_state m s)))"

lemma keeps_ret: "keeps P (ret x)"
  by (simp add: keeps_def)

lemma keeps_bind: "keeps P m \<Longrightarrow> (\<And>x. keeps P (k x)) \<Longrightarrow> keeps P (m \<bind> k)"
  by (auto simp: keeps_def split: prod.splits)

lemma keeps_bind_or: "keeps P m \<Longrightarrow> (\<And>x. keeps P (k x)) \<Longrightarrow> keeps P (bind_or m w k)"
  unfolding bind_or_def by (intro keeps_bind) (auto intro: keeps_ret split: sum.splits)

text \<open>The world may be changed by lookups, by requests over open connections, and by connections to
  addresses that are not blocked.\<close>

definition permits :: "('s, 'c) net_env \<Rightarrow> ('s \<Rightarrow> bool) \<Rightarrow> bool" where
  "permits env P \<longleftrightarrow> (\<forall>h. keeps P (env_LookupIPAddr env h)) \<and> (\<forall>conn rq. keeps P (env_Exchange env conn rq)) \<and>
     (\<forall>ip port. \<not> IsBlockedIP ip \<longrightarrow> keeps P (env_Dial env ip port))"

lemma keeps_dial:
  assumes "permits env P"
  shows "keeps P (safeDialContext lib env addr)"
proof -
  have "keeps P (case filter IsBlockedIP ips of
      ip # _ \<Rightarrow> ret (Inl (wrapped ErrBlockedAddress (lib_IPString lib ip)))
    | [] \<Rightarrow> (case ips of [] \<Rightarrow> ret (Inl (wrapped ErrBlockedAddress ''no addresses'')) | ip # _ \<Rightarrow> env_Dial env ip port))" for ips port
    using assms by (cases ips) (auto simp: permits_def keeps_ret split: list.split)
  then show ?thesis
    using assms unfolding safeDialContext_def by (auto simp: permits_def intro!: keeps_ret keeps_bind_or split: sum.split)
qed

lemma keeps_client_Do: "permits env P \<Longrightarrow> keeps P (client_Do n lib env headers u)"
proof (induction n arbitrary: u)
  case (Suc n)
  then have "keeps P (env_Exchange env conn rq)" for conn rq by (simp add: permits_def)
  then show ?case using Suc by (auto simp: Let_def intro!: keeps_bind_or keeps_dial keeps_ret split: sum.split option.split)
qed (simp add: keeps_ret)

lemma keeps_Now: "(\<And>s. P s \<Longrightarrow> P (s\<lparr>rt_ticks := Suc (rt_ticks s)\<rparr>)) \<Longrightarrow> keeps P Now"
  by (simp add: keeps_def run_simps)

lemma keeps_Fetch:
  assumes "permits (f_env f) P" and "\<And>s. P s \<Longrightarrow> P (s\<lparr>rt_ticks := Suc (rt_ticks s)\<rparr>)"
  shows "keeps P (Fetch f url)"
  unfolding Fetch_def Let_def
  by (auto intro!: keeps_bind_or keeps_bind keeps_ret keeps_client_Do keeps_Now assms split: sum.split prod.split)

section \<open>How many requests\<close>

definition costs :: "('s \<Rightarrow> nat) \<Rightarrow> nat \<Rightarrow> ('s, 'a) state \<Rightarrow> bool" where
  "costs f k m \<longleftrightarrow> (\<forall>s. f (snd (run_state m s)) \<le> f s + k)"

lemma costs_ret: "costs f k (ret x)"
  by (simp add: costs_def)

lemma costs_bind_or: "costs f i m \<Longrightarrow> (\<And>x. costs f j (k x)) \<Longrightarrow> costs f (i + j) (bind_or m w k)"
  unfolding costs_def run_bind_or
  by (auto split: prod.splits sum.splits) (metis (no_types, lifting) add.assoc le_add1 order_trans snd_conv add_le_mono1 | metis le_add1 order_trans snd_conv add.assoc)+

lemma costs_mono: "costs f i m \<Longrightarrow> i \<le> j \<Longrightarrow> costs f j m"
  unfolding costs_def by (meson add_le_mono le_refl order_trans)

text \<open>A counter that only requests over a connection advance, each by one at most.\<close>

definition counts :: "('s, 'c) net_env \<Rightarrow> ('s \<Rightarrow> nat) \<Rightarrow> bool" where
  "counts env f \<longleftrightarrow> (\<forall>h. costs f 0 (env_LookupIPAddr env h)) \<and> (\<forall>ip port. costs f 0 (env_Dial env ip port)) \<and>
     (\<forall>conn rq. costs f 1 (env_Exchange env conn rq))"

lemma costs_dial: "counts env f \<Longrightarrow> costs f 0 (safeDialContext lib env addr)"
  unfolding safeDialContext_def
  by (auto simp: counts_def intro!: costs_ret costs_bind_or [of f 0 _ 0, simplified] split: sum.split list.split)

lemma costs_client_Do: "counts env f \<Longrightarrow> costs f n (client_Do n lib env headers u)"
proof (induction n arbitrary: u)
  case (Suc n)
  have "costs f (0 + (1 + n)) (client_Do (Suc n) lib env headers u)"
    unfolding client_Do.simps using Suc
    by (intro costs_bind_or costs_dial) (auto simp: counts_def Let_def intro!: costs_ret split: sum.split option.split)
  then show ?case by simp
qed (simp add: costs_ret)

section \<open>Metadata\<close>

definition og_title :: "node \<Rightarrow> string list" where
  "og_title n = (if node_Type n = ElementNode \<and> node_Data n = ''meta'' \<and> attr ''property'' n = ''og:title'' \<and> TrimSpace (attr ''content'' n) \<noteq> []
     then [TrimSpace (attr ''content'' n)] else [])"

lemma applyMeta_title:
  "Meta_Title (applyMeta n m) =
     (if TrimSpace (attr ''content'' n) \<noteq> [] \<and> attr ''property'' n = ''og:title'' then TrimSpace (attr ''content'' n)
      else if TrimSpace (attr ''content'' n) \<noteq> [] \<and> attr ''name'' n = ''twitter:title'' \<and> Meta_Title m = [] then TrimSpace (attr ''content'' n)
      else Meta_Title m)"
  by (simp add: applyMeta_def Let_def)

lemma visit_title:
  "og_title n \<noteq> [] \<Longrightarrow> Meta_Title (fst (visit n mt)) = hd (og_title n)"
  "og_title n = [] \<Longrightarrow> Meta_Title (fst mt) \<noteq> [] \<Longrightarrow> Meta_Title (fst (visit n mt)) = Meta_Title (fst mt)"
  by (auto simp: og_title_def visit_def applyMeta_title applyLink_def split: prod.splits if_splits)

lemma fold_visit_title:
  assumes "concat (map og_title ns) \<noteq> []"
  shows "Meta_Title (fst (fold visit ns mt)) = last (concat (map og_title ns)) \<and> last (concat (map og_title ns)) \<noteq> []"
  using assms
proof (induction ns rule: rev_induct)
  case (snoc n ns)
  have one: "og_title n \<noteq> [] \<Longrightarrow> og_title n = [hd (og_title n)] \<and> hd (og_title n) \<noteq> []" by (auto simp: og_title_def split: if_splits)
  show ?case
  proof (cases "og_title n = []")
    case True
    then show ?thesis using snoc visit_title(2) [OF True] by simp
  next
    case False
    then obtain t where "og_title n = [t]" "t \<noteq> []" using one by blast
    then show ?thesis using visit_title(1) [OF False] by simp
  qed
qed simp

section \<open>Properties\<close>

text \<open>C27. Exactly the internal ranges are blocked. Of IPv4: this network, private, loopback, link-local
  (with the metadata service of the clouds), multicast and broadcast, and an IPv4 address wrapped
  in an IPv6 one is judged the same. Of the other IPv6 addresses: the unspecified and the loopback
  address, link-local, unique-local and multicast addresses.\<close>

theorem blocked_exactly:
  assumes "\<forall>x\<in>set ip. x < 256"
  shows "(\<forall>a b c d. ip = [a, b, c, d] \<or> ip = replicate 10 0 @ [255, 255, a, b, c, d] \<longrightarrow>
      (IsBlockedIP ip \<longleftrightarrow> a = 0 \<or> a = 10 \<or> a = 127 \<or> a = 169 \<and> b = 254 \<or> a = 172 \<and> 16 \<le> b \<and> b < 32 \<or>
        a = 192 \<and> b = 168 \<or> 224 \<le> a \<and> a < 240 \<or> a = 255 \<and> b = 255 \<and> c = 255 \<and> d = 255)) \<and>
    (length ip = 16 \<and> To4 ip = None \<longrightarrow>
      (IsBlockedIP ip \<longleftrightarrow> ip = replicate 16 0 \<or> ip = replicate 15 0 @ [1] \<or> ip ! 0 = 254 \<and> ip ! 1 div 64 = 2 \<or> ip ! 0 div 2 = 126 \<or> ip ! 0 = 255))"
proof (intro conjI allI impI)
  fix a b c d assume ip: "ip = [a, b, c, d] \<or> ip = replicate 10 0 @ [255, 255, a, b, c, d]"
  then have bytes: "a < 256" "b < 256" "c < 256" "d < 256" using assms by auto
  from ip have "IsBlockedIP ip = IsBlockedIP [a, b, c, d]" using mapped_like_v4 by auto
  then show "IsBlockedIP ip \<longleftrightarrow> a = 0 \<or> a = 10 \<or> a = 127 \<or> a = 169 \<and> b = 254 \<or> a = 172 \<and> 16 \<le> b \<and> b < 32 \<or>
        a = 192 \<and> b = 168 \<or> 224 \<le> a \<and> a < 240 \<or> a = 255 \<and> b = 255 \<and> c = 255 \<and> d = 255"
    using blocked_v4 [OF bytes] by simp
qed (rule blocked_v6 [OF _ assms], simp_all)

theorem blocked_exactly_witness:
  "IsBlockedIP [169, 254, 169, 254] \<and> \<not> IsBlockedIP [100, 64, 0, 1] \<and> IsBlockedIP ([253, 0] @ replicate 14 0)"
proof -
  have "To4 ([253, 0] @ replicate 14 0) = None" by (simp add: To4_def rep)
  then show ?thesis
    using blocked_exactly [of "[169, 254, 169, 254]"] blocked_exactly [of "[100, 64, 0, 1]"] blocked_exactly [of "[253, 0] @ replicate 14 0"] by simp
qed

text \<open>C26. Fetching a preview never connects to a blocked address, whatever the URL, the DNS answers and the
  redirects: any property of the world that lookups, requests over open connections and
  connections to addresses that are not blocked preserve is preserved by the fetch.\<close>

theorem fetch_never_dials_blocked:
  assumes "\<forall>h. keeps P (env_LookupIPAddr (f_env f) h)" and "\<forall>conn rq. keeps P (env_Exchange (f_env f) conn rq)"
    and "\<forall>ip port. \<not> IsBlockedIP ip \<longrightarrow> keeps P (env_Dial (f_env f) ip port)"
    and "\<forall>s. P s \<longrightarrow> P (s\<lparr>rt_ticks := Suc (rt_ticks s)\<rparr>)"
  shows "keeps P (Fetch f url)"
  using keeps_Fetch [of f P] assms by (simp add: permits_def)

text \<open>A world that remembers the addresses it was asked to connect to.\<close>

record world = runtime +
  dialled :: "IP list"

definition sample_world :: world where
  "sample_world = \<lparr>rt_clock = \<lambda>n. int n, rt_ulid = \<lambda>_. [], rt_order = \<lambda>_. [], rt_ticks = 0, rt_ids = 0, rt_ranges = 0, dialled = []\<rparr>"

definition sample_lib :: "unit url_lib" where
  "sample_lib = \<lparr>lib_Parse = (\<lambda>s. Inr \<lparr>URL_Scheme = ''http'', URL_Host = s, URL_Path = [], URL_RawQuery = [], URL_Fragment = [], URL_RawFragment = [], URL_rest = ()\<rparr>),
     lib_String = URL_Host, lib_Hostname = URL_Host, lib_Port = (\<lambda>_. []), lib_IsAbs = (\<lambda>_. True), lib_ResolveReference = (\<lambda>_ r. r),
     lib_ParseIP = (\<lambda>_. None), lib_IPString = (\<lambda>_. []), lib_ToASCII = Inr, lib_ToLower = (\<lambda>s. s)\<rparr>"

definition sample_env_net :: "(world, unit) net_env" where
  "sample_env_net = \<lparr>env_LookupIPAddr = (\<lambda>_. ret (Inr [[93, 184, 216, 34]])),
     env_Dial = (\<lambda>ip _. do { _ \<leftarrow> modify (\<lambda>s. s\<lparr>dialled := ip # dialled s\<rparr>); ret (Inr ()) }),
     env_Exchange = (\<lambda>_ _. ret (Inr \<lparr>page_StatusCode = 200, page_ContentType = ''text/html'', page_Location = [], page_Body = []\<rparr>))\<rparr>"

definition sample_fetcher :: "(world, unit, unit) Fetcher" where
  "sample_fetcher = NewFetcher sample_lib sample_env_net (\<lambda>s. s) (\<lambda>_. Node DocumentNode [] [] []) [] []"

theorem fetch_never_dials_blocked_witness:
  "dialled (snd (run_state (Fetch sample_fetcher ''a'') sample_world)) \<noteq> [] \<and>
   \<not> list_ex IsBlockedIP (dialled (snd (run_state (Fetch sample_fetcher ''a'') sample_world)))"
proof
  let ?P = "\<lambda>s. \<not> list_ex IsBlockedIP (dialled s)"
  have env: "f_env sample_fetcher = sample_env_net" by (simp add: sample_fetcher_def NewFetcher_def)
  have "keeps ?P (Fetch sample_fetcher ''a'')"
    by (rule fetch_never_dials_blocked) (simp_all add: env sample_env_net_def keeps_def run_simps)
  then show "?P (snd (run_state (Fetch sample_fetcher ''a'') sample_world))" by (simp add: keeps_def sample_world_def)
  show "dialled (snd (run_state (Fetch sample_fetcher ''a'') sample_world)) \<noteq> []"
    by code_simp
qed

text \<open>A fetch makes at most five requests, however the servers redirect: a counter that requests
  advance by one and nothing else advances grows by five at most.\<close>

theorem fetch_requests_bounded:
  assumes "\<forall>h. costs n 0 (env_LookupIPAddr (f_env f) h)" and "\<forall>ip port. costs n 0 (env_Dial (f_env f) ip port)"
    and "\<forall>conn rq. costs n 1 (env_Exchange (f_env f) conn rq)" and "\<forall>s k. n (s\<lparr>rt_ticks := k\<rparr>) = n s"
  shows "costs n 5 (Fetch f url)"
proof -
  have "counts (f_env f) n" using assms by (simp add: counts_def)
  note hops = costs_client_Do [OF this, of 5]
  have "costs n 0 (Now \<bind> (\<lambda>now. ret (g now)))" for g :: "time \<Rightarrow> 'd"
    using assms(4) by (simp add: costs_def run_simps)
  then show ?thesis
    using hops unfolding Fetch_def Let_def MaxRedirects_def
    by (auto intro!: costs_ret costs_bind_or [of n 5 _ 0, simplified] split: sum.split prod.split)
qed

text \<open>A world where every request is answered with a redirect and requests are counted in place of ids.\<close>

definition looping_fetcher :: "(runtime, unit, unit) Fetcher" where
  "looping_fetcher = NewFetcher sample_lib \<lparr>env_LookupIPAddr = (\<lambda>_. ret (Inr [[93, 184, 216, 34]])), env_Dial = (\<lambda>_ _. ret (Inr ())),
     env_Exchange = (\<lambda>_ _. do { _ \<leftarrow> modify (\<lambda>s. s\<lparr>rt_ids := Suc (rt_ids s)\<rparr>);
       ret (Inr \<lparr>page_StatusCode = 302, page_ContentType = [], page_Location = ''b'', page_Body = []\<rparr>) })\<rparr>
     (\<lambda>s. s) (\<lambda>_. Node DocumentNode [] [] []) [] []"

theorem fetch_requests_bounded_witness: "costs rt_ids 5 (Fetch looping_fetcher ''a'')"
proof (rule fetch_requests_bounded)
  have "f_env looping_fetcher = \<lparr>env_LookupIPAddr = (\<lambda>_. ret (Inr [[93, 184, 216, 34]])), env_Dial = (\<lambda>_ _. ret (Inr ())),
     env_Exchange = (\<lambda>_ _. do { _ \<leftarrow> modify (\<lambda>s. s\<lparr>rt_ids := Suc (rt_ids s)\<rparr>);
       ret (Inr \<lparr>page_StatusCode = 302, page_ContentType = [], page_Location = ''b'', page_Body = []\<rparr>) })\<rparr>"
    by (simp add: looping_fetcher_def NewFetcher_def)
  then show "\<forall>h. costs rt_ids 0 (env_LookupIPAddr (f_env looping_fetcher) h)" "\<forall>ip port. costs rt_ids 0 (env_Dial (f_env looping_fetcher) ip port)"
      "\<forall>conn rq. costs rt_ids 1 (env_Exchange (f_env looping_fetcher) conn rq)" "\<forall>s k. rt_ids (s\<lparr>rt_ticks := k\<rparr>) = rt_ids (s :: runtime)"
    by (simp_all add: costs_def run_simps)
qed

text \<open>C28. What a page can put into a preview: its image and its canonical URL are empty or URLs with the
  scheme http or https, whatever the page says; and when the page has a non-empty og:title the
  title is that of the last one, wherever other titles stand.\<close>

theorem page_metadata_safe:
  "(Meta_ImageURL (ogp_Parse lib root base) = [] \<or>
     (\<exists>u. lib_Parse lib (Meta_ImageURL (ogp_Parse lib root base)) = Inr u \<and> URL_Scheme u \<in> {''http'', ''https''})) \<and>
   (Meta_CanonicalURL (ogp_Parse lib root base) = [] \<or>
     (\<exists>u. lib_Parse lib (Meta_CanonicalURL (ogp_Parse lib root base)) = Inr u \<and> URL_Scheme u \<in> {''http'', ''https''})) \<and>
   (concat (map og_title (walk root)) = [] \<or> Meta_Title (ogp_Parse lib root base) = last (concat (map og_title (walk root))))"
proof -
  have safe: "resolveSafeURL lib base r = [] \<or> (\<exists>u. lib_Parse lib (resolveSafeURL lib base r) = Inr u \<and> URL_Scheme u \<in> {''http'', ''https''})" for r
    by (auto simp: resolveSafeURL_def Let_def split: sum.splits)
  obtain m title where run: "fold visit (walk root) (empty_metadata, []) = (m, title)" by fastforce
  have "concat (map og_title (walk root)) = [] \<or> Meta_Title m = last (concat (map og_title (walk root))) \<and> Meta_Title m \<noteq> []"
    using fold_visit_title [of "walk root" "(empty_metadata, [])"] run by (metis fst_conv)
  then show ?thesis using safe by (auto simp: ogp_Parse_def run)
qed

text \<open>For images the order of the tags decides: a twitter:image that comes first stays.\<close>

definition sample_meta :: "string \<Rightarrow> string \<Rightarrow> string \<Rightarrow> node" where
  "sample_meta key name content = Node ElementNode ''meta'' [(key, name), (''content'', content)] []"

theorem twitter_image_wins_when_first:
  "Meta_ImageURL (ogp_Parse sample_lib (Node DocumentNode [] []
     [sample_meta ''name'' ''twitter:image'' ''http://t'', sample_meta ''property'' ''og:image'' ''http://o'']) ''http://b'') = ''http://t''"
  by code_simp

end
