(* ===== verification/Tag_Extractor.thy ===== *)
theory Tag_Extractor
  imports Http "HOL-Library.Sublist"
begin

text \<open>
  \<open>internal/tagextractor/regex.go\<close>: hashtags and dictionary keywords of a post. The text is cut
  into runes as UTF-8 decoding does (\<open>rune_width\<close>); the Unicode classes \<open>\p{L}\<close> and \<open>\p{N}\<close> and
  the case mapping of \<open>strings.ToLower\<close> come from the tables of the \<open>unicode\<close> package and are
  the fields of \<open>unicode\<close>.
\<close>

definition MaxTagsPerPost :: nat where
  "MaxTagsPerPost = 10"

definition MaxTagNameLen :: nat where
  "MaxTagNameLen = 64"

record unicode =
  uni_letter :: "string \<Rightarrow> bool"
  uni_number :: "string \<Rightarrow> bool"
  uni_ToLower :: "string \<Rightarrow> string"

section \<open>Runes\<close>

function runes :: "string \<Rightarrow> string list" where
  "runes s = (if s = [] then [] else take (rune_width s) s # runes (drop (rune_width s) s))"
  by pat_completeness auto
termination
  by (relation "measure length") auto

declare runes.simps [simp del]

definition word_rune :: "unicode \<Rightarrow> string \<Rightarrow> bool" where
  "word_rune u r \<longleftrightarrow> uni_letter u r \<or> uni_number u r \<or> r = ''_''"

section \<open>Hashtags\<close>

text \<open>\<open>#(\p{L}[\p{L}\p{N}_]{0,63})\<close> at the start of a text: the runes of the group.\<close>

definition match_hashtag :: "unicode \<Rightarrow> string list \<Rightarrow> string list option" where
  "match_hashtag u rs = (case rs of
     h # r # rest \<Rightarrow> if h = ''#'' \<and> uni_letter u r then Some (r # take 63 (takeWhile (word_rune u) rest)) else None
   | _ \<Rightarrow> None)"

lemma match_hashtag_length: "match_hashtag u rs = Some g \<Longrightarrow> Suc (length g) \<le> length rs"
  by (auto simp: match_hashtag_def dest: order_trans [OF _ length_takeWhile_le] split: list.splits if_splits)
    (metis Suc_le_mono length_takeWhile_le min.coboundedI1)

text \<open>\<open>FindAllStringSubmatch\<close>: the groups of the leftmost matches that do not overlap.\<close>

function find_hashtags :: "unicode \<Rightarrow> string list \<Rightarrow> string list" where
  "find_hashtags u [] = []"
| "find_hashtags u (r # rs) = (case match_hashtag u (r # rs) of
     Some g \<Rightarrow> concat g # find_hashtags u (drop (Suc (length g)) (r # rs))
   | None \<Rightarrow> find_hashtags u rs)"
  by pat_completeness auto
termination
  by (relation "measure (length \<circ> snd)") auto

section \<open>Keywords\<close>

text \<open>A keyword matches where its runes occur, case ignored, between the ends of the text or runes that
  are no letters, digits or underscores. \<open>fold_eq\<close> is the case folding of \<open>(?i)\<close> on runes.\<close>

definition boundary :: "unicode \<Rightarrow> string list \<Rightarrow> bool" where
  "boundary u rs \<longleftrightarrow> rs = [] \<or> \<not> word_rune u (hd rs)"

fun match_from :: "(string \<Rightarrow> string \<Rightarrow> bool) \<Rightarrow> string list \<Rightarrow> string list \<Rightarrow> string list option" where
  "match_from fold_eq [] rs = Some rs"
| "match_from fold_eq (k # ks) [] = None"
| "match_from fold_eq (k # ks) (r # rs) = (if fold_eq k r then match_from fold_eq ks rs else None)"

definition keyword_here :: "unicode \<Rightarrow> (string \<Rightarrow> string \<Rightarrow> bool) \<Rightarrow> string list \<Rightarrow> string list \<Rightarrow> bool" where
  "keyword_here u fold_eq kw rs = (case match_from fold_eq kw rs of Some rest \<Rightarrow> boundary u rest | None \<Rightarrow> False)"

fun keyword_after :: "unicode \<Rightarrow> (string \<Rightarrow> string \<Rightarrow> bool) \<Rightarrow> string list \<Rightarrow> string list \<Rightarrow> bool" where
  "keyword_after u fold_eq kw [] \<longleftrightarrow> False"
| "keyword_after u fold_eq kw (r # rs) \<longleftrightarrow> \<not> word_rune u r \<and> keyword_here u fold_eq kw rs \<or> keyword_after u fold_eq kw rs"

definition MatchString :: "unicode \<Rightarrow> (string \<Rightarrow> string \<Rightarrow> bool) \<Rightarrow> string \<Rightarrow> string \<Rightarrow> bool" where
  "MatchString u fold_eq kw content \<longleftrightarrow>
     keyword_here u fold_eq (runes kw) (runes content) \<or> keyword_after u fold_eq (runes kw) (runes content)"

record RegexTagExtractor =
  ex_unicode :: unicode
  ex_fold_eq :: "string \<Rightarrow> string \<Rightarrow> bool"
  ex_keywords :: "string list"

fun add_keywords :: "unicode \<Rightarrow> string list \<Rightarrow> string list \<Rightarrow> string list" where
  "add_keywords u [] kept = kept"
| "add_keywords u (kw # kws) kept = (let norm = uni_ToLower u (TrimSpace kw) in
     if norm = [] then add_keywords u kws kept
     else if norm \<in> set kept then add_keywords u kws kept
     else add_keywords u kws (kept @ [norm]))"

definition NewRegexTagExtractor :: "unicode \<Rightarrow> (string \<Rightarrow> string \<Rightarrow> bool) \<Rightarrow> string list \<Rightarrow> RegexTagExtractor" where
  "NewRegexTagExtractor u fold_eq keywords =
     \<lparr>ex_unicode = u, ex_fold_eq = fold_eq, ex_keywords = sort_slice (<) (add_keywords u keywords [])\<rparr>"

section \<open>Extract\<close>

text \<open>The closure \<open>add\<close>; the tags in \<open>out\<close> are those in \<open>seen\<close>.\<close>

definition add_tag_name :: "unicode \<Rightarrow> string \<Rightarrow> string list \<Rightarrow> string list" where
  "add_tag_name u name out = (let norm = uni_ToLower u (TrimSpace name) in
     if norm = [] then out
     else if length norm > MaxTagNameLen then out
     else if norm \<in> set out then out
     else out @ [norm])"

text \<open>Both loops stop at the cap; the first one returns, the second one breaks.\<close>

fun add_names :: "unicode \<Rightarrow> string list \<Rightarrow> string list \<Rightarrow> string list" where
  "add_names u [] out = out"
| "add_names u (n # ns) out = (if length out \<ge> MaxTagsPerPost then out else add_names u ns (add_tag_name u n out))"

definition Extract :: "RegexTagExtractor \<Rightarrow> string \<Rightarrow> string list" where
  "Extract e content = (let u = ex_unicode e;
     out = add_names u (find_hashtags u (runes content)) [] in
     add_names u (filter (\<lambda>kw. MatchString u (ex_fold_eq e) kw content) (ex_keywords e)) out)"

section \<open>What comes out\<close>

definition tag_ok :: "unicode \<Rightarrow> string \<Rightarrow> bool" where
  "tag_ok u t \<longleftrightarrow> t \<noteq> [] \<and> length t \<le> MaxTagNameLen"

lemma add_tag_name_props:
  "set (add_tag_name u n out) \<subseteq> insert (uni_ToLower u (TrimSpace n)) (set out)"
  "distinct out \<Longrightarrow> distinct (add_tag_name u n out)"
  "length (add_tag_name u n out) \<le> Suc (length out)"
  "\<forall>t\<in>set out. tag_ok u t \<Longrightarrow> \<forall>t\<in>set (add_tag_name u n out). tag_ok u t"
  "\<exists>added. add_tag_name u n out = out @ added"
  by (auto simp: add_tag_name_def tag_ok_def Let_def)

lemma add_names_props:
  assumes "distinct out" and "length out \<le> MaxTagsPerPost" and "\<forall>t\<in>set out. tag_ok u t"
  shows "distinct (add_names u ns out) \<and> length (add_names u ns out) \<le> MaxTagsPerPost \<and> (\<forall>t\<in>set (add_names u ns out). tag_ok u t) \<and>
    set (add_names u ns out) \<subseteq> set out \<union> (\<lambda>n. uni_ToLower u (TrimSpace n)) ` set ns \<and> (\<exists>added. add_names u ns out = out @ added)"
  using assms
proof (induction ns arbitrary: out)
  case (Cons n ns)
  show ?case
  proof (cases "length out \<ge> MaxTagsPerPost")
    case False
    let ?out = "add_tag_name u n out"
    note step = add_tag_name_props [where u = u and n = n and out = out]
    have "distinct ?out" "length ?out \<le> MaxTagsPerPost" "\<forall>t\<in>set ?out. tag_ok u t"
      using step(2) [OF Cons.prems(1)] step(3) step(4) [OF Cons.prems(3)] False by auto
    note ih = Cons.IH [OF this]
    moreover obtain a b where "?out = out @ a" "add_names u ns ?out = ?out @ b" using step(5) ih by blast
    ultimately show ?thesis using False step(1) by auto
  qed (use Cons.prems in auto)
qed auto

lemma hashtag_letters: "t \<in> set (find_hashtags u rs) \<Longrightarrow> \<exists>g. t = concat g \<and> sublist (''#'' # g) rs \<and> length g \<le> 64"
proof (induction u rs rule: find_hashtags.induct)
  case (2 u r rs)
  show ?case
  proof (cases "match_hashtag u (r # rs)")
    case None
    then show ?thesis using 2 by (fastforce simp: sublist_Cons_right)
  next
    case (Some g)
    have g: "prefix (''#'' # g) (r # rs)" "length g \<le> 64"
      using Some by (auto simp: match_hashtag_def prefix_def split: list.splits if_splits)
        (metis append_take_drop_id append.assoc takeWhile_dropWhile_id)
    show ?thesis
    proof (cases "t = concat g")
      case True
      then show ?thesis using g by (auto intro: prefix_imp_sublist)
    next
      case False
      then obtain h where "t = concat h" "sublist (''#'' # h) (drop (Suc (length g)) (r # rs))" "length h \<le> 64"
        using 2 Some by auto
      then show ?thesis using sublist_drop sublist_order.order_trans by blast
    qed
  qed
qed simp

section \<open>Properties\<close>

text \<open>A post gets at most ten tags, all different, each non-empty and of at most 64 bytes; each is the
  lower-case form of a hashtag that occurs in the text or of a dictionary keyword, and the tags
  from hashtags come before those from keywords.\<close>

theorem extract_tags_sound:
  "length (Extract e content) \<le> 10 \<and> distinct (Extract e content) \<and>
   (\<nexists>t. t \<in> set (Extract e content) \<and> (t = [] \<or> 64 < length t)) \<and>
   (\<exists>hash keys. Extract e content = hash @ keys \<and>
     set hash \<subseteq> {uni_ToLower (ex_unicode e) (TrimSpace (concat g)) | g. sublist (''#'' # g) (runes content) \<and> length g \<le> 64} \<and>
     set keys \<subseteq> {uni_ToLower (ex_unicode e) (TrimSpace kw) | kw. kw \<in> set (ex_keywords e) \<and> MatchString (ex_unicode e) (ex_fold_eq e) kw content})"
proof -
  let ?u = "ex_unicode e" and ?hit = "\<lambda>kw. MatchString (ex_unicode e) (ex_fold_eq e) kw content"
  let ?out = "add_names ?u (find_hashtags ?u (runes content)) []"
  have first: "distinct ?out" "length ?out \<le> MaxTagsPerPost" "\<forall>t\<in>set ?out. tag_ok ?u t"
      "set ?out \<subseteq> (\<lambda>n. uni_ToLower ?u (TrimSpace n)) ` set (find_hashtags ?u (runes content))"
    using add_names_props [of "[]" ?u "find_hashtags ?u (runes content)"] by auto
  note second = add_names_props [OF first(1-3), of "filter ?hit (ex_keywords e)"]
  have eq: "Extract e content = add_names ?u (filter ?hit (ex_keywords e)) ?out" by (simp add: Extract_def Let_def)
  obtain keys where keys: "Extract e content = ?out @ keys" using second eq by metis
  have hash: "set ?out \<subseteq> {uni_ToLower ?u (TrimSpace (concat g)) | g. sublist (''#'' # g) (runes content) \<and> length g \<le> 64}"
    using first(4) hashtag_letters by (force simp: image_iff)
  have "set keys \<subseteq> {uni_ToLower ?u (TrimSpace kw) | kw. kw \<in> set (ex_keywords e) \<and> ?hit kw}"
  proof
    fix t assume "t \<in> set keys"
    then have "t \<notin> set ?out" "t \<in> set (Extract e content)" using second eq keys by auto
    then show "t \<in> {uni_ToLower ?u (TrimSpace kw) | kw. kw \<in> set (ex_keywords e) \<and> ?hit kw}" using second eq by auto
  qed
  note parts = keys hash this
  have "length (Extract e content) \<le> 10" "distinct (Extract e content)" "\<nexists>t. t \<in> set (Extract e content) \<and> (t = [] \<or> 64 < length t)"
    using second unfolding eq MaxTagsPerPost_def MaxTagNameLen_def tag_ok_def by auto
  then show ?thesis using parts by blast
qed

end
