(* ===== verification/Config.thy ===== *)
theory Config
  imports OGP_URL Http UC_Image "HOL-Library.Sublist"
begin

text \<open>
  \<open>config/config.go\<close> and \<open>pkg/storage/r2.go\<close>: reading and validating the configuration, the backend
  it selects, the DSN, and the object store. The environment is a function from names to values;
  \<open>time.ParseDuration\<close> (which computes with floating point) is an argument, and so are the two
  calls of the S3 client.
\<close>

section \<open>The environment\<close>

type_synonym environment = "string \<Rightarrow> string"

definition getEnv :: "environment \<Rightarrow> string \<Rightarrow> string \<Rightarrow> string" where
  "getEnv env key defaultValue = (if env key = [] then defaultValue else env key)"

text \<open>\<open>strconv.Atoi\<close>: an optional sign and digits, within int64.\<close>

definition Atoi :: "string \<Rightarrow> int option" where
  "Atoi s = (let (neg, ds) = (case s of c # r \<Rightarrow> if c = CHR ''-'' then (True, r) else if c = CHR ''+'' then (False, r) else (False, s) | [] \<Rightarrow> (False, []));
       n = int (digits_value ds); v = (if neg then - n else n) in
     if ds \<noteq> [] \<and> list_all isDigit ds \<and> min_int64 \<le> v \<and> v \<le> max_int64 then Some v else None)"

definition getEnvInt :: "environment \<Rightarrow> string \<Rightarrow> int \<Rightarrow> int" where
  "getEnvInt env key defaultValue = (if env key = [] then defaultValue
     else case Atoi (env key) of None \<Rightarrow> defaultValue | Some v \<Rightarrow> v)"

definition getEnvBool :: "environment \<Rightarrow> string \<Rightarrow> bool \<Rightarrow> bool" where
  "getEnvBool env key defaultValue = (if env key = [] then defaultValue
     else let v = map ascii_lower (TrimSpace (env key)) in
       if v \<in> {''true'', ''1'', ''yes'', ''on''} then True
       else if v \<in> {''false'', ''0'', ''no'', ''off''} then False
       else defaultValue)"

definition getEnvDuration :: "(string \<Rightarrow> duration option) \<Rightarrow> environment \<Rightarrow> string \<Rightarrow> duration \<Rightarrow> duration" where
  "getEnvDuration ParseDuration env key defaultValue = (if env key = [] then defaultValue
     else case ParseDuration (env key) of None \<Rightarrow> defaultValue | Some d \<Rightarrow> d)"

definition wrap32 :: "int \<Rightarrow> int" where
  "wrap32 n = (n + 2 ^ 31) mod 2 ^ 32 - 2 ^ 31"

section \<open>Config\<close>

record Config =
  ServerPort :: int
  Environment :: string
  DBHost :: string
  DBPort :: int
  DBName :: string
  DBUser :: string
  DBPassword :: string
  DatabaseURL :: string
  DBMaxConns :: int
  DBMinConns :: int
  repoBackendRaw :: string
  AuthCoreBaseURL :: string
  AuthCoreClientID :: string
  AuthCoreClientSecret :: string
  AuthCoreIntrospectPath :: string
  AuthCoreProfilePath :: string
  AuthCoreProfileTTL :: duration
  AuthCoreIntrospectCacheTTL :: duration
  SessionCookieName :: string
  SessionCookieSecure :: bool
  SessionCookieSameSite :: string
  SessionCookieDomain :: string
  SessionCookieFallbackMaxAge :: duration
  sessionCookieSameSiteMode :: SameSite
  LogLevel :: string
  CORSAllowedOrigins :: string
  OGPUserAgent :: string
  FujuModelBaseURL :: string
  FujuModelTenantID :: string
  FujuModelScope :: string
  FujuModelBatchSize :: int
  FujuModelFlushInterval :: duration
  FujuModelSendTimeout :: duration
  FujuModelQueueCapacity :: int
  R2Endpoint :: string
  R2BucketName :: string
  R2PublicDomain :: string
  R2AccessKeyID :: string
  R2SecretAccessKey :: string

definition RepoBackend :: "Config \<Rightarrow> string" where
  "RepoBackend c =
     (if repoBackendRaw c \<in> {''inmemory'', ''postgres''} then repoBackendRaw c
      else if Environment c = ''development'' then ''inmemory''
      else ''postgres'')"

definition MaxConns :: "Config \<Rightarrow> int" where
  "MaxConns c = DBMaxConns c"

definition MinConns :: "Config \<Rightarrow> int" where
  "MinConns c = DBMinConns c"

definition FujuModelEnabled :: "Config \<Rightarrow> bool" where
  "FujuModelEnabled c \<longleftrightarrow> FujuModelBaseURL c \<noteq> [] \<and> FujuModelTenantID c \<noteq> []"

definition R2Enabled :: "Config \<Rightarrow> bool" where
  "R2Enabled c \<longleftrightarrow> R2Endpoint c \<noteq> [] \<and> R2BucketName c \<noteq> [] \<and> R2PublicDomain c \<noteq> [] \<and> R2AccessKeyID c \<noteq> [] \<and> R2SecretAccessKey c \<noteq> []"

definition SessionCookieSameSiteMode :: "Config \<Rightarrow> SameSite" where
  "SessionCookieSameSiteMode c = sessionCookieSameSiteMode c"

definition spaced :: "string list \<Rightarrow> string" where
  "spaced xs = ''['' @ concat (map (\<lambda>(i, x). (if i = 0 then [] else '' '') @ x) (enumerate 0 xs)) @ '']''"

definition validateR2 :: "Config \<Rightarrow> go_error option" where
  "validateR2 c = (let fields = [(''R2_ENDPOINT'', R2Endpoint c), (''R2_BUCKET_NAME'', R2BucketName c), (''R2_PUBLIC_DOMAIN'', R2PublicDomain c),
       (''R2_ACCESS_KEY_ID'', R2AccessKeyID c), (''R2_SECRET_ACCESS_KEY'', R2SecretAccessKey c)];
     unsetNames = map fst (filter (\<lambda>f. snd f = []) fields); setNames = map fst (filter (\<lambda>f. snd f \<noteq> []) fields) in
     if length setNames = 0 \<or> length unsetNames = 0 then None
     else Some (Sentinel (''R2 configuration is partial: set='' @ spaced setNames @ '', unset='' @ spaced unsetNames @
       '' (all five must be set together or all empty)'')))"

text \<open>\<open>Duration.String\<close>.\<close>

definition frac_digits :: "nat \<Rightarrow> nat \<Rightarrow> string" where
  "frac_digits v prec = (let ds = itoa (int (v mod 10 ^ prec)); fs = TrimRight (replicate (prec - length ds) CHR ''0'' @ ds) (CHR ''0'') in
     if fs = [] then [] else CHR ''.'' # fs)"

definition Duration_String :: "duration \<Rightarrow> string" where
  "Duration_String d = (let u = nat \<bar>d\<bar>; num = (\<lambda>n. itoa (int n)); secs = u div 10 ^ 9; mins = secs div 60; hrs = mins div 60 in
     if d = 0 then ''0s''
     else (if d < 0 then ''-'' else []) @
       (if u < 10 ^ 3 then num u @ ''ns''
        else if u < 10 ^ 6 then num (u div 10 ^ 3) @ frac_digits u 3 @ [CHR 0xC2, CHR 0xB5, CHR ''s'']
        else if u < 10 ^ 9 then num (u div 10 ^ 6) @ frac_digits u 6 @ ''ms''
        else (if 0 < hrs then num hrs @ ''h'' else []) @ (if 0 < mins then num (mins mod 60) @ ''m'' else []) @
          num (secs mod 60) @ frac_digits u 9 @ ''s''))"

definition check_backend :: "Config \<Rightarrow> go_error option" where
  "check_backend c =
     (if repoBackendRaw c \<noteq> [] \<and> repoBackendRaw c \<noteq> ''inmemory'' \<and> repoBackendRaw c \<noteq> ''postgres'' then
        Some (Sentinel (''REPO_BACKEND must be '' @ quoted ''inmemory'' @ '' or '' @ quoted ''postgres'' @ '', got '' @ quoted (repoBackendRaw c)))
      else if RepoBackend c = ''postgres'' then
        (if DatabaseURL c \<noteq> [] then
           (if \<not> prefix ''postgres://'' (DatabaseURL c) \<and> \<not> prefix ''postgresql://'' (DatabaseURL c) then
              Some (Sentinel ''DATABASE_URL must start with postgres:// or postgresql://'') else None)
         else if DBHost c = [] then Some (Sentinel ''DB_HOST is required when REPO_BACKEND=postgres and DATABASE_URL is unset'')
         else if DBName c = [] then Some (Sentinel ''DB_NAME is required when REPO_BACKEND=postgres and DATABASE_URL is unset'')
         else if DBUser c = [] then Some (Sentinel ''DB_USER is required when REPO_BACKEND=postgres and DATABASE_URL is unset'')
         else if DBPassword c = [] then Some (Sentinel ''DB_PASSWORD is required when REPO_BACKEND=postgres and DATABASE_URL is unset'')
         else None)
      else None)"

definition same_site_mode :: "string \<Rightarrow> SameSite option" where
  "same_site_mode s = (if s = ''Lax'' then Some SameSiteLaxMode else if s = ''Strict'' then Some SameSiteStrictMode
     else if s = ''None'' then Some SameSiteNoneMode else None)"

text \<open>\<open>Validate\<close> stores the parsed SameSite mode, so it returns the configuration.\<close>

definition Config_Validate :: "Config \<Rightarrow> go_error + Config" where
  "Config_Validate c = (case check_backend c of
     Some err \<Rightarrow> Inl err
   | None \<Rightarrow>
     if AuthCoreBaseURL c = [] then Inl (Sentinel ''AUTHCORE_BASE_URL is required'')
     else if AuthCoreClientID c = [] then Inl (Sentinel ''AUTHCORE_CLIENT_ID is required'')
     else if AuthCoreClientSecret c = [] then Inl (Sentinel ''AUTHCORE_CLIENT_SECRET is required'')
     else case same_site_mode (SessionCookieSameSite c) of
       None \<Rightarrow> Inl (Sentinel (''SESSION_COOKIE_SAMESITE must be Lax, Strict, or None, got '' @ quoted (SessionCookieSameSite c)))
     | Some mode \<Rightarrow>
       if SessionCookieSameSite c = ''None'' \<and> \<not> SessionCookieSecure c then
         Inl (Sentinel ''SESSION_COOKIE_SAMESITE=None requires SESSION_COOKIE_SECURE=true'')
       else if \<not> SessionCookieSecure c \<and> Environment c \<noteq> ''development'' then
         Inl (Sentinel (''SESSION_COOKIE_SECURE=true is required when ENVIRONMENT != development (got '' @ quoted (Environment c) @ '')''))
       else if SessionCookieFallbackMaxAge c \<le> 0 then 
         Inl (Sentinel (''SESSION_COOKIE_FALLBACK_MAX_AGE must be > 0 (got '' @ Duration_String (SessionCookieFallbackMaxAge c) @ '')''))
       else if (FujuModelBaseURL c = []) \<noteq> (FujuModelTenantID c = []) then
         Inl (Sentinel (''FUJU_MODEL_BASE_URL and FUJU_MODEL_TENANT_ID must be set together (got base='' @ quoted (FujuModelBaseURL c) @
           '' tenant='' @ quoted (FujuModelTenantID c) @ '')''))
       else case validateR2 c of
         Some err \<Rightarrow> Inl (WrapError (''R2 configuration: '' @ Error err) err)
       | None \<Rightarrow> Inr (c\<lparr>sessionCookieSameSiteMode := mode\<rparr>))"

definition read_config :: "(string \<Rightarrow> duration option) \<Rightarrow> environment \<Rightarrow> Config" where
  "read_config pd env =
     \<lparr>ServerPort = getEnvInt env ''SERVER_PORT'' 8080,
      Environment = getEnv env ''ENVIRONMENT'' ''development'',
      DBHost = getEnv env ''DB_HOST'' [],
      DBPort = getEnvInt env ''DB_PORT'' 5432,
      DBName = getEnv env ''DB_NAME'' [],
      DBUser = getEnv env ''DB_USER'' [],
      DBPassword = getEnv env ''DB_PASSWORD'' [],
      DatabaseURL = getEnv env ''DATABASE_URL'' [],
      DBMaxConns = wrap32 (getEnvInt env ''DB_MAX_CONNS'' 0),
      DBMinConns = wrap32 (getEnvInt env ''DB_MIN_CONNS'' 0),
      repoBackendRaw = getEnv env ''REPO_BACKEND'' [],
      AuthCoreBaseURL = getEnv env ''AUTHCORE_BASE_URL'' [],
      AuthCoreClientID = getEnv env ''AUTHCORE_CLIENT_ID'' [],
      AuthCoreClientSecret = getEnv env ''AUTHCORE_CLIENT_SECRET'' [],
      AuthCoreIntrospectPath = getEnv env ''AUTHCORE_INTROSPECT_PATH'' ''/v1/auth/introspect'',
      AuthCoreProfilePath = getEnv env ''AUTHCORE_PROFILE_PATH'' ''/v1/user/profile'',
      AuthCoreProfileTTL = getEnvDuration pd env ''AUTHCORE_PROFILE_TTL'' Hour,
      AuthCoreIntrospectCacheTTL = getEnvDuration pd env ''AUTHCORE_INTROSPECT_CACHE_TTL'' (30 * Second),
      SessionCookieName = getEnv env ''SESSION_COOKIE_NAME'' ''fuju_access'',
      SessionCookieSecure = getEnvBool env ''SESSION_COOKIE_SECURE'' True,
      SessionCookieSameSite = getEnv env ''SESSION_COOKIE_SAMESITE'' ''Lax'',
      SessionCookieDomain = getEnv env ''SESSION_COOKIE_DOMAIN'' [],
      SessionCookieFallbackMaxAge = getEnvDuration pd env ''SESSION_COOKIE_FALLBACK_MAX_AGE'' Hour,
      sessionCookieSameSiteMode = SameSiteDefaultMode,
      LogLevel = getEnv env ''LOG_LEVEL'' ''info'',
      CORSAllowedOrigins = getEnv env ''CORS_ALLOWED_ORIGINS'' ''*'',
      OGPUserAgent = getEnv env ''OGP_USER_AGENT'' ''FujuBot/1.0 (+https://fuju.example.com/bot)'',
      FujuModelBaseURL = getEnv env ''FUJU_MODEL_BASE_URL'' [],
      FujuModelTenantID = getEnv env ''FUJU_MODEL_TENANT_ID'' [],
      FujuModelScope = getEnv env ''FUJU_MODEL_SCOPE'' ''ingest:events'',
      FujuModelBatchSize = getEnvInt env ''FUJU_MODEL_BATCH_SIZE'' 50,
      FujuModelFlushInterval = getEnvDuration pd env ''FUJU_MODEL_FLUSH_INTERVAL'' (5 * Second),
      FujuModelSendTimeout = getEnvDuration pd env ''FUJU_MODEL_SEND_TIMEOUT'' (5 * Second),
      FujuModelQueueCapacity = getEnvInt env ''FUJU_MODEL_QUEUE_CAPACITY'' 0,
      R2Endpoint = getEnv env ''R2_ENDPOINT'' [],
      R2BucketName = getEnv env ''R2_BUCKET_NAME'' [],
      R2PublicDomain = getEnv env ''R2_PUBLIC_DOMAIN'' [],
      R2AccessKeyID = getEnv env ''R2_ACCESS_KEY_ID'' [],
      R2SecretAccessKey = getEnv env ''R2_SECRET_ACCESS_KEY'' []\<rparr>"

definition Load :: "(string \<Rightarrow> duration option) \<Rightarrow> environment \<Rightarrow> go_error + Config" where
  "Load pd env = Config_Validate (read_config pd env)"

text \<open>\<open>DSN\<close>: \<open>URL.String\<close> escapes the user and the password so that neither an at sign nor a colon nor a
  slash is left in them, and the host and the path with their own sets.\<close>

definition percent :: "(char \<Rightarrow> bool) \<Rightarrow> string \<Rightarrow> string" where
  "percent keep s = concat (map (\<lambda>c. if is_alnum c \<or> c \<in> set ''-_.~'' \<or> keep c then [c]
     else CHR ''%'' # [hex_upper (of_char c div 16), hex_upper (of_char c mod 16)]) s)"

definition escape_user :: "string \<Rightarrow> string" where
  "escape_user = percent (\<lambda>c. c \<in> set ''$&+,;='')"

definition host_char :: "char \<Rightarrow> bool" where
  "host_char x \<longleftrightarrow> x \<in> set ''!$&()*+,;=:[]<>'' \<or> x = CHR 0x22 \<or> x = CHR 0x27"

definition path_char :: "char \<Rightarrow> bool" where
  "path_char x \<longleftrightarrow> x \<in> set ''$&+,/:;=@''"

definition DSN :: "Config \<Rightarrow> string" where
  "DSN c = (if DatabaseURL c \<noteq> [] then DatabaseURL c
     else ''postgres://'' @ escape_user (DBUser c) @ '':'' @ escape_user (DBPassword c) @ ''@'' @
       percent host_char (DBHost c @ '':'' @ itoa (DBPort c)) @
       percent path_char (''/'' @ DBName c) @ ''?sslmode=disable'')"

text \<open>
  \<open>url.Parse\<close> of the standard library (as of the Go version of \<open>go.mod\<close>), which reads the connection string:
  \<open>None\<close> is its error. The fragment is cut off; a control character is an error; the scheme ends at
  the first colon; the query starts at the first question mark; the authority ends at the first
  slash, its last at sign ends the user information, whose first colon separates the name from the password.
  A port consists of digits, and a bracket that opens a host closes.
\<close>

record net_url =
  url_Scheme :: string
  url_Opaque :: string
  url_User :: "(string \<times> string option) option"
  url_Host :: string
  url_Path :: string
  url_RawQuery :: string

definition cut_at :: "char \<Rightarrow> string \<Rightarrow> string \<times> string" where
  "cut_at c s = (takeWhile (\<lambda>x. x \<noteq> c) s, drop 1 (dropWhile (\<lambda>x. x \<noteq> c) s))"

fun percent_decode :: "string \<Rightarrow> string option" where
  "percent_decode [] = Some []"
| "percent_decode (c # s) =
     (if c = CHR ''%'' then
        (case s of
           a # b # r \<Rightarrow> (case (unhex a, unhex b) of
               (Some x, Some y) \<Rightarrow> map_option (\<lambda>t. char_of (16 * x + y) # t) (percent_decode r)
             | _ \<Rightarrow> None)
         | _ \<Rightarrow> None)
      else map_option (\<lambda>t. c # t) (percent_decode s))"

text \<open>\<open>unescape\<close> of a host or its zone: an escape stands for a byte outside ASCII, for the percent sign, and in a
  zone for any byte that may stand for itself or a space; other ASCII characters must be those of a host.\<close>

definition plain_host_char :: "char \<Rightarrow> bool" where
  "plain_host_char c \<longleftrightarrow> is_alnum c \<or> c \<in> set ''-_.~'' \<or> host_char c"

fun host_decode :: "bool \<Rightarrow> string \<Rightarrow> string option" where
  "host_decode zone [] = Some []"
| "host_decode zone (c # s) =
     (if c = CHR ''%'' then
        (case s of
           a # b # r \<Rightarrow> (case (unhex a, unhex b) of
               (Some x, Some y) \<Rightarrow>
                  let v = char_of (16 * x + y) in
                  if [a, b] = ''25'' \<or> (if zone then v = CHR '' '' \<or> plain_host_char v else 8 \<le> x)
                  then map_option (\<lambda>t. v # t) (host_decode zone r) else None
             | _ \<Rightarrow> None)
         | _ \<Rightarrow> None)
      else if (of_char c :: nat) < 128 \<and> \<not> plain_host_char c then None
      else map_option (\<lambda>t. c # t) (host_decode zone s))"

definition validOptionalPort :: "string \<Rightarrow> bool" where
  "validOptionalPort port \<longleftrightarrow> (case port of [] \<Rightarrow> True | c # ds \<Rightarrow> c = CHR '':'' \<and> list_all isDigit ds)"

definition validUserinfo :: "string \<Rightarrow> bool" where
  "validUserinfo s \<longleftrightarrow> list_all (\<lambda>c. is_alnum c \<or> c \<in> set ''-._:~!$&()*+,;=%@'' \<or> c = CHR 0x27) s"

text \<open>The part after the last \<open>c\<close>, and the part up to it.\<close>

definition after_last :: "char \<Rightarrow> string \<Rightarrow> string" where
  "after_last c s = rev (takeWhile (\<lambda>x. x \<noteq> c) (rev s))"

definition before_last :: "char \<Rightarrow> string \<Rightarrow> string" where
  "before_last c s = rev (drop 1 (dropWhile (\<lambda>x. x \<noteq> c) (rev s)))"

fun split_zone :: "string \<Rightarrow> (string \<times> string) option" where
  "split_zone [] = None"
| "split_zone (c # s) = (if take 3 (c # s) = ''%25'' then Some ([], c # s) else map_option (\<lambda>(a, b). (c # a, b)) (split_zone s))"

definition parseHost :: "string \<Rightarrow> string option" where
  "parseHost host =
     (if take 1 host = ''['' then
        (if CHR '']'' \<notin> set host then None
         else if \<not> validOptionalPort (after_last (CHR '']'') host) then None
         else case split_zone (before_last (CHR '']'') host) of
             None \<Rightarrow> host_decode False host
           | Some (a, zone) \<Rightarrow>
               (case (host_decode False a, host_decode True zone, host_decode False (CHR '']'' # after_last (CHR '']'') host)) of
                  (Some h1, Some h2, Some h3) \<Rightarrow> Some (h1 @ h2 @ h3) | _ \<Rightarrow> None))
      else if CHR '':'' \<in> set host \<and> \<not> validOptionalPort (CHR '':'' # after_last (CHR '':'') host) then None
      else host_decode False host)"

definition parseAuthority :: "string \<Rightarrow> ((string \<times> string option) option \<times> string) option" where
  "parseAuthority authority =
     (if CHR ''@'' \<notin> set authority then map_option (\<lambda>h. (None, h)) (parseHost authority)
      else let userinfo = before_last (CHR ''@'') authority in
        case parseHost (after_last (CHR ''@'') authority) of
          None \<Rightarrow> None
        | Some host \<Rightarrow>
            if \<not> validUserinfo userinfo then None
            else if CHR '':'' \<notin> set userinfo then map_option (\<lambda>u. (Some (u, None), host)) (percent_decode userinfo)
            else let (name, pass) = cut_at (CHR '':'') userinfo in
              (case (percent_decode name, percent_decode pass) of
                 (Some u, Some p) \<Rightarrow> Some (Some (u, Some p), host) | _ \<Rightarrow> None))"

definition getScheme :: "string \<Rightarrow> (string \<times> string) option" where
  "getScheme raw = (let h = takeWhile (\<lambda>c. is_alnum c \<or> c \<in> set ''+-.'') raw; r = dropWhile (\<lambda>c. is_alnum c \<or> c \<in> set ''+-.'') raw in
     if h = [] then (if take 1 r = '':'' then None else Some ([], raw))
     else if \<not> is_alnum (hd h) \<or> isDigit (hd h) then Some ([], raw)
     else if take 1 r = '':'' then Some (h, drop 1 r) else Some ([], raw))"

definition control_char :: "char \<Rightarrow> bool" where
  "control_char c \<longleftrightarrow> (of_char c :: nat) < 32 \<or> (of_char c :: nat) = 127"

definition url_Parse :: "string \<Rightarrow> net_url option" where
  "url_Parse raw =
     (let (u, frag) = cut_at (CHR ''#'') raw in
      if list_ex control_char u \<or> percent_decode frag = None then None
      else if u = ''*'' then Some \<lparr>url_Scheme = [], url_Opaque = [], url_User = None, url_Host = [], url_Path = ''*'', url_RawQuery = []\<rparr>
      else case getScheme u of
        None \<Rightarrow> None
      | Some (scheme', r) \<Rightarrow>
         let scheme = map ascii_lower scheme'; (rest, query) = cut_at (CHR ''?'') r in
         if take 1 rest \<noteq> ''/'' \<and> scheme \<noteq> [] then
           Some \<lparr>url_Scheme = scheme, url_Opaque = rest, url_User = None, url_Host = [], url_Path = [], url_RawQuery = query\<rparr>
         else if take 1 rest \<noteq> ''/'' \<and> CHR '':'' \<in> set (fst (cut_at (CHR ''/'') rest)) then None
         else if (scheme \<noteq> [] \<or> take 3 rest \<noteq> ''///'') \<and> take 2 rest = ''//'' then
           (case (parseAuthority (takeWhile (\<lambda>c. c \<noteq> CHR ''/'') (drop 2 rest)), percent_decode (dropWhile (\<lambda>c. c \<noteq> CHR ''/'') (drop 2 rest))) of
              (Some (user, host), Some path) \<Rightarrow>
                Some \<lparr>url_Scheme = scheme, url_Opaque = [], url_User = user, url_Host = host, url_Path = path, url_RawQuery = query\<rparr>
            | _ \<Rightarrow> None)
         else map_option (\<lambda>path. \<lparr>url_Scheme = scheme, url_Opaque = [], url_User = None, url_Host = [], url_Path = path, url_RawQuery = query\<rparr>)
           (percent_decode rest))"

section \<open>The object store\<close>

record 's s3_client =
  s3_PutObject :: "string \<Rightarrow> string \<Rightarrow> string \<Rightarrow> string \<Rightarrow> ('s, unit) fallible"
  s3_DeleteObject :: "string \<Rightarrow> string \<Rightarrow> ('s, unit) fallible"

record 's R2Service =
  r2_client :: "'s s3_client"
  r2_bucketName :: string
  r2_publicDomain :: string

record StaticCredentialsProvider =
  cred_accessKeyID :: string
  cred_secretAccessKey :: string

definition NewStaticCredentialsProvider :: "string \<Rightarrow> string \<Rightarrow> StaticCredentialsProvider" where
  "NewStaticCredentialsProvider accessKeyID secretAccessKey = \<lparr>cred_accessKeyID = accessKeyID, cred_secretAccessKey = secretAccessKey\<rparr>"

definition Retrieve :: "StaticCredentialsProvider \<Rightarrow> string \<times> string" where
  "Retrieve p = (cred_accessKeyID p, cred_secretAccessKey p)"

text \<open>The custom resolver: the configured endpoint for the service S3 (its \<open>s3.ServiceID\<close>), signed for
  the region auto, and an error for any other.\<close>

definition customResolver :: "string \<Rightarrow> string \<Rightarrow> go_error + string \<times> string" where
  "customResolver endpoint service = (if service = ''S3'' then Inr (endpoint, ''auto'') else Inl (Sentinel ''unknown service''))"

text \<open>\<open>NewR2Service\<close>; \<open>LoadDefaultConfig\<close> and \<open>s3.NewFromConfig\<close> together are the first argument: they take the
  resolver, the credentials provider and the region.\<close>

definition NewR2Service :: "((string \<Rightarrow> go_error + string \<times> string) \<Rightarrow> StaticCredentialsProvider \<Rightarrow> string \<Rightarrow> go_error + 's s3_client) \<Rightarrow>
    Config option \<Rightarrow> go_error + 's R2Service" where
  "NewR2Service load cfg' = (case cfg' of
     None \<Rightarrow> Inl (InvalidRequest ''config is required'' None)
   | Some cfg \<Rightarrow>
       if \<not> R2Enabled cfg then Inl (InvalidRequest ''R2 configuration incomplete'' None)
       else case load (customResolver (R2Endpoint cfg)) (NewStaticCredentialsProvider (R2AccessKeyID cfg) (R2SecretAccessKey cfg)) ''auto'' of
         Inl err \<Rightarrow> Inl (New ''EXTERNAL_SERVICE_ERROR'' ''failed to load AWS config'' 500 (Some err))
       | Inr client \<Rightarrow> Inr \<lparr>r2_client = client, r2_bucketName = R2BucketName cfg, r2_publicDomain = R2PublicDomain cfg\<rparr>)"

text \<open>\<open>filepath.Base\<close> on a Unix system.\<close>

definition last_element :: "string \<Rightarrow> string" where
  "last_element s = rev (takeWhile (\<lambda>c. c \<noteq> CHR ''/'') (rev s))"

definition filepath_Base :: "string \<Rightarrow> string" where
  "filepath_Base path = (if path = [] then ''.''
     else let p = last_element (TrimRight path (CHR ''/'')) in if p = [] then ''/'' else p)"

definition sanitizeFilename :: "string \<Rightarrow> string" where
  "sanitizeFilename name' = (let name = filepath_Base (map (\<lambda>c. if c = CHR 0x5C then CHR ''/'' else c) name') in
     if name = [] \<or> name = ''.'' \<or> name = ''/'' then ''file'' else name)"

definition R2_Upload :: "('z runtime_scheme) R2Service \<Rightarrow> UploadImageRequest \<Rightarrow> ('z runtime_scheme, string \<times> string) fallible" where
  "R2_Upload r req = do {
     objectID \<leftarrow> ulid_Make;
     let storageKey = ''images/'' @ Upload_UserID req @ ''/'' @ objectID @ ''/'' @ sanitizeFilename (Upload_FileName req);
     bind_or (s3_PutObject (r2_client r) (r2_bucketName r) storageKey (Upload_FileData req) (Upload_MimeType req))
       (\<lambda>err. New ''EXTERNAL_SERVICE_ERROR'' ''failed to upload file to R2'' 500 (Some err))
       (\<lambda>_. ret (Inr (storageKey, r2_publicDomain r @ ''/'' @ storageKey)))
   }"

definition R2_Delete :: "'s R2Service \<Rightarrow> string \<Rightarrow> ('s, unit) fallible" where
  "R2_Delete r storageKey =
     bind_or (s3_DeleteObject (r2_client r) (r2_bucketName r) storageKey)
       (\<lambda>err. New ''EXTERNAL_SERVICE_ERROR'' ''failed to delete file from R2'' 500 (Some err)) (\<lambda>_. ret (Inr ()))"

definition GetPublicURL :: "'s R2Service \<Rightarrow> string \<Rightarrow> string" where
  "GetPublicURL r storageKey = r2_publicDomain r @ ''/'' @ storageKey"

section \<open>Reading the configuration\<close>

lemma same_site_mode_cases:
  "same_site_mode s = Some m \<Longrightarrow> (m = SameSiteNoneMode \<longleftrightarrow> s = ''None'') \<and> m \<in> {SameSiteLaxMode, SameSiteStrictMode, SameSiteNoneMode}"
  by (auto simp: same_site_mode_def split: if_splits)

lemma validateR2_all_or_none:
  "validateR2 c = None \<Longrightarrow> R2Enabled c \<or>
     R2Endpoint c = [] \<and> R2BucketName c = [] \<and> R2PublicDomain c = [] \<and> R2AccessKeyID c = [] \<and> R2SecretAccessKey c = []"
  by (auto simp: validateR2_def R2Enabled_def Let_def split: if_splits)

lemma Config_Validate_ok:
  assumes "Config_Validate c0 = Inr c"
  obtains m where "check_backend c0 = None" "AuthCoreBaseURL c0 \<noteq> []" "AuthCoreClientID c0 \<noteq> []" "AuthCoreClientSecret c0 \<noteq> []"
    "same_site_mode (SessionCookieSameSite c0) = Some m" "SessionCookieSameSite c0 = ''None'' \<longrightarrow> SessionCookieSecure c0"
    "SessionCookieSecure c0 \<or> Environment c0 = ''development''" "0 < SessionCookieFallbackMaxAge c0"
    "(FujuModelBaseURL c0 = []) = (FujuModelTenantID c0 = [])" "validateR2 c0 = None" "c = c0\<lparr>sessionCookieSameSiteMode := m\<rparr>"
  using assms by (auto simp: Config_Validate_def not_le split: option.splits if_splits)

lemma check_backend_dsn:
  assumes "check_backend c = None"
  shows "RepoBackend c = ''postgres'' \<longrightarrow> prefix ''postgres://'' (DSN c) \<or> prefix ''postgresql://'' (DSN c)"
  using assms by (auto simp: check_backend_def DSN_def split: if_splits)

text \<open>C35. A configuration that loads is safe to start with: outside development the session cookie is
  Secure, and with SameSite=None it is Secure everywhere; the SameSite mode is one of the three
  the browser knows, and the fallback age is positive; the credentials for AuthCore are set;
  the emotion model and the object store are each configured completely or not at all; and
  when PostgreSQL is the backend, the connection string has a scheme of PostgreSQL.\<close>

theorem config_load_safe:
  assumes "Load pd env = Inr c"
  shows "(SessionCookieSecure c \<or> Environment c = ''development'' \<and> SessionCookieSameSiteMode c \<noteq> SameSiteNoneMode) \<and>
    SessionCookieSameSiteMode c \<in> {SameSiteLaxMode, SameSiteStrictMode, SameSiteNoneMode} \<and>
    0 < SessionCookieFallbackMaxAge c \<and>
    AuthCoreBaseURL c \<noteq> [] \<and> AuthCoreClientID c \<noteq> [] \<and> AuthCoreClientSecret c \<noteq> [] \<and>
    (FujuModelEnabled c \<or> FujuModelBaseURL c = [] \<and> FujuModelTenantID c = []) \<and>
    (R2Enabled c \<or> R2Endpoint c = [] \<and> R2BucketName c = [] \<and> R2PublicDomain c = [] \<and> R2AccessKeyID c = [] \<and> R2SecretAccessKey c = []) \<and>
    (RepoBackend c = ''inmemory'' \<or> RepoBackend c = ''postgres'' \<and> (prefix ''postgres://'' (DSN c) \<or> prefix ''postgresql://'' (DSN c)))"
proof -
  obtain m where v: "check_backend (read_config pd env) = None" "AuthCoreBaseURL (read_config pd env) \<noteq> []"
      "AuthCoreClientID (read_config pd env) \<noteq> []" "AuthCoreClientSecret (read_config pd env) \<noteq> []"
      "same_site_mode (SessionCookieSameSite (read_config pd env)) = Some m"
      "SessionCookieSameSite (read_config pd env) = ''None'' \<longrightarrow> SessionCookieSecure (read_config pd env)"
      "SessionCookieSecure (read_config pd env) \<or> Environment (read_config pd env) = ''development''"
      "0 < SessionCookieFallbackMaxAge (read_config pd env)"
      "(FujuModelBaseURL (read_config pd env) = []) = (FujuModelTenantID (read_config pd env) = [])"
      "validateR2 (read_config pd env) = None" "c = (read_config pd env)\<lparr>sessionCookieSameSiteMode := m\<rparr>"
    using assms unfolding Load_def by (rule Config_Validate_ok)
  have mode: "SessionCookieSameSiteMode c = m" by (simp add: v(11) SessionCookieSameSiteMode_def)
  have backend: "RepoBackend c = RepoBackend (read_config pd env)" "DSN c = DSN (read_config pd env)"
    by (simp_all add: v(11) RepoBackend_def DSN_def)
  have "RepoBackend c = ''inmemory'' \<or> RepoBackend c = ''postgres''" by (auto simp: RepoBackend_def)
  then have "RepoBackend c = ''inmemory'' \<or> RepoBackend c = ''postgres'' \<and> (prefix ''postgres://'' (DSN c) \<or> prefix ''postgresql://'' (DSN c))"
    using check_backend_dsn [OF v(1)] unfolding backend by blast
  then show ?thesis
    using same_site_mode_cases [OF v(5)] v(2-4,6-9) validateR2_all_or_none [OF v(10)] mode
    by (auto simp: v(11) FujuModelEnabled_def R2Enabled_def)
qed

definition sample_environment :: environment where
  "sample_environment key =
     (if key = ''ENVIRONMENT'' then ''production'' else if key = ''DB_HOST'' then ''db'' else if key = ''DB_NAME'' then ''fuju''
      else if key = ''DB_USER'' then ''app'' else if key = ''DB_PASSWORD'' then ''p@s/s'' else if key = ''AUTHCORE_BASE_URL'' then ''https://auth''
      else if key = ''AUTHCORE_CLIENT_ID'' then ''id'' else if key = ''AUTHCORE_CLIENT_SECRET'' then ''key'' else [])"

theorem config_load_safe_witness:
  "\<exists>c. Load (\<lambda>_. None) sample_environment = Inr c \<and> RepoBackend c = ''postgres'' \<and> prefix ''postgres'' (DSN c)"
proof -
  have ok: "(case Load (\<lambda>_. None) sample_environment of Inr c \<Rightarrow> RepoBackend c = ''postgres'' | Inl _ \<Rightarrow> False)"
    by code_simp
  then obtain c where c: "Load (\<lambda>_. None) sample_environment = Inr c" "RepoBackend c = ''postgres''"
    by (auto split: sum.splits)
  then have "prefix ''postgres://'' (DSN c) \<or> prefix ''postgresql://'' (DSN c)"
    using config_load_safe [OF c(1)] by simp
  then have "prefix ''postgres'' (DSN c)" by (auto simp: prefix_def)
  then show ?thesis using c by blast
qed

section \<open>The connection string\<close>

lemma hex_upper_alnum: "n < 16 \<Longrightarrow> is_alnum (hex_upper n)"
proof -
  have "\<forall>n<16. is_alnum (hex_upper n)" unfolding hex_upper_def is_alnum_def by code_simp
  then show "n < 16 \<Longrightarrow> is_alnum (hex_upper n)" by blast
qed

lemma byte_digits: "of_char c div 16 < (16 :: nat)" "of_char c mod 16 < (16 :: nat)"
  by (simp_all add: less_mult_imp_div_less)

lemma percent_clean:
  assumes "\<not> is_alnum x" and "x \<notin> set ''-_.~%''" and "\<not> keep x"
  shows "x \<notin> set (percent keep s)"
  using assms hex_upper_alnum [OF byte_digits(1)] hex_upper_alnum [OF byte_digits(2)]
  by (auto simp: percent_def split: if_splits)

lemma percent_decode_percent:
  assumes "\<not> keep CHR ''%''"
  shows "percent_decode (percent keep s) = Some s"
proof (induction s)
  case (Cons c s)
  have "char_of (16 * (of_char c div 16) + of_char c mod 16 :: nat) = c" by (simp only: mult_div_mod_eq char_of_char)
  moreover have "is_alnum c \<or> c \<in> set ''-_.~'' \<or> keep c \<Longrightarrow> c \<noteq> CHR ''%''" using assms by (auto simp: is_alnum_def)
  ultimately show ?case
    using Cons by (auto simp: percent_def unhex_hex_upper byte_digits)
qed (simp add: percent_def)

lemma cut_at_found: "c \<notin> set a \<Longrightarrow> cut_at c (a @ c # b) = (a, b)"
  by (induction a) (auto simp: cut_at_def)

lemma cut_at_missing: "c \<notin> set a \<Longrightarrow> cut_at c a = (a, [])"
  by (induction a) (auto simp: cut_at_def)

lemma while_found: "c \<notin> set a \<Longrightarrow> takeWhile (\<lambda>x. x \<noteq> c) (a @ c # b) = a \<and> dropWhile (\<lambda>x. x \<noteq> c) (a @ c # b) = c # b"
  by (induction a) auto

lemma nat_to_dec_alnum: "x \<in> set (nat_to_dec n) \<Longrightarrow> is_alnum x"
proof (induction n rule: nat_to_dec.induct)
  case (1 n)
  have digit: "is_alnum (char_of (48 + k))" if "k < 10" for k :: nat
    using that by (simp add: is_alnum_def less_eq_char_def take_bit_eq_mod)
  show ?case using 1 digit [of "n mod 10"] digit [of n] nat_to_dec.simps [of n] by (auto split: if_splits)
qed

lemma itoa_alnum: "x \<in> set (itoa n) \<Longrightarrow> is_alnum x \<or> x = CHR ''-''"
  by (auto simp: itoa_def intro: nat_to_dec_alnum split: if_splits)

lemma percent_keeps: "\<forall>x\<in>set s. is_alnum x \<or> x \<in> set ''-_.~'' \<or> keep x \<Longrightarrow> percent keep s = s"
  unfolding percent_def by (induction s) auto

lemma percent_Cons: "keep c \<Longrightarrow> percent keep (c # s) = c # percent keep s"
  by (simp add: percent_def)

lemma split_last: "c \<notin> set b \<Longrightarrow> after_last c (a @ c # b) = b \<and> before_last c (a @ c # b) = a"
  using while_found [of c "rev b" "rev a"] by (simp add: after_last_def before_last_def)

text \<open>A host of plain characters is read as it is; its port consists of digits or the whole is refused.\<close>

definition name_char :: "char \<Rightarrow> bool" where
  "name_char c \<longleftrightarrow> is_alnum c \<or> c \<in> set ''-._''"

lemma host_decode_plain: "\<forall>c\<in>set s. plain_host_char c \<Longrightarrow> host_decode False s = Some s"
proof (induction s)
  case (Cons c s)
  have "\<not> plain_host_char CHR ''%''" by (simp add: plain_host_char_def is_alnum_def host_char_def)
  then show ?case using Cons by auto
qed simp

lemma isDigit_alnum: "isDigit c \<Longrightarrow> is_alnum c"
  by (simp add: isDigit_def is_alnum_def less_eq_char_def)

lemma parseHost_port:
  assumes host: "\<forall>c\<in>set h. name_char c" and port: "\<forall>c\<in>set p. is_alnum c \<or> c = CHR ''-''"
  shows "parseHost (h @ '':'' @ p) = (if list_all isDigit p then Some (h @ '':'' @ p) else None)"
proof -
  have free: "CHR '':'' \<notin> set p" "take 1 (h @ '':'' @ p) \<noteq> ''[''"
    using port host by (auto simp: is_alnum_def name_char_def) (cases h; force simp: is_alnum_def name_char_def)
  have "plain_host_char c" if "c \<in> set (h @ '':'' @ p)" for c
    using that host port by (auto simp: plain_host_char_def name_char_def host_char_def)
  then have "host_decode False (h @ '':'' @ p) = Some (h @ '':'' @ p)" by (intro host_decode_plain) blast
  then show ?thesis
    using free split_last [OF free(1), of h] by (simp add: parseHost_def validOptionalPort_def)
qed

lemma url_Parse_of:
  assumes clean: "\<forall>c\<in>set ''#?/@''. c \<notin> set u \<and> c \<notin> set p \<and> c \<notin> set h" "CHR '':'' \<notin> set u"
    and path: "CHR ''#'' \<notin> set n" "CHR ''?'' \<notin> set n" and query: "CHR ''#'' \<notin> set q"
    and printed: "list_all (\<lambda>c. \<not> control_char c) (u @ p @ h @ n @ q)" and info: "validUserinfo u" "validUserinfo p"
    and user: "percent_decode u = Some user" "percent_decode p = Some pass" and decoded: "percent_decode (CHR ''/'' # n) = Some pth"
  shows "url_Parse (''postgres://'' @ u @ '':'' @ p @ ''@'' @ h @ ''/'' @ n @ ''?'' @ q) =
    map_option (\<lambda>host. \<lparr>url_Scheme = ''postgres'', url_Opaque = [], url_User = Some (user, Some pass), url_Host = host,
      url_Path = pth, url_RawQuery = q\<rparr>) (parseHost h)"
proof -
  let ?auth = "u @ '':'' @ p @ ''@'' @ h" and ?raw = "''postgres://'' @ u @ '':'' @ p @ ''@'' @ h @ ''/'' @ n @ ''?'' @ q"
  let ?rest = "''//'' @ ?auth @ ''/'' @ n"
  have frag: "cut_at (CHR ''#'') ?raw = (?raw, [])" using clean path query by (intro cut_at_missing) auto
  have ctl: "\<not> list_ex control_char ?raw" using printed by (auto simp: list_ex_iff list_all_iff control_char_def)
  have "\<not> is_alnum CHR '':''" by (simp add: is_alnum_def)
  then have scheme: "getScheme ?raw = Some (''postgres'', ?rest @ ''?'' @ q)"
    by (simp add: getScheme_def is_alnum_def isDigit_def Let_def)
  have quest: "cut_at (CHR ''?'') (?rest @ CHR ''?'' # q) = (?rest, q)" using clean path by (intro cut_at_found) auto
  have slash: "takeWhile (\<lambda>x. x \<noteq> CHR ''/'') (?auth @ CHR ''/'' # n) = ?auth" "dropWhile (\<lambda>x. x \<noteq> CHR ''/'') (?auth @ CHR ''/'' # n) = CHR ''/'' # n"
    using while_found [of "CHR ''/''" ?auth n] clean by auto
  have at: "after_last (CHR ''@'') ((u @ '':'' @ p) @ CHR ''@'' # h) = h" "before_last (CHR ''@'') ((u @ '':'' @ p) @ CHR ''@'' # h) = u @ '':'' @ p"
    using split_last [of "CHR ''@''" h "u @ '':'' @ p"] clean by auto
  have colon: "cut_at (CHR '':'') (u @ CHR '':'' # p) = (u, p)" using clean(2) by (rule cut_at_found)
  have "validUserinfo (u @ '':'' @ p)" using info by (simp add: validUserinfo_def)
  then have auth: "parseAuthority ?auth = map_option (\<lambda>host. (Some (user, Some pass), host)) (parseHost h)"
    using at colon user by (simp add: parseAuthority_def Let_def split: option.split)
  have lower: "map ascii_lower ''postgres'' = ''postgres''" by code_simp
  obtain z where "percent_decode n = Some z" "pth = CHR ''/'' # z" using decoded by auto
  then show ?thesis
    using quest slash auth lower unfolding url_Parse_def frag
    by (simp only: prod.case Let_def ctl scheme) (simp split: option.split)
qed

lemma dsn_clean:
  "\<forall>c\<in>set ''#?/@''. c \<notin> set (escape_user s) \<and> c \<notin> set (percent host_char s)"
  "CHR '':'' \<notin> set (escape_user s)"
  "CHR ''#'' \<notin> set (percent path_char s)" "CHR ''?'' \<notin> set (percent path_char s)"
  by (simp_all add: escape_user_def percent_clean is_alnum_def host_char_def path_char_def)

lemma percent_chars: "x \<in> set (percent keep s) \<Longrightarrow> is_alnum x \<or> x \<in> set ''-_.~%'' \<or> keep x"
  using hex_upper_alnum [OF byte_digits(1)] hex_upper_alnum [OF byte_digits(2)] by (auto simp: percent_def split: if_splits)

lemma not_control: "is_alnum x \<or> x \<in> set ''-_.~%$&+,;=/:@?'' \<Longrightarrow> \<not> control_char x"
proof -
  have "list_all (\<lambda>x. \<not> control_char x) ''-_.~%$&+,;=/:@?''" by code_simp
  moreover have "is_alnum x \<Longrightarrow> \<not> control_char x" by (auto simp: is_alnum_def control_char_def less_eq_char_def)
  ultimately show "is_alnum x \<or> x \<in> set ''-_.~%$&+,;=/:@?'' \<Longrightarrow> \<not> control_char x" unfolding list_all_iff by blast
qed

lemma escape_user_chars: "x \<in> set (escape_user s) \<Longrightarrow> is_alnum x \<or> x \<in> set ''-_.~%$&+,;=''"
  unfolding escape_user_def by (drule percent_chars) auto

lemma dsn_printed: "\<forall>x\<in>set (escape_user s). \<not> control_char x" "\<forall>x\<in>set (percent path_char s). \<not> control_char x" "validUserinfo (escape_user s)"
proof -
  have "set ''-_.~%$&+,;='' \<subseteq> set ''-_.~%$&+,;=/:@?''" by simp
  then show "\<forall>x\<in>set (escape_user s). \<not> control_char x" using escape_user_chars not_control by blast
  have "set ''-_.~%$&+,;='' \<subseteq> set ''-._:~!$&()*+,;=%@''" by simp
  then show "validUserinfo (escape_user s)" using escape_user_chars unfolding validUserinfo_def list_all_iff by blast
  have "path_char x \<Longrightarrow> x \<in> set ''-_.~%$&+,;=/:@?''" for x by (auto simp: path_char_def)
  moreover have "set ''-_.~%'' \<subseteq> set ''-_.~%$&+,;=/:@?''" by simp
  ultimately show "\<forall>x\<in>set (percent path_char s). \<not> control_char x" using percent_chars not_control by blast
qed

lemma itoa_digits: "list_all isDigit (itoa n) \<longleftrightarrow> 0 \<le> n"
proof (cases "n < 0")
  case False
  have "isDigit (char_of (48 + k))" if "k < 10" for k :: nat using that by (simp add: isDigit_def take_bit_eq_mod)
  then have "list_all isDigit (nat_to_dec k)" for k
    by (induction k rule: nat_to_dec.induct) (subst nat_to_dec.simps, simp)
  then show ?thesis using False by (simp add: itoa_def)
qed (simp add: itoa_def isDigit_def)

text \<open>C36. The connection string built from the separate settings reads back as them: whatever characters
  the user, the password and the database name have, url.Parse finds exactly these, the host
  with its port, and sslmode=disable as the only parameter, for a host that is a name or an IPv4 address
  and a port that is not negative. With a negative port, which Validate lets pass, the string is not a URL.\<close>

theorem dsn_round_trip:
  assumes "DatabaseURL c = []" and "\<forall>x\<in>set (DBHost c). name_char x"
  shows "url_Parse (DSN c) =
    (if 0 \<le> DBPort c then
       Some \<lparr>url_Scheme = ''postgres'', url_Opaque = [], url_User = Some (DBUser c, Some (DBPassword c)),
         url_Host = DBHost c @ '':'' @ itoa (DBPort c), url_Path = CHR ''/'' # DBName c, url_RawQuery = ''sslmode=disable''\<rparr>
     else None)"
proof -
  let ?h = "DBHost c @ '':'' @ itoa (DBPort c)"
  have plain: "is_alnum x \<or> x \<in> set ''-_.~:''" if "x \<in> set ?h" for x
    using that assms(2) itoa_alnum [of x "DBPort c"] by (auto simp: name_char_def)
  then have host: "percent host_char ?h = ?h" by (intro percent_keeps) (force simp: host_char_def)
  have "set ''-_.~:'' \<subseteq> set ''-_.~%$&+,;=/:@?''" by simp
  then have "\<forall>x\<in>set ?h. \<not> control_char x" using plain not_control by blast
  moreover have "list_all (\<lambda>x. \<not> control_char x) ''sslmode=disable''" by code_simp
  ultimately have printed: "list_all (\<lambda>x. \<not> control_char x) (escape_user (DBUser c) @ escape_user (DBPassword c) @ ?h @ percent path_char (DBName c) @ ''sslmode=disable'')"
    using dsn_printed(1,2) unfolding list_all_iff set_append ball_Un by blast
  have dsn: "DSN c = ''postgres://'' @ escape_user (DBUser c) @ '':'' @ escape_user (DBPassword c) @ ''@'' @
      ?h @ ''/'' @ percent path_char (DBName c) @ ''?'' @ ''sslmode=disable''"
    using assms(1) percent_Cons [of path_char "CHR ''/''" "DBName c"] host unfolding DSN_def by (simp add: path_char_def)
  have "\<not> path_char CHR ''%''" by (simp add: path_char_def)
  then have "percent_decode (CHR ''/'' # percent path_char (DBName c)) = Some (CHR ''/'' # DBName c)"
    by (simp add: percent_decode_percent)
  moreover have "\<forall>x\<in>set ''#?/@''. x \<notin> set ?h" using dsn_clean(1) [of ?h] host by simp
  moreover have "parseHost ?h = (if 0 \<le> DBPort c then Some ?h else None)"
    using parseHost_port [OF assms(2), of "itoa (DBPort c)"] itoa_alnum itoa_digits by auto
  ultimately show ?thesis
    using url_Parse_of [of "escape_user (DBUser c)" "escape_user (DBPassword c)" ?h "percent path_char (DBName c)" "''sslmode=disable''"]
      dsn_clean printed dsn_printed(3) unfolding dsn by (simp add: escape_user_def percent_decode_percent)
qed

theorem dsn_round_trip_witness:
  "\<exists>c. Load (\<lambda>_. None) sample_environment = Inr c \<and> DBPassword c = ''p@s/s'' \<and>
     url_Parse (DSN c) = Some \<lparr>url_Scheme = ''postgres'', url_Opaque = [], url_User = Some (''app'', Some ''p@s/s''), url_Host = ''db:5432'',
       url_Path = ''/fuju'', url_RawQuery = ''sslmode=disable''\<rparr>"
proof -
  have "(case Load (\<lambda>_. None) sample_environment of Inr c \<Rightarrow> DatabaseURL c = [] \<and> DBHost c = ''db'' \<and> DBPort c = 5432 \<and>
      DBUser c = ''app'' \<and> DBPassword c = ''p@s/s'' \<and> DBName c = ''fuju'' | Inl _ \<Rightarrow> False)"
    by code_simp
  then obtain c where c: "Load (\<lambda>_. None) sample_environment = Inr c" "DatabaseURL c = []" "DBHost c = ''db''" "DBPort c = 5432"
      "DBUser c = ''app''" "DBPassword c = ''p@s/s''" "DBName c = ''fuju''"
    by (auto split: sum.splits)
  have "itoa 5432 = ''5432''" by (simp add: itoa_def nat_to_dec.simps [of 5432] nat_to_dec.simps [of 543] nat_to_dec.simps [of 54] nat_to_dec.simps [of 5] char_of_def bit_0)
  then show ?thesis using dsn_round_trip [of c] c by (simp add: name_char_def is_alnum_def)
qed

section \<open>Object keys\<close>

lemma last_element_no_slash: "CHR ''/'' \<notin> set (last_element s)"
  unfolding last_element_def by (auto dest: set_takeWhileD)

lemma last_element_subset: "set (last_element s) \<subseteq> set s"
  unfolding last_element_def by (auto dest: set_takeWhileD)

lemma TrimRight_subset: "set (TrimRight s c) \<subseteq> set s"
  unfolding TrimRight_def by (auto dest: set_dropWhileD)

lemma sanitizeFilename_flat:
  "sanitizeFilename name \<noteq> [] \<and> sanitizeFilename name \<noteq> ''.'' \<and> CHR ''/'' \<notin> set (sanitizeFilename name) \<and> CHR 0x5C \<notin> set (sanitizeFilename name)"
proof -
  let ?n = "map (\<lambda>c. if c = CHR 0x5C then CHR ''/'' else c) name"
  have "CHR 0x5C \<notin> set (last_element (TrimRight ?n (CHR ''/'')))"
    using last_element_subset [of "TrimRight ?n (CHR ''/'')"] TrimRight_subset [of ?n "CHR ''/''"] by (auto split: if_splits)
  then show ?thesis
    using last_element_no_slash [of "TrimRight ?n (CHR ''/'')"] by (auto simp: sanitizeFilename_def filepath_Base_def Let_def)
qed

text \<open>C37. An upload puts the bytes under images/<user>/<fresh id>/<name>, where the name is one path
  segment whatever the client called the file: not empty, without a slash and without a
  backslash. The URL it returns is that key below the public domain, and a failed put is an
  EXTERNAL_SERVICE_ERROR.\<close>

theorem upload_key_contained:
  "\<exists>name. name \<noteq> [] \<and> name \<noteq> ''.'' \<and> CHR ''/'' \<notin> set name \<and> CHR 0x5C \<notin> set name \<and>
    (let key = ''images/'' @ Upload_UserID req @ ''/'' @ rt_ulid s (rt_ids s) @ ''/'' @ name in
     run_state (R2_Upload r req) s =
       (case run_state (s3_PutObject (r2_client r) (r2_bucketName r) key (Upload_FileData req) (Upload_MimeType req)) (s\<lparr>rt_ids := Suc (rt_ids s)\<rparr>) of
          (Inl err, t) \<Rightarrow> (Inl (New ''EXTERNAL_SERVICE_ERROR'' ''failed to upload file to R2'' 500 (Some err)), t)
        | (Inr _, t) \<Rightarrow> (Inr (key, GetPublicURL r key), t)))"
  using sanitizeFilename_flat [of "Upload_FileName req"]
  by (intro exI [of _ "sanitizeFilename (Upload_FileName req)"])
     (auto simp: R2_Upload_def GetPublicURL_def run_simps Let_def split: prod.splits sum.splits)

text \<open>The segment can still be the parent directory.\<close>

theorem sanitize_keeps_parent: "sanitizeFilename ''..'' = ''..''"
  by code_simp

end
