(* ===== verification/Wiring.thy ===== *)
theory Wiring
  imports Samples Authcore_Cache Fujumodel OGP_Fetch Tag_Extractor Config
begin

text \<open>
  How \<open>cmd/server/main.go\<close> puts the parts together: the server of \<open>Server\<close> with the clients, the
  fetcher, the tag extractor, the object store and the hooks built from a configuration. Its
  externals are what the process talks to: HTTP, DNS and connections, the S3 client, and the
  libraries of URLs, HTML and Unicode. Two parts keep state of their own outside the store, under
  their own mutex or in their own goroutine, and enter as calls: the introspection cache
  (\<open>Authcore.cache_step\<close>), which wraps a client, and the dispatcher (\<open>UC_Fuju.disp_step\<close>).
  The image routes are mounted when R2 is configured, and only then (\<open>srv_storage\<close> of \<open>Server\<close>).
\<close>

section \<open>The parts of main\<close>

record ('c, 'x) Externals =
  ext_introspect :: "(mem, introspectResponse) http_client"
  ext_profile :: "(mem, profileResponse) http_client"
  ext_token :: "(mem, tokenResponse) http_client"
  ext_cache :: "duration \<Rightarrow> mem Client \<Rightarrow> mem Client"
  ext_enqueue :: "mem DispatcherOps"
  ext_url :: "'x url_lib"
  ext_net :: "(mem, 'c) net_env"
  ext_sha256 :: "string \<Rightarrow> string"
  ext_html :: "string \<Rightarrow> node"
  ext_unicode :: unicode
  ext_fold :: "string \<Rightarrow> string \<Rightarrow> bool"
  ext_badgeURL :: url_parser
  ext_detect :: "string \<Rightarrow> string"
  ext_s3 :: "(string \<Rightarrow> go_error + string \<times> string) \<Rightarrow> StaticCredentialsProvider \<Rightarrow> string \<Rightarrow> go_error + mem s3_client"

definition authcoreClient :: "('c, 'x) Externals \<Rightarrow> Config \<Rightarrow> mem AuthCore" where
  "authcoreClient ext cfg = NewHTTPClient
     \<lparr>opt_BaseURL = AuthCoreBaseURL cfg, opt_ClientID = AuthCoreClientID cfg, opt_ClientSecret = AuthCoreClientSecret cfg,
      opt_IntrospectPath = AuthCoreIntrospectPath cfg, opt_ProfilePath = AuthCoreProfilePath cfg,
      opt_IntrospectTimeout = 0, opt_ProfileTimeout = 0,
      opt_introspectClient = ext_introspect ext, opt_profileClient = ext_profile ext, opt_tokenClient = ext_token ext\<rparr>"

definition HTTPClient_Client :: "mem AuthCore \<Rightarrow> mem Client" where
  "HTTPClient_Client c = \<lparr>client_Introspect = HTTPClient_Introspect c, client_GetProfile = HTTPClient_GetProfile c\<rparr>"

definition cachedAuthCore :: "('c, 'x) Externals \<Rightarrow> Config \<Rightarrow> mem Client" where
  "cachedAuthCore ext cfg = ext_cache ext (AuthCoreIntrospectCacheTTL cfg) (HTTPClient_Client (authcoreClient ext cfg))"

text \<open>Without the integration there is no dispatcher; a queue that cannot be made ends the process.
  The fuju client it sends with is there when it is enabled (\<open>NewFujuClient\<close> asks for the two
  settings that \<open>FujuModelEnabled\<close> asks for).\<close>

definition fujuDispatcher :: "('c, 'x) Externals \<Rightarrow> Config \<Rightarrow> go_error + mem DispatcherOps option" where
  "fujuDispatcher ext cfg =
     (if FujuModelEnabled cfg then
        (case NewDispatcher (FujuModelBatchSize cfg) (FujuModelQueueCapacity cfg) of
           Inl err \<Rightarrow> Inl err | Inr _ \<Rightarrow> Inr (Some (ext_enqueue ext)))
      else Inr None)"

definition tagEx :: "('c, 'x) Externals \<Rightarrow> RegexTagExtractor" where
  "tagEx ext = NewRegexTagExtractor (ext_unicode ext) (ext_fold ext) []"

definition ogpFetcher :: "('c, 'x) Externals \<Rightarrow> Config \<Rightarrow> (mem, 'c, 'x) Fetcher" where
  "ogpFetcher ext cfg = NewFetcher (ext_url ext) (ext_net ext) (ext_sha256 ext) (ext_html ext) (OGPUserAgent cfg) []"

definition ogpLib :: "('c, 'x) Externals \<Rightarrow> Config \<Rightarrow> mem OGPLib" where
  "ogpLib ext cfg = \<lparr>ogp_ExtractURLs = ExtractURLs, ogp_Normalize = Normalize (ext_url ext), ogp_Hash = ext_sha256 ext,
     ogp_Fetch = Fetch (ogpFetcher ext cfg)\<rparr>"

definition sessionCookieCfg :: "Config \<Rightarrow> SessionCookieConfig" where
  "sessionCookieCfg cfg = \<lparr>SCC_Name = SessionCookieName cfg, SCC_Secure = SessionCookieSecure cfg,
     SCC_SameSite = SessionCookieSameSiteMode cfg, SCC_Domain = SessionCookieDomain cfg, SCC_Path = ''/'',
     SCC_FallbackMaxAge = SessionCookieFallbackMaxAge cfg\<rparr>"

definition R2_Storage :: "mem R2Service \<Rightarrow> mem StorageService" where
  "R2_Storage r = \<lparr>storage_Upload = R2_Upload r, storage_Delete = R2_Delete r\<rparr>"

text \<open>The object store of the image routes; without R2 there is none, which is no error.\<close>

definition imageStorage :: "('c, 'x) Externals \<Rightarrow> Config \<Rightarrow> go_error + mem StorageService option" where
  "imageStorage ext cfg =
     (if R2Enabled cfg then
        (case NewR2Service (ext_s3 ext) (Some cfg) of Inl err \<Rightarrow> Inl err | Inr r2 \<Rightarrow> Inr (Some (R2_Storage r2)))
      else Inr None)"

definition main_server :: "('c, 'x) Externals \<Rightarrow> Config \<Rightarrow> go_error + server" where
  "main_server ext cfg = (case fujuDispatcher ext cfg of
     Inl err \<Rightarrow> Inl err
   | Inr d \<Rightarrow> (case imageStorage ext cfg of
     Inl err \<Rightarrow> Inl err
   | Inr images \<Rightarrow> Inr
     \<lparr>srv_client = cachedAuthCore ext cfg, srv_cookieName = SessionCookieName cfg, srv_profileTTL = AuthCoreProfileTTL cfg,
      srv_tags = Extract (tagEx ext), srv_ogp = ogpLib ext cfg,
      srv_fujuPost = fujuPostCommitHook d, srv_fujuLike = fujuLikeCommitHook d, srv_fujuFollow = fujuFollowCommitHook d,
      srv_url_Parse = ext_badgeURL ext, srv_detect = ext_detect ext, srv_storage = images, srv_session = sessionCookieCfg cfg\<rparr>))"

section \<open>The parts stay off the store\<close>

text \<open>What the externals promise: an exchange over the network changes nothing of the store, and the
  cache calls only the client it wraps.\<close>

definition remote :: "('c, 'x) Externals \<Rightarrow> bool" where
  "remote ext \<longleftrightarrow>
     (\<forall>r. along drift (http_Do (ext_introspect ext) r)) \<and> (\<forall>r. along drift (http_Do (ext_profile ext) r)) \<and>
     (\<forall>ttl c. (\<forall>tok. along drift (client_Introspect c tok) \<and> along drift (client_GetProfile c tok)) \<longrightarrow>
        (\<forall>tok. along drift (client_Introspect (ext_cache ext ttl c) tok) \<and> along drift (client_GetProfile (ext_cache ext ttl c) tok))) \<and>
     (\<forall>c. along drift (ops_EnqueueContent (ext_enqueue ext) c)) \<and> (\<forall>e. along drift (ops_EnqueueEvent (ext_enqueue ext) e)) \<and>
     (\<forall>h. along drift (env_LookupIPAddr (ext_net ext) h)) \<and> (\<forall>ip p. along drift (env_Dial (ext_net ext) ip p)) \<and>
     (\<forall>c r. along drift (env_Exchange (ext_net ext) c r)) \<and>
     (\<forall>res cred reg s3. ext_s3 ext res cred reg = Inr s3 \<longrightarrow>
        (\<forall>b k d m. along drift (s3_PutObject s3 b k d m)) \<and> (\<forall>b k. along drift (s3_DeleteObject s3 b k)))"

lemma along_Introspect: "(\<And>r. along drift (http_Do (hc_introspectClient c) r)) \<Longrightarrow> along drift (HTTPClient_Introspect c tok)"
  unfolding HTTPClient_Introspect_def by (intro drifting.along_rules)

lemma along_GetProfile: "(\<And>r. along drift (http_Do (hc_profileClient c) r)) \<Longrightarrow> along drift (HTTPClient_GetProfile c tok)"
  unfolding HTTPClient_GetProfile_def by (intro drifting.along_rules)

lemma along_client_Do:
  assumes "\<And>h. along drift (env_LookupIPAddr env h)" "\<And>ip p. along drift (env_Dial env ip p)" "\<And>c r. along drift (env_Exchange env c r)"
  shows "along drift (client_Do n lib env headers u)"
proof -
  have dial: "along drift (safeDialContext lib env addr)" for addr
    unfolding safeDialContext_def
    by (auto intro!: drifting.along_rules assms split: sum.split prod.split list.split)
  show ?thesis
    by (induction n arbitrary: u) (auto simp: Let_def intro!: drifting.along_rules dial assms)
qed

lemma along_Fetch:
  assumes "\<And>n u h. along drift (client_Do n (f_lib f) (f_env f) h u)"
  shows "along drift (Fetch f raw)"
  unfolding Fetch_def by (intro drifting.along_rules assms)

lemma along_hooks:
  assumes "\<And>c. along drift (ops_EnqueueContent d c)" "\<And>e. along drift (ops_EnqueueEvent d e)"
  shows "fujuPostCommitHook (Some d) = Some hp \<Longrightarrow> along drift (hp post)"
    "fujuLikeCommitHook (Some d) = Some hl \<Longrightarrow> along drift (hl a b)" "fujuFollowCommitHook (Some d) = Some hl \<Longrightarrow> along drift (hl a b)"
  by (auto simp: fujuPostCommitHook_def fujuLikeCommitHook_def fujuFollowCommitHook_def intro!: drifting.along_rules assms)

lemma along_storage:
  assumes "\<And>b k d m. along drift (s3_PutObject (r2_client r) b k d m)" "\<And>b k. along drift (s3_DeleteObject (r2_client r) b k)"
  shows "along drift (R2_Upload r rq)" "along drift (R2_Delete r key)"
  unfolding R2_Upload_def R2_Delete_def Let_def by (intro drifting.along_rules assms)+

lemma remote_client:
  assumes "remote ext"
  shows "along drift (client_Introspect (cachedAuthCore ext cfg) tok) \<and> along drift (client_GetProfile (cachedAuthCore ext cfg) tok)"
proof -
  have "hc_introspectClient (authcoreClient ext cfg) = ext_introspect ext" "hc_profileClient (authcoreClient ext cfg) = ext_profile ext"
    by (simp_all add: authcoreClient_def NewHTTPClient_def)
  then have "\<forall>tok. along drift (client_Introspect (HTTPClient_Client (authcoreClient ext cfg)) tok) \<and>
      along drift (client_GetProfile (HTTPClient_Client (authcoreClient ext cfg)) tok)"
    using assms by (auto simp: remote_def HTTPClient_Client_def intro: along_Introspect along_GetProfile)
  then show ?thesis using assms unfolding remote_def cachedAuthCore_def by blast
qed

lemma remote_fetch: "remote ext \<Longrightarrow> along drift (Fetch (ogpFetcher ext cfg) raw)"
  by (auto simp: remote_def ogpFetcher_def NewFetcher_def intro!: along_Fetch along_client_Do)

lemma main_server_ok:
  assumes "main_server ext cfg = Inr srv"
  obtains d images where "d = None \<or> d = Some (ext_enqueue ext)" "imageStorage ext cfg = Inr images"
    "srv = \<lparr>srv_client = cachedAuthCore ext cfg, srv_cookieName = SessionCookieName cfg, srv_profileTTL = AuthCoreProfileTTL cfg,
      srv_tags = Extract (tagEx ext), srv_ogp = ogpLib ext cfg,
      srv_fujuPost = fujuPostCommitHook d, srv_fujuLike = fujuLikeCommitHook d, srv_fujuFollow = fujuFollowCommitHook d,
      srv_url_Parse = ext_badgeURL ext, srv_detect = ext_detect ext, srv_storage = images, srv_session = sessionCookieCfg cfg\<rparr>"
  using assms by (auto simp: main_server_def fujuDispatcher_def split: sum.splits if_splits)

text \<open>The image routes are mounted exactly when R2 is configured.\<close>

lemma imageStorage_cases:
  assumes "imageStorage ext cfg = Inr images"
  shows "(images \<noteq> None) = R2Enabled cfg"
    and "images = Some st \<Longrightarrow> \<exists>s3. ext_s3 ext (customResolver (R2Endpoint cfg)) (NewStaticCredentialsProvider (R2AccessKeyID cfg) (R2SecretAccessKey cfg)) ''auto'' = Inr s3 \<and>
      st = R2_Storage \<lparr>r2_client = s3, r2_bucketName = R2BucketName cfg, r2_publicDomain = R2PublicDomain cfg\<rparr>"
  using assms by (auto simp: imageStorage_def NewR2Service_def split: sum.splits if_splits)

text \<open>The server that main builds from any configuration keeps its parts apart: as long as the
  network, the object store and the dispatcher do not reach into the store, none of the clients,
  the fetcher, the hooks and the storage service of the server changes it. This is what the
  properties of the server ask of it.\<close>

theorem main_server_detached:
  assumes "remote ext" and "main_server ext cfg = Inr srv"
  shows "detached srv"
proof -
  obtain d images where d: "d = None \<or> d = Some (ext_enqueue ext)" and images: "imageStorage ext cfg = Inr images"
    and srv: "srv = \<lparr>srv_client = cachedAuthCore ext cfg, srv_cookieName = SessionCookieName cfg, srv_profileTTL = AuthCoreProfileTTL cfg,
      srv_tags = Extract (tagEx ext), srv_ogp = ogpLib ext cfg,
      srv_fujuPost = fujuPostCommitHook d, srv_fujuLike = fujuLikeCommitHook d, srv_fujuFollow = fujuFollowCommitHook d,
      srv_url_Parse = ext_badgeURL ext, srv_detect = ext_detect ext, srv_storage = images, srv_session = sessionCookieCfg cfg\<rparr>"
    by (rule main_server_ok [OF assms(2)])
  have store: "along drift (storage_Upload st rq)" "along drift (storage_Delete st k)" if st: "images = Some st" for st rq k
  proof -
    obtain s3 where s3: "ext_s3 ext (customResolver (R2Endpoint cfg)) (NewStaticCredentialsProvider (R2AccessKeyID cfg) (R2SecretAccessKey cfg)) ''auto'' = Inr s3"
        "st = R2_Storage \<lparr>r2_client = s3, r2_bucketName = R2BucketName cfg, r2_publicDomain = R2PublicDomain cfg\<rparr>"
      using imageStorage_cases(2) [OF images st] by blast
    have "along drift (s3_PutObject s3 b k da m)" "along drift (s3_DeleteObject s3 b k)" for b k da m
      using assms(1) s3(1) unfolding remote_def by blast+
    then show "along drift (storage_Upload st rq)" "along drift (storage_Delete st k)"
      by (simp_all add: s3(2) R2_Storage_def along_storage)
  qed
  have enq: "along drift (ops_EnqueueContent (ext_enqueue ext) c)" "along drift (ops_EnqueueEvent (ext_enqueue ext) e)" for c e
    using assms(1) unfolding remote_def by blast+
  have hooks: "\<forall>h p. fujuPostCommitHook d = Some h \<longrightarrow> along drift (h p)" "\<forall>h a b. fujuLikeCommitHook d = Some h \<longrightarrow> along drift (h a b)"
      "\<forall>h a b. fujuFollowCommitHook d = Some h \<longrightarrow> along drift (h a b)"
    using d along_hooks [of "ext_enqueue ext", OF enq]
    by (auto simp: fujuPostCommitHook_def fujuLikeCommitHook_def fujuFollowCommitHook_def)
  show ?thesis
    unfolding detached_def srv using remote_client [OF assms(1)] remote_fetch [OF assms(1)] hooks
    by (simp add: ogpLib_def store)
qed

definition sample_externals :: "(unit, unit) Externals" where
  "sample_externals =
     \<lparr>ext_introspect = \<lparr>http_NewRequest = (\<lambda>_ _. None), http_Do = (\<lambda>_. ret (Inr \<lparr>In_StatusCode = 200,
        In_Body = Inr \<lparr>intro_Active = True, intro_Sub = alice, intro_EXP = 0, intro_Username = ''alice''\<rparr>\<rparr>))\<rparr>,
      ext_profile = \<lparr>http_NewRequest = (\<lambda>_ _. None), http_Do = (\<lambda>_. ret (Inl ErrUpstream))\<rparr>,
      ext_token = \<lparr>http_NewRequest = (\<lambda>_ _. None), http_Do = (\<lambda>_. ret (Inl ErrUpstream))\<rparr>,
      ext_cache = (\<lambda>_ c. c),
      ext_enqueue = \<lparr>ops_EnqueueContent = (\<lambda>_. ret ()), ops_EnqueueEvent = (\<lambda>_. ret ())\<rparr>,
      ext_url = sample_lib,
      ext_net = \<lparr>env_LookupIPAddr = (\<lambda>_. ret (Inl ErrUpstream)), env_Dial = (\<lambda>_ _. ret (Inl ErrUpstream)), env_Exchange = (\<lambda>_ _. ret (Inl ErrUpstream))\<rparr>,
      ext_sha256 = id, ext_html = (\<lambda>_. Node DocumentNode [] [] []),
      ext_unicode = \<lparr>uni_letter = (\<lambda>_. True), uni_number = (\<lambda>_. False), uni_ToLower = id\<rparr>, ext_fold = (=),
      ext_badgeURL = (\<lambda>_. None), ext_detect = (\<lambda>_. []),
      ext_s3 = (\<lambda>_ _ _. Inr \<lparr>s3_PutObject = (\<lambda>_ _ _ _. ret (Inr ())), s3_DeleteObject = (\<lambda>_ _. ret (Inr ()))\<rparr>)\<rparr>"

lemma sample_remote: "remote sample_externals"
  by (simp add: remote_def sample_externals_def drifting.along_ret)

text \<open>The sample environment with R2 configured and a fallback age of half a second.\<close>

definition sample_r2_environment :: environment where
  "sample_r2_environment key =
     (if key \<in> {''R2_ENDPOINT'', ''R2_BUCKET_NAME'', ''R2_PUBLIC_DOMAIN'', ''R2_ACCESS_KEY_ID'', ''R2_SECRET_ACCESS_KEY''} then ''r2''
      else if key = ''SESSION_COOKIE_FALLBACK_MAX_AGE'' then ''500ms'' else sample_environment key)"

lemma sample_config:
  obtains cfg where "Load (\<lambda>v. if v = ''500ms'' then Some 500000000 else None) sample_r2_environment = Inr cfg" "R2Enabled cfg" "\<not> FujuModelEnabled cfg"
    "Environment cfg = ''production''" "SessionCookieName cfg = ''fuju_access''" "SessionCookieFallbackMaxAge cfg = 500000000"
proof -
  have "(case Load (\<lambda>v. if v = ''500ms'' then Some 500000000 else None) sample_r2_environment of
      Inr cfg \<Rightarrow> R2Enabled cfg \<and> \<not> FujuModelEnabled cfg \<and> Environment cfg = ''production'' \<and>
        SessionCookieName cfg = ''fuju_access'' \<and> SessionCookieFallbackMaxAge cfg = 500000000 | Inl _ \<Rightarrow> False)"
    by code_simp
  then show thesis using that by (auto split: sum.splits)
qed

lemma sample_main: "\<not> FujuModelEnabled cfg \<Longrightarrow> \<exists>srv. main_server sample_externals cfg = Inr srv"
  by (simp add: main_server_def fujuDispatcher_def imageStorage_def NewR2Service_def sample_externals_def)

theorem main_server_detached_witness:
  "\<exists>cfg srv. main_server sample_externals cfg = Inr srv \<and> detached srv"
proof -
  obtain cfg where "\<not> FujuModelEnabled cfg" using sample_config by metis
  then obtain srv where "main_server sample_externals cfg = Inr srv" using sample_main by blast
  then show ?thesis using main_server_detached [OF sample_remote] by blast
qed

section \<open>The session cookie of a deployment\<close>







text \<open>A fallback age below a second passes validation, and its cookie has no Max-Age.\<close>

theorem subsecond_fallback_unbounded:
  "\<exists>cfg. Load (\<lambda>v. if v = ''500ms'' then Some 500000000 else None) sample_r2_environment = Inr cfg \<and>
     (\<forall>token. Cookie_MaxAge (Build (session_attrs (sessionCookieCfg cfg) token (SCC_FallbackMaxAge (sessionCookieCfg cfg)))) = 0)"
proof -
  obtain cfg where "Load (\<lambda>v. if v = ''500ms'' then Some 500000000 else None) sample_r2_environment = Inr cfg"
      "SessionCookieFallbackMaxAge cfg = 500000000" using sample_config by metis
  moreover have "whole_seconds 500000000 = 0" by code_simp
  ultimately show ?thesis by (auto simp: Build_def session_attrs_def sessionCookieCfg_def)
qed

section \<open>Events for the emotion model\<close>

lemma like_event:
  "run_state (LikePost_Execute NewPostRepository NewLikeRepository (fujuLikeCommitHook (Some d)) u p) s =
     (let (r, t) = run_state (LikePost_Execute NewPostRepository NewLikeRepository None u p) s in
      if r = Inr () \<and> (u, p) \<notin> like_rows s then
        (r, snd (run_state (ops_EnqueueEvent d \<lparr>Event_UserID = u, Event_ItemID = p, Event_EventType = EventLike,
          Event_Timestamp = rt_clock t (rt_ticks t), Event_Text = None\<rparr>) (t\<lparr>rt_ticks := Suc (rt_ticks t)\<rparr>)))
      else (r, t))"
proof -
  obtain m n where c: "run_state (LikeRepository_Create u p) s = (Inr ((u, p) \<notin> like_rows s), s\<lparr>m_likes := m, rt_ticks := n\<rparr>)"
    using run_like_Create by blast
  show ?thesis
    by (simp add: LikePost_Execute_def NewPostRepository_def NewLikeRepository_def run_simps c fujuLikeCommitHook_def split: option.split prod.split)
qed

lemma follow_event:
  "run_state (Follow_Execute NewUserRepository NewFollowRepository (fujuFollowCommitHook (Some d)) a b) s =
     (let (r, t) = run_state (Follow_Execute NewUserRepository NewFollowRepository None a b) s in
      if \<not> isl r \<and> (a, b) \<notin> follow_rows s then
        (r, snd (run_state (ops_EnqueueEvent d \<lparr>Event_UserID = a, Event_ItemID = b, Event_EventType = EventFollow,
          Event_Timestamp = rt_clock t (rt_ticks t), Event_Text = None\<rparr>) (t\<lparr>rt_ticks := Suc (rt_ticks t)\<rparr>)))
      else (r, t))"
  by (simp add: Follow_Execute_def NewUserRepository_def NewFollowRepository_def run_simps run_follow_Create fujuFollowCommitHook_def
      split: option.split prod.split sum.split)

text \<open>C39. The emotion model hears of a like and of a follow once: with a dispatcher, each call does
  exactly what it does without one and then, if it inserted a row, enqueues one event with the
  time after the commit; a repeated call, and one that fails, enqueue nothing.\<close>

theorem commit_events_once:
  "run_state (LikePost_Execute NewPostRepository NewLikeRepository (fujuLikeCommitHook (Some d)) u p) s =
     (let (r, t) = run_state (LikePost_Execute NewPostRepository NewLikeRepository None u p) s in
      if r = Inr () \<and> (u, p) \<notin> like_rows s then
        (r, snd (run_state (ops_EnqueueEvent d \<lparr>Event_UserID = u, Event_ItemID = p, Event_EventType = EventLike,
          Event_Timestamp = rt_clock t (rt_ticks t), Event_Text = None\<rparr>) (t\<lparr>rt_ticks := Suc (rt_ticks t)\<rparr>)))
      else (r, t)) \<and>
   run_state (Follow_Execute NewUserRepository NewFollowRepository (fujuFollowCommitHook (Some d)) a b) s =
     (let (r, t) = run_state (Follow_Execute NewUserRepository NewFollowRepository None a b) s in
      if \<not> isl r \<and> (a, b) \<notin> follow_rows s then
        (r, snd (run_state (ops_EnqueueEvent d \<lparr>Event_UserID = a, Event_ItemID = b, Event_EventType = EventFollow,
          Event_Timestamp = rt_clock t (rt_ticks t), Event_Text = None\<rparr>) (t\<lparr>rt_ticks := Suc (rt_ticks t)\<rparr>)))
      else (r, t))"
  by (rule conjI [OF like_event follow_event])

end
