(* ===== verification/Pg_Schema.thy ===== *)
theory Pg_Schema
  imports Repository
begin

text \<open>
  The PostgreSQL backend, first part: the tables of \<open>db/migrations\<close>, the types of their columns,
  their constraints, and SQL statements as functions on the tables. A statement reads the time of
  its transaction (\<open>NOW()\<close>), the order in which the server happens to visit rows, and the tables;
  it returns an error that leaves the tables alone, or a result and the new tables.
\<close>

section \<open>Column types\<close>

text \<open>Only the code of a server error is kept; the source does not look into it.\<close>

definition sqlstate :: "string \<Rightarrow> go_error" where
  "sqlstate code = Sentinel (''SQLSTATE '' @ code)"

text \<open>\<open>CHAR(n)\<close>: blanks at the end are not significant, a value is padded to the width; values
  are equal when their padded forms are, and a value that does not fit equals no stored one.\<close>

fun rtrim_rev :: "string \<Rightarrow> string" where
  "rtrim_rev (c # cs) = (if c = CHR '' '' then rtrim_rev cs else c # cs)"
| "rtrim_rev [] = []"

definition rtrim :: "string \<Rightarrow> string" where
  "rtrim s = rev (rtrim_rev (rev s))"

definition bpchar :: "nat \<Rightarrow> string \<Rightarrow> string" where
  "bpchar n s = (let t = rtrim s in t @ replicate (n - RuneCountInString t) (CHR '' ''))"

definition fits_char :: "nat \<Rightarrow> string \<Rightarrow> bool" where
  "fits_char n s \<longleftrightarrow> RuneCountInString (rtrim s) \<le> n"

lemma rtrim_rev_no_blank: "rtrim_rev s = s \<longleftrightarrow> (\<forall>r. s \<noteq> CHR '' '' # r)"
proof (cases s)
  case (Cons c cs)
  have "length (rtrim_rev r) \<le> length r" for r by (induction r rule: rtrim_rev.induct) auto
  then have "rtrim_rev cs \<noteq> CHR '' '' # cs" using impossible_Cons [of "CHR '' '' # cs"] by (metis length_Cons not_less_eq_eq order_refl)
  then show ?thesis using Cons by auto
qed simp

lemma rtrim_rev_idem [simp]: "rtrim_rev (rtrim_rev s) = rtrim_rev s"
  by (induction s rule: rtrim_rev.induct) auto

lemma rtrim_rev_blanks [simp]: "rtrim_rev (replicate n (CHR '' '') @ s) = rtrim_rev s"
  by (induction n) auto

lemma rtrim_idem [simp]: "rtrim (rtrim s) = rtrim s"
  by (simp add: rtrim_def)

lemma rtrim_pad [simp]: "rtrim (s @ replicate n (CHR '' '')) = rtrim s"
  by (simp add: rtrim_def)

lemma rtrim_bpchar [simp]: "rtrim (bpchar n s) = rtrim s"
  by (simp add: bpchar_def Let_def)

lemma bpchar_idem [simp]: "bpchar n (bpchar n s) = bpchar n s"
  by (simp add: bpchar_def Let_def)

lemma bpchar_eq_iff: "bpchar n s = bpchar n t \<longleftrightarrow> rtrim s = rtrim t"
  by (metis bpchar_def rtrim_bpchar)

text \<open>A ULID fills its column.\<close>

lemma rtrim_ULID: "IsULID s \<Longrightarrow> rtrim s = s"
proof -
  assume s: "IsULID s"
  have "CHR '' '' \<notin> set crockford" by (simp add: crockford_def)
  then have "rtrim_rev (rev s) = rev s"
    using s unfolding rtrim_rev_no_blank IsULID_def by (metis list.set_intros(1) set_rev)
  then show ?thesis by (simp add: rtrim_def)
qed

lemma RuneCount_ULID: "IsULID s \<Longrightarrow> RuneCountInString s = 26"
proof -
  assume s: "IsULID s"
  have "\<forall>c\<in>set crockford. of_char c < (0x80 :: nat)" by (simp add: crockford_def)
  then have "RuneCountInString s = length s" using s by (intro RuneCount_ascii) (auto simp: IsULID_def)
  then show ?thesis using s by (simp add: IsULID_def)
qed

lemma bpchar_ULID [simp]: "IsULID s \<Longrightarrow> bpchar 26 s = s" and fits_ULID [simp]: "IsULID s \<Longrightarrow> fits_char 26 s"
  by (simp_all add: bpchar_def fits_char_def rtrim_ULID RuneCount_ULID)

text \<open>\<open>VARCHAR(n)\<close>: too many characters are refused, unless the excess is blanks, which are cut.\<close>

definition excess :: "nat \<Rightarrow> string \<Rightarrow> nat" where
  "excess n s = RuneCountInString s - n"

definition varchar :: "nat \<Rightarrow> string \<Rightarrow> string" where
  "varchar n s = take (length s - excess n s) s"

definition fits_varchar :: "nat \<Rightarrow> string \<Rightarrow> bool" where
  "fits_varchar n s \<longleftrightarrow> (\<forall>c\<in>set (drop (length s - excess n s) s). c = CHR '' '')"

definition int2 :: "int \<Rightarrow> bool" where
  "int2 n \<longleftrightarrow> - 32768 \<le> n \<and> n \<le> 32767"

definition int4 :: "int \<Rightarrow> bool" where
  "int4 n \<longleftrightarrow> - 2147483648 \<le> n \<and> n \<le> 2147483647"

definition int8 :: "int \<Rightarrow> bool" where
  "int8 n \<longleftrightarrow> min_int64 \<le> n \<and> n \<le> max_int64"

text \<open>\<open>TIMESTAMPTZ\<close> counts microseconds.\<close>

definition timestamptz :: "time \<Rightarrow> time" where
  "timestamptz t = t div 1000 * 1000"

section \<open>Tables\<close>

text \<open>A table is a map from its primary key to its rows. The nullable \<open>post_id\<close> of a job is
  the one column whose row type differs from the struct of the domain.\<close>

record ogp_jobs_row =
  job_row :: OGPJob
  job_post_id :: "string option"

record pg_tables =
  t_users :: "(string, User) go_map"
  t_posts :: "(string, Post) go_map"
  t_images :: "(string, Image) go_map"
  t_post_images :: "(string \<times> string, int) go_map"
  t_likes :: "(string \<times> string, time) go_map"
  t_tags :: "(string, Tag) go_map"
  t_post_tags :: "(string \<times> string, unit) go_map"
  t_badges :: "(string, Badge) go_map"
  t_user_badges :: "(string \<times> string, UserBadge) go_map"
  t_follows :: "(string \<times> string, Follow) go_map"
  t_ogp_cache :: "(string, OGPPreview) go_map"
  t_post_ogp :: "(string \<times> string, int) go_map"
  t_ogp_jobs :: "(string, ogp_jobs_row) go_map"

text \<open>\<open>REFERENCES\<close>: the key is in the table referred to.\<close>

definition has_key :: "('k, 'v) go_map \<Rightarrow> 'k \<Rightarrow> bool" where
  "has_key m k \<longleftrightarrow> get_map m k \<noteq> None"

text \<open>\<open>UNIQUE\<close>: no other row has the value.\<close>

definition some_row :: "('k \<Rightarrow> 'v \<Rightarrow> bool) \<Rightarrow> ('k, 'v) go_map \<Rightarrow> bool" where
  "some_row P m \<longleftrightarrow> list_ex (\<lambda>(k, v). P k v) (entries m)"

lemma some_row_iff: "some_row P m \<longleftrightarrow> (\<exists>k v. get_map m k = Some v \<and> P k v)"
  by (force simp: some_row_def list_ex_iff simp flip: mem_entries)

lemma has_key_iff [simp]: "has_key m k \<longleftrightarrow> k \<in> dom (get_map m)"
  by (auto simp: has_key_def)

text \<open>A nullable column.\<close>

lemma pred_option_code [code]: "pred_option P None = True" "pred_option P (Some x) = P x"
  by simp_all

text \<open>The first constraint a row breaks: its code, and \<open>None\<close> when it breaks none.\<close>

fun violation :: "(bool \<times> string) list \<Rightarrow> go_error option" where
  "violation [] = None"
| "violation ((ok, code) # cs) = (if ok then violation cs else Some (sqlstate code))"

lemma violation_None [simp]: "violation cs = None \<longleftrightarrow> (\<forall>c\<in>set cs. fst c)"
  by (induction cs rule: violation.induct) auto

text \<open>Class 22 codes are values a column cannot hold, class 23 the constraints of the tables.\<close>

abbreviation too_long :: string where "too_long \<equiv> ''22001''"
abbreviation out_of_range :: string where "out_of_range \<equiv> ''22003''"
abbreviation no_such_key :: string where "no_such_key \<equiv> ''23503''"
abbreviation duplicate_key :: string where "duplicate_key \<equiv> ''23505''"
abbreviation check_failed :: string where "check_failed \<equiv> ''23514''"

section \<open>Statements\<close>

type_synonym 'a sql = "time \<Rightarrow> nat list \<Rightarrow> pg_tables \<Rightarrow> go_error + 'a \<times> pg_tables"

text \<open>A query leaves the tables as they are. Rows come in no particular order before they are
  sorted.\<close>

definition select :: "(time \<Rightarrow> nat list \<Rightarrow> pg_tables \<Rightarrow> 'a) \<Rightarrow> 'a sql" where
  "select f now ord db = Inr (f now ord db, db)"

definition rows_of :: "nat list \<Rightarrow> ('k, 'v) go_map \<Rightarrow> 'v list" where
  "rows_of ord m = map snd (shuffle ord (entries m))"

text \<open>A statement that writes, checked by the constraints it has to meet.\<close>

definition checked :: "(bool \<times> string) list \<Rightarrow> 'a \<Rightarrow> pg_tables \<Rightarrow> go_error + 'a \<times> pg_tables" where
  "checked cs x db' = (case violation cs of Some e \<Rightarrow> Inl e | None \<Rightarrow> Inr (x, db'))"

lemma checked_Inr [simp]: "checked cs x d = Inr (y, d') \<longleftrightarrow> (\<forall>c\<in>set cs. fst c) \<and> y = x \<and> d' = d"
  using violation_None [of cs] by (auto simp: checked_def simp del: violation_None split: option.split)

text \<open>\<open>UPDATE t SET row = f row WHERE key = k AND P row RETURNING *\<close>: at most one row has the key. The
  guard says whether the columns can hold the new row.\<close>

definition update_row ::
    "((('k, 'v) go_map \<Rightarrow> ('k, 'v) go_map) \<Rightarrow> pg_tables \<Rightarrow> pg_tables) \<Rightarrow> ('k, 'v) go_map \<Rightarrow> 'k \<Rightarrow> ('v \<Rightarrow> bool) \<Rightarrow>
     ('v \<Rightarrow> 'v) \<Rightarrow> ('v \<Rightarrow> (bool \<times> string) list) \<Rightarrow> pg_tables \<Rightarrow> go_error + 'v option \<times> pg_tables"
  where "update_row upd m k P f guard db =
     (case get_map m k of
        None \<Rightarrow> Inr (None, db)
      | Some v \<Rightarrow> if P v then checked (guard (f v)) (Some (f v)) (upd (\<lambda>_. set_map k (f v) m) db) else Inr (None, db))"

section \<open>Rows and their constraints\<close>

text \<open>For each table: the row as its columns hold it, and the constraints on it, the foreign keys
  included. Uniqueness is checked by the statements that insert.\<close>

definition users_row :: "User \<Rightarrow> User" where
  "users_row u = u\<lparr>User_Sub := bpchar 26 (User_Sub u), User_DisplayNameCached := varchar 255 (User_DisplayNameCached u),
     User_DisplayIDCached := varchar 64 (User_DisplayIDCached u), User_IconURLCached := varchar 1024 (User_IconURLCached u),
     User_ProfileRefreshedAt := timestamptz (User_ProfileRefreshedAt u), User_BannerURL := varchar 1024 (User_BannerURL u),
     User_CreatedAt := timestamptz (User_CreatedAt u)\<rparr>"

definition users_checks :: "User \<Rightarrow> (bool \<times> string) list" where
  "users_checks u =
     [(fits_char 26 (User_Sub u), too_long), (fits_varchar 255 (User_DisplayNameCached u), too_long),
      (fits_varchar 64 (User_DisplayIDCached u), too_long), (fits_varchar 1024 (User_IconURLCached u), too_long),
      (fits_varchar 1024 (User_BannerURL u), too_long),
      (int8 (User_FollowersCount u), out_of_range), (int8 (User_FollowingCount u), out_of_range)]"

definition posts_row :: "Post \<Rightarrow> Post" where
  "posts_row p = p\<lparr>Post_ID := bpchar 26 (Post_ID p), Post_UserID := bpchar 26 (Post_UserID p),
     Post_ParentPostID := map_option (bpchar 26) (Post_ParentPostID p),
     Post_RootPostID := map_option (bpchar 26) (Post_RootPostID p), Post_Visibility := varchar 16 (Post_Visibility p)\<rparr>"

definition posts_checks :: "pg_tables \<Rightarrow> Post \<Rightarrow> (bool \<times> string) list" where
  "posts_checks db p =
     [(fits_char 26 (Post_ID p), too_long), (fits_char 26 (Post_UserID p), too_long),
      (pred_option (fits_char 26) (Post_ParentPostID p), too_long), (pred_option (fits_char 26) (Post_RootPostID p), too_long),
      (fits_varchar 16 (Post_Visibility p), too_long),
      (int4 (Post_LikesCount p), out_of_range), (int8 (Post_RepliesCount p), out_of_range),
      (1 \<le> RuneCountInString (Post_Content p) \<and> RuneCountInString (Post_Content p) \<le> 120, check_failed),
      (has_key (t_users db) (bpchar 26 (Post_UserID p)), no_such_key),
      (pred_option (\<lambda>q. has_key (t_posts db) (bpchar 26 q) \<or> bpchar 26 q = bpchar 26 (Post_ID p)) (Post_ParentPostID p), no_such_key),
      (pred_option (\<lambda>q. has_key (t_posts db) (bpchar 26 q) \<or> bpchar 26 q = bpchar 26 (Post_ID p)) (Post_RootPostID p), no_such_key)]"

definition images_row :: "Image \<Rightarrow> Image" where
  "images_row m = m\<lparr>Image_ID := bpchar 26 (Image_ID m), Image_StorageKey := varchar 2000 (Image_StorageKey m),
     Image_FileName := varchar 500 (Image_FileName m), Image_MimeType := varchar 100 (Image_MimeType m),
     Image_PublicURL := varchar 2000 (Image_PublicURL m), Image_UserID := bpchar 26 (Image_UserID m)\<rparr>"

definition images_checks :: "pg_tables \<Rightarrow> Image \<Rightarrow> (bool \<times> string) list" where
  "images_checks db m =
     [(fits_char 26 (Image_ID m), too_long), (fits_varchar 2000 (Image_StorageKey m), too_long),
      (fits_varchar 500 (Image_FileName m), too_long), (fits_varchar 100 (Image_MimeType m), too_long),
      (int8 (Image_FileSize m), out_of_range), (fits_varchar 2000 (Image_PublicURL m), too_long),
      (fits_char 26 (Image_UserID m), too_long), (has_key (t_users db) (bpchar 26 (Image_UserID m)), no_such_key)]"

text \<open>Link tables; their keys are already padded.\<close>

definition post_images_checks :: "pg_tables \<Rightarrow> string \<times> string \<Rightarrow> int \<Rightarrow> (bool \<times> string) list" where
  "post_images_checks db k pos =
     [(int2 pos, out_of_range), (0 \<le> pos \<and> pos < 4, check_failed),
      (has_key (t_posts db) (fst k), no_such_key), (has_key (t_images db) (snd k), no_such_key)]"

definition post_tags_checks :: "pg_tables \<Rightarrow> string \<times> string \<Rightarrow> (bool \<times> string) list" where
  "post_tags_checks db k = [(has_key (t_posts db) (fst k), no_such_key), (has_key (t_tags db) (snd k), no_such_key)]"

definition post_ogp_checks :: "pg_tables \<Rightarrow> string \<times> string \<Rightarrow> int \<Rightarrow> (bool \<times> string) list" where
  "post_ogp_checks db k pos =
     [(int2 pos, out_of_range), (has_key (t_posts db) (fst k), no_such_key), (has_key (t_ogp_cache db) (snd k), no_such_key)]"

definition likes_checks :: "pg_tables \<Rightarrow> string \<times> string \<Rightarrow> (bool \<times> string) list" where
  "likes_checks db k = [(has_key (t_users db) (fst k), no_such_key), (has_key (t_posts db) (snd k), no_such_key)]"

definition follows_checks :: "pg_tables \<Rightarrow> string \<times> string \<Rightarrow> (bool \<times> string) list" where
  "follows_checks db k = [(fst k \<noteq> snd k, check_failed),
     (has_key (t_users db) (fst k), no_such_key), (has_key (t_users db) (snd k), no_such_key)]"

definition tags_checks :: "Tag \<Rightarrow> (bool \<times> string) list" where
  "tags_checks t = [(fits_char 26 (Tag_ID t), too_long), (fits_varchar 64 (Tag_Name t), too_long)]"

definition badges_row :: "Badge \<Rightarrow> Badge" where
  "badges_row b = b\<lparr>Badge_ID := bpchar 26 (Badge_ID b), Badge_Key := varchar 64 (Badge_Key b),
     Badge_Label := varchar 64 (Badge_Label b), Badge_IconURL := varchar 1024 (Badge_IconURL b),
     Badge_Color := varchar 16 (Badge_Color b)\<rparr>"

definition badges_checks :: "Badge \<Rightarrow> (bool \<times> string) list" where
  "badges_checks b =
     [(fits_char 26 (Badge_ID b), too_long), (fits_varchar 64 (Badge_Key b), too_long), (fits_varchar 64 (Badge_Label b), too_long),
      (fits_varchar 1024 (Badge_IconURL b), too_long), (fits_varchar 16 (Badge_Color b), too_long),
      (int4 (Badge_Priority b), out_of_range)]"

definition user_badges_row :: "UserBadge \<Rightarrow> UserBadge" where
  "user_badges_row g = g\<lparr>UB_UserID := bpchar 26 (UB_UserID g), UB_BadgeID := bpchar 26 (UB_BadgeID g),
     UB_GrantedBy := bpchar 26 (UB_GrantedBy g), UB_ExpiresAt := map_option timestamptz (UB_ExpiresAt g),
     UB_Reason := varchar 255 (UB_Reason g)\<rparr>"

definition user_badges_checks :: "pg_tables \<Rightarrow> UserBadge \<Rightarrow> (bool \<times> string) list" where
  "user_badges_checks db g =
     [(fits_char 26 (UB_GrantedBy g), too_long), (fits_varchar 255 (UB_Reason g), too_long),
      (has_key (t_users db) (bpchar 26 (UB_UserID g)), no_such_key), (has_key (t_badges db) (bpchar 26 (UB_BadgeID g)), no_such_key)]"

definition ogp_cache_row :: "OGPPreview \<Rightarrow> OGPPreview" where
  "ogp_cache_row p = p\<lparr>Prev_URLHash := bpchar 64 (Prev_URLHash p), Prev_URL := varchar 2048 (Prev_URL p),
     Prev_Title := varchar 512 (Prev_Title p), Prev_Description := varchar 1024 (Prev_Description p),
     Prev_ImageURL := varchar 2048 (Prev_ImageURL p), Prev_SiteName := varchar 255 (Prev_SiteName p),
     Prev_CanonicalURL := varchar 2048 (Prev_CanonicalURL p), Prev_FetchedAt := timestamptz (Prev_FetchedAt p),
     Prev_ExpiresAt := timestamptz (Prev_ExpiresAt p), Prev_ErrorReason := varchar 255 (Prev_ErrorReason p)\<rparr>"

definition ogp_cache_checks :: "OGPPreview \<Rightarrow> (bool \<times> string) list" where
  "ogp_cache_checks p =
     [(fits_char 64 (Prev_URLHash p), too_long), (fits_varchar 2048 (Prev_URL p), too_long),
      (fits_varchar 512 (Prev_Title p), too_long), (fits_varchar 1024 (Prev_Description p), too_long),
      (fits_varchar 2048 (Prev_ImageURL p), too_long), (fits_varchar 255 (Prev_SiteName p), too_long),
      (fits_varchar 2048 (Prev_CanonicalURL p), too_long), (fits_varchar 255 (Prev_ErrorReason p), too_long)]"

definition ogp_jobs_checks :: "pg_tables \<Rightarrow> ogp_jobs_row \<Rightarrow> (bool \<times> string) list" where
  "ogp_jobs_checks db j =
     [(fits_char 26 (Job_ID (job_row j)), too_long), (fits_char 64 (Job_URLHash (job_row j)), too_long),
      (fits_varchar 2048 (Job_URL (job_row j)), too_long), (pred_option (fits_char 26) (job_post_id j), too_long),
      (int2 (Job_Position (job_row j)), out_of_range), (int4 (Job_Attempts (job_row j)), out_of_range),
      (fits_varchar 512 (Job_LastError (job_row j)), too_long),
      (pred_option (\<lambda>q. has_key (t_posts db) (bpchar 26 q)) (job_post_id j), no_such_key)]"

end
