(* ===== verification/Pg_Driver.thy ===== *)
theory Pg_Driver
  imports Pg_Schema
begin

text \<open>
  The PostgreSQL backend, second part: the calls of the pgx driver the repositories make, and
  \<open>pkg/db/tx.go\<close>. The driver and the network are not part of the repository. They are the argument
  \<open>drv\<close> of every operation: what becomes of the \<open>n\<close>-th call to the server. A call is served, or it
  fails before it had any effect, or its effect is in but the reply is lost.
\<close>

section \<open>The driver\<close>

datatype pg_outcome = Served | Refused go_error | Lost go_error

type_synonym pg_driver = "nat \<Rightarrow> pg_outcome"

record pg = runtime +
  pg_db :: pg_tables
  pg_calls :: nat

definition ErrNoRows :: go_error where
  "ErrNoRows = Sentinel ''no rows in result set''"

definition next_call :: "pg_driver \<Rightarrow> (pg, pg_outcome) state" where
  "next_call drv = State (\<lambda>s. (drv (pg_calls s), s\<lparr>pg_calls := Suc (pg_calls s)\<rparr>))"

definition visit_order :: "(pg, nat list) state" where
  "visit_order = State (\<lambda>s. (rt_order s (rt_ranges s), s\<lparr>rt_ranges := Suc (rt_ranges s)\<rparr>))"

text \<open>One statement in a transaction that began at \<open>now\<close>.\<close>

definition tx_run :: "pg_driver \<Rightarrow> time \<Rightarrow> 'a sql \<Rightarrow> (pg, 'a) fallible" where
  "tx_run drv now q = do {
     outcome \<leftarrow> next_call drv;
     ord \<leftarrow> visit_order;
     db \<leftarrow> gets pg_db;
     case outcome of
       Refused e \<Rightarrow> ret (Inl e)
     | Served \<Rightarrow>
         (case q now ord db of
            Inl e \<Rightarrow> ret (Inl e)
          | Inr (x, db') \<Rightarrow> do { modify (pg_db_update (\<lambda>_. db')); ret (Inr x) })
     | Lost e \<Rightarrow>
         (case q now ord db of
            Inl _ \<Rightarrow> ret (Inl e)
          | Inr (x, db') \<Rightarrow> do { modify (pg_db_update (\<lambda>_. db')); ret (Inl e) })
   }"

text \<open>\<open>pool.Exec\<close> and \<open>pool.Query\<close>: a statement that is its own transaction.\<close>

definition pool_run :: "pg_driver \<Rightarrow> 'a sql \<Rightarrow> (pg, 'a) fallible" where
  "pool_run drv q = do { now \<leftarrow> Now; tx_run drv (timestamptz now) q }"

text \<open>\<open>QueryRow(...).Scan(...)\<close>: an empty result is \<open>pgx.ErrNoRows\<close>.\<close>

definition scan_row :: "(pg, 'a option) fallible \<Rightarrow> (pg, 'a) fallible" where
  "scan_row m = bind_or m id (\<lambda>r. case r of None \<Rightarrow> ret (Inl ErrNoRows) | Some x \<Rightarrow> ret (Inr x))"

definition pool_QueryRow :: "pg_driver \<Rightarrow> 'a option sql \<Rightarrow> (pg, 'a) fallible" where
  "pool_QueryRow drv q = scan_row (pool_run drv q)"

text \<open>\<open>rows.Err()\<close> after the last \<open>rows.Next()\<close>: the connection may break while rows are read.\<close>

definition rows_Err :: "pg_driver \<Rightarrow> (pg, unit) fallible" where
  "rows_Err drv = do {
     outcome \<leftarrow> next_call drv;
     case outcome of Served \<Rightarrow> ret (Inr ()) | Refused e \<Rightarrow> ret (Inl e) | Lost e \<Rightarrow> ret (Inl e)
   }"

text \<open>\<open>fmt.Errorf("postgres: op: %w", err)\<close>.\<close>

definition pgerr :: "string \<Rightarrow> go_error \<Rightarrow> go_error" where
  "pgerr op err = WrapError (''postgres: '' @ op @ '': '' @ Error err) err"

text \<open>The shape of every list method: query, read all rows, check \<open>rows.Err\<close>.\<close>

definition query_rows :: "pg_driver \<Rightarrow> string \<Rightarrow> string \<Rightarrow> 'a list sql \<Rightarrow> ('a list \<Rightarrow> 'b) \<Rightarrow> (pg, 'b) fallible" where
  "query_rows drv op iter q f =
     bind_or (pool_run drv q) (pgerr op) (\<lambda>rows.
     bind_or (rows_Err drv) (pgerr iter) (\<lambda>_. ret (Inr (f rows))))"

text \<open>The shape of the methods that return \<open>(nil, nil)\<close> for a missing row.\<close>

definition find_row :: "pg_driver \<Rightarrow> string \<Rightarrow> 'a option sql \<Rightarrow> (pg, 'a option) fallible" where
  "find_row drv op q = do {
     r \<leftarrow> pool_QueryRow drv q;
     case r of
       Inl err \<Rightarrow> if errors_Is err ErrNoRows then ret (Inr None) else ret (Inl (pgerr op err))
     | Inr x \<Rightarrow> ret (Inr (Some x))
   }"

text \<open>Rows grouped by their first column, as \<open>out[k] = append(out[k], v)\<close> does.\<close>

definition group_rows :: "('k \<times> 'v) list \<Rightarrow> 'k \<rightharpoonup> 'v list" where
  "group_rows rows = fold (\<lambda>(k, v) out. out(k \<mapsto> (case out k of Some vs \<Rightarrow> vs | None \<Rightarrow> []) @ [v])) rows Map.empty"

section \<open>Transactions\<close>

text \<open>
  \<open>pkg/db/tx.go\<close>, \<open>WithTx\<close>. The body gets the time of \<open>Begin\<close>; rolling back puts the tables back
  as they were then. A commit that fails leaves them so as well, unless only its reply was lost.
\<close>

definition txerr :: "string \<Rightarrow> go_error \<Rightarrow> go_error" where
  "txerr op err = WrapError (''db: '' @ op @ '': '' @ Error err) err"

definition WithTx :: "pg_driver \<Rightarrow> (time \<Rightarrow> (pg, 'a) fallible) \<Rightarrow> (pg, 'a) fallible" where
  "WithTx drv fn = do {
     begun \<leftarrow> next_call drv;
     case begun of
       Refused err \<Rightarrow> ret (Inl (txerr ''begin tx'' err))
     | Lost err \<Rightarrow> ret (Inl (txerr ''begin tx'' err))
     | Served \<Rightarrow> do {
         now \<leftarrow> Now;
         before \<leftarrow> gets pg_db;
         r \<leftarrow> fn (timestamptz now);
         case r of
           Inl err \<Rightarrow> do { modify (pg_db_update (\<lambda>_. before)); ret (Inl err) }
         | Inr x \<Rightarrow> do {
             committed \<leftarrow> next_call drv;
             case committed of
               Served \<Rightarrow> ret (Inr x)
             | Refused err \<Rightarrow> do {
                 modify (pg_db_update (\<lambda>_. before));
                 ret (Inl (txerr ''commit tx'' err)) }
             | Lost err \<Rightarrow> ret (Inl (txerr ''commit tx'' err))
           }
       }
   }"

section \<open>What a call does\<close>

text \<open>
  \<open>sql_ok drv\<close>: what the contracts below rely on of the driver, as the documentation of pgx has it. It
  reports \<open>pgx.ErrNoRows\<close> only for an empty result, never for a call that failed. \<open>loses drv\<close>: some reply
  gets lost, so that an error may hide an effect.
\<close>

definition sql_ok :: "pg_driver \<Rightarrow> bool" where
  "sql_ok drv \<longleftrightarrow> (\<forall>n e. drv n = Refused e \<or> drv n = Lost e \<longrightarrow> \<not> errors_Is e ErrNoRows)"

definition loses :: "pg_driver \<Rightarrow> bool" where
  "loses drv \<longleftrightarrow> (\<exists>n e. drv n = Lost e)"

lemma run_next_call [run_simps]:
  "run_state (next_call drv) s = (drv (pg_calls s), s\<lparr>pg_calls := Suc (pg_calls s)\<rparr>)"
  by (simp add: next_call_def)

lemma run_visit_order [run_simps]:
  "run_state visit_order s = (rt_order s (rt_ranges s), s\<lparr>rt_ranges := Suc (rt_ranges s)\<rparr>)"
  by (simp add: visit_order_def)

text \<open>Two states differ in the tables only by \<open>f\<close>; the readings of the environment move on.\<close>

definition moved :: "pg \<Rightarrow> pg_tables \<Rightarrow> pg \<Rightarrow> bool" where
  "moved s d t \<longleftrightarrow> pg_db t = d \<and> rt_clock t = rt_clock s \<and> rt_ulid t = rt_ulid s \<and> rt_order t = rt_order s \<and> rt_ids t = rt_ids s"

lemma moved_refl [simp]: "moved s (pg_db s) s"
  by (simp add: moved_def)

lemma moved_trans: "moved s d t \<Longrightarrow> moved t d' u \<Longrightarrow> moved s d' u"
  by (simp add: moved_def)

lemma moved_db: "moved s d t \<Longrightarrow> pg_db t = d"
  by (simp add: moved_def)

text \<open>A statement, run on its own or in a transaction: it is served, or it is an error; an error may
  come from a constraint, from a call that had no effect, or from a lost reply.\<close>

lemma tx_run_cases:
  assumes "run_state (tx_run drv now q) s = (r, t)"
  obtains (served) x d where "r = Inr x" "q now (rt_order s (rt_ranges s)) (pg_db s) = Inr (x, d)" "moved s d t"
    | (failed) e where "r = Inl e" "moved s (pg_db s) t"
        "q now (rt_order s (rt_ranges s)) (pg_db s) = Inl e \<or> (\<exists>n. drv n = Refused e \<or> drv n = Lost e)"
    | (lost) e n x d where "r = Inl e" "drv n = Lost e" "q now (rt_order s (rt_ranges s)) (pg_db s) = Inr (x, d)" "moved s d t"
  using assms
  by (auto simp: tx_run_def run_simps moved_def split: pg_outcome.splits sum.splits prod.splits) metis+

lemma pool_run_cases:
  assumes "run_state (pool_run drv q) s = (r, t)"
  obtains (served) now ord x d where "r = Inr x" "q now ord (pg_db s) = Inr (x, d)" "moved s d t"
    | (failed) now ord e where "r = Inl e" "moved s (pg_db s) t"
        "q now ord (pg_db s) = Inl e \<or> (\<exists>n. drv n = Refused e \<or> drv n = Lost e)"
    | (lost) now ord e n x d where "r = Inl e" "drv n = Lost e" "q now ord (pg_db s) = Inr (x, d)" "moved s d t"
proof -
  let ?s = "s\<lparr>rt_ticks := Suc (rt_ticks s)\<rparr>"
  have run: "run_state (tx_run drv (timestamptz (rt_clock s (rt_ticks s))) q) ?s = (r, t)"
    using assms by (simp add: pool_run_def run_simps)
  have same: "moved ?s d t \<longleftrightarrow> moved s d t" for d by (simp add: moved_def)
  show thesis
    using run by (rule tx_run_cases) (rule that, simp_all add: same)+
qed

text \<open>Reads and writes one after another: \<open>keeps I m\<close> says that \<open>m\<close> keeps \<open>I\<close> of the tables, whatever
  the driver does; \<open>sql_keeps\<close> is the same of one statement.\<close>

definition keeps :: "(pg_tables \<Rightarrow> bool) \<Rightarrow> (pg, 'a) state \<Rightarrow> bool" where
  "keeps I m \<longleftrightarrow> (\<forall>s. I (pg_db s) \<longrightarrow> I (pg_db (snd (run_state m s))))"

definition sql_keeps :: "(pg_tables \<Rightarrow> bool) \<Rightarrow> 'a sql \<Rightarrow> bool" where
  "sql_keeps I q \<longleftrightarrow> (\<forall>now ord db x d. I db \<longrightarrow> q now ord db = Inr (x, d) \<longrightarrow> I d)"

named_theorems keeps_rules \<open>the invariant of the tables, step by step\<close>

lemma sql_keepsI:
  "(\<And>now ord db x d. I db \<Longrightarrow> q now ord db = Inr (x, d) \<Longrightarrow> I d) \<Longrightarrow> sql_keeps I q"
  by (simp add: sql_keeps_def)

lemma keep_ret [keeps_rules]: "keeps I (ret x)"
  by (simp add: keeps_def)

lemma keep_bind [keeps_rules]: "keeps I m \<Longrightarrow> (\<And>x. keeps I (k x)) \<Longrightarrow> keeps I (m \<bind> k)"
  by (simp add: keeps_def split: prod.split) (metis snd_conv)

lemma keep_bind_or [keeps_rules]: "keeps I m \<Longrightarrow> (\<And>x. keeps I (k x)) \<Longrightarrow> keeps I (bind_or m wrap k)"
  unfolding bind_or_def by (intro keep_bind) (auto split: sum.split intro: keep_ret)

lemma keeps_if [keeps_rules]: "(b \<Longrightarrow> keeps I m) \<Longrightarrow> (\<not> b \<Longrightarrow> keeps I n) \<Longrightarrow> keeps I (if b then m else n)"
  by simp

lemma keeps_option [keeps_rules]:
  "keeps I m \<Longrightarrow> (\<And>x. keeps I (f x)) \<Longrightarrow> keeps I (case y of None \<Rightarrow> m | Some x \<Rightarrow> f x)"
  by (cases y) auto

lemma keeps_sum [keeps_rules]:
  "(\<And>x. keeps I (f x)) \<Longrightarrow> (\<And>x. keeps I (g x)) \<Longrightarrow> keeps I (case y of Inl x \<Rightarrow> f x | Inr x \<Rightarrow> g x)"
  by (cases y) auto

lemma keeps_outcome [keeps_rules]:
  "keeps I m \<Longrightarrow> (\<And>x. keeps I (f x)) \<Longrightarrow> (\<And>x. keeps I (g x)) \<Longrightarrow>
   keeps I (case y of Served \<Rightarrow> m | Refused x \<Rightarrow> f x | Lost x \<Rightarrow> g x)"
  by (cases y) auto

lemma keeps_Let [keeps_rules]: "keeps I (f x) \<Longrightarrow> keeps I (let y = x in f y)"
  by simp

lemma keeps_env [keeps_rules]: "keeps I Now" "keeps I ulid_Make" "keeps I (next_call drv)" "keeps I visit_order"
  by (simp_all add: keeps_def run_simps)

lemma keeps_tx_run [keeps_rules]: "sql_keeps I q \<Longrightarrow> keeps I (tx_run drv now q)"
  unfolding keeps_def sql_keeps_def
proof (intro allI impI)
  fix s :: pg assume q: "\<forall>now ord db x d. I db \<longrightarrow> q now ord db = Inr (x, d) \<longrightarrow> I d" and s: "I (pg_db s)"
  obtain r t where rt: "run_state (tx_run drv now q) s = (r, t)" by fastforce
  then show "I (pg_db (snd (run_state (tx_run drv now q) s)))"
    by (rule tx_run_cases) (use rt q s in \<open>auto dest: moved_db\<close>)
qed

lemma keeps_pool_run [keeps_rules]: "sql_keeps I q \<Longrightarrow> keeps I (pool_run drv q)"
  unfolding pool_run_def by (intro keeps_rules)

lemma keeps_QueryRow [keeps_rules]: "sql_keeps I q \<Longrightarrow> keeps I (pool_QueryRow drv q)"
  unfolding pool_QueryRow_def scan_row_def by (intro keeps_rules)

lemma keeps_rows_Err [keeps_rules]: "keeps I (rows_Err drv)"
  unfolding rows_Err_def by (intro keeps_rules)

lemma sql_keeps_select [keeps_rules]: "sql_keeps I (select f)"
  by (simp add: sql_keeps_def select_def)

lemma keeps_query_rows [keeps_rules]: "sql_keeps I q \<Longrightarrow> keeps I (query_rows drv op iter q f)"
  unfolding query_rows_def by (intro keeps_rules)

lemma keeps_find_row [keeps_rules]: "sql_keeps I q \<Longrightarrow> keeps I (find_row drv op q)"
  unfolding find_row_def by (intro keeps_rules)

text \<open>A transaction is all or nothing: an error leaves the tables as they were, or what the body did
  is in as a whole and only the reply to the commit was lost.\<close>

lemma WithTx_cases:
  assumes "run_state (WithTx drv fn) s = (r, t)"
  obtains (nothing) e where "r = Inl e" "pg_db t = pg_db s"
    | (all) now x s' t' where "pg_db s' = pg_db s" "run_state (fn now) s' = (Inr x, t')" "pg_db t = pg_db t'"
        "r = Inr x \<or> (\<exists>n e. drv n = Lost e \<and> r = Inl (txerr ''commit tx'' e))"
proof (cases "drv (pg_calls s)")
  case Served
  define s' where "s' = s\<lparr>pg_calls := Suc (pg_calls s), rt_ticks := Suc (rt_ticks s)\<rparr>"
  define now where "now = timestamptz (rt_clock s (rt_ticks s))"
  obtain b t' where b: "run_state (fn now) s' = (b, t')" by fastforce
  have s': "pg_db s' = pg_db s" by (simp add: s'_def)
  have "run_state (WithTx drv fn) s = (case b of Inl e \<Rightarrow> (Inl e, t'\<lparr>pg_db := pg_db s\<rparr>)
     | Inr x \<Rightarrow> (case drv (pg_calls t') of
         Served \<Rightarrow> (Inr x, t'\<lparr>pg_calls := Suc (pg_calls t')\<rparr>)
       | Refused e \<Rightarrow> (Inl (txerr ''commit tx'' e), t'\<lparr>pg_calls := Suc (pg_calls t'), pg_db := pg_db s\<rparr>)
       | Lost e \<Rightarrow> (Inl (txerr ''commit tx'' e), t'\<lparr>pg_calls := Suc (pg_calls t')\<rparr>)))"
    using Served b unfolding s'_def now_def
    by (cases b; cases "drv (pg_calls t')") (simp_all add: WithTx_def run_simps)
  note r = this [unfolded assms]
  show ?thesis
  proof (cases b)
    case (Inr x)
    then show ?thesis
      using r b s' that(1) that(2) [OF s', of now x t'] by (cases "drv (pg_calls t')") auto
  qed (use r that(1) in auto)
qed (use assms that(1) in \<open>auto simp: WithTx_def run_simps\<close>)

text \<open>Rolling back returns to tables that met the invariant.\<close>

lemma keeps_WithTx [keeps_rules]:
  assumes "\<And>now. keeps I (fn now)" shows "keeps I (WithTx drv fn)"
  unfolding keeps_def
proof (intro allI impI)
  fix s :: pg assume s: "I (pg_db s)"
  obtain r t where rt: "run_state (WithTx drv fn) s = (r, t)" by fastforce
  then show "I (pg_db (snd (run_state (WithTx drv fn) s)))"
  proof (rule WithTx_cases)
    fix now x s' t' assume "pg_db s' = pg_db s" "run_state (fn now) s' = (Inr x, t')" "pg_db t = pg_db t'"
    then show ?thesis
      using assms [of now] s rt unfolding keeps_def by (metis snd_conv)
  qed (use rt s in simp)
qed

end
