(* ===== verification/Pg_User.thy ===== *)
theory Pg_User
  imports Pg_Driver
begin

text \<open>\<open>postgres.UserRepository\<close>.\<close>

section \<open>Statements\<close>

text \<open>\<open>UPDATE users SET ... , updated_at = NOW() WHERE sub = $1 AND P RETURNING *\<close>.\<close>

definition update_users :: "string \<Rightarrow> (User \<Rightarrow> bool) \<Rightarrow> (User \<Rightarrow> User) \<Rightarrow> User option sql" where
  "update_users sub P f now ord db =
     update_row t_users_update (t_users db) (bpchar 26 sub) P (\<lambda>u. (f u)\<lparr>User_UpdatedAt := now\<rparr>)
       (\<lambda>u. [(int8 (User_FollowersCount u), out_of_range), (int8 (User_FollowingCount u), out_of_range)]) db"

text \<open>\<open>INSERT INTO users ... ON CONFLICT (sub) DO UPDATE\<close>: the row to insert is checked in any case,
  then the row that results.\<close>

definition upsert_users :: "User \<Rightarrow> User option sql" where
  "upsert_users user now ord db =
     (case violation (users_checks user) of
        Some e \<Rightarrow> Inl e
      | None \<Rightarrow>
          (let excluded = (users_row user)\<lparr>User_UpdatedAt := now, User_DeletedAt := None\<rparr>;
               sub = User_Sub excluded
           in case get_map (t_users db) sub of
                None \<Rightarrow> Inr (Some excluded, db\<lparr>t_users := set_map sub excluded (t_users db)\<rparr>)
              | Some u \<Rightarrow>
                  (let u' = u\<lparr>User_DisplayNameCached := User_DisplayNameCached excluded,
                        User_DisplayIDCached := User_DisplayIDCached excluded,
                        User_IconURLCached := User_IconURLCached excluded,
                        User_ProfileRefreshedAt := User_ProfileRefreshedAt excluded,
                        User_Bio := (if User_Bio excluded = [] then User_Bio u else User_Bio excluded),
                        User_BannerURL := (if User_BannerURL excluded = [] then User_BannerURL u else User_BannerURL excluded),
                        User_UpdatedAt := now\<rparr>
                   in Inr (Some u', db\<lparr>t_users := set_map sub u' (t_users db)\<rparr>))))"

text \<open>\<open>ORDER BY created_at DESC, sub DESC\<close>.\<close>

definition users_order :: "User \<Rightarrow> User \<Rightarrow> bool" where
  "users_order a b =
     (if User_CreatedAt a \<noteq> User_CreatedAt b then User_CreatedAt a > User_CreatedAt b
      else rtrim (User_Sub a) > rtrim (User_Sub b))"

definition live_users :: "nat list \<Rightarrow> pg_tables \<Rightarrow> User list" where
  "live_users ord db = filter (\<lambda>u. User_DeletedAt u = None) (rows_of ord (t_users db))"

definition page_users :: "int \<Rightarrow> int \<Rightarrow> User list sql" where
  "page_users limit offset now ord db =
     (if offset < 0 then Inl (sqlstate ''2201X'')
      else Inr (take (nat limit) (drop (nat offset) (sort_slice users_order (live_users ord db))), db))"

section \<open>Methods\<close>

definition PgUser_GetBySub :: "pg_driver \<Rightarrow> string \<Rightarrow> (pg, User option) fallible" where
  "PgUser_GetBySub drv sub =
     find_row drv ''get user by sub'' (select (\<lambda>now ord db. get_map (t_users db) (bpchar 26 sub)))"

definition PgUser_Upsert :: "pg_driver \<Rightarrow> User \<Rightarrow> (pg, User) fallible" where
  "PgUser_Upsert drv user = do {
     createdAt \<leftarrow> (if IsZero (User_CreatedAt user) then Now else ret (User_CreatedAt user));
     bind_or (pool_QueryRow drv (upsert_users (user\<lparr>User_CreatedAt := createdAt\<rparr>))) (pgerr ''upsert user'') (\<lambda>u.
     ret (Inr u))
   }"

definition PgUser_UpdateProfile :: "pg_driver \<Rightarrow> string \<Rightarrow> UpdateUserProfileRequest \<Rightarrow> (pg, User option) fallible" where
  "PgUser_UpdateProfile drv sub req =
     find_row drv ''update user profile'' (\<lambda>now ord db.
       case violation [(pred_option (fits_varchar 1024) (UpdReq_BannerURL req), too_long)] of
         Some e \<Rightarrow> (if has_key (t_users db) (bpchar 26 sub) then Inl e else Inr (None, db))
       | None \<Rightarrow> update_users sub (\<lambda>_. True) (\<lambda>u. u\<lparr>
           User_Bio := (case UpdReq_Bio req of Some b \<Rightarrow> b | None \<Rightarrow> User_Bio u),
           User_BannerURL := (case UpdReq_BannerURL req of Some b \<Rightarrow> varchar 1024 b | None \<Rightarrow> User_BannerURL u)\<rparr>) now ord db)"

definition PgUser_List :: "pg_driver \<Rightarrow> int \<Rightarrow> int \<Rightarrow> (pg, User list \<times> int) fallible" where
  "PgUser_List drv limit offset =
     bind_or (pool_QueryRow drv (select (\<lambda>now ord db. Some (int (length (live_users ord db)))))) (pgerr ''count users'') (\<lambda>total.
     if limit \<le> 0 \<or> total = 0 then ret (Inr ([], total))
     else query_rows drv ''list users'' ''list users iterate'' (page_users limit offset) (\<lambda>out. (out, total)))"

definition PgUser_ListBySubs :: "pg_driver \<Rightarrow> string list \<Rightarrow> (pg, string \<rightharpoonup> User) fallible" where
  "PgUser_ListBySubs drv subs =
     (if subs = [] then ret (Inr Map.empty)
      else query_rows drv ''list users by subs'' ''list users by subs iterate''
        (select (\<lambda>now ord db. filter (\<lambda>u. User_Sub u \<in> bpchar 26 ` set subs) (live_users ord db)))
        (\<lambda>rows. fold (\<lambda>u out. out(User_Sub u \<mapsto> u)) rows Map.empty))"

text \<open>The counters and the soft delete ignore the number of rows affected.\<close>

definition exec_users :: "pg_driver \<Rightarrow> string \<Rightarrow> string \<Rightarrow> (User \<Rightarrow> bool) \<Rightarrow> (time \<Rightarrow> User \<Rightarrow> User) \<Rightarrow> (pg, unit) fallible" where
  "exec_users drv op sub P f =
     bind_or (pool_run drv (\<lambda>now. update_users sub P (f now) now)) (pgerr op) (\<lambda>_. ret (Inr ()))"

definition PgUser_IncrementFollowersCount :: "pg_driver \<Rightarrow> string \<Rightarrow> (pg, unit) fallible" where
  "PgUser_IncrementFollowersCount drv sub = exec_users drv ''inc followers_count'' sub (\<lambda>_. True)
     (\<lambda>_ u. u\<lparr>User_FollowersCount := User_FollowersCount u + 1\<rparr>)"

definition PgUser_DecrementFollowersCount :: "pg_driver \<Rightarrow> string \<Rightarrow> (pg, unit) fallible" where
  "PgUser_DecrementFollowersCount drv sub = exec_users drv ''dec followers_count'' sub (\<lambda>_. True)
     (\<lambda>_ u. u\<lparr>User_FollowersCount := max (User_FollowersCount u - 1) 0\<rparr>)"

definition PgUser_IncrementFollowingCount :: "pg_driver \<Rightarrow> string \<Rightarrow> (pg, unit) fallible" where
  "PgUser_IncrementFollowingCount drv sub = exec_users drv ''inc following_count'' sub (\<lambda>_. True)
     (\<lambda>_ u. u\<lparr>User_FollowingCount := User_FollowingCount u + 1\<rparr>)"

definition PgUser_DecrementFollowingCount :: "pg_driver \<Rightarrow> string \<Rightarrow> (pg, unit) fallible" where
  "PgUser_DecrementFollowingCount drv sub = exec_users drv ''dec following_count'' sub (\<lambda>_. True)
     (\<lambda>_ u. u\<lparr>User_FollowingCount := max (User_FollowingCount u - 1) 0\<rparr>)"

definition PgUser_Delete :: "pg_driver \<Rightarrow> string \<Rightarrow> (pg, unit) fallible" where
  "PgUser_Delete drv sub = exec_users drv ''delete user'' sub (\<lambda>u. User_DeletedAt u = None)
     (\<lambda>now u. u\<lparr>User_DeletedAt := Some now\<rparr>)"

definition PgUserRepository :: "pg_driver \<Rightarrow> pg UserRepository" where
  "PgUserRepository drv =
     \<lparr>users_GetBySub = PgUser_GetBySub drv, users_Upsert = PgUser_Upsert drv,
      users_UpdateProfile = PgUser_UpdateProfile drv, users_List = PgUser_List drv,
      users_ListBySubs = PgUser_ListBySubs drv,
      users_IncrementFollowersCount = PgUser_IncrementFollowersCount drv,
      users_DecrementFollowersCount = PgUser_DecrementFollowersCount drv,
      users_IncrementFollowingCount = PgUser_IncrementFollowingCount drv,
      users_DecrementFollowingCount = PgUser_DecrementFollowingCount drv,
      users_Delete = PgUser_Delete drv\<rparr>"

end
