(* ===== verification/Pg_Post.thy ===== *)
theory Pg_Post
  imports Pg_Driver
begin

text \<open>\<open>postgres.PostRepository\<close>.\<close>

section \<open>Statements\<close>

definition insert_posts :: "Post \<Rightarrow> Post option sql" where
  "insert_posts post now ord db =
     (let row = (posts_row post)\<lparr>Post_CreatedAt := now, Post_UpdatedAt := now, Post_DeletedAt := None\<rparr>
      in checked (posts_checks db post @ [(\<not> has_key (t_posts db) (Post_ID row), duplicate_key)])
           (Some row) (db\<lparr>t_posts := set_map (Post_ID row) row (t_posts db)\<rparr>))"

definition insert_post_images :: "string \<Rightarrow> string \<Rightarrow> int \<Rightarrow> nat sql" where
  "insert_post_images postID imgID pos now ord db =
     (let k = (bpchar 26 postID, bpchar 26 imgID)
      in checked (post_images_checks db k pos @
             [(\<not> has_key (t_post_images db) k, duplicate_key),
              (\<not> some_row (\<lambda>(p, i) n. p = fst k \<and> n = pos) (t_post_images db), duplicate_key)])
           1 (db\<lparr>t_post_images := set_map k pos (t_post_images db)\<rparr>))"

definition insert_post_tags :: "string \<Rightarrow> string \<Rightarrow> nat sql" where
  "insert_post_tags postID tagID now ord db =
     (let k = (bpchar 26 postID, bpchar 26 tagID)
      in if has_key (t_post_tags db) k then Inr (0, db)
         else checked (post_tags_checks db k) 1 (db\<lparr>t_post_tags := set_map k () (t_post_tags db)\<rparr>))"

text \<open>\<open>ON CONFLICT DO NOTHING\<close> without a target covers the primary key and the position.\<close>

definition insert_post_ogp :: "string \<Rightarrow> string \<Rightarrow> int \<Rightarrow> nat sql" where
  "insert_post_ogp postID urlHash pos now ord db =
     (let k = (bpchar 26 postID, bpchar 64 urlHash)
      in if \<not> int2 pos then Inl (sqlstate out_of_range)
         else if has_key (t_post_ogp db) k \<or> some_row (\<lambda>(p, h) n. p = fst k \<and> n = pos) (t_post_ogp db) then Inr (0, db)
         else checked (post_ogp_checks db k pos) 1 (db\<lparr>t_post_ogp := set_map k pos (t_post_ogp db)\<rparr>))"

text \<open>\<open>UPDATE posts SET ..., updated_at = NOW() WHERE id = $1 AND deleted_at IS NULL\<close>.\<close>

definition update_posts :: "string \<Rightarrow> (Post \<Rightarrow> Post) \<Rightarrow> Post option sql" where
  "update_posts i f now ord db =
     update_row t_posts_update (t_posts db) (bpchar 26 i) (\<lambda>p. Post_DeletedAt p = None)
       (\<lambda>p. (f p)\<lparr>Post_UpdatedAt := now\<rparr>)
       (\<lambda>p. [(int4 (Post_LikesCount p), out_of_range), (int8 (Post_RepliesCount p), out_of_range)]) db"

text \<open>The clauses of a list query; \<open>buildPostListQuery\<close> joins them with \<open>AND\<close>, orders by id
  and cuts at \<open>limit + 1\<close>.\<close>

datatype post_clause =
  Live                        \<comment> \<open>\<open>deleted_at IS NULL\<close>\<close>
| Top_level                   \<comment> \<open>\<open>parent_post_id IS NULL\<close>\<close>
| By_user string              \<comment> \<open>\<open>user_id = $n\<close>\<close>
| By_users "string list"      \<comment> \<open>\<open>user_id = ANY($2)\<close>\<close>
| Reply_to string             \<comment> \<open>\<open>parent_post_id = $2\<close>\<close>
| Before string               \<comment> \<open>\<open>id < $n\<close>\<close>

fun clause_holds :: "Post \<Rightarrow> post_clause \<Rightarrow> bool" where
  "clause_holds p Live \<longleftrightarrow> Post_DeletedAt p = None"
| "clause_holds p Top_level \<longleftrightarrow> Post_ParentPostID p = None"
| "clause_holds p (By_user u) \<longleftrightarrow> Post_UserID p = bpchar 26 u"
| "clause_holds p (By_users us) \<longleftrightarrow> Post_UserID p \<in> bpchar 26 ` set us"
| "clause_holds p (Reply_to i) \<longleftrightarrow> Post_ParentPostID p = Some (bpchar 26 i)"
| "clause_holds p (Before c) \<longleftrightarrow> rtrim (Post_ID p) < rtrim c"

definition posts_order :: "Post \<Rightarrow> Post \<Rightarrow> bool" where
  "posts_order a b \<longleftrightarrow> rtrim (Post_ID a) > rtrim (Post_ID b)"

definition buildPostListQuery :: "post_clause list \<Rightarrow> int64 \<Rightarrow> Post list sql" where
  "buildPostListQuery clauses n now ord db =
     (if n < 0 then Inl (sqlstate ''2201W'')
      else select (\<lambda>now ord db. take (nat n) (sort_slice posts_order
        (filter (\<lambda>p. list_all (clause_holds p) clauses) (rows_of ord (t_posts db))))) now ord db)"

section \<open>Methods\<close>

definition PgPost_GetByID :: "pg_driver \<Rightarrow> string \<Rightarrow> (pg, Post option) fallible" where
  "PgPost_GetByID drv i =
     find_row drv ''get post'' (select (\<lambda>now ord db. case get_map (t_posts db) (bpchar 26 i) of
       Some p \<Rightarrow> if Post_DeletedAt p = None then Some p else None | None \<Rightarrow> None))"

text \<open>The loops over \<open>imageIDs\<close> and \<open>tagIDs\<close> in the transaction of \<open>Create\<close>.\<close>

fun attach_images :: "pg_driver \<Rightarrow> time \<Rightarrow> string \<Rightarrow> int \<Rightarrow> string list \<Rightarrow> (pg, unit) fallible" where
  "attach_images drv now i n [] = ret (Inr ())"
| "attach_images drv now i n (imgID # imageIDs) =
     bind_or (tx_run drv now (insert_post_images i imgID n)) (pgerr ''attach image'') (\<lambda>_.
     attach_images drv now i (n + 1) imageIDs)"

fun attach_tags :: "pg_driver \<Rightarrow> time \<Rightarrow> string \<Rightarrow> string list \<Rightarrow> (pg, unit) fallible" where
  "attach_tags drv now i [] = ret (Inr ())"
| "attach_tags drv now i (tagID # tagIDs) =
     bind_or (tx_run drv now (insert_post_tags i tagID)) (pgerr ''attach tag'') (\<lambda>_.
     attach_tags drv now i tagIDs)"

definition create_post_tx :: "pg_driver \<Rightarrow> Post \<Rightarrow> string list \<Rightarrow> string list \<Rightarrow> time \<Rightarrow> (pg, Post) fallible" where
  "create_post_tx drv post imageIDs tagIDs now =
     (let visibility = (if Post_Visibility post = [] then ''public'' else Post_Visibility post) in
      bind_or (scan_row (tx_run drv now (insert_posts (post\<lparr>Post_Visibility := visibility\<rparr>)))) (pgerr ''insert post'') (\<lambda>p.
      bind_or (attach_images drv now (Post_ID p) 0 imageIDs) id (\<lambda>_.
      bind_or (attach_tags drv now (Post_ID p) tagIDs) id (\<lambda>_.
      ret (Inr p)))))"

definition PgPost_Create :: "pg_driver \<Rightarrow> Post \<Rightarrow> string list \<Rightarrow> string list \<Rightarrow> (pg, Post) fallible" where
  "PgPost_Create drv post imageIDs tagIDs = WithTx drv (create_post_tx drv post imageIDs tagIDs)"

definition exec_posts :: "pg_driver \<Rightarrow> string \<Rightarrow> string \<Rightarrow> (time \<Rightarrow> Post \<Rightarrow> Post) \<Rightarrow> (pg, unit) fallible" where
  "exec_posts drv op i f = bind_or (pool_run drv (\<lambda>now. update_posts i (f now) now)) (pgerr op) (\<lambda>_. ret (Inr ()))"

definition PgPost_Delete :: "pg_driver \<Rightarrow> string \<Rightarrow> (pg, unit) fallible" where
  "PgPost_Delete drv i = exec_posts drv ''delete post'' i (\<lambda>now p. p\<lparr>Post_DeletedAt := Some now\<rparr>)"

text \<open>\<open>scanPostPage\<close>: rows are appended until there is one more than the limit. The slice
  expression and the index cannot fail, since \<open>limit\<close> is positive there.\<close>

fun scan_posts :: "int \<Rightarrow> Post list \<Rightarrow> Post list \<Rightarrow> Post list" where
  "scan_posts limit posts [] = posts"
| "scan_posts limit posts (p # rows) =
     (let posts = posts @ [p] in if int (length posts) > limit then posts else scan_posts limit posts rows)"

definition scanPostPage :: "int \<Rightarrow> Post list \<Rightarrow> Post list \<times> string" where
  "scanPostPage limit rows =
     (let posts = scan_posts limit [] rows in
      if int (length posts) > limit
      then let page = take (nat limit) posts in (page, Post_ID (page ! (nat limit - 1)))
      else (posts, []))"

definition cursor_clause :: "string option \<Rightarrow> post_clause list" where
  "cursor_clause cursor = (case cursor of Some c \<Rightarrow> if c \<noteq> [] then [Before c] else [] | None \<Rightarrow> [])"

definition PgPost_List :: "pg_driver \<Rightarrow> string option \<Rightarrow> string option \<Rightarrow> int \<Rightarrow> (pg, Post list \<times> string) fallible" where
  "PgPost_List drv userID cursor limit =
     (if limit \<le> 0 then ret (Inr ([], []))
      else query_rows drv ''list posts'' ''list posts iterate''
        (buildPostListQuery ([Live, Top_level] @ (case userID of Some u \<Rightarrow> [By_user u] | None \<Rightarrow> []) @ cursor_clause cursor) (wrap64 (limit + 1)))
        (scanPostPage limit))"

definition PgPost_ListByUserIDs :: "pg_driver \<Rightarrow> string list \<Rightarrow> string option \<Rightarrow> int \<Rightarrow> (pg, Post list \<times> string) fallible" where
  "PgPost_ListByUserIDs drv userIDs cursor limit =
     (if limit \<le> 0 \<or> userIDs = [] then ret (Inr ([], []))
      else query_rows drv ''list posts by user ids'' ''list posts iterate''
        (buildPostListQuery ([Live, Top_level, By_users userIDs] @ cursor_clause cursor) (wrap64 (limit + 1)))
        (scanPostPage limit))"

definition PgPost_ListReplies :: "pg_driver \<Rightarrow> string \<Rightarrow> string option \<Rightarrow> int \<Rightarrow> (pg, Post list \<times> string) fallible" where
  "PgPost_ListReplies drv postID cursor limit =
     (if limit \<le> 0 then ret (Inr ([], []))
      else query_rows drv ''list replies'' ''list posts iterate''
        (buildPostListQuery ([Live, Reply_to postID] @ cursor_clause cursor) (wrap64 (limit + 1)))
        (scanPostPage limit))"

definition PgPost_IncrementRepliesCount :: "pg_driver \<Rightarrow> string \<Rightarrow> (pg, unit) fallible" where
  "PgPost_IncrementRepliesCount drv i =
     exec_posts drv ''inc replies_count'' i (\<lambda>_ p. p\<lparr>Post_RepliesCount := Post_RepliesCount p + 1\<rparr>)"

definition PgPost_DecrementRepliesCount :: "pg_driver \<Rightarrow> string \<Rightarrow> (pg, unit) fallible" where
  "PgPost_DecrementRepliesCount drv i =
     exec_posts drv ''dec replies_count'' i (\<lambda>_ p. p\<lparr>Post_RepliesCount := max (Post_RepliesCount p - 1) 0\<rparr>)"

definition PgPost_IncrementLikesCount :: "pg_driver \<Rightarrow> string \<Rightarrow> (pg, unit) fallible" where
  "PgPost_IncrementLikesCount drv i =
     exec_posts drv ''inc likes_count'' i (\<lambda>_ p. p\<lparr>Post_LikesCount := Post_LikesCount p + 1\<rparr>)"

definition PgPost_DecrementLikesCount :: "pg_driver \<Rightarrow> string \<Rightarrow> (pg, unit) fallible" where
  "PgPost_DecrementLikesCount drv i =
     exec_posts drv ''dec likes_count'' i (\<lambda>_ p. p\<lparr>Post_LikesCount := max (Post_LikesCount p - 1) 0\<rparr>)"

definition PgPost_AttachOGP :: "pg_driver \<Rightarrow> string \<Rightarrow> string \<Rightarrow> int \<Rightarrow> (pg, unit) fallible" where
  "PgPost_AttachOGP drv postID urlHash position =
     bind_or (pool_run drv (insert_post_ogp postID urlHash position)) (pgerr ''attach ogp'') (\<lambda>_. ret (Inr ()))"

definition PgPostRepository :: "pg_driver \<Rightarrow> pg PostRepository" where
  "PgPostRepository drv =
     \<lparr>posts_GetByID = PgPost_GetByID drv, posts_Create = PgPost_Create drv, posts_Delete = PgPost_Delete drv,
      posts_List = PgPost_List drv, posts_ListByUserIDs = PgPost_ListByUserIDs drv, posts_ListReplies = PgPost_ListReplies drv,
      posts_IncrementRepliesCount = PgPost_IncrementRepliesCount drv,
      posts_DecrementRepliesCount = PgPost_DecrementRepliesCount drv,
      posts_IncrementLikesCount = PgPost_IncrementLikesCount drv,
      posts_DecrementLikesCount = PgPost_DecrementLikesCount drv, posts_AttachOGP = PgPost_AttachOGP drv\<rparr>"

end
