(* ===== verification/Pg_Like.thy ===== *)
theory Pg_Like
  imports Pg_Driver
begin

text \<open>\<open>postgres.LikeRepository\<close>.\<close>

definition insert_likes :: "string \<Rightarrow> string \<Rightarrow> nat sql" where
  "insert_likes userID postID now ord db =
     (if \<not> fits_char 26 userID \<or> \<not> fits_char 26 postID then Inl (sqlstate too_long)
      else let k = (bpchar 26 userID, bpchar 26 postID)
      in if has_key (t_likes db) k then Inr (0, db)
         else checked (likes_checks db k) 1 (db\<lparr>t_likes := set_map k now (t_likes db)\<rparr>))"

definition delete_likes :: "string \<Rightarrow> string \<Rightarrow> nat sql" where
  "delete_likes userID postID now ord db =
     (let k = (bpchar 26 userID, bpchar 26 postID)
      in if has_key (t_likes db) k then Inr (1, db\<lparr>t_likes := del_map k (t_likes db)\<rparr>) else Inr (0, db))"

definition PgLike_Create :: "pg_driver \<Rightarrow> string \<Rightarrow> string \<Rightarrow> (pg, bool) fallible" where
  "PgLike_Create drv userID postID =
     bind_or (pool_run drv (insert_likes userID postID)) (pgerr ''create like'') (\<lambda>tag. ret (Inr (tag > 0)))"

definition PgLike_Delete :: "pg_driver \<Rightarrow> string \<Rightarrow> string \<Rightarrow> (pg, bool) fallible" where
  "PgLike_Delete drv userID postID =
     bind_or (pool_run drv (delete_likes userID postID)) (pgerr ''delete like'') (\<lambda>tag. ret (Inr (tag > 0)))"

definition PgLike_IsLikedBy :: "pg_driver \<Rightarrow> string \<Rightarrow> string \<Rightarrow> (pg, bool) fallible" where
  "PgLike_IsLikedBy drv userID postID =
     bind_or (pool_QueryRow drv (select (\<lambda>now ord db. Some (has_key (t_likes db) (bpchar 26 userID, bpchar 26 postID)))))
       (pgerr ''is liked by'') (\<lambda>exists. ret (Inr exists))"

definition PgLike_ListLikedPostIDsByUser :: "pg_driver \<Rightarrow> string \<Rightarrow> string list \<Rightarrow> (pg, string \<rightharpoonup> bool) fallible" where
  "PgLike_ListLikedPostIDsByUser drv userID postIDs =
     (if postIDs = [] then ret (Inr Map.empty)
      else query_rows drv ''list liked post ids'' ''list liked post ids iterate''
        (select (\<lambda>now ord db. [p. ((u, p), _) \<leftarrow> shuffle ord (entries (t_likes db)),
           u = bpchar 26 userID \<and> p \<in> bpchar 26 ` set postIDs]))
        (\<lambda>rows. fold (\<lambda>i out. out(i \<mapsto> True)) rows Map.empty))"

definition PgLikeRepository :: "pg_driver \<Rightarrow> pg LikeRepository" where
  "PgLikeRepository drv =
     \<lparr>likes_Create = PgLike_Create drv, likes_Delete = PgLike_Delete drv, likes_IsLikedBy = PgLike_IsLikedBy drv,
      likes_ListLikedPostIDsByUser = PgLike_ListLikedPostIDsByUser drv\<rparr>"

end
