(* ===== verification/Pg_Follow.thy ===== *)
theory Pg_Follow
  imports Pg_Driver Sharedcursor
begin

text \<open>\<open>postgres.FollowRepository\<close>.\<close>

definition insert_follows :: "string \<Rightarrow> string \<Rightarrow> nat sql" where
  "insert_follows followerSub followeeSub now ord db =
     (if \<not> fits_char 26 followerSub \<or> \<not> fits_char 26 followeeSub then Inl (sqlstate too_long)
      else let k = (bpchar 26 followerSub, bpchar 26 followeeSub)
      in if has_key (t_follows db) k then Inr (0, db)
         else checked (follows_checks db k) 1 (db\<lparr>t_follows := set_map k
           \<lparr>Follow_FollowerSub = fst k, Follow_FolloweeSub = snd k, Follow_CreatedAt = now\<rparr> (t_follows db)\<rparr>))"

definition delete_follows :: "string \<Rightarrow> string \<Rightarrow> nat sql" where
  "delete_follows followerSub followeeSub now ord db =
     (let k = (bpchar 26 followerSub, bpchar 26 followeeSub)
      in if has_key (t_follows db) k then Inr (1, db\<lparr>t_follows := del_map k (t_follows db)\<rparr>) else Inr (0, db))"

definition PgFollow_Create :: "pg_driver \<Rightarrow> string \<Rightarrow> string \<Rightarrow> (pg, bool) fallible" where
  "PgFollow_Create drv followerSub followeeSub =
     bind_or (pool_run drv (insert_follows followerSub followeeSub)) (pgerr ''create follow'') (\<lambda>tag. ret (Inr (tag > 0)))"

definition PgFollow_Delete :: "pg_driver \<Rightarrow> string \<Rightarrow> string \<Rightarrow> (pg, bool) fallible" where
  "PgFollow_Delete drv followerSub followeeSub =
     bind_or (pool_run drv (delete_follows followerSub followeeSub)) (pgerr ''delete follow'') (\<lambda>tag. ret (Inr (tag > 0)))"

definition PgFollow_IsFollowing :: "pg_driver \<Rightarrow> string \<Rightarrow> string \<Rightarrow> (pg, bool) fallible" where
  "PgFollow_IsFollowing drv followerSub followeeSub =
     bind_or (pool_QueryRow drv (select (\<lambda>now ord db. Some (has_key (t_follows db) (bpchar 26 followerSub, bpchar 26 followeeSub)))))
       (pgerr ''is following'') (\<lambda>exists. ret (Inr exists))"

definition PgFollow_ListFollowingSubs :: "pg_driver \<Rightarrow> string \<Rightarrow> (pg, string list) fallible" where
  "PgFollow_ListFollowingSubs drv followerSub =
     query_rows drv ''list following subs'' ''list following subs iterate''
       (select (\<lambda>now ord db. [b. ((a, b), _) \<leftarrow> shuffle ord (entries (t_follows db)), a = bpchar 26 followerSub]))
       (\<lambda>rows. rows)"

section \<open>The two sides of a user\<close>

text \<open>\<open>filterCol\<close> and \<open>peerCol\<close> of \<open>listSide\<close>.\<close>

definition filterCol :: "bool \<Rightarrow> Follow \<Rightarrow> string" where
  "filterCol followersSide f = (if followersSide then Follow_FolloweeSub f else Follow_FollowerSub f)"

definition peerCol :: "bool \<Rightarrow> Follow \<Rightarrow> string" where
  "peerCol followersSide f = (if followersSide then Follow_FollowerSub f else Follow_FolloweeSub f)"

text \<open>\<open>(created_at, peer) < ($3, $4)\<close> and \<open>ORDER BY created_at DESC, peer DESC\<close>.\<close>

definition tuple_before :: "bool \<Rightarrow> time \<Rightarrow> string \<Rightarrow> Follow \<Rightarrow> bool" where
  "tuple_before side ct cp f \<longleftrightarrow>
     Follow_CreatedAt f < ct \<or> Follow_CreatedAt f = ct \<and> rtrim (peerCol side f) < rtrim cp"

definition follows_order :: "bool \<Rightarrow> Follow \<Rightarrow> Follow \<Rightarrow> bool" where
  "follows_order side a b \<longleftrightarrow>
     Follow_CreatedAt a > Follow_CreatedAt b \<or>
     Follow_CreatedAt a = Follow_CreatedAt b \<and> rtrim (peerCol side a) > rtrim (peerCol side b)"

definition side_query :: "string \<Rightarrow> (time \<times> string) option \<Rightarrow> int64 \<Rightarrow> bool \<Rightarrow> Follow list sql" where
  "side_query sub cursor n side now ord db =
     (if n < 0 then Inl (sqlstate ''2201W'')
      else select (\<lambda>now ord db. take (nat n) (sort_slice (follows_order side)
        (filter (\<lambda>f. filterCol side f = bpchar 26 sub \<and>
           (case cursor of Some (ct, cp) \<Rightarrow> tuple_before side (timestamptz ct) cp f | None \<Rightarrow> True))
         (rows_of ord (t_follows db))))) now ord db)"

text \<open>The loop over the rows: the first row beyond the limit sets \<open>hasMore\<close> and ends it.\<close>

fun scan_follows :: "int \<Rightarrow> Follow list \<Rightarrow> Follow list \<Rightarrow> Follow list \<times> bool" where
  "scan_follows limit follows [] = (follows, False)"
| "scan_follows limit follows (f # rows) =
     (if int (length follows) = limit then (follows, True) else scan_follows limit (follows @ [f]) rows)"

definition follow_page :: "int \<Rightarrow> bool \<Rightarrow> Follow list \<Rightarrow> Follow list \<times> string" where
  "follow_page limit side rows =
     (let (follows, hasMore) = scan_follows limit [] rows in
      if \<not> hasMore then (follows, [])
      else let last = follows ! (nat limit - 1) in
           (follows, EncodeFollow (Follow_CreatedAt last) (peerCol side last)))"

definition pg_listSide :: "pg_driver \<Rightarrow> string \<Rightarrow> string option \<Rightarrow> int \<Rightarrow> bool \<Rightarrow> (pg, Follow list \<times> string) fallible" where
  "pg_listSide drv sub cursor limit side =
     (if limit \<le> 0 then ret (Inr ([], []))
      else query_rows drv ''list follows'' ''list follows iterate''
        (side_query sub (DecodeFollow cursor) (wrap64 (limit + 1)) side) (follow_page limit side))"

definition PgFollow_ListFollowers :: "pg_driver \<Rightarrow> string \<Rightarrow> string option \<Rightarrow> int \<Rightarrow> (pg, Follow list \<times> string) fallible" where
  "PgFollow_ListFollowers drv sub cursor limit = pg_listSide drv sub cursor limit True"

definition PgFollow_ListFollowing :: "pg_driver \<Rightarrow> string \<Rightarrow> string option \<Rightarrow> int \<Rightarrow> (pg, Follow list \<times> string) fallible" where
  "PgFollow_ListFollowing drv sub cursor limit = pg_listSide drv sub cursor limit False"

definition PgFollow_AreFollowing :: "pg_driver \<Rightarrow> string \<Rightarrow> string list \<Rightarrow> (pg, string \<rightharpoonup> bool) fallible" where
  "PgFollow_AreFollowing drv viewerSub targetSubs =
     (if targetSubs = [] then ret (Inr Map.empty)
      else query_rows drv ''are following'' ''are following iterate''
        (select (\<lambda>now ord db. [b. ((a, b), _) \<leftarrow> shuffle ord (entries (t_follows db)),
           a = bpchar 26 viewerSub \<and> b \<in> bpchar 26 ` set targetSubs]))
        (\<lambda>rows. fold (\<lambda>i out. out(i \<mapsto> True)) rows Map.empty))"

definition PgFollowRepository :: "pg_driver \<Rightarrow> pg FollowRepository" where
  "PgFollowRepository drv =
     \<lparr>follows_Create = PgFollow_Create drv, follows_Delete = PgFollow_Delete drv,
      follows_IsFollowing = PgFollow_IsFollowing drv, follows_ListFollowingSubs = PgFollow_ListFollowingSubs drv,
      follows_ListFollowers = PgFollow_ListFollowers drv, follows_ListFollowing = PgFollow_ListFollowing drv,
      follows_AreFollowing = PgFollow_AreFollowing drv\<rparr>"

end
