(* ===== verification/Pg_Tag.thy ===== *)
theory Pg_Tag
  imports Pg_Driver
begin

text \<open>\<open>postgres.TagRepository\<close>.\<close>

section \<open>Statements\<close>

text \<open>\<open>INSERT INTO tags ... ON CONFLICT (name) DO UPDATE SET name = EXCLUDED.name RETURNING *\<close>: a
  row with the name keeps its id and its date.\<close>

definition upsert_tags :: "string \<Rightarrow> string \<Rightarrow> Tag option sql" where
  "upsert_tags proposedID name now ord db =
     (let row = \<lparr>Tag_ID = bpchar 26 proposedID, Tag_Name = varchar 64 name, Tag_CreatedAt = now\<rparr>
      in case violation (tags_checks \<lparr>Tag_ID = proposedID, Tag_Name = name, Tag_CreatedAt = now\<rparr>) of
           Some e \<Rightarrow> Inl e
         | None \<Rightarrow>
             (case find (\<lambda>t. Tag_Name t = Tag_Name row) (map snd (entries (t_tags db))) of
                Some t \<Rightarrow> Inr (Some t, db)
              | None \<Rightarrow> checked [(\<not> has_key (t_tags db) (Tag_ID row), duplicate_key)]
                  (Some row) (db\<lparr>t_tags := set_map (Tag_ID row) row (t_tags db)\<rparr>)))"

text \<open>\<open>tags t JOIN post_tags pt ON pt.tag_id = t.id\<close>, restricted to some posts.\<close>

definition tags_of_posts :: "(string \<Rightarrow> bool) \<Rightarrow> nat list \<Rightarrow> pg_tables \<Rightarrow> (string \<times> Tag) list" where
  "tags_of_posts P ord db =
     [(p, t). ((p, i), _) \<leftarrow> shuffle ord (entries (t_post_tags db)), P p,
        t \<leftarrow> (case get_map (t_tags db) i of Some t \<Rightarrow> [t] | None \<Rightarrow> [])]"

definition pg_tag_name_less :: "Tag \<Rightarrow> Tag \<Rightarrow> bool" where
  "pg_tag_name_less a b \<longleftrightarrow> Tag_Name a < Tag_Name b"

section \<open>Methods\<close>

text \<open>The names without blanks and repetitions, in order.\<close>

fun unique_names :: "string list \<Rightarrow> string list \<Rightarrow> string list" where
  "unique_names seen [] = []"
| "unique_names seen (n # names) =
     (if n = [] then unique_names seen names
      else if n \<in> set seen then unique_names seen names
      else n # unique_names (n # seen) names)"

fun upsert_all :: "pg_driver \<Rightarrow> string list \<Rightarrow> (pg, Tag list) fallible" where
  "upsert_all drv [] = ret (Inr [])"
| "upsert_all drv (name # names) = do {
     proposedID \<leftarrow> ulid_Make;
     bind_or (pool_QueryRow drv (upsert_tags proposedID name)) (pgerr (''upsert tag '' @ quoted name)) (\<lambda>t.
     bind_or (upsert_all drv names) id (\<lambda>out. ret (Inr (t # out))))
   }"

definition PgTag_UpsertByNames :: "pg_driver \<Rightarrow> string list \<Rightarrow> (pg, Tag list) fallible" where
  "PgTag_UpsertByNames drv names =
     (let unique = unique_names [] names in if unique = [] then ret (Inr []) else upsert_all drv unique)"

definition PgTag_ListByPostID :: "pg_driver \<Rightarrow> string \<Rightarrow> (pg, Tag list) fallible" where
  "PgTag_ListByPostID drv postID =
     query_rows drv ''list tags by post'' ''list tags by post iterate''
       (select (\<lambda>now ord db. sort_slice pg_tag_name_less (map snd (tags_of_posts (\<lambda>p. p = bpchar 26 postID) ord db))))
       (\<lambda>rows. rows)"

definition PgTag_ListByPostIDs :: "pg_driver \<Rightarrow> string list \<Rightarrow> (pg, string \<rightharpoonup> Tag list) fallible" where
  "PgTag_ListByPostIDs drv postIDs =
     (if postIDs = [] then ret (Inr Map.empty)
      else query_rows drv ''list tags by posts'' ''list tags by posts iterate''
        (select (\<lambda>now ord db. tags_of_posts (\<lambda>p. p \<in> bpchar 26 ` set postIDs) ord db))
        (\<lambda>rows. map_option (sort_slice pg_tag_name_less) \<circ> group_rows rows))"

definition PgTagRepository :: "pg_driver \<Rightarrow> pg TagRepository" where
  "PgTagRepository drv =
     \<lparr>tags_UpsertByNames = PgTag_UpsertByNames drv, tags_ListByPostID = PgTag_ListByPostID drv,
      tags_ListByPostIDs = PgTag_ListByPostIDs drv\<rparr>"

end
