(* ===== verification/Pg_Badge.thy ===== *)
theory Pg_Badge
  imports Pg_Driver
begin

text \<open>\<open>postgres.BadgeRepository\<close>.\<close>

section \<open>Statements\<close>

definition badges_order :: "Badge \<Rightarrow> Badge \<Rightarrow> bool" where
  "badges_order a b \<longleftrightarrow>
     Badge_Priority a < Badge_Priority b \<or> Badge_Priority a = Badge_Priority b \<and> Badge_Key a < Badge_Key b"

text \<open>\<open>INSERT INTO badges ... ON CONFLICT (key) DO NOTHING RETURNING *\<close>; \<open>created\<close> is the argument
  of \<open>COALESCE($8, NOW())\<close>.\<close>

definition insert_badges :: "Badge \<Rightarrow> time option \<Rightarrow> Badge option sql" where
  "insert_badges badge created now ord db =
     (case violation (badges_checks badge) of
        Some e \<Rightarrow> Inl e
      | None \<Rightarrow>
          (let row = (badges_row badge)\<lparr>Badge_UpdatedAt := now,
                 Badge_CreatedAt := (case created of Some t \<Rightarrow> timestamptz t | None \<Rightarrow> now)\<rparr>
           in if some_row (\<lambda>_ b. Badge_Key b = Badge_Key row) (t_badges db) then Inr (None, db)
              else checked [(\<not> has_key (t_badges db) (Badge_ID row), duplicate_key)]
                (Some row) (db\<lparr>t_badges := set_map (Badge_ID row) row (t_badges db)\<rparr>)))"

definition update_badges :: "Badge \<Rightarrow> Badge option sql" where
  "update_badges badge now ord db =
     update_row t_badges_update (t_badges db) (bpchar 26 (Badge_ID badge)) (\<lambda>_. True)
       (\<lambda>b. b\<lparr>Badge_Label := varchar 64 (Badge_Label badge), Badge_Description := Badge_Description badge,
          Badge_IconURL := varchar 1024 (Badge_IconURL badge), Badge_Color := varchar 16 (Badge_Color badge),
          Badge_Priority := Badge_Priority badge, Badge_UpdatedAt := now\<rparr>)
       (\<lambda>_. [(fits_varchar 64 (Badge_Label badge), too_long), (fits_varchar 1024 (Badge_IconURL badge), too_long),
          (fits_varchar 16 (Badge_Color badge), too_long), (int4 (Badge_Priority badge), out_of_range)]) db"

definition upsert_user_badges :: "UserBadge \<Rightarrow> nat sql" where
  "upsert_user_badges g now ord db =
     (let row = (user_badges_row g)\<lparr>UB_GrantedAt := now\<rparr>
      in checked (user_badges_checks db g) 1
           (db\<lparr>t_user_badges := set_map (UB_UserID row, UB_BadgeID row) row (t_user_badges db)\<rparr>))"

definition delete_user_badges :: "string \<Rightarrow> string \<Rightarrow> nat sql" where
  "delete_user_badges userID badgeID now ord db =
     (let k = (bpchar 26 userID, bpchar 26 badgeID)
      in if has_key (t_user_badges db) k then Inr (1, db\<lparr>t_user_badges := del_map k (t_user_badges db)\<rparr>) else Inr (0, db))"

text \<open>\<open>badges b JOIN user_badges ub ON ub.badge_id = b.id\<close>, the grants of some users that count
  now, by priority and key.\<close>

definition active_badges :: "(string \<Rightarrow> bool) \<Rightarrow> time \<Rightarrow> nat list \<Rightarrow> pg_tables \<Rightarrow> (string \<times> Badge) list" where
  "active_badges P now ord db =
     sort_slice (\<lambda>a b. badges_order (snd a) (snd b))
       [(u, b). ((u, i), ub) \<leftarrow> shuffle ord (entries (t_user_badges db)),
          P u \<and> (case UB_ExpiresAt ub of None \<Rightarrow> True | Some e \<Rightarrow> e > now),
          b \<leftarrow> (case get_map (t_badges db) i of Some b \<Rightarrow> [b] | None \<Rightarrow> [])]"

section \<open>Methods\<close>

definition PgBadge_ListAll :: "pg_driver \<Rightarrow> (pg, Badge list) fallible" where
  "PgBadge_ListAll drv = query_rows drv ''list badges'' ''list badges iterate''
     (select (\<lambda>now ord db. sort_slice badges_order (rows_of ord (t_badges db)))) (\<lambda>rows. rows)"

definition PgBadge_GetByKey :: "pg_driver \<Rightarrow> string \<Rightarrow> (pg, Badge option) fallible" where
  "PgBadge_GetByKey drv key =
     find_row drv ''get badge by key'' (select (\<lambda>now ord db. find (\<lambda>b. Badge_Key b = key) (rows_of ord (t_badges db))))"

definition PgBadge_GetByID :: "pg_driver \<Rightarrow> string \<Rightarrow> (pg, Badge option) fallible" where
  "PgBadge_GetByID drv i =
     find_row drv ''get badge by id'' (select (\<lambda>now ord db. get_map (t_badges db) (bpchar 26 i)))"

definition PgBadge_Create :: "pg_driver \<Rightarrow> Badge \<Rightarrow> (pg, Badge option) fallible" where
  "PgBadge_Create drv badge =
     (let createdAtArg = (if \<not> IsZero (Badge_CreatedAt badge) then Some (Badge_CreatedAt badge) else None)
      in find_row drv ''create badge'' (insert_badges badge createdAtArg))"

definition PgBadge_Update :: "pg_driver \<Rightarrow> Badge \<Rightarrow> (pg, Badge option) fallible" where
  "PgBadge_Update drv badge = find_row drv ''update badge'' (update_badges badge)"

definition PgBadge_Grant :: "pg_driver \<Rightarrow> string \<Rightarrow> string \<Rightarrow> string \<Rightarrow> time option \<Rightarrow> string \<Rightarrow> (pg, unit) fallible" where
  "PgBadge_Grant drv userID badgeID grantedBy expiresAt reason =
     bind_or (pool_run drv (upsert_user_badges
       \<lparr>UB_UserID = userID, UB_BadgeID = badgeID, UB_GrantedAt = zero_time, UB_GrantedBy = grantedBy,
        UB_ExpiresAt = expiresAt, UB_Reason = reason\<rparr>)) (pgerr ''grant badge'') (\<lambda>_. ret (Inr ()))"

definition PgBadge_Revoke :: "pg_driver \<Rightarrow> string \<Rightarrow> string \<Rightarrow> (pg, unit) fallible" where
  "PgBadge_Revoke drv userID badgeID =
     bind_or (pool_run drv (delete_user_badges userID badgeID)) (pgerr ''revoke badge'') (\<lambda>_. ret (Inr ()))"

definition PgBadge_ListByUserID :: "pg_driver \<Rightarrow> string \<Rightarrow> (pg, Badge list) fallible" where
  "PgBadge_ListByUserID drv userID =
     query_rows drv ''list badges by user'' ''list badges by user iterate''
       (select (\<lambda>now ord db. map snd (active_badges (\<lambda>u. u = bpchar 26 userID) now ord db))) (\<lambda>rows. rows)"

definition PgBadge_ListByUserIDs :: "pg_driver \<Rightarrow> string list \<Rightarrow> (pg, string \<rightharpoonup> Badge list) fallible" where
  "PgBadge_ListByUserIDs drv userIDs =
     (if userIDs = [] then ret (Inr Map.empty)
      else query_rows drv ''list badges by users'' ''list badges by users iterate''
        (select (\<lambda>now ord db. active_badges (\<lambda>u. u \<in> bpchar 26 ` set userIDs) now ord db)) group_rows)"

definition PgBadgeRepository :: "pg_driver \<Rightarrow> pg BadgeRepository" where
  "PgBadgeRepository drv =
     \<lparr>badges_ListAll = PgBadge_ListAll drv, badges_GetByKey = PgBadge_GetByKey drv, badges_GetByID = PgBadge_GetByID drv,
      badges_Create = PgBadge_Create drv, badges_Update = PgBadge_Update drv, badges_Grant = PgBadge_Grant drv,
      badges_Revoke = PgBadge_Revoke drv, badges_ListByUserID = PgBadge_ListByUserID drv,
      badges_ListByUserIDs = PgBadge_ListByUserIDs drv\<rparr>"

end
