(* ===== verification/Pg_Image.thy ===== *)
theory Pg_Image
  imports Pg_Driver
begin

text \<open>\<open>postgres.ImageRepository\<close>.\<close>

section \<open>Statements\<close>

definition insert_images :: "Image \<Rightarrow> time option \<Rightarrow> Image option sql" where
  "insert_images img created now ord db =
     (let row = (images_row img)\<lparr>Image_UpdatedAt := now, Image_DeletedAt := None,
            Image_CreatedAt := (case created of Some t \<Rightarrow> timestamptz t | None \<Rightarrow> now)\<rparr>
      in checked (images_checks db img @
             [(\<not> has_key (t_images db) (Image_ID row), duplicate_key),
              (\<not> some_row (\<lambda>_ m. Image_StorageKey m = Image_StorageKey row) (t_images db), duplicate_key)])
           (Some row) (db\<lparr>t_images := set_map (Image_ID row) row (t_images db)\<rparr>))"

definition images_order :: "Image \<Rightarrow> Image \<Rightarrow> bool" where
  "images_order a b \<longleftrightarrow>
     Image_CreatedAt a > Image_CreatedAt b \<or>
     Image_CreatedAt a = Image_CreatedAt b \<and> rtrim (Image_ID a) > rtrim (Image_ID b)"

text \<open>\<open>images i JOIN post_images pi ON pi.image_id = i.id\<close>: the live images of some posts with
  the post and the position of each.\<close>

definition images_of_posts :: "(string \<Rightarrow> bool) \<Rightarrow> nat list \<Rightarrow> pg_tables \<Rightarrow> (string \<times> int \<times> Image) list" where
  "images_of_posts P ord db =
     [(p, pos, m). ((p, i), pos) \<leftarrow> shuffle ord (entries (t_post_images db)), P p,
        m \<leftarrow> (case get_map (t_images db) i of Some m \<Rightarrow> if Image_DeletedAt m = None then [m] else [] | None \<Rightarrow> [])]"

definition link_order :: "string \<times> int \<times> 'a \<Rightarrow> string \<times> int \<times> 'a \<Rightarrow> bool" where
  "link_order a b \<longleftrightarrow> rtrim (fst a) < rtrim (fst b) \<or> rtrim (fst a) = rtrim (fst b) \<and> fst (snd a) < fst (snd b)"

section \<open>Methods\<close>

definition PgImage_GetByID :: "pg_driver \<Rightarrow> string \<Rightarrow> (pg, Image option) fallible" where
  "PgImage_GetByID drv i =
     find_row drv ''get image'' (select (\<lambda>now ord db. case get_map (t_images db) (bpchar 26 i) of
       Some m \<Rightarrow> if Image_DeletedAt m = None then Some m else None | None \<Rightarrow> None))"

definition PgImage_GetByUserID :: "pg_driver \<Rightarrow> string \<Rightarrow> (pg, Image list) fallible" where
  "PgImage_GetByUserID drv userID =
     query_rows drv ''get images by user'' ''get images by user iterate''
       (select (\<lambda>now ord db. sort_slice images_order
          (filter (\<lambda>m. Image_UserID m = bpchar 26 userID \<and> Image_DeletedAt m = None) (rows_of ord (t_images db)))))
       (\<lambda>rows. rows)"

definition PgImage_Create :: "pg_driver \<Rightarrow> Image \<Rightarrow> (pg, Image) fallible" where
  "PgImage_Create drv img =
     (let createdAtArg = (if \<not> IsZero (Image_CreatedAt img) then Some (Image_CreatedAt img) else None)
      in bind_or (pool_QueryRow drv (insert_images img createdAtArg)) (pgerr ''create image'') (\<lambda>out. ret (Inr out)))"

definition PgImage_Delete :: "pg_driver \<Rightarrow> string \<Rightarrow> (pg, unit) fallible" where
  "PgImage_Delete drv i =
     bind_or (pool_run drv (\<lambda>now ord db. update_row t_images_update (t_images db) (bpchar 26 i) (\<lambda>m. Image_DeletedAt m = None)
       (\<lambda>m. m\<lparr>Image_DeletedAt := Some now, Image_UpdatedAt := now\<rparr>) (\<lambda>_. []) db)) (pgerr ''delete image'') (\<lambda>_. ret (Inr ()))"

definition PgImage_ListByPostID :: "pg_driver \<Rightarrow> string \<Rightarrow> (pg, Image list) fallible" where
  "PgImage_ListByPostID drv postID =
     query_rows drv ''list images by post'' ''list images by post iterate''
       (select (\<lambda>now ord db. map (snd \<circ> snd) (sort_slice (\<lambda>a b. fst (snd a) < fst (snd b))
          (images_of_posts (\<lambda>p. p = bpchar 26 postID) ord db))))
       (\<lambda>rows. rows)"

definition PgImage_ListByPostIDs :: "pg_driver \<Rightarrow> string list \<Rightarrow> (pg, string \<rightharpoonup> Image list) fallible" where
  "PgImage_ListByPostIDs drv postIDs =
     (if postIDs = [] then ret (Inr Map.empty)
      else query_rows drv ''list images by posts'' ''list images by posts iterate''
        (select (\<lambda>now ord db. sort_slice link_order (images_of_posts (\<lambda>p. p \<in> bpchar 26 ` set postIDs) ord db)))
        (\<lambda>rows. group_rows (map (\<lambda>(p, pos, m). (p, m)) rows)))"

definition PgImageRepository :: "pg_driver \<Rightarrow> pg ImageRepository" where
  "PgImageRepository drv =
     \<lparr>images_GetByID = PgImage_GetByID drv, images_GetByUserID = PgImage_GetByUserID drv, images_Create = PgImage_Create drv,
      images_Delete = PgImage_Delete drv, images_ListByPostID = PgImage_ListByPostID drv,
      images_ListByPostIDs = PgImage_ListByPostIDs drv\<rparr>"

end
