(* ===== verification/Pg_OGP.thy ===== *)
theory Pg_OGP
  imports Pg_Image
begin

text \<open>\<open>postgres.OGPCacheRepository\<close> and \<open>postgres.OGPJobQueue\<close>.\<close>

section \<open>The cache\<close>

definition upsert_ogp_cache :: "OGPPreview \<Rightarrow> time option \<Rightarrow> nat sql" where
  "upsert_ogp_cache p fetched now ord db =
     (let row = ogp_cache_row (p\<lparr>Prev_FetchedAt := (case fetched of Some t \<Rightarrow> t | None \<Rightarrow> now)\<rparr>)
      in checked (ogp_cache_checks p) 1 (db\<lparr>t_ogp_cache := set_map (Prev_URLHash row) row (t_ogp_cache db)\<rparr>))"

definition PgOGP_Get :: "pg_driver \<Rightarrow> string \<Rightarrow> (pg, OGPPreview option) fallible" where
  "PgOGP_Get drv urlHash =
     find_row drv ''get ogp cache'' (select (\<lambda>now ord db. get_map (t_ogp_cache db) (bpchar 64 urlHash)))"

definition PgOGP_Upsert :: "pg_driver \<Rightarrow> OGPPreview option \<Rightarrow> (pg, unit) fallible" where
  "PgOGP_Upsert drv preview = (case preview of
     None \<Rightarrow> ret (Inr ())
   | Some p \<Rightarrow>
       if Prev_URLHash p = [] then ret (Inr ())
       else let fetchedAtArg = (if \<not> IsZero (Prev_FetchedAt p) then Some (Prev_FetchedAt p) else None)
            in bind_or (pool_run drv (upsert_ogp_cache p fetchedAtArg)) (pgerr ''upsert ogp cache'') (\<lambda>_. ret (Inr ())))"

text \<open>\<open>ogp_cache c JOIN post_ogp po ON po.url_hash = c.url_hash\<close>.\<close>

definition previews_of_posts :: "(string \<Rightarrow> bool) \<Rightarrow> nat list \<Rightarrow> pg_tables \<Rightarrow> (string \<times> int \<times> OGPPreview) list" where
  "previews_of_posts P ord db =
     [(p, pos, c). ((p, h), pos) \<leftarrow> shuffle ord (entries (t_post_ogp db)), P p,
        c \<leftarrow> (case get_map (t_ogp_cache db) h of Some c \<Rightarrow> [c] | None \<Rightarrow> [])]"

definition PgOGP_ListByPostIDs :: "pg_driver \<Rightarrow> string list \<Rightarrow> (pg, string \<rightharpoonup> OGPPreview list) fallible" where
  "PgOGP_ListByPostIDs drv postIDs =
     (if postIDs = [] then ret (Inr Map.empty)
      else query_rows drv ''list ogp by posts'' ''list ogp by posts iterate''
        (select (\<lambda>now ord db. sort_slice link_order (previews_of_posts (\<lambda>p. p \<in> bpchar 26 ` set postIDs) ord db)))
        (\<lambda>rows. group_rows (map (\<lambda>(p, pos, c). (p, c)) rows)))"

definition PgOGPCacheRepository :: "pg_driver \<Rightarrow> pg OGPCacheRepository" where
  "PgOGPCacheRepository drv =
     \<lparr>ogp_Get = PgOGP_Get drv, ogp_Upsert = PgOGP_Upsert drv, ogp_ListByPostIDs = PgOGP_ListByPostIDs drv\<rparr>"

section \<open>The queue\<close>

definition scanOGPJob :: "ogp_jobs_row \<Rightarrow> OGPJob" where
  "scanOGPJob j = (job_row j)\<lparr>Job_PostID := (case job_post_id j of Some p \<Rightarrow> p | None \<Rightarrow> [])\<rparr>"

definition insert_ogp_jobs :: "ogp_jobs_row \<Rightarrow> nat sql" where
  "insert_ogp_jobs j now ord db =
     (let row = \<lparr>job_row = (job_row j)\<lparr>Job_ID := bpchar 26 (Job_ID (job_row j)), Job_URLHash := bpchar 64 (Job_URLHash (job_row j)),
                   Job_URL := varchar 2048 (Job_URL (job_row j)), Job_EnqueuedAt := now\<rparr>,
                 job_post_id = map_option (bpchar 26) (job_post_id j)\<rparr>
      in case violation (take 7 (ogp_jobs_checks db j)) of
           Some e \<Rightarrow> Inl e
         | None \<Rightarrow>
             if has_key (t_ogp_jobs db) (Job_ID (job_row row)) then Inr (0, db)
             else checked (ogp_jobs_checks db j) 1 (db\<lparr>t_ogp_jobs := set_map (Job_ID (job_row row)) row (t_ogp_jobs db)\<rparr>))"

definition PgJobs_Enqueue :: "pg_driver \<Rightarrow> string \<Rightarrow> string \<Rightarrow> string \<Rightarrow> string \<Rightarrow> int \<Rightarrow> (pg, unit) fallible" where
  "PgJobs_Enqueue drv i urlHash url postID position =
     bind_or (pool_run drv (insert_ogp_jobs
       \<lparr>job_row = \<lparr>Job_ID = i, Job_URLHash = urlHash, Job_URL = url, Job_PostID = [], Job_Position = position,
          Job_EnqueuedAt = zero_time, Job_StartedAt = None, Job_FinishedAt = None, Job_Status = OGPJobQueued,
          Job_Attempts = 0, Job_LastError = []\<rparr>,
        job_post_id = Some postID\<rparr>)) (pgerr ''enqueue ogp job'') (\<lambda>_. ret (Inr ()))"

text \<open>\<open>UPDATE ogp_jobs SET ... WHERE id = $1\<close>.\<close>

definition update_ogp_jobs :: "string \<Rightarrow> (OGPJob \<Rightarrow> OGPJob) \<Rightarrow> (OGPJob \<Rightarrow> (bool \<times> string) list) \<Rightarrow> ogp_jobs_row option sql" where
  "update_ogp_jobs i f guard now ord db =
     update_row t_ogp_jobs_update (t_ogp_jobs db) (bpchar 26 i) (\<lambda>_. True) (job_row_update f) (\<lambda>j. guard (job_row j)) db"

text \<open>The common table expression \<open>next\<close> of \<open>Claim\<close>, and the update that joins it. Among jobs enqueued
  at the same time the server picks any. A statement of the model runs alone, and alone it
  never meets a locked row; what the locking clause does when claims overlap is in \<open>Pg_Race\<close>.\<close>

datatype row_locking = NoLocking | ForUpdate | ForUpdateSkipLocked

definition Claim_locking :: row_locking where
  "Claim_locking = ForUpdateSkipLocked"

definition enqueued_less :: "ogp_jobs_row \<Rightarrow> ogp_jobs_row \<Rightarrow> bool" where
  "enqueued_less a b \<longleftrightarrow> Job_EnqueuedAt (job_row a) < Job_EnqueuedAt (job_row b)"

definition next_queued :: "nat list \<Rightarrow> pg_tables \<Rightarrow> ogp_jobs_row list" where
  "next_queued ord db =
     take 1 (sort_slice enqueued_less (filter (\<lambda>j. Job_Status (job_row j) = OGPJobQueued) (rows_of ord (t_ogp_jobs db))))"

definition claim_row :: "string \<Rightarrow> ogp_jobs_row option sql" where
  "claim_row i now ord db = update_ogp_jobs i
     (\<lambda>r. r\<lparr>Job_Status := OGPJobRunning, Job_StartedAt := Some now, Job_Attempts := Job_Attempts r + 1\<rparr>)
     (\<lambda>r. [(int4 (Job_Attempts r), out_of_range)]) now ord db"

definition claim_next :: "ogp_jobs_row option sql" where
  "claim_next now ord db = (case next_queued ord db of
     [] \<Rightarrow> Inr (None, db)
   | j # _ \<Rightarrow> claim_row (Job_ID (job_row j)) now ord db)"

definition PgJobs_Claim :: "pg_driver \<Rightarrow> string \<Rightarrow> (pg, OGPJob option) fallible" where
  "PgJobs_Claim drv workerID =
     bind_or (find_row drv ''claim ogp job'' claim_next) id (\<lambda>j. ret (Inr (map_option scanOGPJob j)))"

definition PgJobs_MarkDone :: "pg_driver \<Rightarrow> string \<Rightarrow> (pg, unit) fallible" where
  "PgJobs_MarkDone drv jobID =
     bind_or (pool_run drv (\<lambda>now. update_ogp_jobs jobID
       (\<lambda>r. r\<lparr>Job_Status := OGPJobDone, Job_FinishedAt := Some now\<rparr>) (\<lambda>_. []) now)) (pgerr ''mark ogp job done'') (\<lambda>_. ret (Inr ()))"

definition PgJobs_MarkFailed :: "pg_driver \<Rightarrow> string \<Rightarrow> string \<Rightarrow> bool \<Rightarrow> (pg, unit) fallible" where
  "PgJobs_MarkFailed drv jobID reason retriable =
     (if retriable
      then bind_or (pool_run drv (\<lambda>now. update_ogp_jobs jobID
        (\<lambda>r. r\<lparr>Job_Status := OGPJobQueued, Job_StartedAt := None, Job_LastError := varchar 512 reason\<rparr>)
        (\<lambda>_. [(fits_varchar 512 reason, too_long)]) now)) (pgerr ''requeue ogp job'') (\<lambda>_. ret (Inr ()))
      else bind_or (pool_run drv (\<lambda>now. update_ogp_jobs jobID
        (\<lambda>r. r\<lparr>Job_Status := OGPJobFailed, Job_FinishedAt := Some now, Job_LastError := varchar 512 reason\<rparr>)
        (\<lambda>_. [(fits_varchar 512 reason, too_long)]) now)) (pgerr ''fail ogp job'') (\<lambda>_. ret (Inr ())))"

definition PgOGPJobQueue :: "pg_driver \<Rightarrow> pg OGPJobQueue" where
  "PgOGPJobQueue drv =
     \<lparr>jobs_Enqueue = PgJobs_Enqueue drv, jobs_Claim = PgJobs_Claim drv, jobs_MarkDone = PgJobs_MarkDone drv,
      jobs_MarkFailed = PgJobs_MarkFailed drv\<rparr>"

end
