(* ===== verification/Pg_Integrity.thy ===== *)
theory Pg_Integrity
  imports Pg_User Pg_Post Pg_Like Pg_Follow Pg_Tag Pg_Badge Pg_OGP
begin

text \<open>
  The schema of \<open>db/migrations\<close> as an invariant of the tables, and that every method of every
  PostgreSQL repository keeps it, whatever the driver does: a refused call, a reply that is lost, a
  transaction that is rolled back.
\<close>

section \<open>The invariant\<close>

definition post_row_ok :: "string set \<Rightarrow> string set \<Rightarrow> string \<Rightarrow> Post \<Rightarrow> bool" where
  "post_row_ok U P k p \<longleftrightarrow> Post_ID p = k \<and> Post_UserID p \<in> U \<and>
     (\<forall>q. Post_ParentPostID p = Some q \<longrightarrow> q \<in> P) \<and> (\<forall>q. Post_RootPostID p = Some q \<longrightarrow> q \<in> P) \<and>
     1 \<le> RuneCountInString (Post_Content p) \<and> RuneCountInString (Post_Content p) \<le> 120 \<and>
     int4 (Post_LikesCount p) \<and> int8 (Post_RepliesCount p)"

definition job_row_ok :: "string set \<Rightarrow> string \<Rightarrow> ogp_jobs_row \<Rightarrow> bool" where
  "job_row_ok P k j \<longleftrightarrow> Job_ID (job_row j) = k \<and> bpchar 26 k = k \<and> (\<forall>p. job_post_id j = Some p \<longrightarrow> p \<in> P)"

lemma job_row_ok_mono: "job_row_ok P k j \<Longrightarrow> P \<subseteq> P' \<Longrightarrow> job_row_ok P' k j"
  unfolding job_row_ok_def by blast

definition keyed :: "('v \<Rightarrow> 'k) \<Rightarrow> ('k, 'v) go_map \<Rightarrow> bool" where
  "keyed f m \<longleftrightarrow> (\<forall>k v. get_map m k = Some v \<longrightarrow> f v = k)"

text \<open>No two rows have the same value.\<close>

definition unique_in :: "('k \<Rightarrow> 'v \<Rightarrow> 'a) \<Rightarrow> ('k, 'v) go_map \<Rightarrow> bool" where
  "unique_in f m \<longleftrightarrow> (\<forall>k k' v v'. get_map m k = Some v \<longrightarrow> get_map m k' = Some v' \<longrightarrow> f k v = f k' v' \<longrightarrow> k = k')"

text \<open>The keys of a link table are in the tables they refer to.\<close>

definition links_in :: "('a \<times> 'b, 'v) go_map \<Rightarrow> 'a set \<Rightarrow> 'b set \<Rightarrow> bool" where
  "links_in m A B \<longleftrightarrow> dom (get_map m) \<subseteq> A \<times> B"

abbreviation keys :: "('k, 'v) go_map \<Rightarrow> 'k set" where
  "keys m \<equiv> dom (get_map m)"

definition rows_ok :: "('k \<Rightarrow> 'v \<Rightarrow> bool) \<Rightarrow> ('k, 'v) go_map \<Rightarrow> bool" where
  "rows_ok P m \<longleftrightarrow> (\<forall>k v. get_map m k = Some v \<longrightarrow> P k v)"

definition users_ok :: "pg_tables \<Rightarrow> bool" where
  "users_ok db \<longleftrightarrow> keyed User_Sub (t_users db)"

definition posts_table_ok :: "pg_tables \<Rightarrow> bool" where
  "posts_table_ok db \<longleftrightarrow> rows_ok (post_row_ok (keys (t_users db)) (keys (t_posts db))) (t_posts db)"

definition images_ok :: "pg_tables \<Rightarrow> bool" where
  "images_ok db \<longleftrightarrow> rows_ok (\<lambda>k m. Image_ID m = k \<and> Image_UserID m \<in> keys (t_users db)) (t_images db) \<and>
     unique_in (\<lambda>_. Image_StorageKey) (t_images db)"

definition post_images_ok :: "pg_tables \<Rightarrow> bool" where
  "post_images_ok db \<longleftrightarrow> links_in (t_post_images db) (keys (t_posts db)) (keys (t_images db)) \<and>
     rows_ok (\<lambda>_ pos. 0 \<le> pos \<and> pos < 4) (t_post_images db) \<and> unique_in (\<lambda>k pos. (fst k, pos)) (t_post_images db)"

definition tags_table_ok :: "pg_tables \<Rightarrow> bool" where
  "tags_table_ok db \<longleftrightarrow> keyed Tag_ID (t_tags db) \<and> unique_in (\<lambda>_. Tag_Name) (t_tags db) \<and>
     links_in (t_post_tags db) (keys (t_posts db)) (keys (t_tags db))"

definition likes_ok :: "pg_tables \<Rightarrow> bool" where
  "likes_ok db \<longleftrightarrow> links_in (t_likes db) (keys (t_users db)) (keys (t_posts db))"

definition follows_ok :: "pg_tables \<Rightarrow> bool" where
  "follows_ok db \<longleftrightarrow> links_in (t_follows db) (keys (t_users db)) (keys (t_users db)) \<and>
     rows_ok (\<lambda>k f. fst k \<noteq> snd k \<and> (Follow_FollowerSub f, Follow_FolloweeSub f) = k) (t_follows db)"

definition badges_table_ok :: "pg_tables \<Rightarrow> bool" where
  "badges_table_ok db \<longleftrightarrow> keyed Badge_ID (t_badges db) \<and> unique_in (\<lambda>_. Badge_Key) (t_badges db) \<and>
     links_in (t_user_badges db) (keys (t_users db)) (keys (t_badges db))"

definition ogp_ok :: "pg_tables \<Rightarrow> bool" where
  "ogp_ok db \<longleftrightarrow> keyed Prev_URLHash (t_ogp_cache db) \<and>
     links_in (t_post_ogp db) (keys (t_posts db)) (keys (t_ogp_cache db)) \<and> unique_in (\<lambda>k pos. (fst k, pos)) (t_post_ogp db)"

definition jobs_table_ok :: "pg_tables \<Rightarrow> bool" where
  "jobs_table_ok db \<longleftrightarrow> rows_ok (job_row_ok (keys (t_posts db))) (t_ogp_jobs db)"

definition schema_ok :: "pg_tables \<Rightarrow> bool" where
  "schema_ok db \<longleftrightarrow> users_ok db \<and> posts_table_ok db \<and> images_ok db \<and> post_images_ok db \<and> tags_table_ok db \<and>
     likes_ok db \<and> follows_ok db \<and> badges_table_ok db \<and> ogp_ok db \<and> jobs_table_ok db"

lemmas schema_defs = users_ok_def posts_table_ok_def images_ok_def post_images_ok_def tags_table_ok_def likes_ok_def
  follows_ok_def badges_table_ok_def ogp_ok_def jobs_table_ok_def

lemma schema_parts:
  assumes "schema_ok db"
  shows "keyed User_Sub (t_users db)" "rows_ok (post_row_ok (keys (t_users db)) (keys (t_posts db))) (t_posts db)"
    "rows_ok (\<lambda>k m. Image_ID m = k \<and> Image_UserID m \<in> keys (t_users db)) (t_images db)"
    "unique_in (\<lambda>_. Image_StorageKey) (t_images db)"
    "links_in (t_post_images db) (keys (t_posts db)) (keys (t_images db))"
    "rows_ok (\<lambda>_ pos. 0 \<le> pos \<and> pos < 4) (t_post_images db)" "unique_in (\<lambda>k pos. (fst k, pos)) (t_post_images db)"
    "keyed Tag_ID (t_tags db)" "unique_in (\<lambda>_. Tag_Name) (t_tags db)"
    "links_in (t_post_tags db) (keys (t_posts db)) (keys (t_tags db))"
    "links_in (t_likes db) (keys (t_users db)) (keys (t_posts db))"
    "links_in (t_follows db) (keys (t_users db)) (keys (t_users db))"
    "rows_ok (\<lambda>k f. fst k \<noteq> snd k \<and> (Follow_FollowerSub f, Follow_FolloweeSub f) = k) (t_follows db)"
    "keyed Badge_ID (t_badges db)" "unique_in (\<lambda>_. Badge_Key) (t_badges db)"
    "links_in (t_user_badges db) (keys (t_users db)) (keys (t_badges db))"
    "keyed Prev_URLHash (t_ogp_cache db)" "links_in (t_post_ogp db) (keys (t_posts db)) (keys (t_ogp_cache db))"
    "unique_in (\<lambda>k pos. (fst k, pos)) (t_post_ogp db)"
    "rows_ok (job_row_ok (keys (t_posts db))) (t_ogp_jobs db)"
  using assms by (simp_all add: schema_ok_def schema_defs)

section \<open>Changing one table\<close>

lemma rows_ok_set [simp]: "rows_ok P m \<Longrightarrow> P k v \<Longrightarrow> rows_ok P (set_map k v m)"
  by (auto simp: rows_ok_def)

lemma rows_ok_mono: "rows_ok P m \<Longrightarrow> (\<And>k v. P k v \<Longrightarrow> Q k v) \<Longrightarrow> rows_ok Q m"
  by (auto simp: rows_ok_def)

lemma keyed_set [simp]: "keyed f m \<Longrightarrow> f v = k \<Longrightarrow> keyed f (set_map k v m)"
  by (auto simp: keyed_def)

lemma keyedD: "keyed f m \<Longrightarrow> get_map m k = Some v \<Longrightarrow> f v = k"
  by (simp add: keyed_def)

lemma rows_okD: "rows_ok P m \<Longrightarrow> get_map m k = Some v \<Longrightarrow> P k v"
  by (simp add: rows_ok_def)

lemma unique_in_new:
  "unique_in f m \<Longrightarrow> (\<And>k' v'. get_map m k' = Some v' \<Longrightarrow> f k' v' \<noteq> f k v) \<Longrightarrow> unique_in f (set_map k v m)"
  unfolding unique_in_def by (auto split: if_splits) metis+

lemma unique_in_same:
  assumes "unique_in f m" and "get_map m k = Some w" and "f k v = f k w"
  shows "unique_in f (set_map k v m)"
  unfolding unique_in_def
proof (intro allI impI)
  fix a b x y
  assume "get_map (set_map k v m) a = Some x" "get_map (set_map k v m) b = Some y" "f a x = f b y"
  then obtain x' y' where "get_map m a = Some x'" "get_map m b = Some y'" "f a x' = f b y'"
    using assms by (auto split: if_splits)
  then show "a = b" using assms(1) unfolding unique_in_def by blast
qed

lemma unique_in_del: "unique_in f m \<Longrightarrow> unique_in f (del_map k m)"
  unfolding unique_in_def by (auto simp: lookup_delete split: if_splits)

lemma links_in_set: "links_in m A B \<Longrightarrow> fst k \<in> A \<Longrightarrow> snd k \<in> B \<Longrightarrow> links_in (set_map k v m) A B"
  by (cases k) (auto simp: links_in_def)

lemma links_in_del: "links_in m A B \<Longrightarrow> links_in (del_map k m) A B"
  by (auto simp: links_in_def lookup_delete split: if_splits)

lemma links_in_mono: "links_in m A B \<Longrightarrow> A \<subseteq> A' \<Longrightarrow> B \<subseteq> B' \<Longrightarrow> links_in m A' B'"
  by (auto simp: links_in_def)

lemma rows_ok_del: "rows_ok P m \<Longrightarrow> rows_ok P (del_map k m)"
  by (auto simp: rows_ok_def lookup_delete split: if_splits)

lemma post_row_ok_mono: "post_row_ok U P k p \<Longrightarrow> U \<subseteq> U' \<Longrightarrow> P \<subseteq> P' \<Longrightarrow> post_row_ok U' P' k p"
  unfolding post_row_ok_def by blast

text \<open>More keys in the tables referred to do no harm.\<close>

lemma schema_ok_users:
  assumes "schema_ok db" and "keyed User_Sub us" and "keys (t_users db) \<subseteq> keys us"
  shows "schema_ok (db\<lparr>t_users := us\<rparr>)"
  using assms
  by (auto simp: schema_ok_def schema_defs intro: links_in_mono elim!: rows_ok_mono post_row_ok_mono)

lemma schema_ok_posts:
  assumes "schema_ok db" and "rows_ok (post_row_ok (keys (t_users db)) (keys ps)) ps" and "keys (t_posts db) \<subseteq> keys ps"
  shows "schema_ok (db\<lparr>t_posts := ps\<rparr>)"
  using assms by (auto simp: schema_ok_def schema_defs intro: links_in_mono elim!: rows_ok_mono job_row_ok_mono)

lemma schema_ok_images:
  assumes "schema_ok db" and "images_ok (db\<lparr>t_images := im\<rparr>)" and "keys (t_images db) \<subseteq> keys im"
  shows "schema_ok (db\<lparr>t_images := im\<rparr>)"
  using assms by (auto simp: schema_ok_def schema_defs intro: links_in_mono)

lemma schema_ok_tags:
  assumes "schema_ok db" and "keyed Tag_ID tg" "unique_in (\<lambda>_. Tag_Name) tg" and "keys (t_tags db) \<subseteq> keys tg"
  shows "schema_ok (db\<lparr>t_tags := tg\<rparr>)"
  using assms by (auto simp: schema_ok_def schema_defs intro: links_in_mono)

lemma schema_ok_badges:
  assumes "schema_ok db" and "keyed Badge_ID bs" "unique_in (\<lambda>_. Badge_Key) bs" and "keys (t_badges db) \<subseteq> keys bs"
  shows "schema_ok (db\<lparr>t_badges := bs\<rparr>)"
  using assms by (auto simp: schema_ok_def schema_defs intro: links_in_mono)

lemma schema_ok_cache:
  assumes "schema_ok db" and "keyed Prev_URLHash cs" and "keys (t_ogp_cache db) \<subseteq> keys cs"
  shows "schema_ok (db\<lparr>t_ogp_cache := cs\<rparr>)"
  using assms by (auto simp: schema_ok_def schema_defs intro: links_in_mono)

lemma schema_ok_links:
  "schema_ok db \<Longrightarrow> post_images_ok (db\<lparr>t_post_images := pi\<rparr>) \<Longrightarrow> schema_ok (db\<lparr>t_post_images := pi\<rparr>)"
  "schema_ok db \<Longrightarrow> tags_table_ok (db\<lparr>t_post_tags := pt\<rparr>) \<Longrightarrow> schema_ok (db\<lparr>t_post_tags := pt\<rparr>)"
  "schema_ok db \<Longrightarrow> likes_ok (db\<lparr>t_likes := ls\<rparr>) \<Longrightarrow> schema_ok (db\<lparr>t_likes := ls\<rparr>)"
  "schema_ok db \<Longrightarrow> follows_ok (db\<lparr>t_follows := fs\<rparr>) \<Longrightarrow> schema_ok (db\<lparr>t_follows := fs\<rparr>)"
  "schema_ok db \<Longrightarrow> badges_table_ok (db\<lparr>t_user_badges := ub\<rparr>) \<Longrightarrow> schema_ok (db\<lparr>t_user_badges := ub\<rparr>)"
  "schema_ok db \<Longrightarrow> ogp_ok (db\<lparr>t_post_ogp := po\<rparr>) \<Longrightarrow> schema_ok (db\<lparr>t_post_ogp := po\<rparr>)"
  "schema_ok db \<Longrightarrow> jobs_table_ok (db\<lparr>t_ogp_jobs := js\<rparr>) \<Longrightarrow> schema_ok (db\<lparr>t_ogp_jobs := js\<rparr>)"
  by (simp_all add: schema_ok_def schema_defs)

lemma update_row_cases:
  assumes "update_row upd m k P f guard db = Inr (x, d)"
  obtains (same) "d = db" "x = None" | (new) v where "get_map m k = Some v" "P v" "\<forall>c\<in>set (guard (f v)). fst c" "d = upd (\<lambda>_. set_map k (f v) m) db" "x = Some (f v)"
  using assms by (auto simp: update_row_def split: option.splits if_splits)

section \<open>Statements\<close>

named_theorems schema_rules \<open>statements that keep the schema\<close>

lemma keeps_update_users [schema_rules]:
  assumes "\<And>now u. User_Sub (f now u) = User_Sub u"
  shows "sql_keeps schema_ok (\<lambda>now. update_users sub P (f now) now)"
proof (rule sql_keepsI)
  fix now ord db x d assume ok: "schema_ok db" and "update_users sub P (f now) now ord db = Inr (x, d)"
  from this(2) [unfolded update_users_def] show "schema_ok d"
  proof (cases rule: update_row_cases)
    case (new v)
    then show ?thesis
      using ok assms keyedD [OF schema_parts(1) [OF ok] new(1)] by (auto intro!: schema_ok_users schema_parts(1) keyed_set)
  qed (use ok in simp)
qed

lemma keeps_upsert_users [schema_rules]: "sql_keeps schema_ok (upsert_users u)"
  by (rule sql_keepsI)
    (auto simp: upsert_users_def Let_def intro!: schema_ok_users schema_parts(1) keyed_set
      dest: keyedD [OF schema_parts(1)] split: option.splits)

lemma keeps_update_posts [schema_rules]:
  assumes "\<And>now p. Post_ID (f now p) = Post_ID p" "\<And>now p. Post_UserID (f now p) = Post_UserID p"
    "\<And>now p. Post_ParentPostID (f now p) = Post_ParentPostID p" "\<And>now p. Post_RootPostID (f now p) = Post_RootPostID p"
    "\<And>now p. Post_Content (f now p) = Post_Content p"
  shows "sql_keeps schema_ok (\<lambda>now. update_posts i (f now) now)"
proof (rule sql_keepsI)
  fix now ord db x d assume ok: "schema_ok db" and "update_posts i (f now) now ord db = Inr (x, d)"
  from this(2) [unfolded update_posts_def] show "schema_ok d"
  proof (cases rule: update_row_cases)
    case (new v)
    have keys: "keys (set_map (bpchar 26 i) w (t_posts db)) = keys (t_posts db)" for w
      using new(1) by auto
    have "rows_ok (post_row_ok (keys (t_users db)) (keys (t_posts db))) (t_posts db)"
      using ok by (simp add: schema_ok_def posts_table_ok_def)
    moreover from rows_okD [OF this new(1)]
    have "post_row_ok (keys (t_users db)) (keys (t_posts db)) (bpchar 26 i) ((f now v)\<lparr>Post_UpdatedAt := now\<rparr>)"
      using new(3) assms by (simp add: post_row_ok_def)
    ultimately show ?thesis
      using ok new keys by (auto intro!: schema_ok_posts rows_ok_set)
  qed (use ok in simp)
qed

lemma keeps_insert_posts [schema_rules]: "sql_keeps schema_ok (insert_posts p)"
proof (rule sql_keepsI)
  fix now ord db x d assume ok: "schema_ok db" and ins: "insert_posts p now ord db = Inr (x, d)"
  define row where "row = (posts_row p)\<lparr>Post_CreatedAt := now, Post_UpdatedAt := now, Post_DeletedAt := None\<rparr>"
  have d: "d = db\<lparr>t_posts := set_map (Post_ID row) row (t_posts db)\<rparr>" and c: "\<forall>c\<in>set (posts_checks db p). fst c"
    using ins by (simp_all add: insert_posts_def Let_def row_def)
  have "post_row_ok (keys (t_users db)) (insert (Post_ID row) (keys (t_posts db))) (Post_ID row) row"
    using c by (auto simp: post_row_ok_def row_def posts_row_def posts_checks_def pred_option_def)
  moreover have "rows_ok (post_row_ok (keys (t_users db)) (insert (Post_ID row) (keys (t_posts db)))) (t_posts db)"
    using schema_parts(2) [OF ok] by (rule rows_ok_mono) (auto elim: post_row_ok_mono)
  ultimately show "schema_ok d"
    unfolding d using ok by (intro schema_ok_posts) (simp_all add: subset_insertI)
qed

lemma keeps_insert_post_images [schema_rules]: "sql_keeps schema_ok (insert_post_images i m n)"
  by (rule sql_keepsI)
    (auto simp: insert_post_images_def Let_def post_images_checks_def some_row_iff post_images_ok_def
      intro!: schema_ok_links(1) links_in_set rows_ok_set unique_in_new intro: schema_parts)

lemma keeps_insert_post_tags [schema_rules]: "sql_keeps schema_ok (insert_post_tags i t)"
  by (rule sql_keepsI)
    (auto simp: insert_post_tags_def Let_def post_tags_checks_def tags_table_ok_def
      intro!: schema_ok_links(2) links_in_set intro: schema_parts split: if_splits)

lemma keeps_insert_post_ogp [schema_rules]: "sql_keeps schema_ok (insert_post_ogp i h n)"
  by (rule sql_keepsI)
    (auto simp: insert_post_ogp_def Let_def post_ogp_checks_def some_row_iff ogp_ok_def
      intro!: schema_ok_links(6) links_in_set unique_in_new intro: schema_parts split: if_splits)

lemma keeps_likes [schema_rules]: "sql_keeps schema_ok (insert_likes u p)" "sql_keeps schema_ok (delete_likes u p)"
  by (rule sql_keepsI, auto simp: insert_likes_def delete_likes_def Let_def likes_checks_def likes_ok_def
      intro!: schema_ok_links(3) links_in_set links_in_del intro: schema_parts split: if_splits)+

lemma keeps_follows [schema_rules]: "sql_keeps schema_ok (insert_follows a b)" "sql_keeps schema_ok (delete_follows a b)"
  by (rule sql_keepsI, auto simp: insert_follows_def delete_follows_def Let_def follows_checks_def follows_ok_def
      intro!: schema_ok_links(4) links_in_set links_in_del rows_ok_set rows_ok_del intro: schema_parts split: if_splits)+

lemma keeps_upsert_tags [schema_rules]: "sql_keeps schema_ok (upsert_tags i n)"
  by (rule sql_keepsI)
    (auto simp: upsert_tags_def Let_def tags_table_ok_def find_None_iff
      intro!: schema_ok_tags keyed_set unique_in_new intro: schema_parts split: option.splits)

lemma keeps_insert_badges [schema_rules]: "sql_keeps schema_ok (insert_badges b c)"
  by (rule sql_keepsI)
    (auto simp: insert_badges_def Let_def badges_table_ok_def some_row_iff
      intro!: schema_ok_badges keyed_set unique_in_new intro: schema_parts split: option.splits if_splits)

lemma keeps_update_badges [schema_rules]: "sql_keeps schema_ok (update_badges b)"
proof (rule sql_keepsI)
  fix now ord db x d assume ok: "schema_ok db" and "update_badges b now ord db = Inr (x, d)"
  from this(2) [unfolded update_badges_def] show "schema_ok d"
  proof (cases rule: update_row_cases)
    case (new v)
    have "keyed Badge_ID (t_badges db)" "unique_in (\<lambda>_. Badge_Key) (t_badges db)"
      using ok by (rule schema_parts)+
    then show ?thesis
      using ok new keyedD [of Badge_ID "t_badges db"]
      by (auto intro!: schema_ok_badges keyed_set unique_in_same [of "\<lambda>_. Badge_Key" "t_badges db" _ v])
  qed (use ok in simp)
qed

lemma keeps_user_badges [schema_rules]:
  "sql_keeps schema_ok (upsert_user_badges g)" "sql_keeps schema_ok (delete_user_badges u i)"
  by (rule sql_keepsI, auto simp: upsert_user_badges_def delete_user_badges_def Let_def user_badges_checks_def
      user_badges_row_def badges_table_ok_def intro!: schema_ok_links(5) links_in_set links_in_del intro: schema_parts split: if_splits)+

lemma keeps_insert_images [schema_rules]: "sql_keeps schema_ok (insert_images m c)"
  by (rule sql_keepsI)
    (auto simp: insert_images_def Let_def images_checks_def images_row_def images_ok_def some_row_iff
      intro!: schema_ok_images rows_ok_set unique_in_new intro: schema_parts)

lemma keeps_delete_images [schema_rules]:
  "sql_keeps schema_ok (\<lambda>now ord db. update_row t_images_update (t_images db) (bpchar 26 i) P
     (\<lambda>m. m\<lparr>Image_DeletedAt := Some now, Image_UpdatedAt := now\<rparr>) (\<lambda>_. []) db)"
proof (rule sql_keepsI)
  fix now db x d assume ok: "schema_ok db"
    and "update_row t_images_update (t_images db) (bpchar 26 i) P (\<lambda>m. m\<lparr>Image_DeletedAt := Some now, Image_UpdatedAt := now\<rparr>)
      (\<lambda>_. []) db = Inr (x, d)"
  from this(2) show "schema_ok d"
  proof (cases rule: update_row_cases)
    case (new v)
    have "rows_ok (\<lambda>k m. Image_ID m = k \<and> Image_UserID m \<in> keys (t_users db)) (t_images db)"
      "unique_in (\<lambda>_. Image_StorageKey) (t_images db)"
      using ok by (rule schema_parts)+
    then show ?thesis
      using ok new rows_okD [of "\<lambda>k m. Image_ID m = k \<and> Image_UserID m \<in> keys (t_users db)", OF _ new(1)]
      by (auto simp: images_ok_def intro!: schema_ok_images rows_ok_set unique_in_same [of "\<lambda>_. Image_StorageKey" "t_images db" _ v])
  qed (use ok in simp)
qed

lemma keeps_upsert_cache [schema_rules]: "sql_keeps schema_ok (upsert_ogp_cache p f)"
  by (rule sql_keepsI)
    (auto simp: upsert_ogp_cache_def Let_def ogp_ok_def intro!: schema_ok_cache keyed_set intro: schema_parts)

lemma keeps_insert_jobs [schema_rules]: "sql_keeps schema_ok (insert_ogp_jobs j)"
  by (rule sql_keepsI)
    (auto simp: insert_ogp_jobs_def Let_def jobs_table_ok_def ogp_jobs_checks_def job_row_ok_def pred_option_def
      intro!: schema_ok_links(7) rows_ok_set schema_parts(20) split: option.splits if_splits)

lemma update_jobs_ok:
  assumes ok: "schema_ok db" and f: "\<And>r. Job_ID (f r) = Job_ID r"
    and upd: "update_ogp_jobs i f guard now ord db = Inr (x, d)"
  shows "schema_ok d"
  using upd [unfolded update_ogp_jobs_def]
proof (cases rule: update_row_cases)
  case (new v)
  have rows: "rows_ok (job_row_ok (keys (t_posts db))) (t_ogp_jobs db)"
    using ok by (rule schema_parts)
  have "jobs_table_ok (db\<lparr>t_ogp_jobs := set_map (bpchar 26 i) (job_row_update f v) (t_ogp_jobs db)\<rparr>)"
    using rows rows_okD [OF rows new(1)] f by (simp add: jobs_table_ok_def job_row_ok_def)
  then show ?thesis
    using ok new(4) by (simp add: schema_ok_links(7))
qed (use ok in simp)

lemma keeps_update_jobs [schema_rules]:
  "(\<And>now r. Job_ID (f now r) = Job_ID r) \<Longrightarrow> sql_keeps schema_ok (\<lambda>now. update_ogp_jobs i (f now) guard now)"
  by (rule sql_keepsI) (blast intro: update_jobs_ok)

lemma keeps_claim_row [schema_rules]: "sql_keeps schema_ok (claim_row i)"
  by (rule sql_keepsI) (auto simp: claim_row_def elim!: update_jobs_ok [rotated 2])

lemma keeps_claim [schema_rules]: "sql_keeps schema_ok claim_next"
  using keeps_claim_row by (auto simp: sql_keeps_def claim_next_def split: list.splits)

lemma keeps_page_users [schema_rules]: "sql_keeps I (page_users l o')"
  by (rule sql_keepsI) (auto simp: page_users_def split: if_splits)

lemma keeps_post_query [schema_rules]: "sql_keeps I (buildPostListQuery cs n)"
  by (rule sql_keepsI) (auto simp: buildPostListQuery_def select_def split: if_splits)

lemma keeps_side_query [schema_rules]: "sql_keeps I (side_query sub c n side)"
  by (rule sql_keepsI) (auto simp: side_query_def select_def split: if_splits)

section \<open>Methods\<close>

lemma keeps_exec_users [schema_rules]:
  "(\<And>now u. User_Sub (f now u) = User_Sub u) \<Longrightarrow> keeps schema_ok (exec_users drv op sub P f)"
  unfolding exec_users_def by (intro keeps_rules schema_rules)

lemma keeps_exec_posts [schema_rules]:
  assumes "\<And>now p. Post_ID (f now p) = Post_ID p" "\<And>now p. Post_UserID (f now p) = Post_UserID p"
    "\<And>now p. Post_ParentPostID (f now p) = Post_ParentPostID p" "\<And>now p. Post_RootPostID (f now p) = Post_RootPostID p"
    "\<And>now p. Post_Content (f now p) = Post_Content p"
  shows "keeps schema_ok (exec_posts drv op i f)"
  unfolding exec_posts_def using assms by (intro keeps_rules schema_rules)

lemma keeps_UpdateProfile [schema_rules]: "keeps schema_ok (PgUser_UpdateProfile drv sub req)"
proof -
  have q: "sql_keeps schema_ok (\<lambda>now. update_users sub P f now)" if "\<And>u. User_Sub (f u) = User_Sub u" for P f
    using keeps_update_users [of "\<lambda>_. f"] that by blast
  show ?thesis
    unfolding PgUser_UpdateProfile_def
    by (intro keeps_rules sql_keepsI)
      (auto split: option.splits if_splits elim!: q [unfolded sql_keeps_def, rule_format, rotated 2])
qed

lemma keeps_attach [schema_rules]:
  "keeps schema_ok (attach_images drv now i n imgs)" "keeps schema_ok (attach_tags drv now i tags)"
proof -
  show "keeps schema_ok (attach_images drv now i n imgs)"
    by (induction imgs arbitrary: n) (simp_all, (intro keeps_rules schema_rules | assumption)+)
  show "keeps schema_ok (attach_tags drv now i tags)"
    by (induction tags) (simp_all, (intro keeps_rules schema_rules | assumption)+)
qed

lemma keeps_upsert_all [schema_rules]: "keeps schema_ok (upsert_all drv names)"
  by (induction names) (simp_all, (intro keeps_rules schema_rules | assumption)+)

end
