(* ===== verification/Pg_Store.thy ===== *)
theory Pg_Store
  imports Pg_Integrity
begin

text \<open>
  \<open>postgres.Store\<close> as a state machine: the calls of its methods from the tables the migrations leave,
  in any order and with any behaviour of the driver. The schema holds in every state it reaches.
\<close>

section \<open>The tables after the migrations\<close>

definition seed_badge :: "string \<Rightarrow> string \<Rightarrow> string \<Rightarrow> string \<Rightarrow> string \<Rightarrow> int \<Rightarrow> time \<Rightarrow> Badge" where
  "seed_badge i key label description color priority now =
     \<lparr>Badge_ID = i, Badge_Key = key, Badge_Label = label, Badge_Description = description, Badge_IconURL = [],
      Badge_Color = color, Badge_Priority = priority, Badge_CreatedAt = now, Badge_UpdatedAt = now\<rparr>"

definition bytes :: "nat list \<Rightarrow> string" where
  "bytes ns = map char_of ns"

definition developer_badge :: "time \<Rightarrow> Badge" where
  "developer_badge = seed_badge ''01HXBADGE00000000000000DEV'' ''developer''
     (bytes [0xE9,0x96,0x8B,0xE7,0x99,0xBA,0xE8,0x80,0x85])
     (''Fuju '' @ bytes [0xE3,0x81,0xAE,0xE9,0x96,0x8B,0xE7,0x99,0xBA,0xE8,0x80,0x85]) ''gold'' 5"

definition celebrity_badge :: "time \<Rightarrow> Badge" where
  "celebrity_badge = seed_badge ''01HXBADGE0000000000VER1FY0'' ''verified_celebrity''
     (bytes [0xE8,0x91,0x97,0xE5,0x90,0x8D,0xE4,0xBA,0xBA,0xE8,0xAA,0x8D,0xE8,0xA8,0xBC,0xE6,0xB8,0x88,0xE3,0x81,0xBF])
     (bytes [0xE9,0x81,0x8B,0xE5,0x96,0xB6,0xE3,0x81,0x8C,0xE6,0x9C,0xAC,0xE4,0xBA,0xBA,0xE6,0x80,0xA7,0xE3,0x82,0x92,
        0xE7,0xA2,0xBA,0xE8,0xAA,0x8D,0xE3,0x81,0x97,0xE3,0x81,0x9F,0xE8,0x91,0x97,0xE5,0x90,0x8D,0xE4,0xBA,0xBA]) ''blue'' 10"

definition migrated :: "time \<Rightarrow> pg_tables" where
  "migrated now =
     \<lparr>t_users = DAList.empty, t_posts = DAList.empty, t_images = DAList.empty, t_post_images = DAList.empty,
      t_likes = DAList.empty, t_tags = DAList.empty, t_post_tags = DAList.empty,
      t_badges = set_map (Badge_ID (celebrity_badge now)) (celebrity_badge now)
        (set_map (Badge_ID (developer_badge now)) (developer_badge now) DAList.empty),
      t_user_badges = DAList.empty, t_follows = DAList.empty, t_ogp_cache = DAList.empty,
      t_post_ogp = DAList.empty, t_ogp_jobs = DAList.empty\<rparr>"

lemma empty_tables [simp]:
  "rows_ok P DAList.empty" "keyed f DAList.empty" "unique_in g DAList.empty" "links_in DAList.empty A B"
  by (simp_all add: rows_ok_def keyed_def unique_in_def links_in_def dom_def)

lemma schema_migrated: "schema_ok (migrated now)"
proof -
  have keys: "Badge_Key (developer_badge now) \<noteq> Badge_Key (celebrity_badge now)"
    by (simp add: developer_badge_def celebrity_badge_def seed_badge_def)
  have "unique_in (\<lambda>_. Badge_Key) (set_map i (celebrity_badge now) (set_map j (developer_badge now) DAList.empty))" for i j
    by (intro unique_in_new) (use keys in \<open>auto split: if_splits\<close>)
  then show ?thesis by (simp add: schema_ok_def schema_defs migrated_def)
qed

section \<open>The methods\<close>

inductive pg_call :: "pg_driver \<Rightarrow> pg \<Rightarrow> pg \<Rightarrow> bool" for drv where
  users_GetBySub: "run_state (users_GetBySub (PgUserRepository drv) x) s = (r, t) \<Longrightarrow> pg_call drv s t"
| users_Upsert: "run_state (users_Upsert (PgUserRepository drv) u) s = (r, t) \<Longrightarrow> pg_call drv s t"
| users_UpdateProfile: "run_state (users_UpdateProfile (PgUserRepository drv) x req) s = (r, t) \<Longrightarrow> pg_call drv s t"
| users_List: "run_state (users_List (PgUserRepository drv) n m) s = (r, t) \<Longrightarrow> pg_call drv s t"
| users_ListBySubs: "run_state (users_ListBySubs (PgUserRepository drv) xs) s = (r, t) \<Longrightarrow> pg_call drv s t"
| users_IncrementFollowersCount: "run_state (users_IncrementFollowersCount (PgUserRepository drv) x) s = (r, t) \<Longrightarrow> pg_call drv s t"
| users_DecrementFollowersCount: "run_state (users_DecrementFollowersCount (PgUserRepository drv) x) s = (r, t) \<Longrightarrow> pg_call drv s t"
| users_IncrementFollowingCount: "run_state (users_IncrementFollowingCount (PgUserRepository drv) x) s = (r, t) \<Longrightarrow> pg_call drv s t"
| users_DecrementFollowingCount: "run_state (users_DecrementFollowingCount (PgUserRepository drv) x) s = (r, t) \<Longrightarrow> pg_call drv s t"
| users_Delete: "run_state (users_Delete (PgUserRepository drv) x) s = (r, t) \<Longrightarrow> pg_call drv s t"
| follows_Create: "run_state (follows_Create (PgFollowRepository drv) x y) s = (r, t) \<Longrightarrow> pg_call drv s t"
| follows_Delete: "run_state (follows_Delete (PgFollowRepository drv) x y) s = (r, t) \<Longrightarrow> pg_call drv s t"
| follows_IsFollowing: "run_state (follows_IsFollowing (PgFollowRepository drv) x y) s = (r, t) \<Longrightarrow> pg_call drv s t"
| follows_ListFollowingSubs: "run_state (follows_ListFollowingSubs (PgFollowRepository drv) x) s = (r, t) \<Longrightarrow> pg_call drv s t"
| follows_ListFollowers: "run_state (follows_ListFollowers (PgFollowRepository drv) x c n) s = (r, t) \<Longrightarrow> pg_call drv s t"
| follows_ListFollowing: "run_state (follows_ListFollowing (PgFollowRepository drv) x c n) s = (r, t) \<Longrightarrow> pg_call drv s t"
| follows_AreFollowing: "run_state (follows_AreFollowing (PgFollowRepository drv) x xs) s = (r, t) \<Longrightarrow> pg_call drv s t"
| posts_GetByID: "run_state (posts_GetByID (PgPostRepository drv) x) s = (r, t) \<Longrightarrow> pg_call drv s t"
| posts_Create: "run_state (posts_Create (PgPostRepository drv) p xs ys) s = (r, t) \<Longrightarrow> pg_call drv s t"
| posts_Delete: "run_state (posts_Delete (PgPostRepository drv) x) s = (r, t) \<Longrightarrow> pg_call drv s t"
| posts_List: "run_state (posts_List (PgPostRepository drv) ou c n) s = (r, t) \<Longrightarrow> pg_call drv s t"
| posts_ListByUserIDs: "run_state (posts_ListByUserIDs (PgPostRepository drv) xs c n) s = (r, t) \<Longrightarrow> pg_call drv s t"
| posts_ListReplies: "run_state (posts_ListReplies (PgPostRepository drv) x c n) s = (r, t) \<Longrightarrow> pg_call drv s t"
| posts_IncrementRepliesCount: "run_state (posts_IncrementRepliesCount (PgPostRepository drv) x) s = (r, t) \<Longrightarrow> pg_call drv s t"
| posts_DecrementRepliesCount: "run_state (posts_DecrementRepliesCount (PgPostRepository drv) x) s = (r, t) \<Longrightarrow> pg_call drv s t"
| posts_IncrementLikesCount: "run_state (posts_IncrementLikesCount (PgPostRepository drv) x) s = (r, t) \<Longrightarrow> pg_call drv s t"
| posts_DecrementLikesCount: "run_state (posts_DecrementLikesCount (PgPostRepository drv) x) s = (r, t) \<Longrightarrow> pg_call drv s t"
| posts_AttachOGP: "run_state (posts_AttachOGP (PgPostRepository drv) x y n) s = (r, t) \<Longrightarrow> pg_call drv s t"
| ogp_Get: "run_state (ogp_Get (PgOGPCacheRepository drv) x) s = (r, t) \<Longrightarrow> pg_call drv s t"
| ogp_Upsert: "run_state (ogp_Upsert (PgOGPCacheRepository drv) pv) s = (r, t) \<Longrightarrow> pg_call drv s t"
| ogp_ListByPostIDs: "run_state (ogp_ListByPostIDs (PgOGPCacheRepository drv) xs) s = (r, t) \<Longrightarrow> pg_call drv s t"
| jobs_Enqueue: "run_state (jobs_Enqueue (PgOGPJobQueue drv) x y z w n) s = (r, t) \<Longrightarrow> pg_call drv s t"
| jobs_Claim: "run_state (jobs_Claim (PgOGPJobQueue drv) x) s = (r, t) \<Longrightarrow> pg_call drv s t"
| jobs_MarkDone: "run_state (jobs_MarkDone (PgOGPJobQueue drv) x) s = (r, t) \<Longrightarrow> pg_call drv s t"
| jobs_MarkFailed: "run_state (jobs_MarkFailed (PgOGPJobQueue drv) x y b) s = (r, t) \<Longrightarrow> pg_call drv s t"
| likes_Create: "run_state (likes_Create (PgLikeRepository drv) x y) s = (r, t) \<Longrightarrow> pg_call drv s t"
| likes_Delete: "run_state (likes_Delete (PgLikeRepository drv) x y) s = (r, t) \<Longrightarrow> pg_call drv s t"
| likes_IsLikedBy: "run_state (likes_IsLikedBy (PgLikeRepository drv) x y) s = (r, t) \<Longrightarrow> pg_call drv s t"
| likes_ListLikedPostIDsByUser: "run_state (likes_ListLikedPostIDsByUser (PgLikeRepository drv) x xs) s = (r, t) \<Longrightarrow> pg_call drv s t"
| tags_UpsertByNames: "run_state (tags_UpsertByNames (PgTagRepository drv) xs) s = (r, t) \<Longrightarrow> pg_call drv s t"
| tags_ListByPostID: "run_state (tags_ListByPostID (PgTagRepository drv) x) s = (r, t) \<Longrightarrow> pg_call drv s t"
| tags_ListByPostIDs: "run_state (tags_ListByPostIDs (PgTagRepository drv) xs) s = (r, t) \<Longrightarrow> pg_call drv s t"
| images_GetByID: "run_state (images_GetByID (PgImageRepository drv) x) s = (r, t) \<Longrightarrow> pg_call drv s t"
| images_GetByUserID: "run_state (images_GetByUserID (PgImageRepository drv) x) s = (r, t) \<Longrightarrow> pg_call drv s t"
| images_Create: "run_state (images_Create (PgImageRepository drv) im) s = (r, t) \<Longrightarrow> pg_call drv s t"
| images_Delete: "run_state (images_Delete (PgImageRepository drv) x) s = (r, t) \<Longrightarrow> pg_call drv s t"
| images_ListByPostID: "run_state (images_ListByPostID (PgImageRepository drv) x) s = (r, t) \<Longrightarrow> pg_call drv s t"
| images_ListByPostIDs: "run_state (images_ListByPostIDs (PgImageRepository drv) xs) s = (r, t) \<Longrightarrow> pg_call drv s t"
| badges_ListAll: "run_state (badges_ListAll (PgBadgeRepository drv)) s = (r, t) \<Longrightarrow> pg_call drv s t"
| badges_GetByKey: "run_state (badges_GetByKey (PgBadgeRepository drv) x) s = (r, t) \<Longrightarrow> pg_call drv s t"
| badges_GetByID: "run_state (badges_GetByID (PgBadgeRepository drv) x) s = (r, t) \<Longrightarrow> pg_call drv s t"
| badges_Create: "run_state (badges_Create (PgBadgeRepository drv) bd) s = (r, t) \<Longrightarrow> pg_call drv s t"
| badges_Update: "run_state (badges_Update (PgBadgeRepository drv) bd) s = (r, t) \<Longrightarrow> pg_call drv s t"
| badges_Grant: "run_state (badges_Grant (PgBadgeRepository drv) x y z e w) s = (r, t) \<Longrightarrow> pg_call drv s t"
| badges_Revoke: "run_state (badges_Revoke (PgBadgeRepository drv) x y) s = (r, t) \<Longrightarrow> pg_call drv s t"
| badges_ListByUserID: "run_state (badges_ListByUserID (PgBadgeRepository drv) x) s = (r, t) \<Longrightarrow> pg_call drv s t"
| badges_ListByUserIDs: "run_state (badges_ListByUserIDs (PgBadgeRepository drv) xs) s = (r, t) \<Longrightarrow> pg_call drv s t"

lemmas repository_defs = PgUserRepository_def PgFollowRepository_def PgPostRepository_def PgOGPCacheRepository_def
  PgOGPJobQueue_def PgLikeRepository_def PgTagRepository_def PgImageRepository_def PgBadgeRepository_def

lemmas method_defs = PgUser_GetBySub_def PgUser_Upsert_def PgUser_List_def PgUser_ListBySubs_def
  PgUser_IncrementFollowersCount_def PgUser_DecrementFollowersCount_def PgUser_IncrementFollowingCount_def
  PgUser_DecrementFollowingCount_def PgUser_Delete_def PgFollow_Create_def PgFollow_Delete_def PgFollow_IsFollowing_def
  PgFollow_ListFollowingSubs_def PgFollow_ListFollowers_def PgFollow_ListFollowing_def pg_listSide_def PgFollow_AreFollowing_def
  PgPost_GetByID_def PgPost_Create_def PgPost_Delete_def PgPost_List_def PgPost_ListByUserIDs_def
  PgPost_ListReplies_def PgPost_IncrementRepliesCount_def PgPost_DecrementRepliesCount_def PgPost_IncrementLikesCount_def
  PgPost_DecrementLikesCount_def PgPost_AttachOGP_def PgOGP_Get_def PgOGP_Upsert_def PgOGP_ListByPostIDs_def
  PgJobs_Enqueue_def PgJobs_Claim_def PgJobs_MarkDone_def PgJobs_MarkFailed_def PgLike_Create_def PgLike_Delete_def
  PgLike_IsLikedBy_def PgLike_ListLikedPostIDsByUser_def PgTag_UpsertByNames_def PgTag_ListByPostID_def PgTag_ListByPostIDs_def
  PgImage_GetByID_def PgImage_GetByUserID_def PgImage_Create_def PgImage_Delete_def PgImage_ListByPostID_def
  PgImage_ListByPostIDs_def PgBadge_ListAll_def PgBadge_GetByKey_def PgBadge_GetByID_def PgBadge_Create_def PgBadge_Update_def
  PgBadge_Grant_def PgBadge_Revoke_def PgBadge_ListByUserID_def PgBadge_ListByUserIDs_def

lemma keepsD: "keeps I m \<Longrightarrow> run_state m s = (r, t) \<Longrightarrow> I (pg_db s) \<Longrightarrow> I (pg_db t)"
  by (metis keeps_def snd_conv)

lemma keeps_scan_row [keeps_rules]: "keeps I m \<Longrightarrow> keeps I (scan_row m)"
  unfolding scan_row_def by (intro keeps_rules)

lemma keeps_create_post_tx [schema_rules]: "keeps schema_ok (create_post_tx drv p imgs tags now)"
  unfolding create_post_tx_def Let_def by (intro keeps_rules schema_rules)

lemma pg_call_schema:
  assumes "pg_call drv s t" and "schema_ok (pg_db s)" shows "schema_ok (pg_db t)"
  using assms
  by (induction rule: pg_call.induct)
    (erule keepsD [rotated], assumption, simp only: repository_defs UserRepository.simps FollowRepository.simps
       PostRepository.simps OGPCacheRepository.simps OGPJobQueue.simps LikeRepository.simps TagRepository.simps
       ImageRepository.simps BadgeRepository.simps method_defs,
     intro keeps_rules schema_rules; simp)+

end
