(* ===== verification/Pg_Atomic.thy ===== *)
theory Pg_Atomic
  imports Pg_Store
begin

text \<open>
  Creating a post on PostgreSQL is all or nothing: the row, its images at their positions and its
  tags are written in one transaction. Whatever fails, and wherever, the tables end up as they were
  or with all of it.
\<close>

text \<open>What one post adds to the tables.\<close>

fun link_images :: "string \<Rightarrow> int \<Rightarrow> string list \<Rightarrow> (string \<times> string, int) go_map \<Rightarrow> (string \<times> string, int) go_map" where
  "link_images i n [] m = m"
| "link_images i n (img # imgs) m = link_images i (n + 1) imgs (set_map (i, bpchar 26 img) n m)"

fun link_tags :: "string \<Rightarrow> string list \<Rightarrow> (string \<times> string, unit) go_map \<Rightarrow> (string \<times> string, unit) go_map" where
  "link_tags i [] m = m"
| "link_tags i (tag # tags) m = link_tags i tags (set_map (i, bpchar 26 tag) () m)"

definition stored_post :: "Post \<Rightarrow> time \<Rightarrow> Post" where
  "stored_post post now =
     (posts_row (post\<lparr>Post_Visibility := (if Post_Visibility post = [] then ''public'' else Post_Visibility post)\<rparr>))
       \<lparr>Post_CreatedAt := now, Post_UpdatedAt := now, Post_DeletedAt := None\<rparr>"

definition with_post :: "Post \<Rightarrow> string list \<Rightarrow> string list \<Rightarrow> pg_tables \<Rightarrow> pg_tables" where
  "with_post p imgs tags db = db\<lparr>t_posts := set_map (Post_ID p) p (t_posts db),
     t_post_images := link_images (Post_ID p) 0 (imgs) (t_post_images db),
     t_post_tags := link_tags (Post_ID p) tags (t_post_tags db)\<rparr>"

lemma tx_run_Inr:
  "run_state (tx_run drv now q) s = (Inr x, t) \<Longrightarrow> \<exists>ord. q now ord (pg_db s) = Inr (x, pg_db t)"
  by (erule tx_run_cases) (auto simp: moved_def)

lemma attach_images_Inr:
  "run_state (attach_images drv now i n imgs) s = (Inr x, t) \<Longrightarrow> bpchar 26 i = i \<Longrightarrow>
   pg_db t = (pg_db s)\<lparr>t_post_images := link_images i n imgs (t_post_images (pg_db s))\<rparr>"
proof (induction imgs arbitrary: n s)
  case (Cons img imgs)
  then obtain k u where u: "run_state (tx_run drv now (insert_post_images i img n)) s = (Inr k, u)"
      "run_state (attach_images drv now i (n + 1) imgs) u = (Inr x, t)"
    by (auto simp: run_simps split: prod.splits sum.splits)
  have "pg_db u = (pg_db s)\<lparr>t_post_images := set_map (i, bpchar 26 img) n (t_post_images (pg_db s))\<rparr>"
    using tx_run_Inr [OF u(1)] Cons.prems(2) by (auto simp: insert_post_images_def Let_def)
  then show ?case using Cons.IH [OF u(2) Cons.prems(2)] by simp
qed simp

lemma update_same: "map_of m k = Some v \<Longrightarrow> AList.update k v m = m"
  by (induction m) auto

lemma set_map_same: "get_map m k = Some v \<Longrightarrow> set_map k v m = m"
  by transfer (rule update_same)

lemma attach_tags_Inr:
  "run_state (attach_tags drv now i tags) s = (Inr x, t) \<Longrightarrow> bpchar 26 i = i \<Longrightarrow>
   pg_db t = (pg_db s)\<lparr>t_post_tags := link_tags i tags (t_post_tags (pg_db s))\<rparr>"
proof (induction tags arbitrary: s)
  case (Cons tag tags)
  then obtain k u where u: "run_state (tx_run drv now (insert_post_tags i tag)) s = (Inr k, u)"
      "run_state (attach_tags drv now i tags) u = (Inr x, t)"
    by (auto simp: run_simps split: prod.splits sum.splits)
  have "pg_db u = (pg_db s)\<lparr>t_post_tags := set_map (i, bpchar 26 tag) () (t_post_tags (pg_db s))\<rparr>"
    using tx_run_Inr [OF u(1)] Cons.prems(2) by (auto simp: insert_post_tags_def Let_def set_map_same split: if_splits)
  then show ?case using Cons.IH [OF u(2) Cons.prems(2)] by simp
qed simp

lemma create_post_tx_Inr:
  assumes "run_state (create_post_tx drv post imgs tags now) s = (Inr p, t)"
  shows "p = stored_post post now \<and> Post_ID p \<notin> keys (t_posts (pg_db s)) \<and> pg_db t = with_post p imgs tags (pg_db s)"
proof -
  define q where "q = insert_posts (post\<lparr>Post_Visibility := (if Post_Visibility post = [] then ''public'' else Post_Visibility post)\<rparr>)"
  obtain s1 s2 y z where steps: "run_state (tx_run drv now q) s = (Inr (Some p), s1)"
      "run_state (attach_images drv now (Post_ID p) 0 imgs) s1 = (Inr y, s2)"
      "run_state (attach_tags drv now (Post_ID p) tags) s2 = (Inr z, t)"
    using assms unfolding create_post_tx_def scan_row_def q_def Let_def
    by (auto simp: run_simps split: prod.splits sum.splits option.splits)
  have ins: "p = stored_post post now" "Post_ID p \<notin> keys (t_posts (pg_db s))"
    "pg_db s1 = (pg_db s)\<lparr>t_posts := set_map (Post_ID p) p (t_posts (pg_db s))\<rparr>"
    using tx_run_Inr [OF steps(1)] by (auto simp: q_def insert_posts_def Let_def stored_post_def)
  have "bpchar 26 (Post_ID p) = Post_ID p"
    unfolding ins(1) by (simp add: stored_post_def posts_row_def)
  then show ?thesis
    using ins attach_images_Inr [OF steps(2)] attach_tags_Inr [OF steps(3)] by (simp add: with_post_def)
qed

text \<open>C11. PostRepository.Create on PostgreSQL is atomic under every behaviour of the driver (calls
  refused, replies lost, constraints broken at any statement): it fails and the tables are exactly as
  before, or the tables gain exactly the new row under an id no post had, its images in order
  and its tags. In the second case the caller gets the row, unless the reply to the commit was lost.\<close>

theorem pg_create_post_atomic:
  "case run_state (PgPost_Create drv post imgs tags) s of (r, t) \<Rightarrow>
     (\<exists>e. r = Inl e) \<and> pg_db t = pg_db s \<or>
     (\<exists>now p. p = stored_post post now \<and> Post_ID p \<notin> keys (t_posts (pg_db s)) \<and>
        pg_db t = with_post p imgs tags (pg_db s) \<and>
        (r = Inr p \<or> (\<exists>n e. drv n = Lost e \<and> r = Inl (txerr ''commit tx'' e))))"
proof (cases "run_state (PgPost_Create drv post imgs tags) s")
  case (Pair r t)
  then have "run_state (WithTx drv (create_post_tx drv post imgs tags)) s = (r, t)"
    by (simp add: PgPost_Create_def)
  then show ?thesis
  proof (cases rule: WithTx_cases)
    case (all now x s' t')
    then show ?thesis using Pair create_post_tx_Inr [OF all(2)] by auto
  qed (use Pair in auto)
qed

text \<open>C12. Every state the PostgreSQL repositories reach from the migrated schema, by any sequence of
  their methods and with any behaviour of the driver, meets the schema: foreign keys, unique names,
  keys and positions, content of 1 to 120 characters, no self-follow; and no post has more than
  four images.\<close>

theorem pg_reachable_schema:
  assumes "(pg_call drv)\<^sup>*\<^sup>* s t" and "pg_db s = migrated now"
  shows "schema_ok (pg_db t) \<and> card {i. (p, i) \<in> keys (t_post_images (pg_db t))} \<le> 4"
proof -
  have ok: "schema_ok (pg_db t)"
    using assms(1) by (induction rule: rtranclp_induct) (auto simp: assms(2) schema_migrated dest: pg_call_schema)
  let ?m = "t_post_images (pg_db t)" and ?I = "{i. (p, i) \<in> keys (t_post_images (pg_db t))}"
  let ?pos = "\<lambda>i. the (get_map ?m (p, i))"
  note parts = schema_parts(6,7) [OF ok, unfolded rows_ok_def unique_in_def]
  have "inj_on ?pos ?I"
    using parts(2) by (intro inj_onI) (metis (mono_tags, lifting) domD fst_conv mem_Collect_eq option.sel prod.inject)
  moreover have "?pos ` ?I \<subseteq> {0..<4}"
    using parts(1) by (auto simp: dom_def)
  ultimately have "card ?I \<le> card {0..<4::int}"
    by (intro card_inj_on_le) auto
  then show ?thesis using ok by simp
qed

end
