(* ===== verification/Pg_Social.thy ===== *)
theory Pg_Social
  imports Pg_Store Counters
begin

text \<open>
  The PostgreSQL repositories meet the contracts of \<open>Social_Contracts\<close>, replies that get lost included,
  when \<open>pgx.ErrNoRows\<close> means an empty result. With that the use cases run on PostgreSQL implement the
  same abstract operations as on the in-memory backend. Two things differ, and the view of the tables takes them into account: PostgreSQL stamps \<open>updated_at\<close> on every
  write (the view shows \<open>created_at\<close> in its place), and ids are padded to the width of their columns.
\<close>

section \<open>The view\<close>

definition unstamped_post :: "Post \<Rightarrow> Post" where
  "unstamped_post p = p\<lparr>Post_UpdatedAt := Post_CreatedAt p\<rparr>"

definition unstamped_user :: "User \<Rightarrow> User" where
  "unstamped_user u = u\<lparr>User_UpdatedAt := User_CreatedAt u\<rparr>"

definition tables_view :: "pg_tables \<Rightarrow> db" where
  "tables_view d = \<lparr>db_users = map_option unstamped_user \<circ> get_map (t_users d), db_follows = keys (t_follows d),
     db_posts = map_option unstamped_post \<circ> get_map (t_posts d), db_likes = keys (t_likes d)\<rparr>"

definition pg_view :: "pg \<Rightarrow> db" where
  "pg_view s = tables_view (pg_db s)"

text \<open>An id that fills its column, as every ULID does.\<close>

definition pg_key :: "string \<Rightarrow> bool" where
  "pg_key i \<longleftrightarrow> bpchar 26 i = i \<and> fits_char 26 i"

lemma pg_key_ULID: "IsULID i \<Longrightarrow> pg_key i"
  by (simp add: pg_key_def)

text \<open>Counters are not negative, and the ids of parents are keys.\<close>

definition counted :: "db \<Rightarrow> bool" where
  "counted v \<longleftrightarrow>
     (\<forall>i p. db_posts v i = Some p \<longrightarrow> 0 \<le> Post_LikesCount p \<and> 0 \<le> Post_RepliesCount p \<and>
        (\<forall>q. Post_ParentPostID p = Some q \<longrightarrow> pg_key q)) \<and>
     (\<forall>sub u. db_users v sub = Some u \<longrightarrow> 0 \<le> User_FollowersCount u \<and> 0 \<le> User_FollowingCount u \<and>
        User_FollowingCount u \<le> max_int64)"

text \<open>The repositories as the view shows their rows.\<close>

definition unstamped_posts :: "'s PostRepository \<Rightarrow> 's PostRepository" where
  "unstamped_posts R = R\<lparr>posts_GetByID := \<lambda>i. bind_or (posts_GetByID R i) id (\<lambda>r. ret (Inr (map_option unstamped_post r)))\<rparr>"

definition unstamped_users :: "'s UserRepository \<Rightarrow> 's UserRepository" where
  "unstamped_users R = R\<lparr>users_GetBySub := \<lambda>i. bind_or (users_GetBySub R i) id (\<lambda>r. ret (Inr (map_option unstamped_user r)))\<rparr>"

section \<open>Calls\<close>

lemma writes_exec:
  assumes "\<And>now ord d x d'. q now ord d = Inr (x, d') \<Longrightarrow> Q (tables_view d) (f x) (tables_view d')"
  shows "writes (loses drv) pg_view (bind_or (pool_run drv q) w (\<lambda>x. ret (Inr (f x)))) Q"
  unfolding writes_def
proof (intro allI impI)
  fix s r t assume run: "run_state (bind_or (pool_run drv q) w (\<lambda>x. ret (Inr (f x)))) s = (r, t)"
  obtain r' t' where r': "run_state (pool_run drv q) s = (r', t')" by fastforce
  then show "case r of Inl _ \<Rightarrow> pg_view t = pg_view s \<or> loses drv \<and> (\<exists>x. Q (pg_view s) x (pg_view t)) | Inr x \<Rightarrow> Q (pg_view s) x (pg_view t)"
  proof (cases rule: pool_run_cases)
    case (served now ord x d)
    then show ?thesis
      using run r' assms [OF served(2)] by (auto simp: run_simps pg_view_def moved_def)
  next
    case (failed now ord e)
    then show ?thesis using run r' by (auto simp: run_simps pg_view_def moved_def)
  next
    case (lost now ord e n x d)
    then have "loses drv" by (auto simp: loses_def)
    then show ?thesis using lost run r' assms [OF lost(3)] by (auto simp: run_simps pg_view_def moved_def)
  qed
qed

text \<open>A row is found, or there is none.\<close>

lemma find_row_select:
  assumes ok: "sql_ok drv" and run: "run_state (find_row drv op (select f)) s = (r, t)"
  shows "pg_db t = pg_db s \<and> (\<forall>x. r = Inr x \<longrightarrow> (\<exists>now ord. f now ord (pg_db s) = x))"
proof -
  obtain r' t' where r': "run_state (pool_run drv (select f)) s = (r', t')" by fastforce
  have no_rows: "errors_Is ErrNoRows ErrNoRows" by (simp add: ErrNoRows_def)
  show ?thesis
    using r'
  proof (cases rule: pool_run_cases)
    case (served now ord x d)
    then show ?thesis
      using run r' no_rows
      by (auto simp: find_row_def pool_QueryRow_def scan_row_def run_simps select_def moved_def split: option.splits)
  next
    case (failed now ord e)
    then have "\<not> errors_Is e ErrNoRows" using ok by (auto simp: sql_ok_def select_def)
    then show ?thesis
      using failed run r' by (auto simp: find_row_def pool_QueryRow_def scan_row_def run_simps moved_def)
  next
    case (lost now ord e n x d)
    then have "\<not> errors_Is e ErrNoRows" using ok by (auto simp: sql_ok_def)
    then show ?thesis
      using lost run r' by (auto simp: find_row_def pool_QueryRow_def scan_row_def run_simps moved_def select_def)
  qed
qed

lemma effect_find_row:
  assumes "sql_ok drv" and "\<And>now ord d. Q (tables_view d) (g (f now ord d)) (tables_view d)"
  shows "effect pg_view (bind_or (find_row drv op (select f)) id (\<lambda>x. ret (Inr (g x)))) Q"
proof (rule effectI)
  fix s x t assume "run_state (bind_or (find_row drv op (select f)) id (\<lambda>x. ret (Inr (g x)))) s = (Inr x, t)"
  then obtain y t' where "run_state (find_row drv op (select f)) s = (Inr y, t')" "x = g y" "t = t'"
    by (auto simp: run_simps split: prod.splits sum.splits)
  then show "Q (pg_view s) x (pg_view t)"
    using find_row_select [OF assms(1)] assms(2) unfolding pg_view_def by metis
next
  fix s e t assume "run_state (bind_or (find_row drv op (select f)) id (\<lambda>x. ret (Inr (g x)))) s = (Inl e, t)"
  then obtain e' t' where "run_state (find_row drv op (select f)) s = (Inl e', t')" "t = t'"
    by (auto simp: run_simps split: prod.splits sum.splits)
  then show "pg_view t = pg_view s"
    using find_row_select [OF assms(1)] unfolding pg_view_def by metis
qed

section \<open>The contracts\<close>

lemma view_simps [simp]:
  "db_likes (tables_view d) = keys (t_likes d)" "db_follows (tables_view d) = keys (t_follows d)"
  "db_posts (tables_view d) i = map_option unstamped_post (get_map (t_posts d) i)"
  "db_users (tables_view d) i = map_option unstamped_user (get_map (t_users d) i)"
  by (simp_all add: tables_view_def)

lemma view_updates:
  "tables_view (d\<lparr>t_likes := ls\<rparr>) = (tables_view d)\<lparr>db_likes := keys ls\<rparr>"
  "tables_view (d\<lparr>t_follows := fs\<rparr>) = (tables_view d)\<lparr>db_follows := keys fs\<rparr>"
  "tables_view (d\<lparr>t_posts := set_map i p (t_posts d)\<rparr>) = (tables_view d)\<lparr>db_posts := (db_posts (tables_view d))(i \<mapsto> unstamped_post p)\<rparr>"
  "tables_view (d\<lparr>t_users := set_map j u (t_users d)\<rparr>) = (tables_view d)\<lparr>db_users := (db_users (tables_view d))(j \<mapsto> unstamped_user u)\<rparr>"
  by (auto simp: tables_view_def fun_eq_iff)

lemma same_view: "v\<lparr>db_likes := db_likes v\<rparr> = v" "v\<lparr>db_follows := db_follows v\<rparr> = v"
  by simp_all

lemma pg_like_laws:
  assumes "pg_key u" "pg_key p"
  shows "insert_likes u p now ord d = Inr (n, d') \<Longrightarrow>
      (0 < n) = ((u, p) \<notin> db_likes (tables_view d)) \<and>
      tables_view d' = (tables_view d)\<lparr>db_likes := insert (u, p) (db_likes (tables_view d))\<rparr>"
    and "delete_likes u p now ord d = Inr (n, d') \<Longrightarrow>
      (0 < n) = ((u, p) \<in> db_likes (tables_view d)) \<and>
      tables_view d' = (tables_view d)\<lparr>db_likes := db_likes (tables_view d) - {(u, p)}\<rparr>"
  using assms
  by (auto simp: pg_key_def insert_likes_def delete_likes_def Let_def view_updates insert_absorb lookup_delete dom_def
      split: if_splits) (auto simp: tables_view_def dom_def)

lemma pg_follow_laws:
  assumes "pg_key a" "pg_key b"
  shows "insert_follows a b now ord d = Inr (n, d') \<Longrightarrow>
      (0 < n) = ((a, b) \<notin> db_follows (tables_view d)) \<and>
      tables_view d' = (tables_view d)\<lparr>db_follows := insert (a, b) (db_follows (tables_view d))\<rparr>"
    and "delete_follows a b now ord d = Inr (n, d') \<Longrightarrow>
      (0 < n) = ((a, b) \<in> db_follows (tables_view d)) \<and>
      tables_view d' = (tables_view d)\<lparr>db_follows := db_follows (tables_view d) - {(a, b)}\<rparr>"
  using assms
  by (auto simp: pg_key_def insert_follows_def delete_follows_def Let_def view_updates insert_absorb lookup_delete dom_def
      split: if_splits) (auto simp: tables_view_def dom_def)

text \<open>An update of one row is an update of the view.\<close>

lemma update_posts_view:
  assumes "update_posts i f now ord d = Inr (x, d')" and "bpchar 26 i = i"
    and "\<And>p. get_map (t_posts d) i = Some p \<Longrightarrow> int4 (Post_LikesCount (f p)) \<Longrightarrow> int8 (Post_RepliesCount (f p)) \<Longrightarrow>
      unstamped_post ((f p)\<lparr>Post_UpdatedAt := now\<rparr>) = g (unstamped_post p)"
  shows "tables_view d' = on_live i g (tables_view d)"
  using assms(1) [unfolded update_posts_def]
proof (cases rule: update_row_cases)
  case same
  have "\<forall>p. get_map (t_posts d) i = Some p \<longrightarrow> Post_DeletedAt p \<noteq> None"
    using assms(1,2) same(2) by (auto simp: update_posts_def update_row_def split: option.splits if_splits)
  then have "map_option (\<lambda>p. if Post_DeletedAt p = None then g p else p) (db_posts (tables_view d) i) = db_posts (tables_view d) i"
    by (auto simp: unstamped_post_def map_option_case split: option.split)
  then show ?thesis
    using same(1) unfolding on_live_def by (simp only: fun_upd_triv) simp
next
  case (new p)
  then show ?thesis
    using assms(2,3) by (auto simp: on_live_def view_updates unstamped_post_def)
qed

lemma update_users_view:
  assumes "update_users i (\<lambda>_. True) f now ord d = Inr (x, d')" and "bpchar 26 i = i"
    and "\<And>u. get_map (t_users d) i = Some u \<Longrightarrow> int8 (User_FollowersCount (f u)) \<Longrightarrow> int8 (User_FollowingCount (f u)) \<Longrightarrow>
      unstamped_user ((f u)\<lparr>User_UpdatedAt := now\<rparr>) = g (unstamped_user u)"
  shows "tables_view d' = on_row i g (tables_view d)"
  using assms(1) [unfolded update_users_def]
proof (cases rule: update_row_cases)
  case same
  then have "get_map (t_users d) i = None"
    using assms(1,2) by (auto simp: update_users_def update_row_def split: option.splits)
  then show ?thesis using same(1) by (auto simp: on_row_def fun_eq_iff)
next
  case (new u)
  then show ?thesis using assms(2,3) by (auto simp: on_row_def view_updates)
qed

lemma unstamp_counters:
  "int4 (Post_LikesCount p + 1) \<Longrightarrow> unstamped_post (p\<lparr>Post_LikesCount := Post_LikesCount p + 1, Post_UpdatedAt := now\<rparr>) = inc_likes (unstamped_post p)"
  "int8 (Post_RepliesCount p + 1) \<Longrightarrow> unstamped_post (p\<lparr>Post_RepliesCount := Post_RepliesCount p + 1, Post_UpdatedAt := now\<rparr>) = inc_replies (unstamped_post p)"
  "0 \<le> Post_LikesCount p \<Longrightarrow> int4 (max (Post_LikesCount p - 1) 0) \<Longrightarrow>
     unstamped_post (p\<lparr>Post_LikesCount := max (Post_LikesCount p - 1) 0, Post_UpdatedAt := now\<rparr>) = dec_likes (unstamped_post p)"
  "0 \<le> Post_RepliesCount p \<Longrightarrow> int8 (max (Post_RepliesCount p - 1) 0) \<Longrightarrow>
     unstamped_post (p\<lparr>Post_RepliesCount := max (Post_RepliesCount p - 1) 0, Post_UpdatedAt := now\<rparr>) = dec_replies (unstamped_post p)"
  "int8 (User_FollowersCount u + 1) \<Longrightarrow> unstamped_user (u\<lparr>User_FollowersCount := User_FollowersCount u + 1, User_UpdatedAt := now\<rparr>) = inc_followers (unstamped_user u)"
  "int8 (User_FollowingCount u + 1) \<Longrightarrow> unstamped_user (u\<lparr>User_FollowingCount := User_FollowingCount u + 1, User_UpdatedAt := now\<rparr>) = inc_following (unstamped_user u)"
  "0 \<le> User_FollowersCount u \<Longrightarrow> int8 (max (User_FollowersCount u - 1) 0) \<Longrightarrow>
     unstamped_user (u\<lparr>User_FollowersCount := max (User_FollowersCount u - 1) 0, User_UpdatedAt := now\<rparr>) = dec_followers (unstamped_user u)"
  "0 \<le> User_FollowingCount u \<Longrightarrow> int8 (max (User_FollowingCount u - 1) 0) \<Longrightarrow>
     unstamped_user (u\<lparr>User_FollowingCount := max (User_FollowingCount u - 1) 0, User_UpdatedAt := now\<rparr>) = dec_following (unstamped_user u)"
  by (cases p; cases u; auto simp: unstamped_post_def unstamped_user_def inc64_def dec64_def int4_def int8_def max_int64_def min_int64_def)+

lemma countedD:
  assumes "counted (tables_view d)"
  shows "get_map (t_posts d) i = Some p \<Longrightarrow> 0 \<le> Post_LikesCount p \<and> 0 \<le> Post_RepliesCount p"
    and "get_map (t_users d) i = Some u \<Longrightarrow> 0 \<le> User_FollowersCount u \<and> 0 \<le> User_FollowingCount u"
proof -
  assume "get_map (t_posts d) i = Some p"
  then have "db_posts (tables_view d) i = Some (unstamped_post p)" by simp
  from assms [unfolded counted_def, THEN conjunct1, rule_format, OF this]
  show "0 \<le> Post_LikesCount p \<and> 0 \<le> Post_RepliesCount p" by (simp add: unstamped_post_def)
next
  assume "get_map (t_users d) i = Some u"
  then have "db_users (tables_view d) i = Some (unstamped_user u)" by simp
  from assms [unfolded counted_def, THEN conjunct2, rule_format, OF this]
  show "0 \<le> User_FollowersCount u \<and> 0 \<le> User_FollowingCount u" by (simp add: unstamped_user_def)
qed

lemma exec_posts_law:
  assumes "pg_key i"
    and "\<And>d now p. get_map (t_posts d) i = Some p \<Longrightarrow> int4 (Post_LikesCount (f now p)) \<Longrightarrow> int8 (Post_RepliesCount (f now p)) \<Longrightarrow>
      C (tables_view d) \<Longrightarrow> unstamped_post ((f now p)\<lparr>Post_UpdatedAt := now\<rparr>) = g (unstamped_post p)"
  shows "writes (loses drv) pg_view (exec_posts drv op i f) (\<lambda>v _ v'. C v \<longrightarrow> v' = on_live i g v)"
  unfolding exec_posts_def
  by (rule writes_exec) (use assms update_posts_view in \<open>auto simp: pg_key_def\<close>)

lemmas exec_posts_total = exec_posts_law [where C = "\<lambda>_. True", simplified]

lemma exec_users_law:
  assumes "pg_key i"
    and "\<And>d now u. get_map (t_users d) i = Some u \<Longrightarrow> int8 (User_FollowersCount (f now u)) \<Longrightarrow> int8 (User_FollowingCount (f now u)) \<Longrightarrow>
      C (tables_view d) \<Longrightarrow> unstamped_user ((f now u)\<lparr>User_UpdatedAt := now\<rparr>) = g (unstamped_user u)"
  shows "writes (loses drv) pg_view (exec_users drv op i (\<lambda>_. True) f) (\<lambda>v _ v'. C v \<longrightarrow> v' = on_row i g v)"
  unfolding exec_users_def
  by (rule writes_exec) (use assms update_users_view in \<open>auto simp: pg_key_def\<close>)

lemmas exec_users_total = exec_users_law [where C = "\<lambda>_. True", simplified]

text \<open>The driver as an interface: the laws of the stores hold for every driver that keeps its word.\<close>

locale pg_backend =
  fixes drv :: pg_driver
  assumes driver: "sql_ok drv"

sublocale pg_backend \<subseteq> pg_likes: like_store "loses drv" pg_key pg_view "PgLikeRepository drv"
  by unfold_locales
    (simp_all add: PgLikeRepository_def PgLike_Create_def PgLike_Delete_def,
     (rule writes_exec, drule (2) pg_like_laws, simp)+)

sublocale pg_backend \<subseteq> pg_follows: follow_store "loses drv" pg_key pg_view "PgFollowRepository drv"
  by unfold_locales
    (simp_all add: PgFollowRepository_def PgFollow_Create_def PgFollow_Delete_def,
     (rule writes_exec, drule (2) pg_follow_laws, simp)+)

lemma counted_frames:
  "counted v \<Longrightarrow> counted (v\<lparr>db_likes := L\<rparr>)" "counted v \<Longrightarrow> counted (v\<lparr>db_follows := F\<rparr>)"
  "counted v \<Longrightarrow> live (db_posts v) i = Some p \<Longrightarrow> counted (v\<lparr>db_posts := (db_posts v)(i \<mapsto> p\<lparr>Post_DeletedAt := d\<rparr>)\<rparr>)"
  "counted v \<Longrightarrow> live (db_posts v) i = Some p \<Longrightarrow> Post_ParentPostID p = Some q \<Longrightarrow> pg_key q"
  unfolding counted_def by (auto dest!: live_row)

lemma counted_following: "counted v \<Longrightarrow> counted (on_row sub (\<lambda>u. dec_following u) v)"
proof -
  assume v: "counted v"
  have "0 \<le> User_FollowersCount (dec_following u) \<and> 0 \<le> User_FollowingCount (dec_following u) \<and>
      User_FollowingCount (dec_following u) \<le> max_int64" if "db_users v sub = Some u" for u
    using v [unfolded counted_def, THEN conjunct2, rule_format, OF that] by auto
  then show ?thesis
    using v unfolding counted_def by (auto simp: on_row_def split: if_splits)
qed

text \<open>Reading a row and deleting a post.\<close>

lemma pg_Get_law:
  assumes "sql_ok drv" and "pg_key i"
  shows "effect pg_view (posts_GetByID (unstamped_posts (PgPostRepository drv)) i) (\<lambda>v r v'. r = live (db_posts v) i \<and> v' = v)"
  using assms(2)
  by (simp add: unstamped_posts_def PgPostRepository_def PgPost_GetByID_def)
    (intro effect_find_row [OF assms(1)], auto simp: pg_key_def live_def unstamped_post_def split: option.split)

lemma pg_Delete_law:
  assumes "pg_key i"
  shows "writes (loses drv) pg_view (PgPost_Delete drv i) (\<lambda>v _ v'. \<forall>p. live (db_posts v) i = Some p \<longrightarrow>
      (\<exists>now. v' = v\<lparr>db_posts := (db_posts v)(i \<mapsto> p\<lparr>Post_DeletedAt := Some now\<rparr>)\<rparr>))"
  unfolding PgPost_Delete_def exec_posts_def
proof (rule writes_exec, intro allI impI)
  fix now ord d x d' p
  assume u: "update_posts i (\<lambda>p. p\<lparr>Post_DeletedAt := Some now\<rparr>) now ord d = Inr (x, d')"
    and p: "live (db_posts (tables_view d)) i = Some p"
  have "tables_view d' = on_live i (\<lambda>p. p\<lparr>Post_DeletedAt := Some now\<rparr>) (tables_view d)"
    by (rule update_posts_view [OF u]) (use assms in \<open>simp_all add: pg_key_def unstamped_post_def\<close>)
  moreover have "Post_DeletedAt p = None" using p by (auto simp: live_def split: option.splits if_splits)
  ultimately show "\<exists>now. tables_view d' = (tables_view d)\<lparr>db_posts := (db_posts (tables_view d))(i \<mapsto> p\<lparr>Post_DeletedAt := Some now\<rparr>)\<rparr>"
    using live_row [OF p] by (auto simp: on_live_def)
qed

lemma pg_GetBySub_law:
  assumes "sql_ok drv" and "pg_key i"
  shows "effect pg_view (users_GetBySub (unstamped_users (PgUserRepository drv)) i) (\<lambda>v r v'. r = db_users v i \<and> v' = v)"
  using assms(2)
  by (simp add: unstamped_users_def PgUserRepository_def PgUser_GetBySub_def)
    (intro effect_find_row [OF assms(1)], auto simp: pg_key_def)

sublocale pg_backend \<subseteq> pg_posts: post_store "loses drv" pg_key counted pg_view "unstamped_posts (PgPostRepository drv)"
proof unfold_locales
  fix i assume key: "pg_key i"
  note law = exec_posts_law [OF key] and defs = unstamped_posts_def PgPostRepository_def
  show "effect pg_view (posts_GetByID (unstamped_posts (PgPostRepository drv)) i) (\<lambda>v r v'. r = live (db_posts v) i \<and> v' = v)"
    using driver key by (rule pg_Get_law)
  show "writes (loses drv) pg_view (posts_Delete (unstamped_posts (PgPostRepository drv)) i) (\<lambda>v _ v'. \<forall>p. live (db_posts v) i = Some p \<longrightarrow>
      (\<exists>now. v' = v\<lparr>db_posts := (db_posts v)(i \<mapsto> p\<lparr>Post_DeletedAt := Some now\<rparr>)\<rparr>))"
    using pg_Delete_law [OF key] by (simp add: defs)
  show "writes (loses drv) pg_view (posts_IncrementRepliesCount (unstamped_posts (PgPostRepository drv)) i) (\<lambda>v _ v'. v' = on_live i inc_replies v)"
    unfolding defs by (simp add: PgPost_IncrementRepliesCount_def) (rule exec_posts_total [OF key], simp add: unstamp_counters(2))
  show "writes (loses drv) pg_view (posts_DecrementRepliesCount (unstamped_posts (PgPostRepository drv)) i)
      (\<lambda>v _ v'. counted v \<longrightarrow> v' = on_live i (\<lambda>p. dec_replies p) v)"
    unfolding defs by (simp add: PgPost_DecrementRepliesCount_def) (rule law, simp add: unstamp_counters(4) countedD)
  show "writes (loses drv) pg_view (posts_IncrementLikesCount (unstamped_posts (PgPostRepository drv)) i) (\<lambda>v _ v'. v' = on_live i inc_likes v)"
    unfolding defs by (simp add: PgPost_IncrementLikesCount_def) (rule exec_posts_total [OF key], simp add: unstamp_counters(1))
  show "writes (loses drv) pg_view (posts_DecrementLikesCount (unstamped_posts (PgPostRepository drv)) i)
      (\<lambda>v _ v'. counted v \<longrightarrow> v' = on_live i (\<lambda>p. dec_likes p) v)"
    unfolding defs by (simp add: PgPost_DecrementLikesCount_def) (rule law, simp add: unstamp_counters(3) countedD)
qed (auto intro: counted_frames)

sublocale pg_backend \<subseteq> pg_users: user_store "loses drv" pg_key counted pg_view "unstamped_users (PgUserRepository drv)"
proof unfold_locales
  fix i assume key: "pg_key i"
  note law = exec_users_law [OF key] and defs = unstamped_users_def PgUserRepository_def
  show "effect pg_view (users_GetBySub (unstamped_users (PgUserRepository drv)) i) (\<lambda>v r v'. r = db_users v i \<and> v' = v)"
    using driver key by (rule pg_GetBySub_law)
  show "writes (loses drv) pg_view (users_IncrementFollowersCount (unstamped_users (PgUserRepository drv)) i) (\<lambda>v _ v'. v' = on_row i inc_followers v)"
    unfolding defs by (simp add: PgUser_IncrementFollowersCount_def) (rule exec_users_total [OF key], simp add: unstamp_counters(5))
  show "writes (loses drv) pg_view (users_DecrementFollowersCount (unstamped_users (PgUserRepository drv)) i)
      (\<lambda>v _ v'. counted v \<longrightarrow> v' = on_row i (\<lambda>u. dec_followers u) v)"
    unfolding defs by (simp add: PgUser_DecrementFollowersCount_def) (rule law, simp add: unstamp_counters(7) countedD)
  show "writes (loses drv) pg_view (users_IncrementFollowingCount (unstamped_users (PgUserRepository drv)) i) (\<lambda>v _ v'. v' = on_row i inc_following v)"
    unfolding defs by (simp add: PgUser_IncrementFollowingCount_def) (rule exec_users_total [OF key], simp add: unstamp_counters(6))
  show "writes (loses drv) pg_view (users_DecrementFollowingCount (unstamped_users (PgUserRepository drv)) i)
      (\<lambda>v _ v'. counted v \<longrightarrow> v' = on_row i (\<lambda>u. dec_following u) v)"
    unfolding defs by (simp add: PgUser_DecrementFollowingCount_def) (rule law, simp add: unstamp_counters(8) countedD)
qed (auto intro: counted_frames counted_following)

sublocale pg_backend \<subseteq> pg_service: post_service "loses drv" pg_key counted pg_view "PgLikeRepository drv" "unstamped_posts (PgPostRepository drv)" ..

sublocale pg_backend \<subseteq> pg_graph: follow_service "loses drv" pg_key counted pg_view "unstamped_users (PgUserRepository drv)" "PgFollowRepository drv" ..

section \<open>The use cases\<close>

text \<open>No use case looks at \<open>updated_at\<close>.\<close>

lemma bind_or_map:
  "bind_or (bind_or m id (\<lambda>r. ret (Inr (f r)))) w k = bind_or m w (\<lambda>r. k (f r))"
  by (rule state.expand) (auto simp: run_simps fun_eq_iff split: prod.split sum.split)

lemma unstamped_fields [simp]:
  "posts_Delete (unstamped_posts R) = posts_Delete R"
  "posts_IncrementLikesCount (unstamped_posts R) = posts_IncrementLikesCount R"
  "posts_DecrementLikesCount (unstamped_posts R) = posts_DecrementLikesCount R"
  "posts_DecrementRepliesCount (unstamped_posts R) = posts_DecrementRepliesCount R"
  "posts_GetByID (unstamped_posts R) i = bind_or (posts_GetByID R i) id (\<lambda>r. ret (Inr (map_option unstamped_post r)))"
  "users_IncrementFollowersCount (unstamped_users U) = users_IncrementFollowersCount U"
  "users_DecrementFollowersCount (unstamped_users U) = users_DecrementFollowersCount U"
  "users_IncrementFollowingCount (unstamped_users U) = users_IncrementFollowingCount U"
  "users_DecrementFollowingCount (unstamped_users U) = users_DecrementFollowingCount U"
  "users_GetBySub (unstamped_users U) i = bind_or (users_GetBySub U i) id (\<lambda>r. ret (Inr (map_option unstamped_user r)))"
  by (simp_all add: unstamped_posts_def unstamped_users_def)

lemma unstamped_columns:
  "Post_UserID (unstamped_post q) = Post_UserID q" "Post_ParentPostID (unstamped_post q) = Post_ParentPostID q"
  "User_DeletedAt (unstamped_user u) = User_DeletedAt u" "User_FollowersCount (unstamped_user u) = User_FollowersCount u"
  by (simp_all add: unstamped_post_def unstamped_user_def)

lemma unstamped_use_cases:
  "LikePost_Execute (unstamped_posts R) likes hook u p = LikePost_Execute R likes hook u p"
  "UnlikePost_Execute (unstamped_posts R) likes u p = UnlikePost_Execute R likes u p"
  "DeletePost_Execute (unstamped_posts R) i sub = DeletePost_Execute R i sub"
  "Follow_Execute (unstamped_users U) follows hook a b = Follow_Execute U follows hook a b"
  "Unfollow_Execute (unstamped_users U) follows a b = Unfollow_Execute U follows a b"
  unfolding LikePost_Execute_def UnlikePost_Execute_def DeletePost_Execute_def Follow_Execute_def Unfollow_Execute_def
    unstamped_fields bind_or_map case_map_option comp_def unstamped_columns countOrZero_def
  by simp_all

context pg_backend
begin

lemmas pg_service_like = pg_service.like_implements [unfolded unstamped_use_cases]
lemmas pg_service_unlike = pg_service.unlike_implements [unfolded unstamped_use_cases]
lemmas pg_service_delete = pg_service.delete_implements [unfolded unstamped_use_cases]
lemmas pg_graph_follow = pg_graph.follow_implements [unfolded unstamped_use_cases]
lemmas pg_graph_unfollow = pg_graph.unfollow_implements [unfolded unstamped_use_cases]

end

text \<open>A driver that serves every call keeps its word.\<close>

interpretation serving: pg_backend "\<lambda>_. Served"
  by unfold_locales (simp add: sql_ok_def)


text \<open>C14. Following and unfollowing on PostgreSQL implement abs_follow and abs_unfollow, the row and both
  counters, and report the follower count. The statements are not one transaction: an error of a
  later statement leaves the earlier ones in, and when replies get lost an error may hide that
  its own statement took effect; no error leaves anything else. Nothing is asked of the driver but that
  it reports ErrNoRows only for an empty result.\<close>

theorem pg_follows_refine:
  assumes "sql_ok drv" and "quiet_hook pg_view hook" and "pg_key a" and "pg_key b" and "counted (pg_view s)"
  shows "wp (Follow_Execute (PgUserRepository drv) (PgFollowRepository drv) hook a b) (\<lambda>r t. case r of
       Inr res \<Rightarrow> (\<exists>u. a \<noteq> [] \<and> b \<noteq> [] \<and> a \<noteq> b \<and> db_users (pg_view s) b = Some u \<and> User_DeletedAt u = None \<and>
          pg_view t = abs_follow a b (pg_view s) \<and> Result_Following res \<and>
          Result_FollowersCount res = (if (a, b) \<in> db_follows (pg_view s) then User_FollowersCount u else inc64 (User_FollowersCount u)))
     | Inl e \<Rightarrow> pg_view t = pg_view s \<or> (a, b) \<notin> db_follows (pg_view s) \<and>
         (pg_view t = (pg_view s)\<lparr>db_follows := insert (a, b) (db_follows (pg_view s))\<rparr> \<and>
            (db_error ''failed to bump following_count'' e \<or> loses drv \<and> db_error ''failed to create follow'' e) \<or>
          pg_view t = on_row a inc_following ((pg_view s)\<lparr>db_follows := insert (a, b) (db_follows (pg_view s))\<rparr>) \<and>
            (db_error ''failed to bump followers_count'' e \<or> loses drv \<and> db_error ''failed to bump following_count'' e) \<or>
          loses drv \<and> db_error ''failed to bump followers_count'' e \<and> pg_view t = abs_follow a b (pg_view s))) s \<and>
     wp (Unfollow_Execute (PgUserRepository drv) (PgFollowRepository drv) a b) (\<lambda>r t. case r of
       Inr res \<Rightarrow> a \<noteq> [] \<and> b \<noteq> [] \<and> a \<noteq> b \<and> pg_view t = abs_unfollow a b (pg_view s) \<and> \<not> Result_Following res \<and>
          Result_FollowersCount res = countOrZero (db_users (pg_view t) b)
     | Inl e \<Rightarrow> pg_view t = pg_view s \<or> (a, b) \<in> db_follows (pg_view s) \<and>
         (pg_view t = (pg_view s)\<lparr>db_follows := db_follows (pg_view s) - {(a, b)}\<rparr> \<and>
            (db_error ''failed to decrement following_count'' e \<or> loses drv \<and> db_error ''failed to delete follow'' e) \<or>
          pg_view t = on_row a (\<lambda>u. dec_following u) ((pg_view s)\<lparr>db_follows := db_follows (pg_view s) - {(a, b)}\<rparr>) \<and>
            (db_error ''failed to decrement followers_count'' e \<or> loses drv \<and> db_error ''failed to decrement following_count'' e) \<or>
          pg_view t = abs_unfollow a b (pg_view s) \<and>
            (db_error ''failed to reload target user'' e \<or> loses drv \<and> db_error ''failed to decrement followers_count'' e))) s"
proof -
  have pg: "pg_backend drv" using assms(1) by (rule pg_backend.intro)
  show ?thesis
    using pg_backend.pg_graph_follow [OF pg assms(2-4)] pg_backend.pg_graph_unfollow [OF pg assms(3-5)] by blast
qed

end
