(* ===== verification/Pg_Paging.thy ===== *)
theory Pg_Paging
  imports Pg_Post Pg_Follow Mem_Post Mem_Follow
begin

text \<open>
  The lists of the two backends against each other. The in-memory backend sorts all rows and cuts a page
  from them; PostgreSQL filters, sorts and limits on the server, and the repository reads one row more
  than the page to see whether more follow. On the same rows both return the same page and the same cursor.
\<close>

section \<open>Queries that are served\<close>

definition always_served :: "pg_driver \<Rightarrow> bool" where
  "always_served drv \<longleftrightarrow> (\<forall>n. drv n = Served)"

lemma fst_query_rows:
  assumes "always_served drv"
  shows "fst (run_state (query_rows drv op iter q f) s) =
     (case q (timestamptz (rt_clock s (rt_ticks s))) (rt_order s (rt_ranges s)) (pg_db s) of
        Inl e \<Rightarrow> Inl (pgerr op e) | Inr (rows, d) \<Rightarrow> Inr (f rows))"
  using assms
  by (simp add: always_served_def query_rows_def pool_run_def tx_run_def rows_Err_def run_simps split: sum.split prod.split)

lemma insert_by_cong:
  "(\<And>y. y \<in> set ys \<Longrightarrow> lt y x = lt' y x) \<Longrightarrow> insert_by lt x ys = insert_by lt' x ys"
  by (induction ys) auto

lemma sort_slice_cong:
  "(\<And>x y. x \<in> set xs \<Longrightarrow> y \<in> set xs \<Longrightarrow> lt x y = lt' x y) \<Longrightarrow> sort_slice lt xs = sort_slice lt' xs"
proof (induction xs)
  case (Cons x xs)
  then have "sort_slice lt xs = sort_slice lt' xs" by simp
  then show ?case using Cons.prems by (auto intro!: insert_by_cong)
qed simp

lemma mset_entries_cong: "get_map m = get_map m' \<Longrightarrow> mset (entries m) = mset (entries m')"
  by (rule set_eq_iff_mset_eq_distinct [THEN iffD1])
    (auto simp: distinct_of_map [of fst])

section \<open>Posts\<close>

lemma scan_posts_take:
  "int (length acc) \<le> limit \<Longrightarrow> scan_posts limit acc rows = acc @ take (nat limit + 1 - length acc) rows"
proof (induction rows arbitrary: acc)
  case (Cons p rows)
  show ?case
  proof (cases "int (length (acc @ [p])) > limit")
    case True
    then have "nat limit + 1 - length acc = 1" using Cons.prems by simp
    then show ?thesis using True by simp
  next
    case False
    then have "nat limit + 1 - length acc = Suc (nat limit + 1 - length (acc @ [p]))" using Cons.prems by simp
    then show ?thesis using False Cons.IH [of "acc @ [p]"] by simp
  qed
qed simp

text \<open>One row more than the page is enough.\<close>

lemma scanPostPage_paginate:
  assumes "0 < limit"
  shows "scanPostPage limit (take (nat (limit + 1)) rows) = paginate rows limit"
proof -
  have "nat (limit + 1) = nat limit + 1" using assms by simp
  then have "scan_posts limit [] (take (nat (limit + 1)) rows) = take (nat limit + 1) rows"
    using assms by (simp add: scan_posts_take)
  then show ?thesis
    using assms by (auto simp: scanPostPage_def paginate_def Let_def min_def)
qed

text \<open>The same posts in both stores, under ids that fill their columns.\<close>

definition same_posts :: "mem \<Rightarrow> pg \<Rightarrow> bool" where
  "same_posts m s \<longleftrightarrow> get_map (t_posts (pg_db s)) = get_map (m_posts m) \<and> posts_keyed m \<and>
     (\<forall>i. get_map (m_posts m) i \<noteq> None \<longrightarrow> IsULID i)"

lemma pg_page:
  assumes srv: "always_served drv" and same: "same_posts m s" and limit: "0 < limit" "limit < max_int64"
    and clauses: "\<And>p. IsULID (Post_ID p) \<Longrightarrow> list_all (clause_holds p) cs \<longleftrightarrow>
      flt p \<and> (case c of None \<Rightarrow> True | Some k \<Rightarrow> Post_ID p < k)"
  shows "fst (run_state (query_rows drv op iter (buildPostListQuery cs (wrap64 (limit + 1))) (scanPostPage limit)) s) =
     Inr (paginate (post_pages.after c (feed flt m)) limit)"
proof -
  define ord where "ord = rt_order s (rt_ranges s)"
  define rows where "rows = rows_of ord (t_posts (pg_db s))"
  have keyed: "posts_keyed m" using same by (simp add: same_posts_def)
  have ulid: "IsULID (Post_ID p)" if p: "p \<in> set rows" for p
  proof -
    obtain i where "get_map (t_posts (pg_db s)) i = Some p"
      using p by (auto simp: rows_def rows_of_def)
    then show ?thesis using same posts_keyedD [OF keyed, of i p] by (simp add: same_posts_def)
  qed
  have m: "mset rows = mset (map snd (entries (m_posts m)))"
    using mset_entries_cong [of "t_posts (pg_db s)" "m_posts m"] same
    by (simp only: rows_def rows_of_def mset_map mset_shuffle same_posts_def)
  let ?kept = "filter (\<lambda>p. list_all (clause_holds p) cs) rows"
  have kept: "?kept = filter (\<lambda>p. case c of None \<Rightarrow> True | Some k \<Rightarrow> Post_ID p < k) (filter flt rows)"
    unfolding filter_filter using clauses ulid by (intro filter_cong) auto
  have "sort_slice posts_order ?kept = sort_slice (\<lambda>a b. Post_ID a > Post_ID b) ?kept"
    using ulid by (intro sort_slice_cong) (auto simp: posts_order_def rtrim_ULID)
  also have "\<dots> = post_pages.after c (sort_slice (\<lambda>a b. Post_ID a > Post_ID b) (filter flt (map snd (entries (m_posts m)))))"
    unfolding kept by (rule post_pages.sort_after [OF distinct_rows [OF keyed]]) (simp only: mset_filter m)
  finally have sorted: "sort_slice posts_order ?kept = post_pages.after c (feed flt m)"
    by (simp add: feed_def id_desc_def [abs_def])
  have "wrap64 (limit + 1) = limit + 1" using limit by (simp add: max_int64_def)
  then show ?thesis
    using limit sorted
    by (simp add: fst_query_rows [OF srv] buildPostListQuery_def select_def scanPostPage_paginate rows_def ord_def)
qed

text \<open>A cursor a client may send: none, or a text without blanks at its end.\<close>

definition plain_cursor :: "string option \<Rightarrow> bool" where
  "plain_cursor c \<longleftrightarrow> (\<forall>k. c = Some k \<longrightarrow> k \<noteq> [] \<and> rtrim k = k)"

lemma cursor_clause_holds:
  "plain_cursor c \<Longrightarrow> IsULID (Post_ID p) \<Longrightarrow>
   list_all (clause_holds p) (cursor_clause c) \<longleftrightarrow> (case c of None \<Rightarrow> True | Some k \<Rightarrow> Post_ID p < k)"
  by (auto simp: plain_cursor_def cursor_clause_def rtrim_ULID split: option.split)

lemma pg_pages_same:
  assumes "always_served drv" and "same_posts m s" and "limit < max_int64" and "plain_cursor c"
    and "pred_option IsULID u" and "list_all IsULID us" and "IsULID i"
  shows "fst (run_state (PgPost_List drv u c limit) s) = fst (run_state (PostRepository_List u c limit) m)"
    and "fst (run_state (PgPost_ListByUserIDs drv us c limit) s) = fst (run_state (PostRepository_ListByUserIDs us c limit) m)"
    and "fst (run_state (PgPost_ListReplies drv i c limit) s) = fst (run_state (PostRepository_ListReplies i c limit) m)"
proof -
  have keyed: "posts_keyed m" using assms(2) by (simp add: same_posts_def)
  have empty: "paginate rows limit = ([], [])" if "limit \<le> 0" for rows using that by (simp add: paginate_def)
  note mem = pages_of_List [OF keyed]
  have "list_all (clause_holds p) ([Live, Top_level] @ (case u of Some x \<Rightarrow> [By_user x] | None \<Rightarrow> []) @ cursor_clause c) \<longleftrightarrow>
      list_filter u p \<and> (case c of None \<Rightarrow> True | Some k \<Rightarrow> Post_ID p < k)" if "IsULID (Post_ID p)" for p
    using assms(5) that by (auto simp: cursor_clause_holds [OF assms(4)] list_filter_def split: option.splits)
  from pg_page [OF assms(1,2) _ assms(3) this]
  show "fst (run_state (PgPost_List drv u c limit) s) = fst (run_state (PostRepository_List u c limit) m)"
    by (cases "limit \<le> 0") (simp_all add: PgPost_List_def mem empty)
  have "bpchar 26 ` set us = set us" using assms(6) by (force simp: list_all_iff)
  then have "list_all (clause_holds p) ([Live, Top_level, By_users us] @ cursor_clause c) \<longleftrightarrow>
      authors_filter us p \<and> (case c of None \<Rightarrow> True | Some k \<Rightarrow> Post_ID p < k)" if "IsULID (Post_ID p)" for p
    using that by (auto simp: cursor_clause_holds [OF assms(4)] authors_filter_def)
  note page = pg_page [OF assms(1,2) _ assms(3) this]
  show "fst (run_state (PgPost_ListByUserIDs drv us c limit) s) = fst (run_state (PostRepository_ListByUserIDs us c limit) m)"
  proof (cases "limit \<le> 0 \<or> us = []")
    case True
    have "feed (authors_filter []) m = []" by (simp add: feed_def authors_filter_def)
    then show ?thesis
      using True by (auto simp: PgPost_ListByUserIDs_def mem empty post_pages.after_def paginate_def split: option.split)
  qed (use page in \<open>simp add: PgPost_ListByUserIDs_def mem\<close>)
  have "list_all (clause_holds p) ([Live, Reply_to i] @ cursor_clause c) \<longleftrightarrow>
      replies_filter i p \<and> (case c of None \<Rightarrow> True | Some k \<Rightarrow> Post_ID p < k)" if "IsULID (Post_ID p)" for p
    using assms(7) that by (auto simp: cursor_clause_holds [OF assms(4)] replies_filter_def)
  from pg_page [OF assms(1,2) _ assms(3) this]
  show "fst (run_state (PgPost_ListReplies drv i c limit) s) = fst (run_state (PostRepository_ListReplies i c limit) m)"
    by (cases "limit \<le> 0") (simp_all add: PgPost_ListReplies_def mem empty)
qed

text \<open>C15. The two backends page alike: on the same posts, under any order in which the server or the map visits
  them, List, ListByUserIDs and ListReplies of the PostgreSQL repository return the same posts in
  the same order and the same next cursor as the in-memory repository.\<close>

theorem pg_pages_agree:
  assumes "always_served drv" and "same_posts m s" and "limit < max_int64" and "plain_cursor c"
    and "pred_option IsULID u" and "list_all IsULID us" and "IsULID i"
  shows "fst (run_state (PgPost_List drv u c limit) s) = fst (run_state (PostRepository_List u c limit) m) \<and>
     fst (run_state (PgPost_ListByUserIDs drv us c limit) s) = fst (run_state (PostRepository_ListByUserIDs us c limit) m) \<and>
     fst (run_state (PgPost_ListReplies drv i c limit) s) = fst (run_state (PostRepository_ListReplies i c limit) m)"
  using pg_pages_same [OF assms] by blast

section \<open>Follows\<close>

lemma scan_follows_take:
  "int (length acc) \<le> limit \<Longrightarrow>
   scan_follows limit acc rows = (acc @ take (nat limit - length acc) rows, length rows > nat limit - length acc)"
proof (induction rows arbitrary: acc)
  case (Cons f rows)
  show ?case
  proof (cases "int (length acc) = limit")
    case False
    then have "nat limit - length acc = Suc (nat limit - length (acc @ [f]))" using Cons.prems by simp
    then show ?thesis using False Cons.prems Cons.IH [of "acc @ [f]"] by simp
  qed auto
qed simp

lemma follow_page_of:
  assumes "0 < limit"
  shows "follow_page limit side (take (nat (limit + 1)) rows) = follow_pages.page_of side (nat limit) rows"
proof -
  have "nat (limit + 1) = Suc (nat limit)" using assms by simp
  then have "scan_follows limit [] (take (nat (limit + 1)) rows) = (take (nat limit) rows, length rows > nat limit)"
    using assms by (simp add: scan_follows_take min_def)
  then show ?thesis
    using assms by (auto simp: follow_page_def follow_pages.page_of_def follow_key_def peerCol_def peerSub_def Let_def)
qed

definition same_follows :: "mem \<Rightarrow> pg \<Rightarrow> bool" where
  "same_follows m s \<longleftrightarrow> get_map (t_follows (pg_db s)) = get_map (m_follows m) \<and> follows_keyed m \<and>
     (\<forall>a b. get_map (m_follows m) (a, b) \<noteq> None \<longrightarrow> IsULID a \<and> IsULID b)"

text \<open>A cursor whose time the column can hold, as every cursor made from a row has it.\<close>

definition follow_cursor_ok :: "string option \<Rightarrow> bool" where
  "follow_cursor_ok c \<longleftrightarrow> (\<forall>ct cp. DecodeFollow c = Some (ct, cp) \<longrightarrow> timestamptz ct = ct \<and> rtrim cp = cp)"

lemma pg_listSide_agrees:
  assumes srv: "always_served drv" and same: "same_follows m s" and limit: "limit < max_int64"
    and c: "follow_cursor_ok c" and sub: "IsULID sub"
  shows "fst (run_state (pg_listSide drv sub c limit side) s) = fst (run_state (listSide sub c limit side) m)"
proof (cases "limit \<le> 0")
  case False
  define rows where "rows = rows_of (rt_order s (rt_ranges s)) (t_follows (pg_db s))"
  have keyed: "follows_keyed m" using same by (simp add: same_follows_def)
  have ulid: "rtrim (peerCol side f) = peerCol side f" if f: "f \<in> set rows" for f
  proof -
    obtain a b where "get_map (t_follows (pg_db s)) (a, b) = Some f"
      using f by (auto simp: rows_def rows_of_def)
    then have "IsULID a" "IsULID b" "Follow_FollowerSub f = a" "Follow_FolloweeSub f = b"
      using same follows_keyedD [OF keyed, of a b f] by (auto simp: same_follows_def)
    then show ?thesis by (simp add: peerCol_def rtrim_ULID)
  qed
  have m: "mset rows = mset (map snd (entries (m_follows m)))"
    using mset_entries_cong [of "t_follows (pg_db s)" "m_follows m"] same
    by (simp only: rows_def rows_of_def mset_map mset_shuffle same_follows_def)
  let ?P = "\<lambda>f. filterCol side f = bpchar 26 sub \<and>
    (case DecodeFollow c of Some (ct, cp) \<Rightarrow> tuple_before side (timestamptz ct) cp f | None \<Rightarrow> True)"
  have kept: "filter ?P rows = filter (\<lambda>f. case DecodeFollow c of None \<Rightarrow> True | Some k \<Rightarrow> follow_key side f < k)
      (filter (\<lambda>f. ownerSub side f = sub) rows)"
    unfolding filter_filter using c ulid sub
    by (intro filter_cong) (auto simp: follow_cursor_ok_def tuple_before_def follow_key_def filterCol_def ownerSub_def
        peerCol_def peerSub_def less_prod_def split: option.splits)
  have "sort_slice (follows_order side) (filter ?P rows) = sort_slice (\<lambda>a b. follow_key side a > follow_key side b) (filter ?P rows)"
    using ulid by (intro sort_slice_cong)
      (auto simp: follows_order_def follow_key_def peerCol_def peerSub_def less_prod_def)
  also have "\<dots> = follow_pages.after side c (sort_slice (\<lambda>a b. follow_key side a > follow_key side b)
      (filter (\<lambda>f. ownerSub side f = sub) (map snd (entries (m_follows m)))))"
    unfolding kept by (rule follow_pages.sort_after [OF distinct_follow_keys [OF keyed]]) (simp only: mset_filter m)
  finally have sorted: "sort_slice (follows_order side) (filter ?P rows) = follow_pages.after side c (follow_feed side sub m)"
    by (simp add: follow_feed_def follow_less_key)
  have "wrap64 (limit + 1) = limit + 1" using limit False by (simp add: max_int64_def)
  then show ?thesis
    using False sorted run_listSide [OF keyed, of limit sub c side]
    by (simp add: pg_listSide_def fst_query_rows [OF srv] side_query_def select_def follow_page_of rows_def)
qed (simp add: pg_listSide_def listSide_def)

text \<open>C16. The follower and following lists agree as well: on the same follow rows both backends return the same page
  and the same composite cursor.\<close>

theorem pg_follow_pages_agree:
  assumes "always_served drv" and "same_follows m s" and "limit < max_int64" and "follow_cursor_ok c" and "IsULID sub"
  shows "fst (run_state (PgFollow_ListFollowers drv sub c limit) s) = fst (run_state (FollowRepository_ListFollowers sub c limit) m) \<and>
     fst (run_state (PgFollow_ListFollowing drv sub c limit) s) = fst (run_state (FollowRepository_ListFollowing sub c limit) m)"
  using pg_listSide_agrees [OF assms]
  by (simp_all add: PgFollow_ListFollowers_def PgFollow_ListFollowing_def FollowRepository_ListFollowers_def
      FollowRepository_ListFollowing_def)

end
