(* ===== verification/Pg_Jobs.thy ===== *)
theory Pg_Jobs
  imports Pg_Integrity Pg_Paging UC_OGP
begin

text \<open>
  The job queue on PostgreSQL: what a claim does, and what becomes of a job whose
  result the columns of \<open>ogp_cache\<close> or \<open>ogp_jobs\<close> cannot hold.
\<close>

section \<open>Claiming\<close>

definition job_status :: "pg_tables \<Rightarrow> string \<Rightarrow> OGPJobStatus option" where
  "job_status db i = map_option (\<lambda>j. Job_Status (job_row j)) (get_map (t_ogp_jobs db) i)"

lemma mem_next_queued:
  assumes "j \<in> set (next_queued ord db)"
  shows "\<exists>i. get_map (t_ogp_jobs db) i = Some j \<and> Job_Status (job_row j) = OGPJobQueued"
  using set_take_subset [of 1] assms
  by (fastforce simp: next_queued_def rows_of_def dest: in_set_takeD)

interpretation enqueued_order: comparator enqueued_less
  unfolding enqueued_less_def by (rule comparator_key)

text \<open>The job that is picked is queued, and none that is queued was enqueued before it.\<close>

lemma next_queued_oldest:
  assumes "next_queued ord db = j # js" and "get_map (t_ogp_jobs db) i = Some k" and "Job_Status (job_row k) = OGPJobQueued"
  shows "Job_EnqueuedAt (job_row j) \<le> Job_EnqueuedAt (job_row k)"
proof -
  let ?q = "filter (\<lambda>j. Job_Status (job_row j) = OGPJobQueued) (rows_of ord (t_ogp_jobs db))"
  obtain rest where srt: "sort_slice enqueued_less ?q = j # rest"
    using assms(1) by (auto simp: next_queued_def split: list.splits intro: list.exhaust [of "sort_slice enqueued_less ?q"])
  have "k \<in> set ?q" using assms(2,3) by (force simp: rows_of_def simp flip: mem_entries)
  then have "k \<in> set (j # rest)" using srt by (metis set_sort_slice)
  then show ?thesis
    using enqueued_order.sorted_sort_slice [of ?q] unfolding srt by (auto simp: enqueued_less_def)
qed

lemma claim_next_cases:
  assumes ok: "schema_ok db" and "claim_next now ord db = Inr (x, d)"
  obtains (none) "x = None" "d = db" "next_queued ord db = []"
    | (claimed) i j where "get_map (t_ogp_jobs db) i = Some j" "Job_Status (job_row j) = OGPJobQueued" "Job_ID (job_row j) = i"
      "\<forall>i' k. get_map (t_ogp_jobs db) i' = Some k \<longrightarrow> Job_Status (job_row k) = OGPJobQueued \<longrightarrow>
        Job_EnqueuedAt (job_row j) \<le> Job_EnqueuedAt (job_row k)"
      "x = Some (job_row_update (\<lambda>r. r\<lparr>Job_Status := OGPJobRunning, Job_StartedAt := Some now, Job_Attempts := Job_Attempts r + 1\<rparr>) j)"
      "d = db\<lparr>t_ogp_jobs := set_map i (the x) (t_ogp_jobs db)\<rparr>"
proof (cases "next_queued ord db")
  case Nil
  then show ?thesis using assms(2) none by (simp add: claim_next_def)
next
  case (Cons j js)
  obtain i where i: "get_map (t_ogp_jobs db) i = Some j" "Job_Status (job_row j) = OGPJobQueued"
    using mem_next_queued [of j ord db] Cons by auto
  have "job_row_ok (keys (t_posts db)) i j" using rows_okD [OF schema_parts(20) [OF ok] i(1)] .
  then have key: "Job_ID (job_row j) = i" "bpchar 26 i = i" by (simp_all add: job_row_ok_def)
  have "\<forall>i' k. get_map (t_ogp_jobs db) i' = Some k \<longrightarrow> Job_Status (job_row k) = OGPJobQueued \<longrightarrow>
      Job_EnqueuedAt (job_row j) \<le> Job_EnqueuedAt (job_row k)"
    using next_queued_oldest [OF Cons] by blast
  then show ?thesis
    using assms(2) claimed [OF i key(1)] i Cons key
    by (auto simp: claim_next_def claim_row_def update_ogp_jobs_def update_row_def)
qed

text \<open>Claims one after another, by any number of workers: the ids they got. (Claims that overlap are in
  \<open>Pg_Race\<close>.)\<close>

fun claim_ids :: "pg_driver \<Rightarrow> string list \<Rightarrow> (pg, string list) state" where
  "claim_ids drv [] = ret []"
| "claim_ids drv (worker # workers) = do {
     r \<leftarrow> PgJobs_Claim drv worker;
     ids \<leftarrow> claim_ids drv workers;
     ret (case r of Inr (Some job) \<Rightarrow> Job_ID job # ids | _ \<Rightarrow> ids)
   }"

text \<open>A claim hands out a queued job and leaves it running; no other job becomes queued.\<close>

lemma run_Claim:
  assumes ok: "schema_ok (pg_db s)" and run: "run_state (PgJobs_Claim drv w) s = (r, t)"
  shows "schema_ok (pg_db t) \<and>
    (\<forall>i. job_status (pg_db t) i = Some OGPJobQueued \<longrightarrow> job_status (pg_db s) i = Some OGPJobQueued) \<and>
    (\<forall>job. r = Inr (Some job) \<longrightarrow> job_status (pg_db s) (Job_ID job) = Some OGPJobQueued \<and>
       job_status (pg_db t) (Job_ID job) = Some OGPJobRunning)"
proof -
  have keep: "schema_ok (pg_db t)"
  proof -
    have "keeps schema_ok (PgJobs_Claim drv w)" unfolding PgJobs_Claim_def by (intro keeps_rules schema_rules)
    then show ?thesis using ok run unfolding keeps_def by (metis snd_conv)
  qed
  obtain r' t' where r': "run_state (pool_run drv claim_next) s = (r', t')" by fastforce
  have t: "pg_db t = pg_db t'" and res: "r = Inr (Some job) \<Longrightarrow> \<exists>x. r' = Inr (Some x) \<and> job = scanOGPJob x" for job
    using run r' by (auto simp: PgJobs_Claim_def find_row_def pool_QueryRow_def scan_row_def run_simps split: sum.splits option.splits if_splits)
  have upd: "(\<forall>i. job_status d i = Some OGPJobQueued \<longrightarrow> job_status (pg_db s) i = Some OGPJobQueued) \<and>
      (\<forall>x. y = Some x \<longrightarrow> job_status (pg_db s) (Job_ID (job_row x)) = Some OGPJobQueued \<and>
         job_status d (Job_ID (job_row x)) = Some OGPJobRunning)"
    if "claim_next now ord (pg_db s) = Inr (y, d)" for now ord y d
    by (rule claim_next_cases [OF ok that]) (auto simp: job_status_def)
  show ?thesis
    using r'
  proof (cases rule: pool_run_cases)
    case (served now ord x d)
    then show ?thesis using keep upd [OF served(2)] t res by (fastforce simp: moved_def scanOGPJob_def)
  next
    case (failed now ord e)
    then show ?thesis using keep t res by (auto simp: moved_def)
  next
    case (lost now ord e n x d)
    then show ?thesis using keep upd [OF lost(3)] t res by (auto simp: moved_def)
  qed
qed

lemma claim_ids_queued:
  assumes "schema_ok (pg_db s)" and "run_state (claim_ids drv ws) s = (ids, t)"
  shows "distinct ids \<and> (\<forall>i\<in>set ids. job_status (pg_db s) i = Some OGPJobQueued)"
  using assms
proof (induction ws arbitrary: s ids t)
  case (Cons w ws)
  obtain r u where ru: "run_state (PgJobs_Claim drv w) s = (r, u)" by fastforce
  obtain is' t' where rest: "run_state (claim_ids drv ws) u = (is', t')" by fastforce
  note one = run_Claim [OF Cons.prems(1) ru]
  have later: "distinct is'" "\<forall>i\<in>set is'. job_status (pg_db u) i = Some OGPJobQueued"
    using Cons.IH [OF _ rest] one by auto
  have ids: "ids = (case r of Inr (Some job) \<Rightarrow> Job_ID job # is' | _ \<Rightarrow> is')"
    using Cons.prems(2) ru rest by simp
  have fresh: "Job_ID job \<notin> set is'" if "r = Inr (Some job)" for job
    using one later(2) that by force
  show ?case
    using one later fresh by (auto simp: ids split: sum.split option.split)
qed simp

section \<open>Results the columns cannot hold\<close>

text \<open>An error text too long for its column is refused, and the job keeps its row, whatever else happens.\<close>

lemma MarkFailed_too_long:
  assumes "\<not> fits_varchar 512 reason"
  shows "keeps (\<lambda>db. t_ogp_jobs db = J \<and> schema_ok db) (PgJobs_MarkFailed drv i reason retriable)"
proof -
  have "sql_keeps I (\<lambda>now. update_ogp_jobs i (f now) (\<lambda>_. [(fits_varchar 512 reason, too_long)]) now)" for f I
    using assms by (intro sql_keepsI) (auto simp: update_ogp_jobs_def update_row_def split: option.splits)
  then show ?thesis unfolding PgJobs_MarkFailed_def by (intro keeps_rules)
qed

lemma Upsert_keeps_jobs: "keeps (\<lambda>db. t_ogp_jobs db = J \<and> schema_ok db) (PgOGP_Upsert drv p)"
proof -
  have "sql_keeps (\<lambda>db. t_ogp_jobs db = J \<and> schema_ok db) (upsert_ogp_cache q f)" for q f
    using keeps_upsert_cache [of q f] by (auto simp: sql_keeps_def upsert_ogp_cache_def Let_def)
  then show ?thesis unfolding PgOGP_Upsert_def by (intro keeps_rules)
qed

text \<open>The worker over the PostgreSQL queue and cache; fetching and attaching are left open.\<close>

definition pg_worker :: "pg_driver \<Rightarrow> pg PostRepository \<Rightarrow> pg OGPLib \<Rightarrow> pg Worker" where
  "pg_worker drv posts lib =
     \<lparr>worker_queue = PgOGPJobQueue drv, worker_cache = PgOGPCacheRepository drv, worker_posts = posts, worker_lib = lib\<rparr>"

lemmas worker_fields = pg_worker_def PgOGPJobQueue_def PgOGPCacheRepository_def

text \<open>C18. A failed fetch whose error text is longer than the 512 characters of last_error (the text of a
  network error contains the URL) strands its job: MarkFailed is refused by the column, the job stays
  running, and no later claim by any worker hands it out again.\<close>

theorem pg_long_error_strands_job:
  assumes "schema_ok (pg_db s)" and "job_status (pg_db s) (Job_ID job) = Some OGPJobRunning"
    and "run_state (ogp_Fetch lib (Job_URL job)) s = (Inl err, s')" and "pg_db s' = pg_db s"
    and "\<not> fits_varchar 512 (Error err)"
    and "t = snd (run_state (process (pg_worker drv posts lib) job) s)"
  shows "job_status (pg_db t) (Job_ID job) = Some OGPJobRunning \<and>
     Job_ID job \<notin> set (fst (run_state (claim_ids drv workers) t))"
proof -
  let ?I = "\<lambda>db. t_ogp_jobs db = t_ogp_jobs (pg_db s) \<and> schema_ok db"
  let ?fail = "if Retriable err \<and> Job_Attempts job < MaxAttempts then markFailed (pg_worker drv posts lib) (Job_ID job) (Error err) True
    else do { now \<leftarrow> Now; _ \<leftarrow> PgOGP_Upsert drv (Some (error_preview job now err));
              markFailed (pg_worker drv posts lib) (Job_ID job) (Error err) False }"
  have "keeps ?I ?fail"
    using MarkFailed_too_long [OF assms(5)] Upsert_keeps_jobs
    unfolding markFailed_def worker_fields OGPJobQueue.simps Worker.simps by (intro keeps_rules)
  moreover have "t = snd (run_state ?fail s')"
    using assms(3,6) by (simp add: process_def worker_fields)
  ultimately have t: "?I (pg_db t)"
    using assms(1,4) unfolding keeps_def by metis
  then have st: "job_status (pg_db t) (Job_ID job) = Some OGPJobRunning"
    using assms(2) by (simp add: job_status_def)
  then show ?thesis
    using claim_ids_queued [of t drv workers] t by (metis OGPJobStatus.distinct(1) option.inject prod.collapse)
qed

text \<open>One job, always fetched with a result its columns cannot hold.\<close>

definition lone_job :: "string \<Rightarrow> int \<Rightarrow> pg_tables \<Rightarrow> bool" where
  "lone_job i a db \<longleftrightarrow> schema_ok db \<and>
     (\<exists>j. get_map (t_ogp_jobs db) i = Some j \<and> Job_Status (job_row j) = OGPJobQueued \<and> Job_Attempts (job_row j) = a) \<and>
     (\<forall>k. job_status db k = Some OGPJobQueued \<longrightarrow> k = i)"

fun worker_cycles :: "nat \<Rightarrow> pg Worker \<Rightarrow> (pg, unit) state" where
  "worker_cycles 0 w = ret ()"
| "worker_cycles (Suc n) w = do { _ \<leftarrow> runOnce w; worker_cycles n w }"

lemma run_pool_served:
  assumes "always_served drv"
  shows "run_state (pool_run drv q) s =
     (case q (timestamptz (rt_clock s (rt_ticks s))) (rt_order s (rt_ranges s)) (pg_db s) of
        Inl e \<Rightarrow> (Inl e, s\<lparr>rt_ticks := Suc (rt_ticks s), rt_ranges := Suc (rt_ranges s), pg_calls := Suc (pg_calls s)\<rparr>)
      | Inr (x, d) \<Rightarrow> (Inr x, s\<lparr>rt_ticks := Suc (rt_ticks s), rt_ranges := Suc (rt_ranges s), pg_calls := Suc (pg_calls s), pg_db := d\<rparr>))"
  using assms by (simp add: always_served_def pool_run_def tx_run_def run_simps split: sum.split prod.split)

lemma next_queued_lone:
  assumes "lone_job i a db" and "get_map (t_ogp_jobs db) i = Some j"
  shows "next_queued ord db = [j]"
proof -
  let ?q = "filter (\<lambda>j. Job_Status (job_row j) = OGPJobQueued) (rows_of ord (t_ogp_jobs db))"
  have "j \<in> set ?q" using assms by (force simp: lone_job_def rows_of_def simp flip: mem_entries)
  then have "sort_slice enqueued_less ?q \<noteq> []" by (metis empty_iff empty_set set_sort_slice)
  then obtain k rest where "sort_slice enqueued_less ?q = k # rest" by (meson list.exhaust)
  then have k: "next_queued ord db = [k]" by (simp add: next_queued_def)
  then obtain i' where "get_map (t_ogp_jobs db) i' = Some k" "Job_Status (job_row k) = OGPJobQueued"
    using mem_next_queued [of k ord db] by auto
  then have "k = j" using assms by (auto simp: lone_job_def job_status_def)
  then show ?thesis using k by simp
qed

lemma Upsert_too_long:
  assumes "always_served drv" and "\<not> fits_varchar 512 (Prev_Title p)" and "Prev_URLHash p \<noteq> []"
  shows "\<exists>e t. run_state (PgOGP_Upsert drv (Some p)) s = (Inl e, t) \<and> pg_db t = pg_db s \<and> Error e = ''postgres: upsert ogp cache: SQLSTATE 22001''"
  using assms(2,3)
  by (simp add: PgOGP_Upsert_def run_pool_served [OF assms(1)] upsert_ogp_cache_def checked_def ogp_cache_checks_def
      sqlstate_def pgerr_def run_simps Let_def)

text \<open>One cycle takes the job, fails to store the preview and puts the job back, one attempt later.\<close>

lemma Claim_lone:
  assumes srv: "always_served drv" and lone: "lone_job i a (pg_db s)" and a: "0 \<le> a" "a + 1 < 2 ^ 31"
    and j: "get_map (t_ogp_jobs (pg_db s)) i = Some j"
  shows "\<exists>u j'. run_state (PgJobs_Claim drv w) s = (Inr (Some (scanOGPJob j')), u) \<and> Job_ID (job_row j') = i \<and>
     Job_Attempts (job_row j') = a + 1 \<and> pg_db u = (pg_db s)\<lparr>t_ogp_jobs := set_map i j' (t_ogp_jobs (pg_db s))\<rparr>"
proof -
  have ok: "schema_ok (pg_db s)" and at: "Job_Attempts (job_row j) = a" using lone j by (auto simp: lone_job_def)
  have "job_row_ok (keys (t_posts (pg_db s))) i j" using rows_okD [OF schema_parts(20) [OF ok] j] .
  then have key: "Job_ID (job_row j) = i" "bpchar 26 i = i" by (simp_all add: job_row_ok_def)
  show ?thesis
    using key j at a
    by (simp add: PgJobs_Claim_def find_row_def pool_QueryRow_def scan_row_def run_simps run_pool_served [OF srv]
        claim_next_def claim_row_def next_queued_lone [OF lone j] update_ogp_jobs_def update_row_def checked_def int4_def)
      (rule exI, intro conjI refl, simp_all)
qed

lemma MarkFailed_requeues:
  assumes "always_served drv" and "get_map (t_ogp_jobs (pg_db s)) i = Some j" and "bpchar 26 i = i" and "fits_varchar 512 reason"
  shows "\<exists>t j'. run_state (PgJobs_MarkFailed drv i reason True) s = (Inr (), t) \<and> Job_Attempts (job_row j') = Job_Attempts (job_row j) \<and>
     Job_Status (job_row j') = OGPJobQueued \<and> pg_db t = (pg_db s)\<lparr>t_ogp_jobs := set_map i j' (t_ogp_jobs (pg_db s))\<rparr>"
  using assms(2-)
  by (simp add: PgJobs_MarkFailed_def run_simps run_pool_served [OF assms(1)] update_ogp_jobs_def update_row_def checked_def)
    (rule exI, rule conjI [rotated], rule conjI [rotated], rule refl, simp_all)

lemma cycle_requeues:
  assumes srv: "always_served drv" and lone: "lone_job i a (pg_db s)" and a: "0 \<le> a" "a + 1 < 2 ^ 31"
    and lib: "ogp_Fetch lib = (\<lambda>_. ret (Inr preview))" and bad: "\<not> fits_varchar 512 (Prev_Title preview)" "Prev_URLHash preview \<noteq> []"
  shows "lone_job i (a + 1) (pg_db (snd (run_state (runOnce (pg_worker drv posts lib)) s)))"
proof -
  obtain j where j: "get_map (t_ogp_jobs (pg_db s)) i = Some j" "Job_Status (job_row j) = OGPJobQueued" "Job_Attempts (job_row j) = a"
    and ok: "schema_ok (pg_db s)" using lone by (auto simp: lone_job_def)
  have key: "bpchar 26 i = i"
    using rows_okD [OF schema_parts(20) [OF ok] j(1)] by (simp add: job_row_ok_def)
  obtain u j' where u: "run_state (PgJobs_Claim drv ''ogp-worker'') s = (Inr (Some (scanOGPJob j')), u)" "Job_ID (job_row j') = i"
      "Job_Attempts (job_row j') = a + 1" "pg_db u = (pg_db s)\<lparr>t_ogp_jobs := set_map i j' (t_ogp_jobs (pg_db s))\<rparr>"
    using Claim_lone [OF srv lone a j(1)] by blast
  define p where "p = preview\<lparr>Prev_Status := OGPStatusOK, Prev_ExpiresAt := time_Add (rt_clock u (rt_ticks u)) SuccessTTL\<rparr>"
  define u1 where "u1 = u\<lparr>rt_ticks := Suc (rt_ticks u)\<rparr>"
  obtain e v where v: "run_state (PgOGP_Upsert drv (Some p)) u1 = (Inl e, v)" "pg_db v = pg_db u"
      "Error e = ''postgres: upsert ogp cache: SQLSTATE 22001''"
    using Upsert_too_long [OF srv, of p u1] bad by (auto simp: p_def u1_def)
  have short: "fits_varchar 512 (Error e)" unfolding v(3) by code_simp
  obtain t j2 where t: "run_state (PgJobs_MarkFailed drv i (Error e) True) v = (Inr (), t)" "Job_Attempts (job_row j2) = a + 1"
      "Job_Status (job_row j2) = OGPJobQueued" "pg_db t = (pg_db v)\<lparr>t_ogp_jobs := set_map i j2 (t_ogp_jobs (pg_db v))\<rparr>"
    using MarkFailed_requeues [OF srv _ key short, of v j'] u(3,4) v(2) by auto
  have run: "snd (run_state (runOnce (pg_worker drv posts lib)) s) = t"
    using u(1,2) v(1) t(1) lib
    by (simp add: runOnce_def process_def markFailed_def worker_fields run_simps Let_def scanOGPJob_def p_def u1_def)
  have "keeps schema_ok (PgJobs_MarkFailed drv i (Error e) True)"
    unfolding PgJobs_MarkFailed_def by (intro keeps_rules schema_rules) auto
  moreover have "schema_ok (pg_db v)" using run_Claim [OF ok u(1)] v(2) by simp
  ultimately have "schema_ok (pg_db t)" using t(1) unfolding keeps_def by (metis snd_conv)
  then show ?thesis
    using lone t(2-4) u(4) v(2) unfolding run by (auto simp: lone_job_def job_status_def split: if_splits)
qed

text \<open>C19. A page whose title is longer than the 512 characters of ogp_cache.title is fetched forever: storing the preview
  fails, and the worker then queues the job again without looking at its attempts, so after any number of cycles
  (up to the range of the counter) the job has been tried that many times more and is queued again.\<close>

theorem pg_oversized_preview_loops:
  assumes "always_served drv" and "lone_job i a (pg_db s)" and "0 \<le> a" and "a + int n < 2 ^ 31"
    and "ogp_Fetch lib = (\<lambda>_. ret (Inr preview))" and "\<not> fits_varchar 512 (Prev_Title preview)" and "Prev_URLHash preview \<noteq> []"
  shows "lone_job i (a + int n) (pg_db (snd (run_state (worker_cycles n (pg_worker drv posts lib)) s)))"
  using assms(2-4)
proof (induction n arbitrary: a s)
  case (Suc n)
  have "lone_job i (a + 1) (pg_db (snd (run_state (runOnce (pg_worker drv posts lib)) s)))"
    using cycle_requeues [OF assms(1) Suc.prems(1,2) _ assms(5-7)] Suc.prems(3) by simp
  then show ?case
    using Suc.IH [of "a + 1"] Suc.prems by (auto simp: run_simps algebra_simps split: prod.split)
qed simp

end
