(* ===== verification/Pg_Race.thy ===== *)
theory Pg_Race
  imports Pg_Jobs
begin

text \<open>
  Claims that race. \<open>Claim\<close> is one statement, but several sessions of the server may be inside it at
  the same time, and other statements commit in between. Here the statement is taken apart as
  PostgreSQL runs it at its default isolation level (READ COMMITTED, which the pool does not change): a
  snapshot of the queued rows, one visit per row, where the locking clause of the query decides what
  happens, and the update of the row that was picked, which commits and gives back the locks. The
  steps of all sessions interleave freely.
\<close>

section \<open>The statement, step by step\<close>

text \<open>A claim in progress: the ids of the snapshot it has not visited yet, in the order of the query; or the result of
  its subquery. Both come with the time of the statement.\<close>

datatype claim_run = Scanning time "string list" | Picked time "string option"

text \<open>What the workers see: a job is handed to a session, or it becomes queued (again).\<close>

datatype claim_event = Handed nat string | Opened string

record race =
  race_pg :: pg
  race_locks :: "string \<rightharpoonup> nat"
  race_runs :: "nat \<rightharpoonup> claim_run"
  race_log :: "claim_event list"

definition race_start :: "pg \<Rightarrow> race" where
  "race_start s = \<lparr>race_pg = s, race_locks = Map.empty, race_runs = Map.empty, race_log = []\<rparr>"

definition queued_ids :: "nat list \<Rightarrow> pg_tables \<Rightarrow> string list" where
  "queued_ids ord db =
     map (\<lambda>j. Job_ID (job_row j))
       (sort_slice enqueued_less (filter (\<lambda>j. Job_Status (job_row j) = OGPJobQueued) (rows_of ord (t_ogp_jobs db))))"

text \<open>The statement begins: session \<open>w\<close> takes its snapshot.\<close>

definition claim_begin :: "nat \<Rightarrow> race \<Rightarrow> race" where
  "claim_begin w r =
     (let (snap, s) = run_state (do { now \<leftarrow> Now; ord \<leftarrow> visit_order; db \<leftarrow> gets pg_db;
            ret (Scanning (timestamptz now) (queued_ids ord db)) }) (race_pg r)
      in if race_runs r w = None then r\<lparr>race_pg := s, race_runs := (race_runs r)(w \<mapsto> snap)\<rparr> else r)"

text \<open>A session waits for a row that another one has locked: with \<open>FOR UPDATE\<close> when it visits the row,
  and in any case when it updates it. With \<open>SKIP LOCKED\<close> a visit does not wait.\<close>

definition locked_by_other :: "race \<Rightarrow> nat \<Rightarrow> string \<Rightarrow> bool" where
  "locked_by_other r w i \<longleftrightarrow> (case race_locks r i of None \<Rightarrow> False | Some v \<Rightarrow> v \<noteq> w)"

definition waits :: "row_locking \<Rightarrow> race \<Rightarrow> nat \<Rightarrow> bool" where
  "waits lk r w \<longleftrightarrow> (case race_runs r w of
     Some (Scanning now (i # ids)) \<Rightarrow> lk = ForUpdate \<and> locked_by_other r w i
   | Some (Picked now (Some i)) \<Rightarrow> locked_by_other r w i
   | _ \<Rightarrow> False)"

text \<open>
  A visit. Without a locking clause the row is picked as the snapshot has it. With one, a row that
  another session has locked is skipped (or waited for); otherwise the row is locked, and its newest version is looked
  at again: it is picked if it still is queued.
\<close>

definition claim_visit :: "row_locking \<Rightarrow> nat \<Rightarrow> race \<Rightarrow> race" where
  "claim_visit lk w r = (case race_runs r w of
     Some (Scanning now []) \<Rightarrow> r\<lparr>race_runs := (race_runs r)(w \<mapsto> Picked now None)\<rparr>
   | Some (Scanning now (i # ids)) \<Rightarrow>
       if waits lk r w then r
       else if lk = NoLocking then r\<lparr>race_runs := (race_runs r)(w \<mapsto> Picked now (Some i))\<rparr>
       else if locked_by_other r w i then r\<lparr>race_runs := (race_runs r)(w \<mapsto> Scanning now ids)\<rparr>
       else r\<lparr>race_locks := (race_locks r)(i \<mapsto> w), race_runs := (race_runs r)(w \<mapsto>
         (if job_status (pg_db (race_pg r)) i = Some OGPJobQueued then Picked now (Some i) else Scanning now ids))\<rparr>
   | _ \<Rightarrow> r)"

text \<open>The end of a statement, whether it commits or not.\<close>

definition release :: "nat \<Rightarrow> race \<Rightarrow> race" where
  "release w r = r\<lparr>race_locks := (\<lambda>i. if race_locks r i = Some w then None else race_locks r i), race_runs := (race_runs r)(w := None)\<rparr>"

text \<open>The update joins the row by its id, commits, and its row is scanned, unless the call fails before its
  effect or the reply is lost.\<close>

definition claim_finish :: "pg_outcome \<Rightarrow> nat \<Rightarrow> race \<Rightarrow> race" where
  "claim_finish outcome w r = (case race_runs r w of
     Some (Picked now None) \<Rightarrow> release w r
   | Some (Picked now (Some i)) \<Rightarrow>
       if waits NoLocking r w then r
       else (case (outcome, claim_row i now [] (pg_db (race_pg r))) of
           (Refused _, _) \<Rightarrow> release w r
         | (_, Inl _) \<Rightarrow> release w r
         | (_, Inr (row, db')) \<Rightarrow>
             (release w r)\<lparr>race_pg := pg_db_update (\<lambda>_. db') (race_pg r),
               race_log := race_log r @ (if outcome = Served \<and> row \<noteq> None then [Handed w i] else [])\<rparr>)
   | _ \<Rightarrow> r)"

text \<open>Another statement takes the tables from \<open>race_pg r\<close> to \<open>s\<close>; it may leave job \<open>i\<close> queued.\<close>

definition other_statement :: "string \<Rightarrow> pg \<Rightarrow> race \<Rightarrow> race" where
  "other_statement i s r = r\<lparr>race_pg := s, race_log := race_log r @
     (if job_status (pg_db (race_pg r)) i \<noteq> Some OGPJobQueued \<and> job_status (pg_db s) i = Some OGPJobQueued then [Opened i] else [])\<rparr>"

text \<open>
  One step of any session. The statements that write a job wait while its row is locked; \<open>Enqueue\<close>
  inserts a row or does nothing; whatever else runs leaves the jobs alone.
\<close>

inductive race_step :: "row_locking \<Rightarrow> pg_driver \<Rightarrow> race \<Rightarrow> race \<Rightarrow> bool" for lk drv where
  Begin: "race_step lk drv r (claim_begin w r)"
| Visit: "race_step lk drv r (claim_visit lk w r)"
| Finish: "race_step lk drv r (claim_finish outcome w r)"
| Cancel: "race_step lk drv r (release w r)"
| Enqueue: "run_state (PgJobs_Enqueue drv i h u p k) (race_pg r) = (x, s) \<Longrightarrow> race_step lk drv r (other_statement (bpchar 26 i) s r)"
| MarkDone: "race_locks r (bpchar 26 i) = None \<Longrightarrow> run_state (PgJobs_MarkDone drv i) (race_pg r) = (x, s) \<Longrightarrow>
    race_step lk drv r (other_statement (bpchar 26 i) s r)"
| MarkFailed: "race_locks r (bpchar 26 i) = None \<Longrightarrow> run_state (PgJobs_MarkFailed drv i reason b) (race_pg r) = (x, s) \<Longrightarrow>
    race_step lk drv r (other_statement (bpchar 26 i) s r)"
| Elsewhere: "t_ogp_jobs (pg_db s) = t_ogp_jobs (pg_db (race_pg r)) \<Longrightarrow> schema_ok (pg_db s) \<Longrightarrow> race_step lk drv r (r\<lparr>race_pg := s\<rparr>)"

text \<open>A log in which every job that is handed out is open: it is in \<open>Q\<close> or was opened, and was not handed out
  since.\<close>

fun exclusive :: "string set \<Rightarrow> claim_event list \<Rightarrow> bool" where
  "exclusive Q [] \<longleftrightarrow> True"
| "exclusive Q (Handed w i # es) \<longleftrightarrow> i \<in> Q \<and> exclusive (Q - {i}) es"
| "exclusive Q (Opened i # es) \<longleftrightarrow> exclusive (insert i Q) es"

fun open_jobs :: "string set \<Rightarrow> claim_event list \<Rightarrow> string set" where
  "open_jobs Q [] = Q"
| "open_jobs Q (Handed w i # es) = open_jobs (Q - {i}) es"
| "open_jobs Q (Opened i # es) = open_jobs (insert i Q) es"

lemma race_extend:
  assumes "(race_step lk drv)\<^sup>*\<^sup>* s r"
  shows "(race_step lk drv)\<^sup>*\<^sup>* s (claim_begin w r)" "(race_step lk drv)\<^sup>*\<^sup>* s (claim_visit lk w r)"
    "(race_step lk drv)\<^sup>*\<^sup>* s (claim_finish outcome w r)"
  using assms by (blast intro: rtranclp.rtrancl_into_rtrancl race_step.intros)+

section \<open>The invariant of a race\<close>

lemma log_snoc [simp]:
  "exclusive Q (es @ [Handed w i]) \<longleftrightarrow> exclusive Q es \<and> i \<in> open_jobs Q es" "exclusive Q (es @ [Opened i]) \<longleftrightarrow> exclusive Q es"
  "open_jobs Q (es @ [Handed w i]) = open_jobs Q es - {i}" "open_jobs Q (es @ [Opened i]) = insert i (open_jobs Q es)"
  by (induction Q es rule: exclusive.induct) auto

text \<open>A job handed out twice was opened in between.\<close>

lemma exclusive_between:
  assumes "exclusive Q (Handed v i # ys @ Handed w i # zs)" shows "Opened i \<in> set ys"
proof -
  have "i \<notin> Q \<Longrightarrow> exclusive Q (ys @ Handed w i # zs) \<Longrightarrow> Opened i \<in> set ys" for Q
    by (induction Q ys rule: exclusive.induct) auto
  then show ?thesis using assms by auto
qed

lemma exclusive_later: "exclusive Q (xs @ ys) \<Longrightarrow> exclusive (open_jobs Q xs) ys"
  by (induction Q xs rule: exclusive.induct) auto

text \<open>A job that is picked is queued and locked by the session that picked it.\<close>

definition race_inv :: "string set \<Rightarrow> race \<Rightarrow> bool" where
  "race_inv Q r \<longleftrightarrow>
     schema_ok (pg_db (race_pg r)) \<and> exclusive Q (race_log r) \<and>
     (\<forall>i. job_status (pg_db (race_pg r)) i = Some OGPJobQueued \<longrightarrow> i \<in> open_jobs Q (race_log r)) \<and>
     (\<forall>w now ids. race_runs r w = Some (Scanning now ids) \<longrightarrow> (\<forall>i\<in>set ids. bpchar 26 i = i)) \<and>
     (\<forall>w now i. race_runs r w = Some (Picked now (Some i)) \<longrightarrow>
        race_locks r i = Some w \<and> job_status (pg_db (race_pg r)) i = Some OGPJobQueued \<and> bpchar 26 i = i)"

lemma race_inv_start:
  "schema_ok (pg_db s) \<Longrightarrow> race_inv {i. job_status (pg_db s) i = Some OGPJobQueued} (race_start s)"
  by (simp add: race_inv_def race_start_def)

lemma queued_ids_keys: "schema_ok db \<Longrightarrow> i \<in> set (queued_ids ord db) \<Longrightarrow> bpchar 26 i = i"
  using rows_okD [OF schema_parts(20)]
  by (fastforce simp: queued_ids_def rows_of_def job_row_ok_def simp flip: mem_entries)

lemma claim_row_status:
  assumes "schema_ok db" and "bpchar 26 i = i" and "job_status db i \<noteq> None" and "claim_row i now ord db = Inr (x, d)"
  shows "schema_ok d \<and> x \<noteq> None \<and> job_status d = (job_status db)(i \<mapsto> OGPJobRunning)"
  using assms keeps_claim_row [of i] unfolding sql_keeps_def
  by (auto simp: claim_row_def update_ogp_jobs_def update_row_def job_status_def fun_eq_iff)

text \<open>What the other statements leave alone.\<close>

definition only_job :: "string \<Rightarrow> (string \<Rightarrow> OGPJobStatus option) \<Rightarrow> pg_tables \<Rightarrow> bool" where
  "only_job i f db \<longleftrightarrow> schema_ok db \<and> (\<forall>k. k \<noteq> i \<longrightarrow> job_status db k = f k)"

lemma sql_only_job:
  assumes "\<And>now r. Job_ID (g now r) = Job_ID r"
  shows "sql_keeps (only_job (bpchar 26 i) f) (\<lambda>now. update_ogp_jobs i (g now) c now)"
proof (rule sql_keepsI)
  fix now ord db x d assume db: "only_job (bpchar 26 i) f db" and q: "update_ogp_jobs i (g now) c now ord db = Inr (x, d)"
  have "schema_ok d" using keeps_update_jobs [of g i c, OF assms] db q unfolding sql_keeps_def only_job_def by blast
  moreover have "job_status d k = job_status db k" if "k \<noteq> bpchar 26 i" for k
    using q that by (auto simp: job_status_def update_ogp_jobs_def update_row_def split: option.splits)
  ultimately show "only_job (bpchar 26 i) f d" using db by (simp add: only_job_def)
qed

lemma marks_only_job:
  "keeps (only_job (bpchar 26 i) f) (PgJobs_MarkDone drv i)" "keeps (only_job (bpchar 26 i) f) (PgJobs_MarkFailed drv i reason b)"
  unfolding PgJobs_MarkDone_def PgJobs_MarkFailed_def by ((intro keeps_rules sql_only_job; simp)+)

definition jobs_stay :: "string \<Rightarrow> (string \<Rightarrow> OGPJobStatus option) \<Rightarrow> pg_tables \<Rightarrow> bool" where
  "jobs_stay i f db \<longleftrightarrow> only_job i f db \<and> (f i \<noteq> None \<longrightarrow> job_status db i = f i)"

lemma enqueue_stays: "keeps (jobs_stay (bpchar 26 i) f) (PgJobs_Enqueue drv i h u p k)"
proof -
  have "sql_keeps (jobs_stay (bpchar 26 (Job_ID (job_row j))) f) (insert_ogp_jobs j)" for j
  proof (rule sql_keepsI)
    fix now ord db x d assume db: "jobs_stay (bpchar 26 (Job_ID (job_row j))) f db" and q: "insert_ogp_jobs j now ord db = Inr (x, d)"
    have "schema_ok d" using keeps_insert_jobs [of j] db q unfolding sql_keeps_def jobs_stay_def only_job_def by blast
    moreover have "k \<noteq> bpchar 26 (Job_ID (job_row j)) \<or> job_status db k \<noteq> None \<Longrightarrow> job_status d k = job_status db k" for k
      using q by (auto simp: job_status_def insert_ogp_jobs_def Let_def dom_def split: option.splits if_splits)
    ultimately show "jobs_stay (bpchar 26 (Job_ID (job_row j))) f d" using db by (auto simp: jobs_stay_def only_job_def)
  qed
  from this [of "\<lparr>job_row = \<lparr>Job_ID = i, Job_URLHash = h, Job_URL = u, Job_PostID = [], Job_Position = k,
      Job_EnqueuedAt = zero_time, Job_StartedAt = None, Job_FinishedAt = None, Job_Status = OGPJobQueued,
      Job_Attempts = 0, Job_LastError = []\<rparr>, job_post_id = Some p\<rparr>"]
  show ?thesis unfolding PgJobs_Enqueue_def by (intro keeps_rules) simp
qed

section \<open>Every step keeps it\<close>

lemma inv_begin: assumes "race_inv Q r" shows "race_inv Q (claim_begin w r)"
proof -
  have "schema_ok (pg_db (race_pg r))" using assms by (simp add: race_inv_def)
  then show ?thesis
    using assms queued_ids_keys unfolding race_inv_def
    by (auto simp: claim_begin_def run_simps)
qed

lemma inv_visit:
  assumes "race_inv Q r" shows "race_inv Q (claim_visit ForUpdateSkipLocked w r)"
proof (cases "race_runs r w")
  case (Some run)
  show ?thesis
  proof (cases run)
    case (Scanning now ids)
    then show ?thesis
    proof (cases ids)
      case (Cons i rest)
      have "\<forall>v n. race_runs r v = Some (Picked n (Some i)) \<longrightarrow> v = w" if "\<not> locked_by_other r w i"
        using assms that by (auto simp: race_inv_def locked_by_other_def split: option.splits)
      then show ?thesis
        using assms Some Scanning Cons
        by (auto simp: race_inv_def claim_visit_def waits_def locked_by_other_def split: option.splits if_splits)
    qed (use assms Some in \<open>auto simp: race_inv_def claim_visit_def\<close>)
  qed (use assms Some in \<open>simp add: claim_visit_def\<close>)
qed (use assms in \<open>simp add: claim_visit_def\<close>)

lemma inv_release: assumes "race_inv Q r" shows "race_inv Q (release w r)"
  using assms by (auto simp: race_inv_def release_def split: if_splits)

lemma inv_finish:
  assumes "race_inv Q r" shows "race_inv Q (claim_finish outcome w r)"
proof (cases "\<exists>now i. race_runs r w = Some (Picked now (Some i))")
  case True
  then obtain now i where run: "race_runs r w = Some (Picked now (Some i))" by blast
  have picked: "race_locks r i = Some w" "job_status (pg_db (race_pg r)) i = Some OGPJobQueued" "bpchar 26 i = i"
    using assms run by (auto simp: race_inv_def)
  have others: "race_runs r v = Some (Picked n (Some j)) \<Longrightarrow> v \<noteq> w \<Longrightarrow> j \<noteq> i \<and> race_locks r j = Some v \<and>
      job_status (pg_db (race_pg r)) j = Some OGPJobQueued \<and> bpchar 26 j = j" for v n j
    using assms picked(1) by (auto simp: race_inv_def)
  have ok: "schema_ok (pg_db (race_pg r))" using assms by (simp add: race_inv_def)
  have wait: "\<not> waits NoLocking r w" by (simp add: waits_def run locked_by_other_def picked(1))
  have commit: "race_inv Q ((release w r)\<lparr>race_pg := pg_db_update (\<lambda>_. d) (race_pg r),
      race_log := race_log r @ (if outcome = Served \<and> x \<noteq> None then [Handed w i] else [])\<rparr>)"
    if "claim_row i now [] (pg_db (race_pg r)) = Inr (x, d)" for x d
    using claim_row_status [OF ok picked(3) _ that] picked others assms
    by (auto simp: race_inv_def release_def split: if_splits)
  show ?thesis
    using wait run inv_release [OF assms, of w] commit
    by (auto simp: claim_finish_def split: pg_outcome.split sum.split prod.split)
qed (use assms inv_release [OF assms] in \<open>auto simp: claim_finish_def split: option.split claim_run.split\<close>)

text \<open>Another statement is harmless when it leaves the jobs alone that are picked.\<close>

lemma inv_other:
  assumes "race_inv Q r" and "only_job i (job_status (pg_db (race_pg r))) (pg_db s)"
    and "race_locks r i = None \<or> (job_status (pg_db (race_pg r)) i \<noteq> None \<longrightarrow> job_status (pg_db s) i = job_status (pg_db (race_pg r)) i)"
  shows "race_inv Q (other_statement i s r)"
proof -
  have "job_status (pg_db s) j = Some OGPJobQueued" if "race_runs r w = Some (Picked n (Some j))" for w n j
    using assms that by (cases "j = i") (auto simp: race_inv_def only_job_def)
  then show ?thesis
    using assms(1,2) unfolding race_inv_def other_statement_def only_job_def by auto metis+
qed

lemma inv_step: "race_step Claim_locking drv r r' \<Longrightarrow> race_inv Q r \<Longrightarrow> race_inv Q r'"
proof (induction rule: race_step.induct)
  case (Enqueue i h u p k r x s)
  have "jobs_stay (bpchar 26 i) (job_status (pg_db (race_pg r))) (pg_db (race_pg r))"
    using Enqueue.prems by (simp add: jobs_stay_def only_job_def race_inv_def)
  then have "jobs_stay (bpchar 26 i) (job_status (pg_db (race_pg r))) (pg_db s)"
    using enqueue_stays Enqueue.hyps unfolding keeps_def by (metis snd_conv)
  then show ?case using inv_other [OF Enqueue.prems] by (auto simp: jobs_stay_def)
next
  case (MarkDone r i x s)
  have "only_job (bpchar 26 i) (job_status (pg_db (race_pg r))) (pg_db (race_pg r))"
    using MarkDone.prems by (simp add: only_job_def race_inv_def)
  then have "only_job (bpchar 26 i) (job_status (pg_db (race_pg r))) (pg_db s)"
    using marks_only_job(1) MarkDone.hyps(2) unfolding keeps_def by (metis snd_conv)
  then show ?case using inv_other [OF MarkDone.prems] MarkDone.hyps(1) by blast
next
  case (MarkFailed r i reason b x s)
  have "only_job (bpchar 26 i) (job_status (pg_db (race_pg r))) (pg_db (race_pg r))"
    using MarkFailed.prems by (simp add: only_job_def race_inv_def)
  then have "only_job (bpchar 26 i) (job_status (pg_db (race_pg r))) (pg_db s)"
    using marks_only_job(2) MarkFailed.hyps(2) unfolding keeps_def by (metis snd_conv)
  then show ?case using inv_other [OF MarkFailed.prems] MarkFailed.hyps(1) by blast
next
  case (Elsewhere s r)
  then have "job_status (pg_db s) = job_status (pg_db (race_pg r))" by (simp add: job_status_def fun_eq_iff)
  then show ?case using Elsewhere by (auto simp: race_inv_def)
qed (simp_all add: Claim_locking_def inv_begin inv_visit inv_finish inv_release)

lemma inv_steps: "(race_step Claim_locking drv)\<^sup>*\<^sup>* r r' \<Longrightarrow> race_inv Q r \<Longrightarrow> race_inv Q r'"
  by (induction rule: rtranclp_induct) (auto intro: inv_step)

section \<open>Exclusive claims\<close>

text \<open>C17. A job is claimed by one worker, however many claim at the same time: for every interleaving of the
  claims of any number of sessions, statement by statement and row by row, with the statements that
  enqueue and settle jobs and with whatever runs elsewhere, and for every behaviour of the driver, a
  job is handed out only when it is queued, and after it was handed out not again before it
  was put back into the queue; no two claims in progress have picked the same job, and none
  ever waits for another. This is what FOR UPDATE SKIP LOCKED is for.\<close>

theorem pg_claims_exclusive:
  assumes "schema_ok (pg_db s)" and "(race_step Claim_locking drv)\<^sup>*\<^sup>* (race_start s) r"
  shows "exclusive {i. job_status (pg_db s) i = Some OGPJobQueued} (race_log r) \<and>
    (\<forall>xs v i ys w zs. race_log r = xs @ Handed v i # ys @ Handed w i # zs \<longrightarrow> Opened i \<in> set ys) \<and>
    (\<forall>v w m n i. race_runs r v = Some (Picked m (Some i)) \<longrightarrow> race_runs r w = Some (Picked n (Some i)) \<longrightarrow> v = w) \<and>
    (\<forall>w. \<not> waits Claim_locking r w)"
proof -
  let ?Q = "{i. job_status (pg_db s) i = Some OGPJobQueued}"
  have inv: "race_inv ?Q r" using inv_steps [OF assms(2) race_inv_start [OF assms(1)]] .
  then have log: "exclusive ?Q (race_log r)" by (simp add: race_inv_def)
  have locks: "race_locks r i = Some w" if "race_runs r w = Some (Picked n (Some i))" for w n i
    using inv that by (simp add: race_inv_def)
  have "Opened i \<in> set ys" if "race_log r = xs @ Handed v i # ys @ Handed w i # zs" for xs v i ys w zs
    using exclusive_between exclusive_later [OF log [unfolded that]] by blast
  moreover have "v = w" if "race_runs r v = Some (Picked m (Some i))" "race_runs r w = Some (Picked n (Some i))" for v w m n i
    using locks [OF that(1)] locks [OF that(2)] by simp
  moreover have "\<not> waits Claim_locking r w" for w
    by (auto simp: waits_def Claim_locking_def locked_by_other_def dest: locks split: option.split claim_run.split list.split)
  ultimately show ?thesis using log by blast
qed

section \<open>A claim that is alone\<close>

text \<open>A claim that nothing interrupts does what the statement of \<open>Pg_OGP\<close> does at once.\<close>

theorem claim_alone:
  assumes "schema_ok (pg_db (race_pg r))" and "race_locks r = Map.empty" and "race_runs r w = None"
    and "claim_next (timestamptz (rt_clock (race_pg r) (rt_ticks (race_pg r)))) (rt_order (race_pg r) (rt_ranges (race_pg r))) (pg_db (race_pg r)) = Inr (x, d)"
    and "r' = claim_finish Served w (claim_visit Claim_locking w (claim_begin w r))"
  shows "pg_db (race_pg r') = d \<and> race_locks r' = Map.empty \<and> race_runs r' w = None \<and>
    race_log r' = race_log r @ (case x of Some j \<Rightarrow> [Handed w (Job_ID (job_row j))] | None \<Rightarrow> [])"
proof -
  let ?now = "timestamptz (rt_clock (race_pg r) (rt_ticks (race_pg r)))" and ?ord = "rt_order (race_pg r) (rt_ranges (race_pg r))"
  let ?db = "pg_db (race_pg r)"
  have "claim_begin w r = r\<lparr>race_pg := (race_pg r)\<lparr>rt_ticks := Suc (rt_ticks (race_pg r)), rt_ranges := Suc (rt_ranges (race_pg r))\<rparr>,
      race_runs := (race_runs r)(w \<mapsto> Scanning ?now (queued_ids ?ord ?db))\<rparr>"
    using assms(3) by (simp add: claim_begin_def run_simps)
  note begun = this
  show ?thesis
  proof (cases "queued_ids ?ord ?db")
    case Nil
    then have "next_queued ?ord ?db = []" by (simp add: queued_ids_def next_queued_def)
    then have "x = None" "d = ?db" using assms(4) by (simp_all add: claim_next_def)
    then show ?thesis
      using Nil assms(2) by (simp add: assms(5) begun claim_visit_def claim_finish_def release_def)
  next
    case (Cons i rest)
    then obtain j where j: "next_queued ?ord ?db = [j]" "Job_ID (job_row j) = i"
      by (auto simp: queued_ids_def next_queued_def Cons_eq_map_conv)
    have row: "claim_row i ?now ?ord ?db = Inr (x, d)" using assms(4) j by (simp add: claim_next_def)
    have key: "bpchar 26 i = i" using queued_ids_keys [OF assms(1)] Cons by (metis list.set_intros(1))
    have st: "job_status ?db i = Some OGPJobQueued"
    proof -
      obtain k where "get_map (t_ogp_jobs ?db) k = Some j" "Job_Status (job_row j) = OGPJobQueued"
        using mem_next_queued [of j ?ord ?db] j(1) by auto
      moreover from this have "k = i" using rows_okD [OF schema_parts(20) [OF assms(1)]] j(2) by (auto simp: job_row_ok_def)
      ultimately show ?thesis by (simp add: job_status_def)
    qed
    obtain y where y: "x = Some y" "Job_ID (job_row y) = i"
      using row key st j(2) rows_okD [OF schema_parts(20) [OF assms(1)]]
      by (auto simp: claim_row_def update_ogp_jobs_def update_row_def job_status_def job_row_ok_def split: option.splits)
    have "claim_row i ?now [] ?db = Inr (x, d)" using row by (simp add: claim_row_def update_ogp_jobs_def)
    then show ?thesis
      using Cons st y assms(2)
      by (simp add: assms(5) begun claim_visit_def waits_def Claim_locking_def locked_by_other_def claim_finish_def release_def fun_eq_iff)
  qed
qed

end
