(* ===== verification/Pg_Wiring.thy ===== *)
theory Pg_Wiring
  imports Pg_Store Config Mem_User Mem_Post Mem_Image Mem_Like Mem_Tag Mem_Badge Mem_Follow Mem_OGP
begin

text \<open>
  \<open>cmd/server/repos.go\<close>, \<open>postgres.New\<close> and \<open>pkg/db/pgx.go\<close>: the pool of connections, and the
  repositories the server runs on. Package \<open>pgxpool\<close> is the argument \<open>lib\<close>; the driver of a pool,
  through which its repositories talk, is \<open>drv_of\<close>.
\<close>

section \<open>The pool\<close>

record ('s, 'c, 'p) pgxpool =
  lib_ParseConfig :: "string \<Rightarrow> go_error + 'c"
  lib_MaxConns_update :: "int \<Rightarrow> 'c \<Rightarrow> 'c"
  lib_MinConns_update :: "int \<Rightarrow> 'c \<Rightarrow> 'c"
  lib_NewWithConfig :: "'c \<Rightarrow> ('s, 'p) fallible"
  lib_Ping :: "'p \<Rightarrow> duration \<Rightarrow> ('s, unit) fallible"
  lib_Close :: "'p \<Rightarrow> ('s, unit) state"

definition dberr :: "string \<Rightarrow> go_error \<Rightarrow> go_error" where
  "dberr op err = WrapError (''db: '' @ op @ '': '' @ Error err) err"

definition NewPool :: "('s, 'c, 'p) pgxpool \<Rightarrow> Config \<Rightarrow> ('s, 'p) fallible" where
  "NewPool lib cfg =
     (let dsn = DSN cfg in
      if dsn = [] then ret (Inl (Sentinel ''db: empty DSN''))
      else case lib_ParseConfig lib dsn of
        Inl err \<Rightarrow> ret (Inl (dberr ''parse DSN'' err))
      | Inr poolCfg \<Rightarrow>
          let poolCfg = (if MaxConns cfg > 0 then lib_MaxConns_update lib (MaxConns cfg) poolCfg else poolCfg);
              poolCfg = (if MinConns cfg > 0 then lib_MinConns_update lib (MinConns cfg) poolCfg else poolCfg)
          in bind_or (lib_NewWithConfig lib poolCfg) (dberr ''create pool'') (\<lambda>pool. do {
               r \<leftarrow> lib_Ping lib pool (5 * Second);
               case r of
                 Inl err \<Rightarrow> do { _ \<leftarrow> lib_Close lib pool; ret (Inl (dberr ''ping'' err)) }
               | Inr _ \<Rightarrow> ret (Inr pool)
             }))"

definition Ping :: "('s, 'c, 'p) pgxpool \<Rightarrow> 'p \<Rightarrow> ('s, unit) fallible" where
  "Ping lib pool = lib_Ping lib pool (2 * Second)"

section \<open>The set of repositories\<close>

record 's repoSet =
  repo_Users :: "'s UserRepository"
  repo_Posts :: "'s PostRepository"
  repo_Likes :: "'s LikeRepository"
  repo_Follows :: "'s FollowRepository"
  repo_Tags :: "'s TagRepository"
  repo_Badges :: "'s BadgeRepository"
  repo_Images :: "'s ImageRepository"
  repo_OGPCache :: "'s OGPCacheRepository"
  repo_OGPJobs :: "'s OGPJobQueue"

text \<open>\<open>postgres.New\<close>; the struct keeps the pool beside the repositories.\<close>

record 'p Store =
  store_repos :: "pg repoSet"
  store_pool :: 'p

definition postgres_New :: "('p \<Rightarrow> pg_driver) \<Rightarrow> 'p \<Rightarrow> 'p Store" where
  "postgres_New drv_of pool = (let drv = drv_of pool in
     \<lparr>store_repos = \<lparr>repo_Users = PgUserRepository drv, repo_Posts = PgPostRepository drv, repo_Likes = PgLikeRepository drv,
        repo_Follows = PgFollowRepository drv, repo_Tags = PgTagRepository drv, repo_Badges = PgBadgeRepository drv,
        repo_Images = PgImageRepository drv, repo_OGPCache = PgOGPCacheRepository drv, repo_OGPJobs = PgOGPJobQueue drv\<rparr>,
      store_pool = pool\<rparr>)"

definition inmemory_repos :: "mem repoSet" where
  "inmemory_repos =
     \<lparr>repo_Users = NewUserRepository, repo_Posts = NewPostRepository, repo_Likes = NewLikeRepository,
      repo_Follows = NewFollowRepository, repo_Tags = NewTagRepository, repo_Badges = NewBadgeRepository,
      repo_Images = NewImageRepository, repo_OGPCache = NewOGPCacheRepository, repo_OGPJobs = NewOGPJobQueue\<rparr>"

text \<open>The two backends keep their rows in states of different types, so the set says which it is; the
  pool is what the cleanup function closes.\<close>

datatype 'p backend = OnPostgres "'p Store" | InMemory "mem repoSet"

definition newRepositorySet :: "('s, 'c, 'p) pgxpool \<Rightarrow> ('p \<Rightarrow> pg_driver) \<Rightarrow> Config \<Rightarrow> ('s, 'p backend) fallible" where
  "newRepositorySet lib drv_of cfg =
     (if RepoBackend cfg = ''postgres'' then
        bind_or (NewPool lib cfg) (\<lambda>err. WrapError (''init postgres pool: '' @ Error err) err)
          (\<lambda>pool. ret (Inr (OnPostgres (postgres_New drv_of pool))))
      else if RepoBackend cfg = ''inmemory'' then ret (Inr (InMemory inmemory_repos))
      else ret (Inl (Sentinel (''unknown repository backend: '' @ quoted (RepoBackend cfg)))))"

definition cleanup :: "('s, 'c, 'p) pgxpool \<Rightarrow> 'p backend \<Rightarrow> ('s, unit) state" where
  "cleanup lib b = (case b of OnPostgres store \<Rightarrow> lib_Close lib (store_pool store) | InMemory _ \<Rightarrow> ret ())"

section \<open>Starting up\<close>

text \<open>What is relied on of the pool library: a pool that is made is open and new, a failure makes none,
  a ping leaves pools alone, and closing closes.\<close>

definition pool_laws :: "('s, 'c, 'p) pgxpool \<Rightarrow> ('s \<Rightarrow> 'p set) \<Rightarrow> bool" where
  "pool_laws lib pools \<longleftrightarrow>
     (\<forall>c s r t. run_state (lib_NewWithConfig lib c) s = (r, t) \<longrightarrow>
        (case r of Inl _ \<Rightarrow> pools t = pools s | Inr p \<Rightarrow> p \<notin> pools s \<and> pools t = insert p (pools s))) \<and>
     (\<forall>p d s. pools (snd (run_state (lib_Ping lib p d) s)) = pools s) \<and>
     (\<forall>p s. pools (snd (run_state (lib_Close lib p) s)) = pools s - {p})"

lemma NewPool_pools:
  assumes laws: "pool_laws lib pools" and run: "run_state (NewPool lib cfg) s = (r, t)"
  shows "case r of Inl _ \<Rightarrow> pools t = pools s
    | Inr p \<Rightarrow> p \<notin> pools s \<and> pools t = insert p (pools s) \<and> (\<exists>u. run_state (lib_Ping lib p (5 * Second)) u = (Inr (), t))"
proof -
  note new = laws [unfolded pool_laws_def, THEN conjunct1, rule_format]
  note ping = laws [unfolded pool_laws_def, THEN conjunct2, THEN conjunct1, rule_format]
  note close = laws [unfolded pool_laws_def, THEN conjunct2, THEN conjunct2, rule_format]
  have made: "case r of Inl _ \<Rightarrow> pools t = pools s
      | Inr p \<Rightarrow> p \<notin> pools s \<and> pools t = insert p (pools s) \<and> (\<exists>u. run_state (lib_Ping lib p (5 * Second)) u = (Inr (), t))"
    if "run_state (bind_or (lib_NewWithConfig lib pc) (dberr ''create pool'') (\<lambda>pool. do {
               r \<leftarrow> lib_Ping lib pool (5 * Second);
               case r of
                 Inl err \<Rightarrow> do { _ \<leftarrow> lib_Close lib pool; ret (Inl (dberr ''ping'' err)) }
               | Inr _ \<Rightarrow> ret (Inr pool)
             })) s = (r, t)" for pc
  proof -
    obtain q u where q: "run_state (lib_NewWithConfig lib pc) s = (q, u)" by fastforce
    show ?thesis
    proof (cases q)
      case (Inl e)
      then show ?thesis using that q new [OF q] by (auto simp: run_simps)
    next
      case (Inr p)
      obtain g v where g: "run_state (lib_Ping lib p (5 * Second)) u = (g, v)" by fastforce
      have "pools v = insert p (pools s)" "p \<notin> pools s" using new [OF q] ping [of p "5 * Second" u] g Inr by simp_all
      then show ?thesis
        using that q g Inr close [of p v] by (cases g) (auto simp: run_simps split: prod.splits)
    qed
  qed
  have "(\<exists>e. NewPool lib cfg = ret (Inl e)) \<or> (\<exists>pc. NewPool lib cfg = bind_or (lib_NewWithConfig lib pc) (dberr ''create pool'') (\<lambda>pool. do {
               r \<leftarrow> lib_Ping lib pool (5 * Second);
               case r of
                 Inl err \<Rightarrow> do { _ \<leftarrow> lib_Close lib pool; ret (Inl (dberr ''ping'' err)) }
               | Inr _ \<Rightarrow> ret (Inr pool)
             }))"
    unfolding NewPool_def Let_def by (cases "lib_ParseConfig lib (DSN cfg)") auto
  then show ?thesis
  proof (elim disjE exE)
    fix e assume "NewPool lib cfg = ret (Inl e)"
    then show ?thesis using run by auto
  qed (rule made, use run in simp)
qed

text \<open>Starting up: the server gets the in-memory repositories exactly when the
  configuration selects them, and the PostgreSQL ones only on a new pool that answered a ping;
  a failure leaves no pool open, and the cleanup function closes the one that was opened.\<close>

theorem startup_backend:
  assumes "pool_laws lib pools" and "run_state (newRepositorySet lib drv_of cfg) s = (r, t)"
  shows "(RepoBackend cfg = ''inmemory'' \<longrightarrow> r = Inr (InMemory inmemory_repos) \<and> t = s) \<and>
    (RepoBackend cfg \<noteq> ''inmemory'' \<longrightarrow> (case r of
       Inl _ \<Rightarrow> pools t = pools s
     | Inr b \<Rightarrow> \<exists>p u. b = OnPostgres (postgres_New drv_of p) \<and> p \<notin> pools s \<and> pools t = insert p (pools s) \<and>
         run_state (lib_Ping lib p (5 * Second)) u = (Inr (), t) \<and> pools (snd (run_state (cleanup lib b) t)) = pools s))"
proof (cases "RepoBackend cfg = ''postgres''")
  case True
  obtain q u where q: "run_state (NewPool lib cfg) s = (q, u)" by fastforce
  have close: "pools (snd (run_state (lib_Close lib p) v)) = pools v - {p}" for p v
    using assms(1) by (simp add: pool_laws_def)
  show ?thesis
    using NewPool_pools [OF assms(1) q] assms(2) True q
    by (cases q) (auto simp: newRepositorySet_def run_simps cleanup_def postgres_New_def Let_def close)
next
  case False
  then show ?thesis using assms(2) by (auto simp: newRepositorySet_def RepoBackend_def)
qed

end
