(* ===== verification/Pg_Samples.thy ===== *)
theory Pg_Samples
  imports Pg_Atomic Pg_Social Pg_Paging Pg_Race Pg_Wiring Samples
begin

text \<open>
  Concrete states of the PostgreSQL backend, reached from the migrated schema through a driver that serves
  every call, at which the properties of the backend are evaluated.
\<close>

definition served :: pg_driver where
  "served = (\<lambda>_. Served)"

lemma served_ok: "always_served served" "sql_ok served"
  by (simp_all add: served_def always_served_def sql_ok_def)

text \<open>The clock ticks in microseconds, the resolution of the columns.\<close>

definition sample_pg :: pg where
  "sample_pg = \<lparr>rt_clock = (\<lambda>n. 1000 * (1 + int n)), rt_ulid = sample_ulid, rt_order = (\<lambda>_. []), rt_ticks = 0, rt_ids = 0,
     rt_ranges = 0, pg_db = migrated 0, pg_calls = 0\<rparr>"

definition sample_row :: Post where
  "sample_row = new_post sample_post alice sample_request None"

text \<open>Two users, a post of the first, and two jobs for links in it.\<close>

definition sample_fill :: "(pg, unit) state" where
  "sample_fill = do {
     _ \<leftarrow> PgUser_Upsert served (zero_user alice 1000);
     _ \<leftarrow> PgUser_Upsert served (zero_user bob 2000);
     _ \<leftarrow> PgPost_Create served sample_row [] [];
     _ \<leftarrow> PgJobs_Enqueue served (sample_ulid 1) ''hash'' ''http://a'' sample_post 0;
     ret ()
   }"

definition sample_filled :: pg where
  "sample_filled = snd (run_state sample_fill sample_pg)"

lemma keeps_sample_fill: "keeps schema_ok sample_fill"
  unfolding sample_fill_def method_defs by (intro keeps_rules schema_rules)

lemma sample_filled_ok: "schema_ok (pg_db sample_filled)"
  using keeps_sample_fill schema_migrated [of 0]
  unfolding keeps_def sample_filled_def by (metis (no_types, lifting) pg.select_convs(1) sample_pg_def)

lemma sample_filled_facts:
  "map_option fst (map_option (\<lambda>u. (User_Sub u, ())) (get_map (t_users (pg_db sample_filled)) bob)) = Some bob"
  "map_option Post_Content (get_map (t_posts (pg_db sample_filled)) sample_post) = Some ''hello''"
  "map_option (\<lambda>j. Job_Status (job_row j)) (get_map (t_ogp_jobs (pg_db sample_filled)) (sample_ulid 1)) = Some OGPJobQueued"
  "map fst (entries (t_ogp_jobs (pg_db sample_filled))) = [sample_ulid 1]"
  by code_simp+


section \<open>Reachable states\<close>

theorem pg_reachable_schema_witness:
  "\<exists>t. (pg_call served)\<^sup>*\<^sup>* sample_pg t \<and> get_map (t_users (pg_db t)) bob \<noteq> None \<and>
     schema_ok (pg_db t) \<and> card {i. (sample_post, i) \<in> keys (t_post_images (pg_db t))} \<le> 4"
proof -
  let ?run = "run_state (users_Upsert (PgUserRepository served) (zero_user bob 2000)) sample_pg"
  have "pg_call served sample_pg (snd ?run)" by (rule pg_call.users_Upsert) (rule prod.collapse [symmetric])
  then have r: "(pg_call served)\<^sup>*\<^sup>* sample_pg (snd ?run)" by blast
  have "pg_db sample_pg = migrated 0" by (simp add: sample_pg_def)
  moreover have "get_map (t_users (pg_db (snd ?run))) bob \<noteq> None" by code_simp
  ultimately show ?thesis using r pg_reachable_schema [OF r] by blast
qed

section \<open>Use cases\<close>

lemma counted_entries:
  assumes "list_all (\<lambda>(i, p). 0 \<le> Post_LikesCount p \<and> 0 \<le> Post_RepliesCount p \<and> pred_option pg_key (Post_ParentPostID p)) (entries (t_posts d))"
    and "list_all (\<lambda>(i, u). 0 \<le> User_FollowersCount u \<and> 0 \<le> User_FollowingCount u \<and> User_FollowingCount u \<le> max_int64) (entries (t_users d))"
  shows "counted (tables_view d)"
  using assms unfolding counted_def list_all_iff tables_view_def
  by (force simp: mem_entries unstamped_post_def unstamped_user_def)

lemma sample_filled_counted: "counted (pg_view sample_filled)"
  unfolding pg_view_def by (rule counted_entries; code_simp)

lemma sample_keys: "pg_key alice" "pg_key bob" "pg_key sample_post"
  by code_simp+


theorem pg_follows_refine_witness:
  "\<not> isl (fst (run_state (Follow_Execute (PgUserRepository served) (PgFollowRepository served) None bob alice) sample_filled)) \<and>
   pg_view (snd (run_state (Follow_Execute (PgUserRepository served) (PgFollowRepository served) None bob alice) sample_filled)) =
     abs_follow bob alice (pg_view sample_filled)"
proof -
  have "\<not> isl (fst (run_state (Follow_Execute (PgUserRepository served) (PgFollowRepository served) None bob alice) sample_filled))"
    by code_simp
  then show ?thesis
    using pg_follows_refine [OF served_ok(2) quiet_hook_None sample_keys(2,1) sample_filled_counted, THEN conjunct1]
    by (auto simp: wp_def split: prod.splits sum.splits)
qed

section \<open>Pages\<close>

definition two_posts :: "(string, Post) go_map" where
  "two_posts = set_map (sample_ulid 1) (sample_row\<lparr>Post_ID := sample_ulid 1\<rparr>) (set_map (sample_ulid 0) sample_row DAList.empty)"

definition one_follow :: "(string \<times> string, Follow) go_map" where
  "one_follow = set_map (bob, alice) \<lparr>Follow_FollowerSub = bob, Follow_FolloweeSub = alice, Follow_CreatedAt = 3000\<rparr> DAList.empty"

lemma sample_ULIDs: "IsULID alice" "IsULID bob" "IsULID (sample_ulid 0)" "IsULID (sample_ulid 1)"
  by code_simp+

theorem pg_pages_agree_witness:
  "fst (run_state (PgPost_List served None None 1) (sample_pg\<lparr>pg_db := (migrated 0)\<lparr>t_posts := two_posts\<rparr>\<rparr>)) =
     Inr ([sample_row\<lparr>Post_ID := sample_ulid 1\<rparr>], sample_ulid 1) \<and>
   fst (run_state (PostRepository_List None None 1) (sample_env\<lparr>m_posts := two_posts\<rparr>)) =
     Inr ([sample_row\<lparr>Post_ID := sample_ulid 1\<rparr>], sample_ulid 1)"
proof -
  have "same_posts (sample_env\<lparr>m_posts := two_posts\<rparr>) (sample_pg\<lparr>pg_db := (migrated 0)\<lparr>t_posts := two_posts\<rparr>\<rparr>)"
    using sample_ULIDs by (auto simp: same_posts_def two_posts_def sample_row_def new_post_def intro!: posts_keyedI split: if_splits)
  from pg_pages_agree [OF served_ok(1) this, of 1 None None "[]" alice]
  have "fst (run_state (PgPost_List served None None 1) (sample_pg\<lparr>pg_db := (migrated 0)\<lparr>t_posts := two_posts\<rparr>\<rparr>)) =
      fst (run_state (PostRepository_List None None 1) (sample_env\<lparr>m_posts := two_posts\<rparr>))"
    using sample_ULIDs by (simp add: max_int64_def plain_cursor_def)
  moreover have "fst (run_state (PostRepository_List None None 1) (sample_env\<lparr>m_posts := two_posts\<rparr>)) =
     Inr ([sample_row\<lparr>Post_ID := sample_ulid 1\<rparr>], sample_ulid 1)" by code_simp
  ultimately show ?thesis by simp
qed

theorem pg_follow_pages_agree_witness:
  "\<exists>page. fst (run_state (PgFollow_ListFollowers served alice None 1) (sample_pg\<lparr>pg_db := (migrated 0)\<lparr>t_follows := one_follow\<rparr>\<rparr>)) = Inr page \<and>
     fst (run_state (FollowRepository_ListFollowers alice None 1) (sample_env\<lparr>m_follows := one_follow\<rparr>)) = Inr page \<and> map Follow_FollowerSub (fst page) = [bob]"
proof -
  have "same_follows (sample_env\<lparr>m_follows := one_follow\<rparr>) (sample_pg\<lparr>pg_db := (migrated 0)\<lparr>t_follows := one_follow\<rparr>\<rparr>)"
  proof -
    have "follows_keyed (sample_env\<lparr>m_follows := one_follow\<rparr>)" unfolding follows_keyed_def by code_simp
    then show ?thesis using sample_ULIDs by (auto simp: same_follows_def one_follow_def split: if_splits)
  qed
  moreover have "follow_cursor_ok None" by (simp add: follow_cursor_ok_def DecodeFollow_def)
  ultimately have "fst (run_state (PgFollow_ListFollowers served alice None 1) (sample_pg\<lparr>pg_db := (migrated 0)\<lparr>t_follows := one_follow\<rparr>\<rparr>)) =
      fst (run_state (FollowRepository_ListFollowers alice None 1) (sample_env\<lparr>m_follows := one_follow\<rparr>))"
    using pg_follow_pages_agree [OF served_ok(1), of _ _ 1 None alice] sample_ULIDs(1) by (simp add: max_int64_def)
  moreover have "(case fst (run_state (FollowRepository_ListFollowers alice None 1) (sample_env\<lparr>m_follows := one_follow\<rparr>)) of
      Inr page \<Rightarrow> map Follow_FollowerSub (fst page) = [bob] | Inl _ \<Rightarrow> False)" by code_simp
  ultimately show ?thesis by (auto split: sum.splits)
qed

section \<open>Jobs\<close>

text \<open>Two claims on one job. The second one visits the row while the first has it locked.\<close>

definition two_claims :: "row_locking \<Rightarrow> race" where
  "two_claims lk = fold (\<lambda>f. f) [claim_begin 0, claim_begin 1, claim_visit lk 0, claim_visit lk 1, claim_visit lk 1,
     claim_finish Served 0, claim_finish Served 1] (race_start sample_filled)"

lemma two_claims_steps: "(race_step lk drv)\<^sup>*\<^sup>* (race_start sample_filled) (two_claims lk)"
  unfolding two_claims_def fold.simps comp_def id_apply
  by (rule race_extend rtranclp.rtrancl_refl)+

theorem pg_claims_exclusive_witness:
  "race_log (two_claims Claim_locking) = [Handed 0 (sample_ulid 1)] \<and>
   job_status (pg_db sample_filled) (sample_ulid 1) = Some OGPJobQueued"
proof -
  have "race_log (two_claims Claim_locking) = [Handed 0 (sample_ulid 1)]" by code_simp
  then show ?thesis using pg_claims_exclusive [OF sample_filled_ok two_claims_steps] by simp
qed

text \<open>Without the locking clause the same schedule hands the job to both.\<close>

lemma unlocked_claims_collide: "race_log (two_claims NoLocking) = [Handed 0 (sample_ulid 1), Handed 1 (sample_ulid 1)]"
  by code_simp

lemma x600_too_long: "\<not> fits_varchar 512 (replicate 600 (CHR ''x''))"
proof -
  have "RuneCountInString (replicate 600 (CHR ''x'')) = 600" by (subst RuneCount_ascii) auto
  then have "drop (length (replicate 600 (CHR ''x'')) - excess 512 (replicate 600 (CHR ''x''))) (replicate 600 (CHR ''x'')) = replicate 88 (CHR ''x'')"
    by (simp add: excess_def)
  then show ?thesis unfolding fits_varchar_def by (simp del: drop_replicate)
qed

definition sample_claimed :: pg where
  "sample_claimed = snd (run_state (PgJobs_Claim served ''a'') sample_filled)"

definition sample_job :: OGPJob where
  "sample_job = \<lparr>Job_ID = sample_ulid 1, Job_URLHash = ''hash'', Job_URL = ''http://a'', Job_PostID = sample_post, Job_Position = 0,
     Job_EnqueuedAt = 0, Job_StartedAt = None, Job_FinishedAt = None, Job_Status = OGPJobRunning, Job_Attempts = 1, Job_LastError = []\<rparr>"

definition failing_lib :: "pg OGPLib" where
  "failing_lib = \<lparr>ogp_ExtractURLs = (\<lambda>_. []), ogp_Normalize = Inr, ogp_Hash = id,
     ogp_Fetch = (\<lambda>_. ret (Inl (Sentinel (replicate 600 (CHR ''x'')))))\<rparr>"

theorem pg_long_error_strands_job_witness:
  "job_status (pg_db (snd (run_state (process (pg_worker served (PgPostRepository served) failing_lib) sample_job) sample_claimed)))
     (sample_ulid 1) = Some OGPJobRunning"
proof -
  have "schema_ok (pg_db sample_claimed)"
    using run_Claim [OF sample_filled_ok prod.collapse [symmetric]] unfolding sample_claimed_def by blast
  moreover have "job_status (pg_db sample_claimed) (Job_ID sample_job) = Some OGPJobRunning" by code_simp
  moreover have "run_state (ogp_Fetch failing_lib (Job_URL sample_job)) sample_claimed =
      (Inl (Sentinel (replicate 600 (CHR ''x''))), sample_claimed)" by (simp add: failing_lib_def)
  moreover have "\<not> fits_varchar 512 (Error (Sentinel (replicate 600 (CHR ''x''))))" by (simp add: x600_too_long)
  ultimately show ?thesis
    using pg_long_error_strands_job [of sample_claimed sample_job failing_lib _ sample_claimed _ served] by (simp add: sample_job_def)
qed

definition long_preview :: OGPPreview where
  "long_preview = \<lparr>Prev_URLHash = ''hash'', Prev_URL = ''http://a'', Prev_Title = replicate 600 (CHR ''x''), Prev_Description = [],
     Prev_ImageURL = [], Prev_SiteName = [], Prev_CanonicalURL = [], Prev_FetchedAt = 0, Prev_ExpiresAt = 0,
     Prev_Status = OGPStatusOK, Prev_ErrorReason = []\<rparr>"

definition long_lib :: "pg OGPLib" where
  "long_lib = failing_lib\<lparr>ogp_Fetch := (\<lambda>_. ret (Inr long_preview))\<rparr>"

theorem pg_oversized_preview_loops_witness:
  "lone_job (sample_ulid 1) 5 (pg_db (snd (run_state (worker_cycles 5 (pg_worker served (PgPostRepository served) long_lib)) sample_filled)))"
proof -
  have jobs: "map fst (entries (t_ogp_jobs (pg_db sample_filled))) = [sample_ulid 1]"
    "map_option (\<lambda>j. (Job_Status (job_row j), Job_Attempts (job_row j))) (get_map (t_ogp_jobs (pg_db sample_filled)) (sample_ulid 1)) =
       Some (OGPJobQueued, 0)" by code_simp+
  have "k = sample_ulid 1" if queued: "job_status (pg_db sample_filled) k = Some OGPJobQueued" for k
  proof -
    obtain j where "get_map (t_ogp_jobs (pg_db sample_filled)) k = Some j" using queued by (auto simp: job_status_def)
    then have "(k, j) \<in> set (entries (t_ogp_jobs (pg_db sample_filled)))" by (rule mem_entries [THEN iffD2])
    then have "fst (k, j) \<in> set (map fst (entries (t_ogp_jobs (pg_db sample_filled))))" unfolding set_map by (rule imageI)
    then show ?thesis unfolding jobs by simp
  qed
  then have "lone_job (sample_ulid 1) 0 (pg_db sample_filled)"
    using sample_filled_ok jobs(2) by (auto simp: lone_job_def)
  moreover have "\<not> fits_varchar 512 (Prev_Title long_preview)" "Prev_URLHash long_preview \<noteq> []"
    by (simp_all add: long_preview_def x600_too_long)
  ultimately show ?thesis
    using pg_oversized_preview_loops [OF served_ok(1), of "sample_ulid 1" 0 sample_filled 5 long_lib] by (simp add: long_lib_def)
qed

section \<open>Starting up\<close>

text \<open>A library that has at most one pool.\<close>

definition one_pool :: "(bool, unit, unit) pgxpool" where
  "one_pool = \<lparr>lib_ParseConfig = (\<lambda>_. Inr ()), lib_MaxConns_update = (\<lambda>_ c. c), lib_MinConns_update = (\<lambda>_ c. c),
     lib_NewWithConfig = (\<lambda>_. State (\<lambda>opened. if opened then (Inl ErrUpstream, True) else (Inr (), True))),
     lib_Ping = (\<lambda>_ _. ret (Inr ())), lib_Close = (\<lambda>_. State (\<lambda>_. ((), False)))\<rparr>"

theorem startup_backend_witness:
  "\<exists>cfg b. Load (\<lambda>_. None) sample_environment = Inr cfg \<and> run_state (newRepositorySet one_pool (\<lambda>_. served) cfg) False = (Inr b, True) \<and>
     b = OnPostgres (postgres_New (\<lambda>_. served) ()) \<and> \<not> snd (run_state (cleanup one_pool b) True)"
proof -
  obtain cfg where cfg: "Load (\<lambda>_. None) sample_environment = Inr cfg" "RepoBackend cfg = ''postgres''" "DSN cfg \<noteq> []"
  proof -
    have "(case Load (\<lambda>_. None) sample_environment of Inr cfg \<Rightarrow> RepoBackend cfg = ''postgres'' \<and> DSN cfg \<noteq> [] | Inl _ \<Rightarrow> False)"
      by code_simp
    then show thesis using that by (auto split: sum.splits)
  qed
  have laws: "pool_laws one_pool (\<lambda>opened. if opened then {()} else {})"
    by (auto simp: pool_laws_def one_pool_def split: if_splits)
  have run: "run_state (newRepositorySet one_pool (\<lambda>_. served) cfg) False = (Inr (OnPostgres (postgres_New (\<lambda>_. served) ())), True)"
    by (simp add: newRepositorySet_def NewPool_def Let_def one_pool_def cfg(2,3) run_simps)
  show ?thesis
    using startup_backend [OF laws run] cfg run by (auto split: if_splits)
qed

end
