(* ===== verification/Spec2Isabelle.thy ===== *)
theory Spec2Isabelle
  imports Samples Wiring Pg_Samples
begin

text \<open>
  Verification of the Fuju SNS backend, a Go server for a small social network: users mirrored from
  the identity provider AuthCore, posts with images, tags and link previews, likes, follows, badges,
  timelines, and a feed of events to an emotion model. The program has four layers, which the
  theories follow from the bottom up.

  \<^item> Language and library. \<open>Go_Runtime\<close> is the prelude: machine integers with wrap-around, byte strings,
    \<open>sort.Slice\<close>, maps with an unspecified order of iteration, the clock and the generator of ids as part of
    the state of a run. \<open>Go_Errors\<close> has \<open>pkg/errors\<close>, \<open>internal/domain/errors.go\<close>, wrapping and quoting;
    \<open>Go_Time\<close> calendar dates and RFC 3339; \<open>Go_Net\<close> percent escapes, base64 and requests to other services.
  \<^item> Domain and storage. \<open>Domain\<close> has the entities and their validation (\<open>internal/domain\<close>), \<open>Repository\<close> the
    interfaces of \<open>internal/repository\<close> as records of operations, \<open>Sharedcursor\<close> and \<open>Cursor_Paging\<close> the cursors,
    and \<open>Mem_Store\<close>, \<open>Mem_User\<close>, \<open>Mem_Post\<close>, \<open>Mem_Like\<close>, \<open>Mem_Follow\<close>, \<open>Mem_Tag\<close>, \<open>Mem_Badge\<close>, \<open>Mem_Image\<close>, \<open>Mem_OGP\<close>
    the in-memory backend, every method of \<open>inmemory.go\<close> as one function on the record \<open>mem\<close>.
  \<^item> PostgreSQL. \<open>Pg_Schema\<close> has the tables of \<open>db/migrations\<close> with the types of their columns and their
    constraints, a statement being a function on the tables; \<open>Pg_Driver\<close> the calls of pgx, each of which is
    served, refused, or served with its reply lost (\<open>loses\<close>), and \<open>WithTx\<close> (\<open>pkg/db/tx.go\<close>). \<open>Pg_User\<close>, \<open>Pg_Post\<close>, \<open>Pg_Like\<close>,
    \<open>Pg_Follow\<close>, \<open>Pg_Tag\<close>, \<open>Pg_Badge\<close>, \<open>Pg_Image\<close>, \<open>Pg_OGP\<close> are the methods of \<open>internal/repository/postgres\<close>, one function
    each, with the SQL text as the statement it denotes; \<open>Pg_Wiring\<close> the pool (\<open>pkg/db/pgx.go\<close>) and the choice of the
    backend (\<open>cmd/server/repos.go\<close>).
  \<^item> Use cases. \<open>UC_Post\<close>, \<open>UC_Follow\<close> (with the timelines), \<open>UC_User\<close>, \<open>UC_Badge\<close>, \<open>UC_Image\<close>, \<open>UC_OGP\<close> (\<open>internal/usecase\<close>), each use
    case a function of the repositories it is built with; \<open>UC_Fuju\<close> the dispatcher with its goroutine, as a
    step relation, and the commit hooks; \<open>Tag_Extractor\<close> the hashtags.
  \<^item> The edges. \<open>Http\<close> has contexts, cookies and middleware, \<open>Handlers\<close> the endpoints; \<open>Authcore\<close> the AuthCore
    client with its token cache and, as a step relation, the introspection cache; \<open>Fujumodel\<close> the client of
    the emotion model; \<open>OGP_URL\<close> and \<open>OGP_Fetch\<close> the extraction, normalization and fetching of links
    (\<open>pkg/ogp\<close>); \<open>Config\<close> the configuration, the object store, and \<open>url.Parse\<close> with its error paths, as far as the DSN
    of the database meets it. \<open>Server\<close> has the routes and the worker as steps of a run on \<open>mem\<close>; the image routes are
    mounted only when there is an object store. \<open>Wiring\<close> builds such a server from a configuration the way
    \<open>cmd/server/main.go\<close> does, without the object store when R2 is not configured.

  A function that returns \<open>(T, error)\<close> returns a sum, \<open>Inl\<close> being the error; a call that works on state is a
  state monad, so that sequences of calls read as in the source. Records and constants keep the names
  of the source, prefixed where HOL needs it.

  What is proved.
  \<^item> \<open>Social_Contracts\<close> states, as locales, what the use cases rely on of the repositories, and refines each
    writing use case to an update of abstract tables (\<open>abs_like\<close>, \<open>abs_follow\<close>, ...); \<open>Atomicity\<close> adds that
    a failing call writes nothing when the calls behind the first write succeed; \<open>Counters\<close> that the abstract
    updates keep the denormalised counters exact. \<open>Mem_Social\<close> interprets the locales on the in-memory
    backend. \<open>Server_Invariant\<close>, \<open>Server_Relations\<close>, \<open>Server_Security\<close>, \<open>Server_Store\<close> carry invariants and
    relations through all routes, middleware and the worker; \<open>Server_Reads\<close> shows the pages of every
    list, \<open>Server_Worker\<close> the progress of the worker. The properties of these parts are below.
  \<^item> \<open>Pg_Integrity\<close> and \<open>Pg_Store\<close>: the schema is an invariant of every sequence of calls, whatever the driver does.
    \<open>Pg_Atomic\<close>: creating a post is all or nothing. \<open>Pg_Social\<close> interprets the locales of \<open>Social_Contracts\<close> on
    PostgreSQL, so the use cases implement the same abstract operations on both backends; \<open>Pg_Paging\<close> shows
    that both return the same pages. \<open>Pg_Jobs\<close>: two ways in which a job never ends. \<open>Pg_Race\<close>: claims of
    several workers whose transactions overlap, as a step relation with the row locks and the waits of READ COMMITTED;
    the \<open>FOR UPDATE SKIP LOCKED\<close> of \<open>Claim\<close> makes them exclusive, and without it two workers take one job (\<open>Pg_Samples\<close>).
  \<^item> \<open>UC_Fuju\<close>: under every interleaving items are conserved, batches bounded and the shutdown delivers.
    \<open>Authcore_Cache\<close>: the same for the introspection cache, its answers are AuthCore's and fresh, and
    concurrent calls collapse; the classification of AuthCore's answers; the freshness of service tokens.
    \<open>Fujumodel\<close>: no text of a post can break out of its JSON string. \<open>OGP_URL\<close>: what is extracted, and that
    normalization is canonical. \<open>OGP_Fetch\<close>: exactly which addresses are blocked, that a fetch connects to
    no other and makes at most five requests, and what a page can put into a preview.
    \<open>Tag_Extractor\<close>: bounds on the tags. \<open>Config\<close>: a configuration that loads is safe, the DSN reads back as its
    settings exactly when the port is one \<open>url.Parse\<close> takes, an object key stays in its prefix. \<open>Wiring\<close>: the server
    that main builds, with R2 or without, meets the hypotheses of the server theorems, its session endpoint sets a
    Secure cookie exactly for the tokens AuthCore accepts, and its hooks fire once per row.

  Bounds. Loops of the source are structural recursion, or functions with a termination proof. \<open>walk_pages\<close>,
  a client that follows cursors, has as fuel one more page than there are rows, which the theorems show
  to be enough. \<open>client_Do\<close> recurses on the number of requests \<open>CheckRedirect\<close> admits (\<open>MaxRedirects\<close>). Three
  cycles per job are enough for the worker because \<open>MaxAttempts\<close> is three. The counter theorems ask for runs shorter
  than an int64 counts, and that the ids drawn in a run are distinct ULIDs, as \<open>ulid.Make\<close> documents.

  Hypotheses on what is outside. \<open>detached\<close> says of a server, and \<open>remote\<close> of the externals of main, that calls
  over the network do not write the store. URL and HTML parsing, IDNA, the Unicode tables, SHA-256,
  \<open>time.ParseDuration\<close>, DNS, connections and the S3 client are arguments. So are the driver of PostgreSQL, a function
  from the number of a call to its outcome, and the pool library. \<open>sql_ok\<close> says of a driver that the error of a call
  that was refused or whose reply was lost is not \<open>pgx.ErrNoRows\<close>, which pgx reserves for a result without rows; replies may
  be lost. \<open>always_served\<close> says that no call fails. Theorems that do not ask for them hold for every driver. The order in which the server visits rows is arbitrary.

  Not modelled. PostgreSQL itself: a statement is one atomic step on the tables at the isolation of a
  sequence of statements, so conflicts between concurrent transactions are not, other than those of overlapping claims
  in \<open>Pg_Race\<close>; text is compared by bytes (collation
  C), and of the errors of the server only the constraints and the ranges of the columns are, others being outcomes of
  the driver. \<open>pkg/logger\<close> and log lines, the contract tests of \<open>testsupport\<close>, the health endpoint, the recovery,
  logging and timeout middleware, JSON decoding of request bodies (a handler gets its outcome),
  request timeouts other than as errors of the call that times out, and the signals and
  shutdown of the process. Requests to one in-memory repository are atomic, as its mutex makes them; a run is
  a sequence of whole requests and worker cycles.
\<close>

section \<open>The social graph\<close>

text \<open>C1. The denormalised counters are exact in every state the server reaches: after any sequence
  of requests and worker cycles, the likes count of a live post is the number of users who like
  it, its replies count the number of its live replies, and the two counts of a user are the
  numbers of rows of the follow table on either side.\<close>

theorem counters_exact_run:
  assumes "outside srv" and "t = run_events srv es (init_mem clock ulid ord)"
    and "int (length es) \<le> max_int64" and "unique_ids (rt_ids t) ulid"
  shows "(\<forall>i p. get_map (m_posts t) i = Some p \<and> Post_DeletedAt p = None \<longrightarrow>
      Post_LikesCount p = int (card {u. (u, i) \<in> like_rows t}) \<and>
      Post_RepliesCount p = int (card {j. \<exists>q. get_map (m_posts t) j = Some q \<and> Post_DeletedAt q = None \<and> Post_ParentPostID q = Some i})) \<and>
    (\<forall>sub u. get_map (m_users t) sub = Some u \<longrightarrow>
      User_FollowersCount u = int (card {a. (a, sub) \<in> follow_rows t}) \<and>
      User_FollowingCount u = int (card {b. (sub, b) \<in> follow_rows t}))"
proof -
  have "counters_exact (mem_view t)" using run_from_init [OF assms] by (simp add: sys_ok_def)
  then have exact: "likes_exact (mem_view t)" "replies_exact (mem_view t)" "follows_exact (mem_view t)"
    by (simp_all add: counters_exact_def)
  have replies: "replies_of (mem_view t) i =
      {j. \<exists>q. get_map (m_posts t) j = Some q \<and> Post_DeletedAt q = None \<and> Post_ParentPostID q = Some i}" for i
    by (auto simp: replies_of_def live_def split: option.splits if_splits)
  show ?thesis
    using likes_exactD [OF exact(1)] replies_exactD [OF exact(2)] follows_exactD [OF exact(3)]
    by (simp add: live_def likers_of_def replies followers_of_def following_of_def)
qed

theorem counters_exact_run_witness:
  "map_option User_FollowersCount (get_map (m_users sample_end) alice) = Some (int (card {a. (a, alice) \<in> follow_rows sample_end}))"
proof -
  have "sample_end = run_events sample_server sample_events (init_mem (\<lambda>n. 1 + int n) sample_ulid (\<lambda>_. []))"
    by (simp only: sample_end_def sample_env_def)
  note run = counters_exact_run [OF sample_outside this]
  have "int (length sample_events) \<le> max_int64" by (simp add: sample_events_def max_int64_def)
  note rows = run [OF this, unfolded sample_run(2), OF sample_unique]
  obtain u where "get_map (m_users sample_end) alice = Some u"
    using sample_run(1) by (cases "get_map (m_users sample_end) alice") auto
  then show ?thesis using rows by auto
qed

text \<open>C2. Creating a post on the in-memory backend is atomic and implements its specification: on
  success the request was valid, every image belongs to the author, a reply has a live parent
  and inherits its thread root, the stored post carries a freshly drawn id, and the tables change
  by that row and the reply counter of its parent; on an error the tables are unchanged.\<close>

theorem create_post_correct:
  assumes "quiet_commit mem_view hook"
    and "run_state (CreatePost_Execute \<lparr>create_postRepo = NewPostRepository, create_imageRepo = NewImageRepository,
      create_tagRepo = NewTagRepository, create_tagExtractor = (\<lambda>c. ret (Inr (tags c))), create_onCommit = hook\<rparr> u req) s = (r, t)"
  shows "case r of
     Inr d \<Rightarrow> (\<exists>rq root. req = Some rq \<and> allowed (mem_view s) (image_owner s) u rq root \<and>
        stored_new s t u rq root (Detail_Post d) \<and> mem_view t = abs_create (Detail_Post d) (mem_view s))
   | Inl e \<Rightarrow> mem_view t = mem_view s"
  using wpD [OF mem_writer_atomic.create_atomic [OF assms(1)] assms(2)] .

theorem create_post_correct_witness:
  "\<exists>d. fst (run_state (CreatePost_Execute sample_writer ''alice'' (Some sample_request)) sample_env) = Inr d \<and>
     mem_view (snd (run_state (CreatePost_Execute sample_writer ''alice'' (Some sample_request)) sample_env)) =
       abs_create (Detail_Post d) (mem_view sample_env) \<and> Post_Content (Detail_Post d) = ''hello''"
proof -
  let ?run = "run_state (CreatePost_Execute sample_writer ''alice'' (Some sample_request)) sample_env"
  have "\<not> isl (fst ?run)" by code_simp
  moreover have "run_state (CreatePost_Execute sample_writer ''alice'' (Some sample_request)) sample_env = (fst ?run, snd ?run)" by simp
  ultimately show ?thesis
    using create_post_correct [OF quiet_commit_None, of "\<lambda>_. []" "''alice''" "Some sample_request" sample_env "fst ?run" "snd ?run"]
    by (auto simp: sample_writer_def stored_new_def new_post_def sample_request_def split: sum.splits)
qed

text \<open>C3. Liking a post on the in-memory backend implements its specification and is atomic: on success
  the post is live and the tables change by the like row and one count of the post, or not at all
  when the user liked it before; on an error they are unchanged.\<close>

theorem like_correct:
  "quiet_hook mem_view hook \<Longrightarrow>
   wp (LikePost_Execute NewPostRepository NewLikeRepository hook u p) (\<lambda>r t. case r of
     Inr _ \<Rightarrow> u \<noteq> [] \<and> p \<noteq> [] \<and> live (get_map (m_posts s)) p \<noteq> None \<and> mem_view t = abs_like u p (mem_view s)
   | Inl e \<Rightarrow> mem_view t = mem_view s) s"
  by (rule mem_atomic(1) [unfolded mem_view_fields])

theorem like_correct_witness:
  "mem_view (snd (run_state (LikePost_Execute NewPostRepository NewLikeRepository None bob sample_post) sample_posted)) =
     abs_like bob sample_post (mem_view sample_posted)"
proof -
  let ?run = "run_state (LikePost_Execute NewPostRepository NewLikeRepository None bob sample_post) sample_posted"
  have "fst ?run = Inr ()" by code_simp
  then show ?thesis
    using like_correct [OF quiet_hook_None, of bob sample_post sample_posted] by (simp add: wp_def split: prod.splits)
qed

text \<open>C4. Taking a like back removes the row and one count of the post where there was a row, and
  does nothing otherwise; on an error the tables are unchanged.\<close>

theorem unlike_correct:
  "wp (UnlikePost_Execute NewPostRepository NewLikeRepository u p) (\<lambda>r t. case r of
     Inr _ \<Rightarrow> u \<noteq> [] \<and> p \<noteq> [] \<and> mem_view t = abs_unlike u p (mem_view s)
   | Inl e \<Rightarrow> mem_view t = mem_view s) s"
  by (rule mem_atomic(2))

text \<open>C5. Only the author deletes a post: when the deletion succeeds the post was live and the
  caller its author, the row is marked and the parent of a reply loses one reply; any other call
  is an error that leaves the tables as they were.\<close>

theorem delete_post_correct:
  "wp (DeletePost_Execute NewPostRepository i sub) (\<lambda>r t. case r of
     Inr _ \<Rightarrow> (\<exists>p now. live (get_map (m_posts s)) i = Some p \<and> Post_UserID p = sub \<and> mem_view t = abs_delete i now (mem_view s))
   | Inl e \<Rightarrow> mem_view t = mem_view s) s"
  by (rule mem_atomic(3) [unfolded mem_view_fields])

text \<open>C6. Following implements its specification and is atomic: on success the target is a live user
  other than the caller, the follow row is in, both counts moved if it is new, and the reported
  follower count is the new one; on an error the tables are unchanged.\<close>

theorem follow_correct:
  "quiet_hook mem_view hook \<Longrightarrow>
   wp (Follow_Execute NewUserRepository NewFollowRepository hook a b) (\<lambda>r t. case r of
     Inr res \<Rightarrow> (\<exists>u. a \<noteq> [] \<and> b \<noteq> [] \<and> a \<noteq> b \<and> get_map (m_users s) b = Some u \<and> User_DeletedAt u = None \<and>
        mem_view t = abs_follow a b (mem_view s) \<and> Result_Following res \<and>
        Result_FollowersCount res = (if (a, b) \<in> follow_rows s then User_FollowersCount u else inc64 (User_FollowersCount u)))
   | Inl e \<Rightarrow> mem_view t = mem_view s) s"
  by (rule mem_atomic(4) [unfolded mem_view_fields])

theorem follow_correct_witness:
  "mem_view (snd (run_state (Follow_Execute NewUserRepository NewFollowRepository None alice bob) sample_end)) =
     abs_follow alice bob (mem_view sample_end)"
proof -
  let ?run = "run_state (Follow_Execute NewUserRepository NewFollowRepository None alice bob) sample_end"
  have "\<not> isl (fst ?run)" by code_simp
  then show ?thesis
    using follow_correct [OF quiet_hook_None, of alice bob sample_end] by (auto simp: wp_def split: prod.splits sum.splits)
qed

text \<open>C7. Unfollowing removes the row and moves both counts where there was a row, does nothing
  otherwise, and reports the follower count of the target after it; on an error the tables are
  unchanged.\<close>

theorem unfollow_correct:
  "wp (Unfollow_Execute NewUserRepository NewFollowRepository a b) (\<lambda>r t. case r of
     Inr res \<Rightarrow> a \<noteq> [] \<and> b \<noteq> [] \<and> a \<noteq> b \<and> mem_view t = abs_unfollow a b (mem_view s) \<and> \<not> Result_Following res \<and>
        Result_FollowersCount res = countOrZero (get_map (m_users t) b)
   | Inl e \<Rightarrow> mem_view t = mem_view s) s"
  by (rule mem_atomic(5) [unfolded mem_view_fields])

text \<open>C8. The use cases are not transactional: when the counter of a post cannot be written the like
  fails with a database error, the like row stays, and a retry succeeds without ever counting it.\<close>

theorem like_partial_failure:
  assumes "u \<noteq> []" and "p \<noteq> []" and "live (get_map (m_posts s)) p \<noteq> None" and "(u, p) \<notin> like_rows s"
  shows "wp (LikePost_Execute (NewPostRepository\<lparr>posts_IncrementLikesCount := \<lambda>_. ret (Inl err)\<rparr>) NewLikeRepository hook u p)
    (\<lambda>r t. r = Inl (DatabaseError ''failed to increment likes_count'' err) \<and>
       mem_view t = (mem_view s)\<lparr>db_likes := insert (u, p) (like_rows s)\<rparr> \<and>
       wp (LikePost_Execute NewPostRepository NewLikeRepository hook u p) (\<lambda>r' t'. r' = Inr () \<and> mem_view t' = mem_view t) t) s"
proof -
  note rules = wp_rules wp_reliable [OF writes_effect [OF mem_posts.post_Get [OF TrueI]]] wp_reliable [OF mem_likes.like_Create [OF TrueI TrueI]]
  have reliable: "reliable (posts_GetByID NewPostRepository p)" "reliable (likes_Create NewLikeRepository u p)"
    using mem_like_Create [of u p] by (auto simp: reliable_def NewPostRepository_def NewLikeRepository_def run_simps) blast
  show ?thesis
    using assms unfolding LikePost_Execute_def
    by (auto intro!: rules reliable simp: insert_absorb)
qed

theorem like_partial_failure_witness:
  "fst (run_state (LikePost_Execute (NewPostRepository\<lparr>posts_IncrementLikesCount := \<lambda>_. ret (Inl ErrUpstream)\<rparr>) NewLikeRepository
      None bob sample_post) sample_posted) = Inl (DatabaseError ''failed to increment likes_count'' ErrUpstream)"
  using like_partial_failure [OF sample_posted_facts(3,4,1,2), of ErrUpstream None] by (simp add: wp_def split: prod.splits)

section \<open>Who may do what\<close>

text \<open>C9. A request without a session (no token, or one AuthCore calls invalid) to any route that is
  not public is answered with 401, and leaves the store as it was. (The image routes are not there
  when there is no object store; such a request is then answered with 404, as any unknown path.)\<close>

theorem refused_without_session:
  assumes "detached srv" and "no_session srv r s" and "\<not> public_route rt"
  shows "wp (serve srv rt r) (\<lambda>c t. c = (if mounted srv rt then 401 else 404) \<and> (\<exists>i j k. t = s\<lparr>rt_ticks := i, rt_ids := j, rt_ranges := k\<rparr>)) s"
  by (rule wp_mono [OF refused_route [OF assms]]) (auto simp: drift_def)

theorem refused_without_session_witness:
  "fst (run_state (serve sample_server PostFollow (sample_http ''c'' ''sub'' alice)) sample_end) = 401"
proof -
  have "extractAuthToken (sample_http ''c'' ''sub'' alice) (srv_cookieName sample_server) = Some ''c''" by code_simp
  then have "no_session sample_server (sample_http ''c'' ''sub'' alice) sample_end"
    by (simp add: no_session_def sample_server_def sample_client_def ErrInvalidSession_def)
  then show ?thesis
    using refused_without_session [OF sample_detached, of "sample_http ''c'' ''sub'' alice" sample_end PostFollow]
    by (simp add: public_route_def mounted_def wp_def case_prod_beta)
qed

text \<open>C10. No run of the server makes an administrator: the administrators after it were
  administrators before, every badge that was granted meanwhile was granted by one of them, and
  with no administrator to start with the badge tables do not change.\<close>

theorem no_privilege_gain:
  assumes "detached srv" and "users_keyed (mem_view s)" and "t = run_events srv es s"
  shows "(\<forall>sub u. get_map (m_users t) sub = Some u \<and> User_IsAdmin u \<longrightarrow> (\<exists>u0. get_map (m_users s) sub = Some u0 \<and> User_IsAdmin u0)) \<and>
    (\<forall>k ub. get_map (m_userBadges t) k = Some ub \<and> get_map (m_userBadges s) k \<noteq> Some ub \<longrightarrow>
       (\<exists>u0. get_map (m_users s) (UB_GrantedBy ub) = Some u0 \<and> User_IsAdmin u0)) \<and>
    ((\<forall>sub u. get_map (m_users s) sub = Some u \<longrightarrow> \<not> User_IsAdmin u) \<longrightarrow>
       m_badges t = m_badges s \<and> m_badgeByKey t = m_badgeByKey s \<and> m_userBadges t = m_userBadges s)"
proof -
  have "guarded s t" using guarded_backend.run_along [OF assms(1), of s es] assms(3) by simp
  then show ?thesis using assms(2) unfolding guarded_def admins_def same_badges_def by blast
qed

theorem no_privilege_gain_witness:
  "m_userBadges sample_end = m_userBadges sample_env"
  using no_privilege_gain [OF sample_detached, of sample_env sample_end sample_events]
  by (simp add: sample_end_def users_keyed_def sample_env_def init_mem_def get_map_empty)

section \<open>Reading\<close>

text \<open>C20. The hydrator gives every post of a page exactly what lookups for this post alone would
  give: its live images, its tags by name, its live author, its previews, and for a viewer who
  is signed in whether they like it and follow its author; in every reachable state.\<close>

theorem hydrate_pointwise:
  assumes "detached srv" and "reachable srv s"
  shows "\<exists>n. run_state (Hydrate mem_hydrator posts viewer) s = (Inr (map (detail_of s viewer) posts), s\<lparr>rt_ranges := n\<rparr>)"
  using reachable_tidy [OF assms] by (intro run_Hydrate) (simp add: tidy_def)

theorem hydrate_pointwise_witness:
  "\<exists>p n. get_map (m_posts sample_posted) sample_post = Some p \<and>
     run_state (Hydrate mem_hydrator [p] (Some bob)) sample_posted = (Inr [detail_of sample_posted (Some bob) p], sample_posted\<lparr>rt_ranges := n\<rparr>) \<and>
     map_option User_Sub (Detail_Author (detail_of sample_posted (Some bob) p)) = Some alice \<and>
     \<not> Detail_LikedByViewer (detail_of sample_posted (Some bob) p)"
proof -
  obtain p where p: "get_map (m_posts sample_posted) sample_post = Some p" "Post_ID p = sample_post" "Post_UserID p = alice" by (rule sample_row)
  have "map_option (\<lambda>u. (User_Sub u, User_DeletedAt u)) (get_map (m_users sample_posted) alice) = Some (alice, None)" by code_simp
  moreover have "case get_map (m_likes sample_posted) bob of None \<Rightarrow> True | Some m \<Rightarrow> get_map m sample_post = None" by code_simp
  ultimately show ?thesis
    using hydrate_pointwise [OF sample_detached sample_reachable, of "[p]" "Some bob"] p
    by (auto simp: detail_of_def like_rows_def seen_by_def)
qed

text \<open>C21. A client that follows the cursors of the home timeline to the end, with any page size, sees
  every live top-level post of the caller and of the users the caller follows exactly once,
  newest id first, and every page but the last is full.\<close>

theorem home_timeline_complete:
  assumes "detached srv" and "reachable srv s" and "me \<noteq> []"
  shows "\<exists>pages m. run_state (walk_pages (Suc (card (dom (get_map (m_posts s)))))
      (\<lambda>c. HomeTimeline_Execute NewPostRepository NewFollowRepository mem_hydrator me c n) None) s = (Some pages, s\<lparr>rt_ranges := m\<rparr>) \<and>
    sorted_wrt (\<lambda>d e. Post_ID (Detail_Post d) > Post_ID (Detail_Post e)) (concat pages) \<and>
    Detail_Post ` set (concat pages) = {p. (\<exists>i. get_map (m_posts s) i = Some p) \<and> Post_DeletedAt p = None \<and>
       Post_ParentPostID p = None \<and> (Post_UserID p = me \<or> (me, Post_UserID p) \<in> follow_rows s)} \<and>
    (\<forall>p\<in>set (butlast pages). length p = nat (NormalizeLimit n))"
  by (rule walk_feed_complete [OF assms(1,2) home_lists [OF reachable_tidy [OF assms(1,2)] assms(3)] home_filter_def])

theorem home_timeline_complete_witness:
  "\<exists>pages m. run_state (walk_pages (Suc (card (dom (get_map (m_posts sample_posted)))))
      (\<lambda>c. HomeTimeline_Execute NewPostRepository NewFollowRepository mem_hydrator alice c 0) None) sample_posted =
        (Some pages, sample_posted\<lparr>rt_ranges := m\<rparr>) \<and> sample_post \<in> Post_ID ` Detail_Post ` set (concat pages)"
proof -
  obtain p where "get_map (m_posts sample_posted) sample_post = Some p" "Post_ID p = sample_post" "Post_UserID p = alice"
      "Post_ParentPostID p = None" "Post_DeletedAt p = None" by (rule sample_row)
  then have p: "sample_post \<in> Post_ID ` {p. (\<exists>i. get_map (m_posts sample_posted) i = Some p) \<and> Post_DeletedAt p = None \<and>
      Post_ParentPostID p = None \<and> (Post_UserID p = alice \<or> (alice, Post_UserID p) \<in> follow_rows sample_posted)}" by (auto intro!: image_eqI [of _ _ p])
  show ?thesis
    using home_timeline_complete [OF sample_detached sample_reachable sample_follows(4), of 0] p by metis
qed

text \<open>The same of the list of posts, of all or of one author: every live top-level post once.\<close>

theorem list_posts_complete:
  assumes "detached srv" and "reachable srv s"
  shows "\<exists>pages m. run_state (walk_pages (Suc (card (dom (get_map (m_posts s)))))
      (\<lambda>c. ListPosts_Execute NewPostRepository mem_hydrator author c n viewer) None) s = (Some pages, s\<lparr>rt_ranges := m\<rparr>) \<and>
    sorted_wrt (\<lambda>d e. Post_ID (Detail_Post d) > Post_ID (Detail_Post e)) (concat pages) \<and>
    Detail_Post ` set (concat pages) = {p. (\<exists>i. get_map (m_posts s) i = Some p) \<and> Post_DeletedAt p = None \<and>
       Post_ParentPostID p = None \<and> (author = None \<or> author = Some (Post_UserID p))} \<and>
    (\<forall>p\<in>set (butlast pages). length p = nat (NormalizeLimit n))"
  by (rule walk_feed_complete [OF assms post_lists(1) [OF reachable_tidy [OF assms]] filters(1)])

theorem list_posts_complete_witness:
  "\<exists>pages m. run_state (walk_pages (Suc (card (dom (get_map (m_posts sample_posted)))))
      (\<lambda>c. ListPosts_Execute NewPostRepository mem_hydrator (Some alice) c 0 None) None) sample_posted =
        (Some pages, sample_posted\<lparr>rt_ranges := m\<rparr>) \<and> sample_post \<in> Post_ID ` Detail_Post ` set (concat pages)"
proof -
  obtain p where "get_map (m_posts sample_posted) sample_post = Some p" "Post_ID p = sample_post" "Post_UserID p = alice"
      "Post_ParentPostID p = None" "Post_DeletedAt p = None" by (rule sample_row)
  then have p: "sample_post \<in> Post_ID ` {p. (\<exists>i. get_map (m_posts sample_posted) i = Some p) \<and> Post_DeletedAt p = None \<and>
      Post_ParentPostID p = None \<and> (Some alice = None \<or> Some alice = Some (Post_UserID p))}" by (auto intro!: image_eqI [of _ _ p])
  show ?thesis
    using list_posts_complete [OF sample_detached sample_reachable, of "Some alice" 0 None] p by metis
qed

text \<open>The same of the replies to a post: every live post whose parent it is, and no other;
  replies to its replies are not listed.\<close>

theorem list_replies_complete:
  assumes "detached srv" and "reachable srv s" and "i \<noteq> []"
  shows "\<exists>pages m. run_state (walk_pages (Suc (card (dom (get_map (m_posts s)))))
      (\<lambda>c. ListReplies_Execute NewPostRepository mem_hydrator i c n viewer) None) s = (Some pages, s\<lparr>rt_ranges := m\<rparr>) \<and>
    sorted_wrt (\<lambda>d e. Post_ID (Detail_Post d) > Post_ID (Detail_Post e)) (concat pages) \<and>
    Detail_Post ` set (concat pages) = {p. (\<exists>j. get_map (m_posts s) j = Some p) \<and> Post_DeletedAt p = None \<and> Post_ParentPostID p = Some i} \<and>
    (\<forall>p\<in>set (butlast pages). length p = nat (NormalizeLimit n))"
  by (rule walk_feed_complete [OF assms(1,2) post_lists(4) [OF reachable_tidy [OF assms(1,2)] assms(3)] filters(2)])

theorem list_replies_complete_witness:
  "\<exists>pages m. run_state (walk_pages (Suc (card (dom (get_map (m_posts sample_posted)))))
      (\<lambda>c. ListReplies_Execute NewPostRepository mem_hydrator sample_post c 0 None) None) sample_posted =
        (Some pages, sample_posted\<lparr>rt_ranges := m\<rparr>)"
  using list_replies_complete [OF sample_detached sample_reachable sample_posted_facts(4), of 0 None] by blast

text \<open>C22. A client that follows the cursors of a follower list to the end sees the live users among the
  followers, one for each row of the follow table, newest follow first; the years of the rows
  have four digits and their users non-empty names, as the cursor codec needs.\<close>

theorem followers_complete:
  assumes "detached srv" and "reachable srv s" and "sub \<noteq> []"
    and "\<forall>a f. get_map (m_follows s) (a, sub) = Some f \<longrightarrow> a \<noteq> [] \<and> four_digit_year (Follow_CreatedAt f)"
  shows "\<exists>pages t rows. run_state (walk_pages (Suc (card (follow_rows s)))
      (\<lambda>c. ListFollowers_Execute NewUserRepository NewFollowRepository sub c n) None) s = (Some pages, t) \<and>
    set rows = {f. \<exists>a. get_map (m_follows s) (a, sub) = Some f} \<and>
    sorted_wrt (\<lambda>f g. (Follow_CreatedAt f, Follow_FollowerSub f) > (Follow_CreatedAt g, Follow_FollowerSub g)) rows \<and>
    concat pages = [u. Some u \<leftarrow> map (\<lambda>f. live_user s (Follow_FollowerSub f)) rows]"
proof -
  have keyed: "follows_keyed s" using reachable_tidy [OF assms(1,2)] by (simp add: tidy_def)
  let ?rows = "follow_feed True sub s"
  have good: "\<forall>f\<in>set ?rows. four_digit_year (Follow_CreatedAt f) \<and> peerSub True f \<noteq> []"
    using assms(4) follows_keyedD [OF keyed] by (auto simp: mem_follow_feed [OF keyed] peerSub_def)
  obtain pages t where walk: "run_state (walk_pages (Suc (card (follow_rows s))) (\<lambda>c. followList True sub c n) None) s = (Some pages, t)"
      "concat pages = users_of_rows s True ?rows"
    using walk_followList [OF keyed assms(3) good] by blast
  have "set ?rows = {f. \<exists>a. get_map (m_follows s) (a, sub) = Some f}"
    by (auto simp: mem_follow_feed [OF keyed])
  moreover have "sorted_wrt (\<lambda>f g. (Follow_CreatedAt f, Follow_FollowerSub f) > (Follow_CreatedAt g, Follow_FollowerSub g)) ?rows"
    using sorted_follow_feed [OF keyed, of True sub] by (simp add: follow_key_def peerSub_def)
  ultimately show ?thesis
    using walk unfolding followList_def users_of_rows_def peerSub_def if_True by blast
qed

theorem followers_complete_witness:
  "\<exists>pages t. run_state (walk_pages (Suc (card (follow_rows sample_end)))
      (\<lambda>c. ListFollowers_Execute NewUserRepository NewFollowRepository alice c 0) None) sample_end = (Some pages, t) \<and>
     bob \<in> User_Sub ` set (concat pages)"
proof -
  obtain f where f: "get_map (m_follows sample_end) (bob, alice) = Some f" "Follow_FollowerSub f = bob"
    using sample_follows(2) by auto
  obtain u where u: "live_user sample_end bob = Some u" "User_Sub u = bob" using sample_follows(3) by auto
  obtain pages t rows where w: "run_state (walk_pages (Suc (card (follow_rows sample_end)))
      (\<lambda>c. ListFollowers_Execute NewUserRepository NewFollowRepository alice c 0) None) sample_end = (Some pages, t)"
    "set rows = {f. \<exists>a. get_map (m_follows sample_end) (a, alice) = Some f}"
    "concat pages = [u. Some u \<leftarrow> map (\<lambda>f. live_user sample_end (Follow_FollowerSub f)) rows]"
    using followers_complete [OF sample_detached sample_end_reachable sample_follows(4,1), of 0] by blast
  have "f \<in> set rows" using w(2) f(1) by auto
  then have "u \<in> set (concat pages)" unfolding w(3) using f(2) u(1) by force
  then have "bob \<in> User_Sub ` set (concat pages)" using u(2) by (metis image_eqI)
  then show ?thesis using w(1) by blast
qed

section \<open>Link previews\<close>

text \<open>In every reachable state a fetch job has been tried at most three times, and one that is
  queued fewer times than that.\<close>

theorem job_attempts_bounded:
  assumes "detached srv" and "reachable srv s" and "get_map (m_jobs s) i = Some j"
  shows "Job_ID j = i \<and> 0 \<le> Job_Attempts j \<and> Job_Attempts j \<le> 3 \<and> (Job_Status j = OGPJobQueued \<longrightarrow> Job_Attempts j < 3)"
  using tidy_jobD [OF reachable_tidy [OF assms(1,2)] assms(3)] by (simp add: MaxAttempts_def)

theorem job_attempts_bounded_witness:
  "\<exists>i j. get_map (m_jobs sample_posted) i = Some j \<and> Job_Attempts j < 3"
proof -
  obtain i j where "get_map (m_jobs sample_posted) i = Some j" "Job_Status j = OGPJobQueued" by (rule sample_job)
  then show ?thesis using job_attempts_bounded [OF sample_detached sample_reachable, of i j] by blast
qed

text \<open>C23. The queue runs empty: from a state with well-formed jobs and none being worked on, after
  three cycles of the worker per job every job is done or has failed, whatever the fetches return.\<close>

theorem worker_finishes:
  assumes "detached srv" and "jobs_ok s" and "none_running s" and "3 * card (dom (get_map (m_jobs s))) \<le> n"
    and "t = run_events srv (replicate n WorkerCycle) s"
  shows "dom (get_map (m_jobs t)) = dom (get_map (m_jobs s)) \<and>
    (\<forall>i j. get_map (m_jobs t) i = Some j \<longrightarrow> Job_Status j \<in> {OGPJobDone, OGPJobFailed} \<and> Job_Attempts j \<le> 3)"
  using worker_empties [OF assms(1-3) order_trans [OF work_left_bound [OF assms(2)] assms(4)]] assms(5)
  by (auto simp: finished_def MaxAttempts_def)

theorem worker_finishes_witness:
  "\<nexists>i j. get_map (m_jobs (run_events sample_server (replicate 3 WorkerCycle) sample_posted)) i = Some j \<and>
     Job_Status j \<notin> {OGPJobDone, OGPJobFailed}"
  using worker_finishes [OF sample_detached tidy_jobs [OF reachable_tidy [OF sample_detached sample_reachable]] sample_none_running(1), of 3]
    sample_none_running(2) by auto

section \<open>The store\<close>

text \<open>C24. In every reachable state the tables are well formed: posts, follows and jobs are stored under
  their own keys, the two indexes of tags and badges are exact inverses of their tables, and
  the link previews of a post are distinct and ordered by position.\<close>

theorem store_well_formed:
  assumes "detached srv" and "reachable srv s"
  shows "(\<forall>i p. get_map (m_posts s) i = Some p \<longrightarrow> Post_ID p = i) \<and>
    (\<forall>a b f. get_map (m_follows s) (a, b) = Some f \<longrightarrow> Follow_FollowerSub f = a \<and> Follow_FolloweeSub f = b) \<and>
    (\<forall>i j. get_map (m_jobs s) i = Some j \<longrightarrow> Job_ID j = i) \<and>
    (\<forall>n i. get_map (m_tagByName s) n = Some i \<longleftrightarrow> (\<exists>t. get_map (m_tags s) i = Some t \<and> Tag_ID t = i \<and> Tag_Name t = n)) \<and>
    (\<forall>k i. get_map (m_badgeByKey s) k = Some i \<longleftrightarrow> (\<exists>b. get_map (m_badges s) i = Some b \<and> Badge_ID b = i \<and> Badge_Key b = k)) \<and>
    (\<forall>i ls. get_map (postOGPs (m_links s)) i = Some ls \<longrightarrow> distinct (map link_URLHash ls) \<and> sorted_wrt position_less ls)"
proof -
  note tidy = reachable_tidy [OF assms]
  then have parts: "tags_ok s" "badges_ok s" "links_ok (m_links s)" "follows_keyed s" "posts_keyed s" "jobs_ok s"
    by (simp_all add: tidy_def)
  have "\<forall>n i. get_map (m_tagByName s) n = Some i \<longleftrightarrow> (\<exists>t. get_map (m_tags s) i = Some t \<and> Tag_ID t = i \<and> Tag_Name t = n)"
    using parts(1) unfolding tags_ok_def by metis
  moreover have "\<forall>k i. get_map (m_badgeByKey s) k = Some i \<longleftrightarrow> (\<exists>b. get_map (m_badges s) i = Some b \<and> Badge_ID b = i \<and> Badge_Key b = k)"
    using parts(2) unfolding badges_ok_def by metis
  moreover have "\<forall>i ls. get_map (postOGPs (m_links s)) i = Some ls \<longrightarrow> distinct (map link_URLHash ls) \<and> sorted_wrt position_less ls"
    using parts(3) by (fastforce simp: links_ok_def ogp_links_ok_def)
  ultimately show ?thesis
    using posts_keyedD [OF parts(5)] follows_keyedD [OF parts(4)] parts(6) by (simp add: jobs_ok_def)
qed

theorem store_well_formed_witness:
  "\<exists>p. get_map (m_posts sample_posted) sample_post = Some p \<and> Post_ID p = sample_post"
proof -
  obtain p where "get_map (m_posts sample_posted) sample_post = Some p" by (rule sample_row)
  then show ?thesis using store_well_formed [OF sample_detached sample_reachable] by blast
qed

text \<open>C25. A cursor of a follower list is decoded to the position it was made from, for every time in a
  year of four digits and every user, also one whose name contains the separator; no cursor is
  empty, so none is taken for the end of the list.\<close>

theorem cursor_round_trip:
  assumes "four_digit_year t" and "peer \<noteq> []"
  shows "DecodeFollow (Some (EncodeFollow t peer)) = Some (t, peer) \<and> EncodeFollow t peer \<noteq> []"
  using follow_cursor_round_trip [OF assms] by blast

theorem cursor_round_trip_witness: "DecodeFollow (Some (EncodeFollow 1 ''a|b'')) = Some (1, ''a|b'')"
  using cursor_round_trip [of 1 "''a|b''"] by (simp add: four_digit_year_def day_ns_def Hour_def Minute_def Second_def)

end
